(* ===== verification/Prelude.thy ===== *)
theory Prelude
  imports Main "HOL-Library.Word"
begin

text \<open>
  Shared vocabulary of the development: machine integers at their Rust width, byte strings,
  the three-way result of a Rust call (a value, an error, or a panic), checked and saturating
  arithmetic, panicking and fallible slicing, little-endian integers, and the interfaces
  (locales) that several components satisfy.
\<close>

unbundle bit_operations_syntax

named_theorems res_simps \<open>facts that take a chain of fallible calls apart\<close>

type_synonym u8 = "8 word"
type_synonym u16 = "16 word"
type_synonym u32 = "32 word"
type_synonym u64 = "64 word"
type_synonym u128 = "128 word"
type_synonym bytes = "u8 list"

text \<open>A \<^verbatim>\<open>[u8; 32]\<close> is a byte string; \<open>is_key\<close> says it has the array's length.\<close>

type_synonym key = "bytes"

text \<open>The type of \<^verbatim>\<open>Pubkey::find_program_address\<close>: seeds and program to address and bump.\<close>

type_synonym find_pda = "bytes list \<Rightarrow> key \<Rightarrow> key \<times> u8"

abbreviation is_key :: "key \<Rightarrow> bool" where
  "is_key k \<equiv> length k = 32"

section \<open>Results\<close>

text \<open>
  A Rust call returns \<open>Ok\<close>, returns \<open>Err\<close>, or panics. Keeping the panic as a value
  makes freedom from panics a statement that is proved rather than assumed.
\<close>

datatype ('e, 'a) res = Ok 'a | Err 'e | Panic

fun bind_res :: "('e, 'a) res \<Rightarrow> ('a \<Rightarrow> ('e, 'b) res) \<Rightarrow> ('e, 'b) res" where
  "bind_res (Ok a) f = f a"
| "bind_res (Err e) f = Err e"
| "bind_res Panic f = Panic"

fun map_err :: "('e \<Rightarrow> 'f) \<Rightarrow> ('e, 'a) res \<Rightarrow> ('f, 'a) res" where
  "map_err f (Ok a) = Ok a"
| "map_err f (Err e) = Err (f e)"
| "map_err f Panic = Panic"

definition ok_or :: "'e \<Rightarrow> 'a option \<Rightarrow> ('e, 'a) res" where
  "ok_or e x = (case x of None \<Rightarrow> Err e | Some a \<Rightarrow> Ok a)"

definition is_ok :: "('e, 'a) res \<Rightarrow> bool" where
  "is_ok r = (case r of Ok _ \<Rightarrow> True | _ \<Rightarrow> False)"

text \<open>\<^verbatim>\<open>iter().map(f).collect::<Result<Vec<_>, _>>()\<close>: the first failure wins.\<close>

fun collect_res :: "('a \<Rightarrow> ('e, 'b) res) \<Rightarrow> 'a list \<Rightarrow> ('e, 'b list) res" where
  "collect_res f [] = Ok []"
| "collect_res f (x # xs) = bind_res (f x) (\<lambda>y. bind_res (collect_res f xs) (\<lambda>ys. Ok (y # ys)))"

lemma bind_res_cong [fundef_cong]:
  "m = m' \<Longrightarrow> (\<And>a. m' = Ok a \<Longrightarrow> f a = f' a) \<Longrightarrow> bind_res m f = bind_res m' f'"
  by (cases m') auto

lemma bind_res_eq_Ok [res_simps]:
  "bind_res m f = Ok b \<longleftrightarrow> (\<exists>a. m = Ok a \<and> f a = Ok b)"
  by (cases m) auto

lemma bind_res_eq_Panic [res_simps]:
  "bind_res m f = Panic \<longleftrightarrow> m = Panic \<or> (\<exists>a. m = Ok a \<and> f a = Panic)"
  by (cases m) auto

lemma bind_res_eq_Err [res_simps]:
  "bind_res m f = Err e \<longleftrightarrow> m = Err e \<or> (\<exists>a. m = Ok a \<and> f a = Err e)"
  by (cases m) auto

lemma bind_res_not_PanicI:
  "m \<noteq> Panic \<Longrightarrow> (\<And>x. m = Ok x \<Longrightarrow> f x \<noteq> Panic) \<Longrightarrow> bind_res m f \<noteq> Panic"
  by (cases m) simp_all

lemma if_not_PanicI:
  "(c \<Longrightarrow> a \<noteq> Panic) \<Longrightarrow> (\<not> c \<Longrightarrow> b \<noteq> Panic) \<Longrightarrow> (if c then a else b) \<noteq> Panic"
  by simp

lemmas no_panic_intros = bind_res_not_PanicI if_not_PanicI

lemma if_Err_eq_Ok [res_simps]: "(if b then Err e else x) = Ok z \<longleftrightarrow> \<not> b \<and> x = Ok z"
  by simp

lemma bind_res_assoc: "bind_res (bind_res m f) g = bind_res m (\<lambda>a. bind_res (f a) g)"
  by (cases m) auto

lemma map_err_eq_Ok [res_simps]: "map_err f r = Ok a \<longleftrightarrow> r = Ok a"
  by (cases r) auto

lemma map_err_eq_Panic [res_simps]: "map_err f r = Panic \<longleftrightarrow> r = Panic"
  by (cases r) auto

lemma map_err_eq_Err [res_simps]: "map_err f r = Err e \<longleftrightarrow> (\<exists>d. r = Err d \<and> e = f d)"
  by (cases r) auto

lemma ok_or_simps [simp]: "ok_or e None = Err e" "ok_or e (Some a) = Ok a"
  by (simp_all add: ok_or_def)

lemma ok_or_eq_Ok [res_simps]: "ok_or e x = Ok a \<longleftrightarrow> x = Some a"
  by (cases x) auto

lemma ok_or_eq_Panic [res_simps]: "ok_or e x = Panic \<longleftrightarrow> False"
  by (cases x) auto

lemma ok_or_eq_Err [res_simps]: "ok_or e x = Err d \<longleftrightarrow> x = None \<and> d = e"
  by (cases x) auto

lemma is_ok_simps [simp]: "is_ok (Ok a)" "\<not> is_ok (Err e)" "\<not> is_ok Panic"
  by (simp_all add: is_ok_def)

lemma is_ok_iff: "is_ok r \<longleftrightarrow> (\<exists>a. r = Ok a)"
  by (cases r) auto

lemma collect_res_eq_Ok:
  "collect_res f xs = Ok ys \<longleftrightarrow> list_all2 (\<lambda>x y. f x = Ok y) xs ys"
  by (induction xs arbitrary: ys) (auto simp: bind_res_eq_Ok list_all2_Cons1)

lemma collect_res_not_Panic:
  "(\<And>x. x \<in> set xs \<Longrightarrow> f x \<noteq> Panic) \<Longrightarrow> collect_res f xs \<noteq> Panic"
  by (induction xs) (auto simp: bind_res_eq_Panic)

lemma collect_res_length: "collect_res f xs = Ok ys \<Longrightarrow> length ys = length xs"
  by (auto simp: collect_res_eq_Ok list_all2_lengthD)

section \<open>Integer arithmetic\<close>

text \<open>
  Plain \<^verbatim>\<open>+\<close>, \<^verbatim>\<open>-\<close>, \<^verbatim>\<open>*\<close> panic when the exact value does not fit (a release build wraps
  instead: where a panic is proved impossible both builds compute the same value). The
  \<^verbatim>\<open>checked_\<close> forms return \<open>None\<close> there and the \<^verbatim>\<open>saturating_\<close> forms clamp.
\<close>

definition plain_add :: "'w::len word \<Rightarrow> 'w word \<Rightarrow> ('e, 'w word) res" where
  "plain_add a b = (if unat a + unat b < 2 ^ LENGTH('w) then Ok (a + b) else Panic)"

definition plain_sub :: "'w::len word \<Rightarrow> 'w word \<Rightarrow> ('e, 'w word) res" where
  "plain_sub a b = (if b \<le> a then Ok (a - b) else Panic)"

definition plain_mul :: "'w::len word \<Rightarrow> 'w word \<Rightarrow> ('e, 'w word) res" where
  "plain_mul a b = (if unat a * unat b < 2 ^ LENGTH('w) then Ok (a * b) else Panic)"

definition plain_div :: "'w::len word \<Rightarrow> 'w word \<Rightarrow> ('e, 'w word) res" where
  "plain_div a b = (if b = 0 then Panic else Ok (a div b))"

definition plain_mod :: "'w::len word \<Rightarrow> 'w word \<Rightarrow> ('e, 'w word) res" where
  "plain_mod a b = (if b = 0 then Panic else Ok (a mod b))"

definition checked_add :: "'w::len word \<Rightarrow> 'w word \<Rightarrow> 'w word option" where
  "checked_add a b = (if unat a + unat b < 2 ^ LENGTH('w) then Some (a + b) else None)"

definition checked_sub :: "'w::len word \<Rightarrow> 'w word \<Rightarrow> 'w word option" where
  "checked_sub a b = (if b \<le> a then Some (a - b) else None)"

definition checked_mul :: "'w::len word \<Rightarrow> 'w word \<Rightarrow> 'w word option" where
  "checked_mul a b = (if unat a * unat b < 2 ^ LENGTH('w) then Some (a * b) else None)"

definition saturating_add :: "'w::len word \<Rightarrow> 'w word \<Rightarrow> 'w word" where
  "saturating_add a b = (if unat a + unat b < 2 ^ LENGTH('w) then a + b else - 1)"

definition saturating_sub :: "'w::len word \<Rightarrow> 'w word \<Rightarrow> 'w word" where
  "saturating_sub a b = (if b \<le> a then a - b else 0)"

definition saturating_mul :: "'w::len word \<Rightarrow> 'w word \<Rightarrow> 'w word" where
  "saturating_mul a b = (if unat a * unat b < 2 ^ LENGTH('w) then a * b else - 1)"

definition u128_from :: "u64 \<Rightarrow> u128" where
  "u128_from x = ucast x"

definition u64_try_from :: "u128 \<Rightarrow> u64 option" where
  "u64_try_from x = (if unat x < 2 ^ 64 then Some (ucast x) else None)"

lemmas arith_eval = plain_add_def plain_sub_def plain_mul_def plain_div_def plain_mod_def
  checked_add_def checked_sub_def checked_mul_def saturating_add_def saturating_sub_def
  saturating_mul_def u128_from_def u64_try_from_def

lemma unat_bounded: "unat (x :: 'w::len word) < 2 ^ LENGTH('w)"
  by (rule unsigned_less)

lemma unat_eq_bounded: "unat (x :: 'w::len word) = n \<Longrightarrow> n < 2 ^ LENGTH('w)"
  using unat_bounded by blast

lemma word_eq_unat: "(x = y) = (unat x = unat (y :: 'w::len word))"
  by (rule word_unat_eq_iff)

lemma unat_add_small:
  "unat a + unat b < 2 ^ LENGTH('w) \<Longrightarrow> unat (a + b) = unat a + unat (b :: 'w::len word)"
  by (simp add: unat_add_lem)

lemma unat_mul_small:
  "unat a * unat b < 2 ^ LENGTH('w) \<Longrightarrow> unat (a * b) = unat a * unat (b :: 'w::len word)"
  by (simp add: unat_mult_lem)

lemma unat_sub_small: "b \<le> a \<Longrightarrow> unat (a - b) = unat a - unat (b :: 'w::len word)"
  by (rule unat_sub)

lemma plain_add_eq_Ok [res_simps]:
  "plain_add a b = Ok c \<longleftrightarrow> unat c = unat a + unat (b :: 'w::len word)"
  by (auto simp: plain_add_def unat_add_small word_eq_unat dest: unat_eq_bounded)

lemma plain_sub_eq_Ok [res_simps]:
  "plain_sub a b = Ok c \<longleftrightarrow> unat a = unat b + unat (c :: 'w::len word)"
  by (auto simp: plain_sub_def unat_sub_small word_eq_unat word_le_nat_alt)

lemma plain_mul_eq_Ok [res_simps]:
  "plain_mul a b = Ok c \<longleftrightarrow> unat c = unat a * unat (b :: 'w::len word)"
  by (auto simp: plain_mul_def unat_mul_small word_eq_unat dest: unat_eq_bounded)

lemma plain_div_eq_Ok [res_simps]:
  "plain_div a b = Ok c \<longleftrightarrow> b \<noteq> 0 \<and> c = a div (b :: 'w::len word)"
  by (auto simp: plain_div_def)

lemma plain_mod_eq_Ok [res_simps]:
  "plain_mod a b = Ok c \<longleftrightarrow> b \<noteq> 0 \<and> c = a mod (b :: 'w::len word)"
  by (auto simp: plain_mod_def)

lemma plain_arith_not_Err [simp]:
  "plain_add a b \<noteq> Err e" "plain_sub a b \<noteq> Err e" "plain_mul a b \<noteq> Err e"
  "plain_div a b \<noteq> Err e" "plain_mod a b \<noteq> Err e"
  by (simp_all add: plain_add_def plain_sub_def plain_mul_def plain_div_def plain_mod_def)

lemma plain_div_eq_Panic [res_simps]: "plain_div a b = Panic \<longleftrightarrow> b = 0"
  by (simp add: plain_div_def)

lemma plain_mod_eq_Panic [res_simps]: "plain_mod a b = Panic \<longleftrightarrow> b = 0"
  by (simp add: plain_mod_def)

lemma plain_add_eq_Panic [res_simps]:
  "plain_add a b = Panic \<longleftrightarrow> 2 ^ LENGTH('w) \<le> unat a + unat (b :: 'w::len word)"
  by (auto simp: plain_add_def)

lemma plain_sub_eq_Panic [res_simps]:
  "plain_sub a b = Panic \<longleftrightarrow> unat a < unat (b :: 'w::len word)"
  by (auto simp: plain_sub_def word_le_nat_alt)

lemma plain_mul_eq_Panic [res_simps]:
  "plain_mul a b = Panic \<longleftrightarrow> 2 ^ LENGTH('w) \<le> unat a * unat (b :: 'w::len word)"
  by (auto simp: plain_mul_def)

lemma checked_add_eq_Some [res_simps]:
  "checked_add a b = Some c \<longleftrightarrow> unat c = unat a + unat (b :: 'w::len word)"
  by (auto simp: checked_add_def unat_add_small word_eq_unat dest: unat_eq_bounded)

lemma checked_sub_eq_Some [res_simps]:
  "checked_sub a b = Some c \<longleftrightarrow> unat a = unat b + unat (c :: 'w::len word)"
  by (auto simp: checked_sub_def unat_sub_small word_eq_unat word_le_nat_alt)

lemma checked_mul_eq_Some [res_simps]:
  "checked_mul a b = Some c \<longleftrightarrow> unat c = unat a * unat (b :: 'w::len word)"
  by (auto simp: checked_mul_def unat_mul_small word_eq_unat dest: unat_eq_bounded)

lemma checked_sub_eq_None [res_simps]:
  "checked_sub a b = None \<longleftrightarrow> unat a < unat (b :: 'w::len word)"
  by (auto simp: checked_sub_def word_le_nat_alt)

lemma checked_add_eq_None [res_simps]:
  "checked_add a b = None \<longleftrightarrow> 2 ^ LENGTH('w) \<le> unat a + unat (b :: 'w::len word)"
  by (auto simp: checked_add_def)

lemma checked_mul_eq_None [res_simps]:
  "checked_mul a b = None \<longleftrightarrow> 2 ^ LENGTH('w) \<le> unat a * unat (b :: 'w::len word)"
  by (auto simp: checked_mul_def)

lemma unat_saturating_sub: "unat (saturating_sub a b) = unat a - unat (b :: 'w::len word)"
  by (auto simp: saturating_sub_def unat_sub_small word_le_nat_alt)

lemma unat_max_word: "unat (- 1 :: 'w::len word) = 2 ^ LENGTH('w) - 1"
  by (simp add: unsigned_minus_1_eq_mask mask_eq_exp_minus_1)

lemma unat_saturating_add:
  "unat (saturating_add a b) = min (unat a + unat b) (2 ^ LENGTH('w) - 1)"
  for a b :: "'w::len word"
  by (auto simp: saturating_add_def unat_add_small unat_max_word)

lemma unat_saturating_mul:
  "unat (saturating_mul a b) = min (unat a * unat b) (2 ^ LENGTH('w) - 1)"
  for a b :: "'w::len word"
  by (auto simp: saturating_mul_def unat_mul_small unat_max_word)

lemma unat_u128_from [simp]: "unat (u128_from x) = unat x"
  by (simp add: u128_from_def unsigned_ucast_eq take_bit_nat_eq_self order_less_le_trans [OF unat_bounded])

lemma u64_try_from_eq_Some [res_simps]: "u64_try_from x = Some y \<longleftrightarrow> unat x = unat y"
  by (auto simp: u64_try_from_def word_eq_unat unsigned_ucast_eq take_bit_nat_eq_self
      dest: unat_eq_bounded [OF sym])

lemma u64_try_from_eq_None [res_simps]: "u64_try_from x = None \<longleftrightarrow> 2 ^ 64 \<le> unat x"
  by (auto simp: u64_try_from_def)

section \<open>Slices and little-endian integers\<close>

text \<open>
  \<open>index_res\<close> and \<open>slice_res\<close> are \<^verbatim>\<open>xs[i]\<close> and \<^verbatim>\<open>xs[a..b]\<close>, which panic out of range;
  \<open>get_opt\<close> and \<open>get_range\<close> are \<^verbatim>\<open>xs.get(i)\<close> and \<^verbatim>\<open>xs.get(a..b)\<close>. \<open>nat_bytes\<close> and
  \<open>bytes_nat\<close> are the little-endian digits behind \<^verbatim>\<open>to_le_bytes\<close> and \<^verbatim>\<open>from_le_bytes\<close>.
\<close>

definition get_opt :: "nat \<Rightarrow> 'a list \<Rightarrow> 'a option" where
  "get_opt i xs = (if i < length xs then Some (xs ! i) else None)"

definition index_res :: "nat \<Rightarrow> 'a list \<Rightarrow> ('e, 'a) res" where
  "index_res i xs = (if i < length xs then Ok (xs ! i) else Panic)"

definition get_range :: "nat \<Rightarrow> nat \<Rightarrow> 'a list \<Rightarrow> 'a list option" where
  "get_range a b xs = (if a \<le> b \<and> b \<le> length xs then Some (take (b - a) (drop a xs)) else None)"

definition slice_res :: "nat \<Rightarrow> nat \<Rightarrow> 'a list \<Rightarrow> ('e, 'a list) res" where
  "slice_res a b xs = (if a \<le> b \<and> b \<le> length xs then Ok (take (b - a) (drop a xs)) else Panic)"

definition copy_into :: "nat \<Rightarrow> 'a list \<Rightarrow> 'a list \<Rightarrow> ('e, 'a list) res" where
  "copy_into at new xs =
     (if at + length new \<le> length xs then Ok (take at xs @ new @ drop (at + length new) xs) else Panic)"

fun nat_bytes :: "nat \<Rightarrow> nat \<Rightarrow> bytes" where
  "nat_bytes 0 n = []"
| "nat_bytes (Suc k) n = of_nat (n mod 256) # nat_bytes k (n div 256)"

fun bytes_nat :: "bytes \<Rightarrow> nat" where
  "bytes_nat [] = 0"
| "bytes_nat (b # bs) = unat b + 256 * bytes_nat bs"

definition u16_le :: "u16 \<Rightarrow> bytes" where "u16_le w = nat_bytes 2 (unat w)"
definition u32_le :: "u32 \<Rightarrow> bytes" where "u32_le w = nat_bytes 4 (unat w)"
definition u64_le :: "u64 \<Rightarrow> bytes" where "u64_le w = nat_bytes 8 (unat w)"

definition from_le :: "bytes \<Rightarrow> 'w::len word" where
  "from_le bs = of_nat (bytes_nat bs)"

lemma get_opt_eq_Some [res_simps]: "get_opt i xs = Some x \<longleftrightarrow> i < length xs \<and> x = xs ! i"
  by (auto simp: get_opt_def)

lemma get_opt_eq_None [res_simps]: "get_opt i xs = None \<longleftrightarrow> length xs \<le> i"
  by (auto simp: get_opt_def)

lemma index_res_eq_Ok [res_simps]: "index_res i xs = Ok x \<longleftrightarrow> i < length xs \<and> x = xs ! i"
  by (auto simp: index_res_def)

lemma index_res_eq_Panic [res_simps]: "index_res i xs = Panic \<longleftrightarrow> length xs \<le> i"
  by (auto simp: index_res_def)

lemma slice_res_eq_Ok [res_simps]:
  "slice_res a b xs = Ok ys \<longleftrightarrow> a \<le> b \<and> b \<le> length xs \<and> ys = take (b - a) (drop a xs)"
  by (auto simp: slice_res_def)

lemma slice_res_eq_Panic [res_simps]: "slice_res a b xs = Panic \<longleftrightarrow> \<not> (a \<le> b \<and> b \<le> length xs)"
  by (auto simp: slice_res_def)

lemma get_range_eq_Some [res_simps]:
  "get_range a b xs = Some ys \<longleftrightarrow> a \<le> b \<and> b \<le> length xs \<and> ys = take (b - a) (drop a xs)"
  by (auto simp: get_range_def)

lemma get_range_eq_None [res_simps]: "get_range a b xs = None \<longleftrightarrow> \<not> (a \<le> b \<and> b \<le> length xs)"
  by (auto simp: get_range_def)

lemma copy_into_eq_Ok [res_simps]:
  "copy_into at new xs = Ok ys \<longleftrightarrow>
     at + length new \<le> length xs \<and> ys = take at xs @ new @ drop (at + length new) xs"
  by (auto simp: copy_into_def)

lemma copy_into_eq_Panic [res_simps]:
  "copy_into at new xs = Panic \<longleftrightarrow> length xs < at + length new"
  by (auto simp: copy_into_def)

lemma access_not_Err [simp]:
  "index_res i xs \<noteq> Err e" "slice_res a b xs \<noteq> Err e" "copy_into at new xs \<noteq> Err e"
  by (simp_all add: index_res_def slice_res_def copy_into_def)

lemma length_nat_bytes [simp]: "length (nat_bytes k n) = k"
  by (induction k n rule: nat_bytes.induct) simp_all

lemma length_le_bytes [simp]:
  "length (u16_le a) = 2" "length (u32_le b) = 4" "length (u64_le c) = 8"
  by (simp_all add: u16_le_def u32_le_def u64_le_def)

lemma bytes_nat_nat_bytes: "n < 256 ^ k \<Longrightarrow> bytes_nat (nat_bytes k n) = n"
proof (induction k n rule: nat_bytes.induct)
  case (2 k n)
  have "n div 256 < 256 ^ k"
    using 2(2) by (simp add: div_less_iff_less_mult mult.commute)
  moreover have "unat (of_nat (n mod 256) :: 8 word) = n mod 256"
    by (simp add: unat_of_nat)
  ultimately show ?case
    using 2(1) by simp
qed simp

lemma bytes_nat_less: "bytes_nat bs < 256 ^ length bs"
proof (induction bs)
  case (Cons b bs)
  have "unat b < 256" using unat_bounded [of b] by simp
  with Cons.IH show ?case by simp
qed simp

lemma nat_bytes_bytes_nat: "nat_bytes (length bs) (bytes_nat bs) = bs"
proof (induction bs)
  case (Cons b bs)
  have "unat b < 256" using unat_bounded [of b] by simp
  then show ?case using Cons.IH by simp
qed simp

lemma from_le_nat_bytes:
  "256 ^ k = (2::nat) ^ LENGTH('w) \<Longrightarrow> from_le (nat_bytes k (unat (w :: 'w::len word))) = w"
  by (simp add: from_le_def bytes_nat_nat_bytes)

lemma from_le_roundtrip [simp]:
  "from_le (u16_le a) = a" "from_le (u32_le b) = b" "from_le (u64_le c) = c"
  by (simp_all add: u16_le_def u32_le_def u64_le_def from_le_nat_bytes)

lemma unat_from_le:
  "256 ^ length bs = (2::nat) ^ LENGTH('w) \<Longrightarrow> unat (from_le bs :: 'w::len word) = bytes_nat bs"
  using bytes_nat_less [of bs] by (simp add: from_le_def unat_of_nat)

lemma u64_le_from_le: "length bs = 8 \<Longrightarrow> u64_le (from_le bs) = bs"
  using nat_bytes_bytes_nat [of bs] by (simp add: u64_le_def unat_from_le)

lemma u32_le_from_le: "length bs = 4 \<Longrightarrow> u32_le (from_le bs) = bs"
  using nat_bytes_bytes_nat [of bs] by (simp add: u32_le_def unat_from_le)

lemma u16_le_from_le: "length bs = 2 \<Longrightarrow> u16_le (from_le bs) = bs"
  using nat_bytes_bytes_nat [of bs] by (simp add: u16_le_def unat_from_le)

lemma u64_le_inject [simp]: "u64_le a = u64_le b \<longleftrightarrow> a = b"
  by (metis from_le_roundtrip(3))

lemma u16_le_inject [simp]: "u16_le a = u16_le b \<longleftrightarrow> a = b"
  by (metis from_le_roundtrip(1))

lemma u32_le_inject [simp]: "u32_le a = u32_le b \<longleftrightarrow> a = b"
  by (metis from_le_roundtrip(2))

section \<open>Interfaces shared by the components\<close>

text \<open>
  \<open>tag_codec\<close> is the contract of an enum with a wire byte: \<open>to_tag\<close> writes it and \<open>of_tag\<close>
  reads it back, refusing every other byte.
\<close>

locale tag_codec =
  fixes to_tag :: "'a \<Rightarrow> u8" and of_tag :: "u8 \<Rightarrow> ('e, 'a) res"
  assumes of_to: "of_tag (to_tag x) = Ok x"
    and to_of: "of_tag b = Ok x \<Longrightarrow> to_tag x = b"
    and of_tag_total: "of_tag b \<noteq> Panic"
begin

lemma to_tag_inject: "to_tag x = to_tag y \<longleftrightarrow> x = y"
  by (metis of_to res.inject(1))

lemma of_tag_Ok_iff: "of_tag b = Ok x \<longleftrightarrow> b = to_tag x"
  using of_to to_of by blast

lemma of_tag_refuses: "b \<notin> range to_tag \<Longrightarrow> \<exists>e. of_tag b = Err e"
  using of_tag_Ok_iff of_tag_total by (metis rangeI res.exhaust)

end

text \<open>
  \<open>prefix_codec\<close> is the contract of a self-delimiting encoding: the parser reads one value off
  the front of any input that starts with its encoding, and leaves the rest. Sequences of such
  values then decode too, and the encoding is injective even when something follows it.
\<close>

locale prefix_codec =
  fixes wf :: "'a \<Rightarrow> bool" and enc :: "'a \<Rightarrow> bytes" and parse :: "bytes \<Rightarrow> ('e, 'a \<times> bytes) res"
  assumes parse_enc: "wf x \<Longrightarrow> parse (enc x @ rest) = Ok (x, rest)"
begin

lemma enc_prefix_free: "wf x \<Longrightarrow> wf y \<Longrightarrow> enc x @ r = enc y @ s \<Longrightarrow> x = y \<and> r = s"
  by (metis parse_enc prod.inject res.inject(1))

lemma enc_inject: "wf x \<Longrightarrow> wf y \<Longrightarrow> enc x = enc y \<longleftrightarrow> x = y"
  using enc_prefix_free [of x y "[]" "[]"] by auto

lemma concat_enc_inject:
  "list_all wf xs \<Longrightarrow> list_all wf ys \<Longrightarrow> length xs = length ys \<Longrightarrow>
   concat (map enc xs) @ r = concat (map enc ys) @ s \<Longrightarrow> xs = ys \<and> r = s"
proof (induction xs arbitrary: ys)
  case (Cons x xs)
  then obtain y ys' where ys: "ys = y # ys'" by (cases ys) auto
  have "x = y \<and> concat (map enc xs) @ r = concat (map enc ys') @ s"
    using Cons.prems by (intro enc_prefix_free) (simp_all add: ys)
  with Cons.IH [of ys'] Cons.prems show ?case by (simp add: ys)
qed simp

end

end
