(* ===== verification/Scaling.thy ===== *)
theory Scaling
  imports Complex_Main Prelude
begin

text \<open>
  The fixed-point arithmetic that the spread and the physical premium code share: powers of ten at
  128 bits, basis-point fees, the exact value of a scaled price times a quantity, and the contract
  of a per-unit price converter (\<open>price_scale\<close>) under which the protocol fee split cannot underflow.
\<close>

section \<open>Operations\<close>

definition pow10 :: "u8 \<Rightarrow> ('e, u128) res" where
  "pow10 d = (if 10 ^ unat d < (2::nat) ^ 128 then Ok (10 ^ unat d) else Panic)"

text \<open>The closure \<^verbatim>\<open>fee\<close> of both premium functions; \<open>e\<close> is the error of a value beyond 64 bits.\<close>

definition bps_fee :: "'e \<Rightarrow> u64 \<Rightarrow> u16 \<Rightarrow> ('e, u64) res" where
  "bps_fee e amount bps =
     bind_res (plain_mul (u128_from amount) (ucast bps)) (\<lambda>n.
     bind_res (plain_div n 10000) (\<lambda>x. ok_or e (u64_try_from x)))"

section \<open>The exact value of a scaled amount\<close>

text \<open>
  \<open>price\<close> is scaled by \<open>10 ^ 9\<close> and counts quote tokens per underlying token; \<open>quantity\<close> counts
  underlying atoms. The value in quote atoms is the rational
  \<open>price * quantity * 10 ^ qd / 10 ^ (9 + ud)\<close>, rounded down or up.
\<close>

definition exact_quote :: "bool \<Rightarrow> nat \<Rightarrow> nat \<Rightarrow> nat \<Rightarrow> nat \<Rightarrow> nat" where
  "exact_quote up qd ud price quantity =
     (let n = price * quantity * 10 ^ qd; d = 10 ^ (9 + ud)
      in if up then (n + d - 1) div d else n div d)"

lemma ceil_div:
  "0 < d \<Longrightarrow> (n + d - 1) div d = n div d + of_bool (n mod d \<noteq> 0)" for n d :: nat
proof (cases "n mod d = 0")
  case True
  assume d: "0 < d"
  from True obtain k where n: "n = d * k" by auto
  have "n + d - 1 = d - 1 + d * k" using d by (simp add: n)
  moreover have "(d - 1 + d * k) div d = k"
    using d div_mult_self2 [of d "d - 1" k] by (simp del: div_mult_self2)
  ultimately have "(n + d - 1) div d = k" by simp
  with True d show ?thesis by (simp add: n)
next
  case False
  assume d: "0 < d"
  have "n + d - 1 = (n mod d - 1) + d * (n div d + 1)"
    using False mult_div_mod_eq [of d n] unfolding distrib_left mult_1_right by linarith
  moreover have "(n mod d - 1) div d = 0"
    using d mod_less_divisor [of d n] by (intro div_less) linarith
  ultimately have "(n + d - 1) div d = n div d + 1"
    using d by (simp only: div_mult_self2 [OF gr_implies_not0] add_0_right)
  with False show ?thesis by simp
qed

lemma exact_quote_mono:
  "p \<le> p' \<Longrightarrow> exact_quote up qd ud p q \<le> exact_quote up qd ud p' q"
  by (auto simp: exact_quote_def Let_def intro!: div_le_mono diff_le_mono mult_le_mono1)

lemma exact_quote_floor_le_ceil: "exact_quote False qd ud p q \<le> exact_quote True qd ud p q"
proof -
  have "n \<le> n + 10 ^ (9 + ud) - 1" for n :: nat
    by (metis Nat.le_diff_conv2 add_leD2 add_left_mono less_eq_Suc_le One_nat_def zero_less_numeral
        zero_less_power)
  then show ?thesis
    unfolding exact_quote_def Let_def by (simp add: div_le_mono)
qed

lemma exact_quote_zero [simp]: "exact_quote up qd ud 0 q = 0"
  by (simp add: exact_quote_def Let_def)

lemma exact_quote_ceil_add:
  "exact_quote True qd ud (a + b) q \<le> exact_quote True qd ud a q + exact_quote True qd ud b q"
  "exact_quote True qd ud a q + exact_quote True qd ud b q \<le> exact_quote True qd ud (a + b) q + 1"
proof -
  define d :: nat where "d = 10 ^ (9 + ud)"
  define x y where "x = a * q * 10 ^ qd" and "y = b * q * 10 ^ qd"
  have d: "0 < d" by (simp add: d_def)
  have eq: "exact_quote True qd ud a q = x div d + of_bool (x mod d \<noteq> 0)"
    "exact_quote True qd ud b q = y div d + of_bool (y mod d \<noteq> 0)"
    "exact_quote True qd ud (a + b) q = (x + y) div d + of_bool ((x + y) mod d \<noteq> 0)"
    using ceil_div [OF d] by (simp_all add: exact_quote_def Let_def d_def x_def y_def algebra_simps)
  have dv: "(x + y) div d = x div d + y div d + (x mod d + y mod d) div d"
    by (rule div_add1_eq)
  have md: "(x + y) mod d = (x mod d + y mod d) mod d" by (simp add: mod_add_eq)
  have lt: "x mod d < d" "y mod d < d" using d by simp_all
  consider "x mod d + y mod d < d" | "d \<le> x mod d + y mod d" by linarith
  then have "exact_quote True qd ud (a + b) q \<le> exact_quote True qd ud a q + exact_quote True qd ud b q
    \<and> exact_quote True qd ud a q + exact_quote True qd ud b q \<le> exact_quote True qd ud (a + b) q + 1"
  proof cases
    case 1
    then show ?thesis unfolding eq dv md by simp
  next
    case 2
    have "(x mod d + y mod d) div d = 1" using 2 add_strict_mono [OF lt] by (intro div_nat_eqI) simp_all
    moreover have "0 < x mod d" "0 < y mod d" using 2 lt by linarith+
    ultimately show ?thesis unfolding eq dv md by auto
  qed
  then show "exact_quote True qd ud (a + b) q \<le> exact_quote True qd ud a q + exact_quote True qd ud b q"
    "exact_quote True qd ud a q + exact_quote True qd ud b q \<le> exact_quote True qd ud (a + b) q + 1"
    by simp_all
qed

text \<open>The same value as the rounding of a rational number.\<close>

definition rational_quote :: "nat \<Rightarrow> nat \<Rightarrow> nat \<Rightarrow> nat \<Rightarrow> rat" where
  "rational_quote qd ud price quantity = of_nat (price * quantity) * 10 ^ qd / 10 ^ (9 + ud)"

lemma exact_quote_rational:
  "int (exact_quote up qd ud p q) =
     (if up then \<lceil>rational_quote qd ud p q\<rceil> else \<lfloor>rational_quote qd ud p q\<rfloor>)"
proof -
  define n d :: nat where "n = p * q * 10 ^ qd" and "d = 10 ^ (9 + ud)"
  have d: "0 < d" by (simp add: d_def)
  have r: "rational_quote qd ud p q = of_nat n / of_nat d"
    by (simp add: rational_quote_def n_def d_def)
  have fl: "\<lfloor>rational_quote qd ud p q\<rfloor> = int (n div d)"
    unfolding r by (rule floor_divide_of_nat_eq)
  have "\<lceil>rational_quote qd ud p q\<rceil> = - (- int n div int d)"
    unfolding r using ceiling_divide_eq_div [of "int n" "int d", where 'a = rat] by simp
  also have "\<dots> = int (n div d + of_bool (n mod d \<noteq> 0))"
  proof -
    have "int n mod int d = 0 \<longleftrightarrow> n mod d = 0" by (metis of_nat_0_eq_iff of_nat_mod)
    then show ?thesis using d by (simp add: zdiv_zminus1_eq_if of_nat_div)
  qed
  finally show ?thesis
    using fl ceil_div [OF d, of n] by (simp add: exact_quote_def Let_def n_def d_def)
qed

lemma exact_quote_downscale:
  assumes "qd \<le> 9 + ud"
  shows "exact_quote up qd ud p q =
     p * q div 10 ^ (9 + ud - qd) + of_bool (up \<and> p * q mod 10 ^ (9 + ud - qd) \<noteq> 0)"
proof -
  define k where "k = 9 + ud - qd"
  have eq: "(10::nat) ^ (9 + ud) = 10 ^ k * 10 ^ qd"
    using assms by (simp add: k_def flip: power_add)
  have "p * q * 10 ^ qd div 10 ^ (9 + ud) = p * q div 10 ^ k"
    unfolding eq by simp
  moreover have "p * q * 10 ^ qd mod 10 ^ (9 + ud) = p * q mod 10 ^ k * 10 ^ qd"
    unfolding eq by simp
  ultimately show ?thesis
    using ceil_div [of "10 ^ (9 + ud)" "p * q * 10 ^ qd"]
    by (simp add: exact_quote_def Let_def k_def)
qed

lemma exact_quote_upscale:
  assumes "9 + ud \<le> qd"
  shows "exact_quote up qd ud p q = p * q * 10 ^ (qd - (9 + ud))"
proof -
  define k where "k = qd - (9 + ud)"
  have eq: "(10::nat) ^ qd = 10 ^ k * 10 ^ (9 + ud)"
    using assms by (simp add: k_def flip: power_add)
  have "p * q * 10 ^ qd div 10 ^ (9 + ud) = p * q * 10 ^ k"
    "p * q * 10 ^ qd mod 10 ^ (9 + ud) = 0"
    unfolding eq by (simp_all flip: mult.assoc)
  then show ?thesis
    using ceil_div [of "10 ^ (9 + ud)" "p * q * 10 ^ qd"]
    by (simp add: exact_quote_def Let_def k_def)
qed

section \<open>The operations on words\<close>

lemma pow10_small:
  assumes "unat d \<le> 18"
  shows "pow10 d = Ok (10 ^ unat d)" and "unat (10 ^ unat d :: u128) = 10 ^ unat d"
proof -
  have "(10::nat) ^ unat d \<le> 10 ^ 18" by (rule power_increasing [OF assms]) simp
  also have "\<dots> < 2 ^ 128" by simp
  finally have lt: "(10::nat) ^ unat d < 2 ^ 128" .
  then show "pow10 d = Ok (10 ^ unat d)" by (simp add: pow10_def)
  have "unat (of_nat (10 ^ unat d) :: u128) = 10 ^ unat d"
    using lt by (simp only: unat_of_nat) simp
  then show "unat (10 ^ unat d :: u128) = 10 ^ unat d" by simp
qed

lemma denominator_small:
  fixes d :: u8
  assumes "unat d \<le> 18"
  shows "plain_mul 1000000000 (10 ^ unat d :: u128) = Ok (1000000000 * 10 ^ unat d)"
    and "unat (1000000000 * 10 ^ unat d :: u128) = 10 ^ (9 + unat d)"
proof -
  have "(10::nat) ^ unat d \<le> 10 ^ 18" by (rule power_increasing [OF assms]) simp
  then have lt: "unat (1000000000 :: u128) * unat (10 ^ unat d :: u128) < 2 ^ 128"
    unfolding pow10_small(2) [OF assms] by simp
  then show "plain_mul 1000000000 (10 ^ unat d :: u128) = Ok (1000000000 * 10 ^ unat d)"
    by (simp add: plain_mul_def)
  have "unat (1000000000 * 10 ^ unat d :: u128) = unat (1000000000 :: u128) * 10 ^ unat d"
    using lt unat_mul_small [of "1000000000 :: u128" "10 ^ unat d"]
    by (simp only: pow10_small(2) [OF assms] len_num0) simp
  also have "\<dots> = 10 ^ (9 + unat d)"
    by (simp add: power_add)
  finally show "unat (1000000000 * 10 ^ unat d :: u128) = 10 ^ (9 + unat d)" .
qed

lemma scales_compare:
  fixes qd ud :: u8
  assumes "unat qd \<le> 18" "unat ud \<le> 18"
  shows "(10 ^ unat qd :: u128) \<le> 1000000000 * 10 ^ unat ud \<longleftrightarrow> unat qd \<le> 9 + unat ud"
    and "(10 ^ unat qd :: u128) \<noteq> 0" and "(1000000000 * 10 ^ unat ud :: u128) \<noteq> 0"
  using pow10_small(2) [OF assms(1)] denominator_small(2) [OF assms(2)]
  by (simp_all add: word_le_nat_alt word_eq_unat)

lemma scale_divisor:
  fixes qd ud :: u8
  assumes "unat qd \<le> 18" "unat ud \<le> 18" "unat qd \<le> 9 + unat ud"
  shows "unat (1000000000 * 10 ^ unat ud div 10 ^ unat qd :: u128) = 10 ^ (9 + unat ud - unat qd)"
  using assms
  by (simp only: unat_div_distrib pow10_small(2) denominator_small(2)) (simp add: power_diff)

lemma scale_factor:
  fixes qd ud :: u8
  assumes "unat qd \<le> 18" "unat ud \<le> 18" "9 + unat ud \<le> unat qd"
  shows "unat (10 ^ unat qd div (1000000000 * 10 ^ unat ud) :: u128) = 10 ^ (unat qd - (9 + unat ud))"
  using assms
  by (simp only: unat_div_distrib pow10_small(2) denominator_small(2)) (simp add: power_diff)

lemma u64_product_bound: "unat (a :: u64) * unat (b :: u64) < 2 ^ 128 - 1"
proof -
  have "unat a \<le> 2 ^ 64 - 1" "unat b \<le> 2 ^ 64 - 1"
    using unat_bounded [of a] unat_bounded [of b] by simp_all
  then have "unat a * unat b \<le> (2 ^ 64 - 1) * (2 ^ 64 - 1)" by (rule mult_le_mono)
  then show ?thesis by simp
qed

lemma numerator_small:
  "plain_mul (u128_from a) (u128_from b) = Ok (u128_from a * u128_from b)"
  "unat (u128_from a * u128_from b) = unat a * unat b"
  using u64_product_bound [of a b] by (simp_all add: plain_mul_def unat_mul_small)

lemma u64_try_from_of_unat:
  "u64_try_from r = (if 2 ^ 64 \<le> unat r then None else Some (of_nat (unat r)))"
  by (simp add: u64_try_from_def)

lemma exact_quote_word_mono:
  fixes a :: u64
  assumes "unat a = exact_quote up qd ud p q" and "p' \<le> p"
  shows "\<exists>a' :: u64. unat a' = exact_quote up qd ud p' q \<and> unat a' \<le> unat a"
proof -
  have le: "exact_quote up qd ud p' q \<le> unat a"
    using exact_quote_mono [OF assms(2)] assms(1) by simp
  then have "unat (of_nat (exact_quote up qd ud p' q) :: u64) = exact_quote up qd ud p' q"
    using unat_bounded [of a] by (simp add: unat_of_nat)
  with le show ?thesis by metis
qed

lemma bps_fee_total:
  assumes "unat bps \<le> 10000"
  shows "\<exists>f. bps_fee e amount bps = Ok f \<and> unat f = unat amount * unat bps div 10000
    \<and> unat f \<le> unat amount"
proof -
  have b: "unat (ucast bps :: u128) = unat bps"
    by (simp add: unsigned_ucast_eq take_bit_nat_eq_self order_less_le_trans [OF unat_bounded])
  have le: "unat amount * unat bps div 10000 \<le> unat amount"
    using assms div_le_mono [of "unat amount * unat bps" "unat amount * 10000" 10000] by simp
  have "unat amount * unat bps \<le> unat amount * 10000" using assms by simp
  also have "\<dots> < 2 ^ 128" using unat_bounded [of amount] by simp
  finally have m: "unat (u128_from amount) * unat (ucast bps :: u128) < 2 ^ 128" by (simp add: b)
  define n :: u128 where "n = u128_from amount * ucast bps"
  have n: "unat n = unat amount * unat bps"
    using m unat_mul_small [of "u128_from amount" "ucast bps"] by (simp add: b n_def)
  have d: "unat (n div 10000) = unat amount * unat bps div 10000"
    by (simp add: unat_div_distrib n)
  have "unat (n div 10000) < 2 ^ 64" unfolding d using le unat_bounded [of amount] by simp
  then obtain f where f: "u64_try_from (n div 10000) = Some f"
    by (auto simp: u64_try_from_def)
  then have "unat f = unat amount * unat bps div 10000"
    using d by (simp add: u64_try_from_eq_Some)
  moreover have "bps_fee e amount bps = Ok f"
    using m f by (simp add: bps_fee_def plain_mul_def plain_div_def flip: n_def)
  ultimately show ?thesis using le by simp
qed

lemma bps_fee_not_Panic: "bps_fee e amount bps \<noteq> Panic"
proof -
  have b: "unat (ucast bps :: u128) = unat bps"
    by (simp add: unsigned_ucast_eq take_bit_nat_eq_self order_less_le_trans [OF unat_bounded])
  have "unat amount * unat bps \<le> 2 ^ 64 * 2 ^ 16"
    using unat_bounded [of amount] unat_bounded [of bps] by (intro mult_le_mono) simp_all
  then show ?thesis by (simp add: bps_fee_def res_simps b)
qed

section \<open>The contract of a per-unit price converter\<close>

text \<open>
  Both premium functions convert a price per underlying token to quote atoms with the quantity and
  the decimals fixed. All the fee split relies on is that the conversion does not panic and is
  monotone, also in whether it succeeds.
\<close>

locale price_scale =
  fixes conv :: "u64 \<Rightarrow> ('e, u64) res"
  assumes conv_not_Panic: "conv p \<noteq> Panic"
    and conv_mono: "conv p = Ok a \<Longrightarrow> p' \<le> p \<Longrightarrow> \<exists>a'. conv p' = Ok a' \<and> a' \<le> a"
begin

text \<open>The premium fee \<^verbatim>\<open>gross - conv (price - fee)\<close> is defined and at most the gross premium.\<close>

lemma premium_fee_defined:
  assumes gross: "conv price = Ok gross" and "unat bps \<le> 10000"
  obtains f p' n pf where "bps_fee (e :: 'e) price bps = Ok f" "plain_sub price f = (Ok p' :: ('e, u64) res)"
    "conv p' = Ok n" "plain_sub gross n = (Ok pf :: ('e, u64) res)" "unat gross = unat n + unat pf"
proof -
  from bps_fee_total [OF assms(2), of e price] obtain f
    where f: "bps_fee e price bps = Ok f" "unat f \<le> unat price" by blast
  then have p': "plain_sub price f = (Ok (price - f) :: ('e, u64) res)" "price - f \<le> price"
    by (simp_all add: plain_sub_def word_le_nat_alt unat_sub_small)
  from conv_mono [OF gross p'(2)] obtain n where n: "conv (price - f) = Ok n" "n \<le> gross" by blast
  then have "plain_sub gross n = (Ok (gross - n) :: ('e, u64) res)" "unat gross = unat n + unat (gross - n)"
    by (simp_all add: plain_sub_def word_le_nat_alt unat_sub_small)
  with f p' n that show thesis by blast
qed

end

end
