(* ===== verification/Amounts.thy ===== *)
theory Amounts
  imports Scaling
begin

text \<open>
  The contract amount math of \<^verbatim>\<open>src/src/types/amounts.rs\<close> and \<^verbatim>\<open>Price::after_fee_bps\<close> of
  \<^verbatim>\<open>src/src/types/ids.rs\<close>. The source's \<^verbatim>\<open>Option\<close> is a result whose only error is \<open>()\<close>, so that a
  panic stays distinct from \<^verbatim>\<open>None\<close>. The floating-point display helpers are not modelled.
\<close>

section \<open>Data\<close>

record PhysicalPremium =
  pp_gross_premium :: u64
  pp_protocol_fee :: u64
  pp_net_premium :: u64

section \<open>Operations\<close>

definition PRICE_SCALE :: u64 where "PRICE_SCALE = 1000000000"

definition scaled_quote_amount :: "u64 \<Rightarrow> u64 \<Rightarrow> u8 \<Rightarrow> u8 \<Rightarrow> (unit, u64) res" where
  "scaled_quote_amount per_unit quantity quote_decimals underlying_decimals =
     (if quote_decimals > 18 \<or> underlying_decimals > 18 then Err ()
      else
        bind_res (pow10 quote_decimals) (\<lambda>quote_scale.
        bind_res (pow10 underlying_decimals) (\<lambda>unit_scale.
        bind_res (plain_mul (u128_from PRICE_SCALE) unit_scale) (\<lambda>denominator.
        bind_res (plain_mul (u128_from per_unit) (u128_from quantity)) (\<lambda>numerator.
        bind_res
          (if quote_scale \<le> denominator then
             bind_res (plain_div denominator quote_scale) (\<lambda>divisor. plain_div numerator divisor)
           else
             bind_res (plain_div quote_scale denominator) (\<lambda>factor.
             ok_or () (checked_mul numerator factor)))
          (\<lambda>amount. ok_or () (u64_try_from amount)))))))"

definition total_premium_quote_atoms :: "u64 \<Rightarrow> u64 \<Rightarrow> u8 \<Rightarrow> u8 \<Rightarrow> (unit, u64) res" where
  "total_premium_quote_atoms price quantity underlying_decimals quote_decimals =
     scaled_quote_amount price quantity quote_decimals underlying_decimals"

definition physical_premium ::
  "u64 \<Rightarrow> u64 \<Rightarrow> u64 \<Rightarrow> u8 \<Rightarrow> u8 \<Rightarrow> u16 \<Rightarrow> u16 \<Rightarrow> (unit, PhysicalPremium) res" where
  "physical_premium price strike quantity underlying_decimals quote_decimals premium_bps volume_bps =
     (if premium_bps > 10000 \<or> volume_bps > 10000 then Err ()
      else
        let quote = (\<lambda>per_unit. scaled_quote_amount per_unit quantity quote_decimals underlying_decimals) in
        bind_res (quote price) (\<lambda>gross.
        bind_res (bps_fee () price premium_bps) (\<lambda>unit_fee.
        bind_res (plain_sub price unit_fee) (\<lambda>net_price.
        bind_res (quote net_price) (\<lambda>net_quote.
        bind_res (plain_sub gross net_quote) (\<lambda>premium_fee.
        bind_res (quote strike) (\<lambda>notional.
        bind_res (bps_fee () notional volume_bps) (\<lambda>volume_fee.
        let protocol_fee = min premium_fee volume_fee in
        bind_res (plain_sub gross protocol_fee) (\<lambda>net.
        Ok \<lparr>pp_gross_premium = gross, pp_protocol_fee = protocol_fee, pp_net_premium = net\<rparr>)))))))))"

definition after_fee_bps :: "u64 \<Rightarrow> u16 \<Rightarrow> (unit, u64) res" where
  "after_fee_bps price bps =
     bind_res (plain_mul (u128_from price) (ucast bps)) (\<lambda>n.
     bind_res (plain_div n 10000) (\<lambda>fee.
     Ok (saturating_sub price (case u64_try_from fee of None \<Rightarrow> - 1 | Some f \<Rightarrow> f))))"

section \<open>The scaled amount\<close>

lemma scaled_quote_amount_eq:
  "scaled_quote_amount p q qd ud =
     (if qd > 18 \<or> ud > 18 \<or> 2 ^ 64 \<le> exact_quote False (unat qd) (unat ud) (unat p) (unat q)
      then Err ()
      else Ok (of_nat (exact_quote False (unat qd) (unat ud) (unat p) (unat q))))"
proof (cases "qd > 18 \<or> ud > 18")
  case True
  then show ?thesis by (auto simp: scaled_quote_amount_def)
next
  case False
  then have d: "unat qd \<le> 18" "unat ud \<le> 18"
    by (simp_all add: word_less_nat_alt)
  define v where "v = exact_quote False (unat qd) (unat ud) (unat p) (unat q)"
  define n where "n = u128_from p * u128_from q"
  have n: "unat n = unat p * unat q" by (simp add: n_def numerator_small)
  have scale: "u128_from PRICE_SCALE = 1000000000" by (simp add: PRICE_SCALE_def u128_from_def)
  note calc = scaled_quote_amount_def scale pow10_small [OF d(1)] pow10_small [OF d(2)]
    denominator_small [OF d(2)] numerator_small plain_div_def
  have final: "ok_or () (u64_try_from r) = (if 2 ^ 64 \<le> v then Err () else Ok (of_nat v))"
    if "unat r = v" for r :: u128
    using that by (auto simp: u64_try_from_of_unat)
  show ?thesis
  proof (cases "unat qd \<le> 9 + unat ud")
    case True
    define k where "k = (1000000000 * 10 ^ unat ud div 10 ^ unat qd :: u128)"
    have k: "unat k = 10 ^ (9 + unat ud - unat qd)" "k \<noteq> 0"
      using scale_divisor [OF d True] by (auto simp: k_def)
    have "unat (n div k) = v"
      by (simp add: v_def exact_quote_downscale [OF True] unat_div_distrib n k)
    then show ?thesis
      unfolding v_def [symmetric] using False True final [of "n div k"] k(2) scales_compare [OF d]
      by (simp add: calc flip: n_def k_def)
  next
    case up: False
    define f where "f = (10 ^ unat qd div (1000000000 * 10 ^ unat ud) :: u128)"
    have f: "unat f = 10 ^ (unat qd - (9 + unat ud))"
      using scale_factor [OF d] up by (simp add: f_def)
    have v: "v = unat n * unat f"
      using up by (simp add: v_def exact_quote_upscale n f)
    then show ?thesis
      unfolding v_def [symmetric] using False up final [of "n * f"] scales_compare [OF d]
      by (auto simp: calc checked_mul_def unat_mul_small simp flip: n_def f_def)
  qed
qed

lemma scaled_quote_amount_eq_Ok [res_simps]:
  "scaled_quote_amount p q qd ud = Ok v \<longleftrightarrow>
     qd \<le> 18 \<and> ud \<le> 18 \<and> unat v = exact_quote False (unat qd) (unat ud) (unat p) (unat q)"
  by (auto simp: scaled_quote_amount_eq word_eq_unat unat_of_nat not_less dest: unat_eq_bounded)

lemma scaled_quote_amount_not_Panic [simp]: "scaled_quote_amount p q qd ud \<noteq> Panic"
  by (simp add: scaled_quote_amount_eq)

interpretation physical_scale: price_scale "\<lambda>p. scaled_quote_amount p q qd ud" for q qd ud
proof
  fix p p' a
  show "scaled_quote_amount p q qd ud \<noteq> Panic" by simp
  assume "scaled_quote_amount p q qd ud = Ok a" "p' \<le> p"
  then show "\<exists>a'. scaled_quote_amount p' q qd ud = Ok a' \<and> a' \<le> a"
    using exact_quote_word_mono [of a False "unat qd" "unat ud" "unat p" "unat q" "unat p'"]
    by (simp add: scaled_quote_amount_eq_Ok word_le_nat_alt)
qed

section \<open>Premium split and fee\<close>

lemma physical_premium_not_Panic: "physical_premium price strike q ud qd pb vb \<noteq> Panic"
proof (cases "pb > 10000 \<or> vb > 10000 \<or> (\<forall>g. scaled_quote_amount price q qd ud \<noteq> Ok g)")
  case True
  then show ?thesis
    by (cases "scaled_quote_amount price q qd ud") (auto simp: physical_premium_def Let_def)
next
  case False
  then obtain g where g: "scaled_quote_amount price q qd ud = Ok g" by blast
  have b: "unat pb \<le> 10000" using False by (simp add: word_less_nat_alt)
  from physical_scale.premium_fee_defined [OF g b, of "()"]
  obtain uf np nq pf where h: "bps_fee () price pb = Ok uf"
    "plain_sub price uf = (Ok np :: (unit, u64) res)" "scaled_quote_amount np q qd ud = Ok nq"
    "plain_sub g nq = (Ok pf :: (unit, u64) res)" "unat g = unat nq + unat pf"
    by blast
  have m: "unat (min pf vf) \<le> unat g" for vf
    using h(5) by (simp add: min_def word_le_nat_alt)
  show ?thesis
    unfolding physical_premium_def Let_def h g bind_res.simps
    by (intro no_panic_intros) (use m in \<open>auto simp: bps_fee_not_Panic plain_sub_eq_Panic not_less\<close>)
qed

lemma physical_premium_value:
  assumes "physical_premium price strike q ud qd pb vb = Ok r"
  defines "atoms \<equiv> \<lambda>p. exact_quote False (unat qd) (unat ud) p (unat q)"
  shows "unat (pp_gross_premium r) = atoms (unat price)"
    and "unat (pp_protocol_fee r) =
       min (atoms (unat price) - atoms (unat price - unat price * unat pb div 10000))
         (atoms (unat strike) * unat vb div 10000)"
    and "unat (pp_gross_premium r) = unat (pp_protocol_fee r) + unat (pp_net_premium r)"
proof -
  from assms(1) have b: "unat pb \<le> 10000" "unat vb \<le> 10000"
    by (simp_all add: physical_premium_def word_less_nat_alt split: if_splits)
  from assms(1) obtain g uf np nq pf no vf net where h: "scaled_quote_amount price q qd ud = Ok g"
    "bps_fee () price pb = Ok uf" "plain_sub price uf = (Ok np :: (unit, u64) res)"
    "scaled_quote_amount np q qd ud = Ok nq" "plain_sub g nq = (Ok pf :: (unit, u64) res)"
    "scaled_quote_amount strike q qd ud = Ok no" "bps_fee () no vb = Ok vf"
    "plain_sub g (min pf vf) = (Ok net :: (unit, u64) res)"
    "r = \<lparr>pp_gross_premium = g, pp_protocol_fee = min pf vf, pp_net_premium = net\<rparr>"
    by (auto simp: physical_premium_def bind_res_eq_Ok Let_def split: if_splits)
  have uf: "unat uf = unat price * unat pb div 10000" and vf: "unat vf = unat no * unat vb div 10000"
    using bps_fee_total [OF b(1), of "()" price] bps_fee_total [OF b(2), of "()" no] h by auto
  have np: "unat np = unat price - unat uf" and pf: "unat pf = unat g - unat nq"
    using h(3,5) by (simp_all add: plain_sub_eq_Ok)
  have fl: "unat g = atoms (unat price)" "unat nq = atoms (unat np)" "unat no = atoms (unat strike)"
    using h(1,4,6) by (simp_all add: scaled_quote_amount_eq_Ok atoms_def)
  show "unat (pp_gross_premium r) = atoms (unat price)" by (simp add: h(9) fl)
  have mn: "unat (min pf vf) = min (unat pf) (unat vf)" by (simp add: min_def word_le_nat_alt)
  show "unat (pp_protocol_fee r) =
       min (atoms (unat price) - atoms (unat price - unat price * unat pb div 10000))
         (atoms (unat strike) * unat vb div 10000)"
    by (simp add: h(9) mn uf vf np pf fl)
  show "unat (pp_gross_premium r) = unat (pp_protocol_fee r) + unat (pp_net_premium r)"
    using h(8) by (simp add: h(9) plain_sub_eq_Ok)
qed

text \<open>
  C40. \<open>physical_premium\<close> never panics, and when it returns, the gross premium is the rounded-down
  value of the price, the protocol fee is the smaller of the premium fee and the volume fee on the
  strike notional, and the net premium is exactly the rest.
\<close>

theorem physical_premium_split:
  "physical_premium price strike q ud qd pb vb \<noteq> Panic \<and>
   (\<forall>r. physical_premium price strike q ud qd pb vb = Ok r \<longrightarrow>
      (let atoms = (\<lambda>p. exact_quote False (unat qd) (unat ud) p (unat q)) in
        unat (pp_gross_premium r) = atoms (unat price)
      \<and> unat (pp_protocol_fee r) =
         min (atoms (unat price) - atoms (unat price - unat price * unat pb div 10000))
           (atoms (unat strike) * unat vb div 10000)
      \<and> unat (pp_gross_premium r) = unat (pp_protocol_fee r) + unat (pp_net_premium r)))"
  unfolding Let_def
  by (intro conjI allI impI) (fact physical_premium_not_Panic | erule physical_premium_value)+

theorem physical_premium_split_witness:
  "\<exists>r. physical_premium 5000000000 100000000000 2000000000 9 6 500 3 = Ok r
    \<and> pp_gross_premium r = 10000000 \<and> pp_protocol_fee r = 60000
    \<and> unat (pp_gross_premium r) = unat (pp_protocol_fee r) + unat (pp_net_premium r)"
proof -
  have "physical_premium 5000000000 100000000000 2000000000 9 6 500 3 =
      Ok \<lparr>pp_gross_premium = 10000000, pp_protocol_fee = 60000, pp_net_premium = 9940000\<rparr>"
    by (simp add: physical_premium_def scaled_quote_amount_eq exact_quote_def bps_fee_def arith_eval)
  with physical_premium_split [of 5000000000 100000000000 2000000000 9 6 500 3]
  show ?thesis by simp
qed

lemma after_fee_bps_eq:
  "after_fee_bps price bps = Ok (of_nat (unat price - unat price * unat bps div 10000))"
proof -
  have b: "unat (ucast bps :: u128) = unat bps"
    by (simp add: unsigned_ucast_eq take_bit_nat_eq_self order_less_le_trans [OF unat_bounded])
  have "unat price * unat bps \<le> 2 ^ 64 * 2 ^ 16"
    using unat_bounded [of price] unat_bounded [of bps] by (intro mult_le_mono) simp_all
  then have m: "unat (u128_from price) * unat (ucast bps :: u128) < 2 ^ 128" by (simp add: b)
  define n :: u128 where "n = u128_from price * ucast bps"
  have n: "unat n = unat price * unat bps"
    using m unat_mul_small [of "u128_from price" "ucast bps"] by (simp add: b n_def)
  have d: "unat (n div 10000) = unat price * unat bps div 10000"
    by (simp add: unat_div_distrib n)
  define f where "f = (case u64_try_from (n div 10000) of None \<Rightarrow> - 1 | Some f \<Rightarrow> f)"
  have f: "unat price - unat f = unat price - unat price * unat bps div 10000"
  proof (cases "u64_try_from (n div 10000)")
    case None
    then have "unat price < unat price * unat bps div 10000"
      using unat_bounded [of price] by (simp add: u64_try_from_eq_None d)
    moreover have "unat price \<le> unat f"
      using unat_bounded [of price] None by (simp add: f_def unat_max_word)
    ultimately show ?thesis by simp
  next
    case (Some g)
    then have "unat g = unat (n div 10000)" by (simp add: u64_try_from_eq_Some)
    with Some show ?thesis by (simp add: f_def d)
  qed
  have "unat price - unat price * unat bps div 10000 < 2 ^ 64"
    using unat_bounded [of price] by (simp add: less_imp_diff_less)
  then have "saturating_sub price f = of_nat (unat price - unat price * unat bps div 10000)"
    by (simp add: word_eq_unat unat_saturating_sub f unat_of_nat del: of_nat_diff)
  then show ?thesis
    using m by (simp add: after_fee_bps_def plain_mul_def plain_div_def flip: n_def f_def)
qed

end
