(* ===== verification/Spreads.thy ===== *)
theory Spreads
  imports Scaling
begin

text \<open>
  The cash-spread arithmetic of \<^verbatim>\<open>src/src/spreads.rs\<close>: strikes, collateral, payoff, settlement and
  the premium with its protocol fee, on 64-bit words with 128-bit intermediates. \<open>price_spread\<close>
  works on floating-point numbers and is not modelled.
\<close>

section \<open>Data\<close>

datatype SpreadType = SCallSpread | SPutSpread

datatype SpreadError =
  InvalidType | InvalidStrikes | InvalidPremium | SpreadOverflow | InvalidFee
| InsufficientCollateral | InvalidPricing

record SpreadTerms =
  st_kind :: SpreadType
  st_lower_strike :: u64
  st_upper_strike :: u64
  st_quantity :: u64
  st_quote_decimals :: u8
  st_underlying_decimals :: u8

record SpreadPremium =
  sp_collateral :: u64
  sp_gross_premium :: u64
  sp_protocol_fee :: u64
  sp_net_premium :: u64
  sp_prefunded_quote :: u64

record SpreadSettlement =
  ss_holder_payoff :: u64
  ss_writer_return :: u64

section \<open>Operations\<close>

fun spread_type_u8 :: "SpreadType \<Rightarrow> u8" where
  "spread_type_u8 SCallSpread = 2"
| "spread_type_u8 SPutSpread = 3"

definition spread_type_try_from :: "u8 \<Rightarrow> (SpreadError, SpreadType) res" where
  "spread_type_try_from v =
     (if v = 2 then Ok SCallSpread else if v = 3 then Ok SPutSpread else Err InvalidType)"

definition width :: "u64 \<Rightarrow> u64 \<Rightarrow> (SpreadError, u64) res" where
  "width lower upper =
     ok_or InvalidStrikes
       (case checked_sub upper lower of None \<Rightarrow> None | Some v \<Rightarrow> if v > 0 then Some v else None)"

definition validate_strikes :: "SpreadType \<Rightarrow> u64 \<Rightarrow> u64 \<Rightarrow> (SpreadError, u64) res" where
  "validate_strikes kind lower upper =
     (if kind = SCallSpread \<and> lower = 0 then Err InvalidStrikes else width lower upper)"

definition validate_premium ::
  "SpreadType \<Rightarrow> u64 \<Rightarrow> u64 \<Rightarrow> u64 \<Rightarrow> u64 \<Rightarrow> (SpreadError, unit) res" where
  "validate_premium kind lower upper quantity price =
     bind_res (validate_strikes kind lower upper) (\<lambda>w.
     if quantity = 0 \<or> price = 0 \<or> price \<ge> w then Err InvalidPremium else Ok ())"

definition quote_amount :: "u64 \<Rightarrow> u64 \<Rightarrow> u8 \<Rightarrow> u8 \<Rightarrow> bool \<Rightarrow> (SpreadError, u64) res" where
  "quote_amount price quantity quote_decimals underlying_decimals ceil =
     (if quote_decimals > 18 \<or> underlying_decimals > 18 then Err SpreadOverflow
      else
        bind_res (pow10 quote_decimals) (\<lambda>quote_scale.
        bind_res (pow10 underlying_decimals) (\<lambda>unit_scale.
        bind_res (plain_mul 1000000000 unit_scale) (\<lambda>denominator.
        bind_res (plain_mul (u128_from price) (u128_from quantity)) (\<lambda>numerator.
        bind_res
          (if quote_scale \<le> denominator then
             bind_res (plain_div denominator quote_scale) (\<lambda>divisor.
             bind_res (plain_div numerator divisor) (\<lambda>whole.
             bind_res (if ceil then plain_mod numerator divisor else Ok 0) (\<lambda>remainder.
             plain_add whole (of_bool (ceil \<and> remainder \<noteq> 0)))))
           else
             bind_res (plain_div quote_scale denominator) (\<lambda>factor.
             ok_or SpreadOverflow (checked_mul numerator factor)))
          (\<lambda>result. ok_or SpreadOverflow (u64_try_from result)))))))"

definition collateral :: "u64 \<Rightarrow> u64 \<Rightarrow> u64 \<Rightarrow> u8 \<Rightarrow> u8 \<Rightarrow> (SpreadError, u64) res" where
  "collateral lower upper quantity quote_decimals underlying_decimals =
     bind_res (width lower upper) (\<lambda>w.
     quote_amount w quantity quote_decimals underlying_decimals True)"

definition terms_collateral :: "SpreadTerms \<Rightarrow> (SpreadError, u64) res" where
  "terms_collateral t =
     collateral (st_lower_strike t) (st_upper_strike t) (st_quantity t)
       (st_quote_decimals t) (st_underlying_decimals t)"

definition terms_quote :: "SpreadTerms \<Rightarrow> u64 \<Rightarrow> bool \<Rightarrow> (SpreadError, u64) res" where
  "terms_quote t price ceil =
     quote_amount price (st_quantity t) (st_quote_decimals t) (st_underlying_decimals t) ceil"

definition intrinsic :: "SpreadTerms \<Rightarrow> u64 \<Rightarrow> u64 \<Rightarrow> u64" where
  "intrinsic t w settlement_price =
     min (case st_kind t of
            SCallSpread \<Rightarrow> saturating_sub settlement_price (st_lower_strike t)
          | SPutSpread \<Rightarrow> saturating_sub (st_upper_strike t) settlement_price) w"

definition payoff :: "SpreadTerms \<Rightarrow> u64 \<Rightarrow> (SpreadError, u64) res" where
  "payoff t settlement_price =
     bind_res (width (st_lower_strike t) (st_upper_strike t)) (\<lambda>w.
     terms_quote t (intrinsic t w settlement_price) True)"

definition settle :: "SpreadTerms \<Rightarrow> u64 \<Rightarrow> u64 \<Rightarrow> (SpreadError, SpreadSettlement) res" where
  "settle t settlement_price actual_collateral =
     bind_res (terms_collateral t) (\<lambda>required.
     if actual_collateral < required then Err InsufficientCollateral
     else
       bind_res (payoff t settlement_price) (\<lambda>holder_payoff.
       bind_res (ok_or InsufficientCollateral (checked_sub actual_collateral holder_payoff))
         (\<lambda>writer_return.
         Ok \<lparr>ss_holder_payoff = holder_payoff, ss_writer_return = writer_return\<rparr>)))"

definition premium :: "SpreadTerms \<Rightarrow> u64 \<Rightarrow> u16 \<Rightarrow> u16 \<Rightarrow> (SpreadError, SpreadPremium) res" where
  "premium t price premium_bps volume_bps =
     bind_res (validate_premium (st_kind t) (st_lower_strike t) (st_upper_strike t)
                 (st_quantity t) price) (\<lambda>_.
     if premium_bps > 10000 \<or> volume_bps > 10000 then Err InvalidFee
     else
       bind_res (terms_collateral t) (\<lambda>coll.
       bind_res (terms_quote t price False) (\<lambda>gross.
       bind_res (width (st_lower_strike t) (st_upper_strike t)) (\<lambda>w.
       bind_res (terms_quote t w False) (\<lambda>exposure.
       if gross = 0 \<or> gross \<ge> coll \<or> exposure = 0 then Err InvalidPremium
       else
         bind_res (bps_fee SpreadOverflow price premium_bps) (\<lambda>unit_fee.
         bind_res (plain_sub price unit_fee) (\<lambda>net_price.
         bind_res (terms_quote t net_price False) (\<lambda>net_quote.
         bind_res (plain_sub gross net_quote) (\<lambda>premium_fee.
         bind_res (bps_fee SpreadOverflow exposure volume_bps) (\<lambda>volume_fee.
         let protocol_fee = min premium_fee volume_fee in
         bind_res (plain_sub gross protocol_fee) (\<lambda>net.
         bind_res (plain_sub coll net) (\<lambda>prefunded.
         Ok \<lparr>sp_collateral = coll, sp_gross_premium = gross, sp_protocol_fee = protocol_fee,
             sp_net_premium = net, sp_prefunded_quote = prefunded\<rparr>))))))))))))"

section \<open>Wire tag\<close>

interpretation spread_tag: tag_codec spread_type_u8 spread_type_try_from
proof
  show "spread_type_try_from (spread_type_u8 x) = Ok x" for x
    by (cases x) (simp_all add: spread_type_try_from_def)
  show "spread_type_try_from b = Ok x \<Longrightarrow> spread_type_u8 x = b" for b x
    by (auto simp: spread_type_try_from_def split: if_splits)
  show "spread_type_try_from b \<noteq> Panic" for b
    by (simp add: spread_type_try_from_def)
qed

section \<open>The scaled amount\<close>

lemma quote_amount_eq:
  "quote_amount p q qd ud up =
     (if qd > 18 \<or> ud > 18 \<or> 2 ^ 64 \<le> exact_quote up (unat qd) (unat ud) (unat p) (unat q)
      then Err SpreadOverflow
      else Ok (of_nat (exact_quote up (unat qd) (unat ud) (unat p) (unat q))))"
proof (cases "qd > 18 \<or> ud > 18")
  case True
  then show ?thesis by (auto simp: quote_amount_def)
next
  case False
  then have d: "unat qd \<le> 18" "unat ud \<le> 18"
    by (simp_all add: word_less_nat_alt)
  define v where "v = exact_quote up (unat qd) (unat ud) (unat p) (unat q)"
  define n where "n = u128_from p * u128_from q"
  have n: "unat n = unat p * unat q" by (simp add: n_def numerator_small)
  have final: "ok_or SpreadOverflow (u64_try_from r) = (if 2 ^ 64 \<le> v then Err SpreadOverflow else Ok (of_nat v))"
    if "unat r = v" for r :: u128
    using that by (auto simp: u64_try_from_of_unat)
  show ?thesis
  proof (cases "unat qd \<le> 9 + unat ud")
    case True
    define k where "k = (1000000000 * 10 ^ unat ud div 10 ^ unat qd :: u128)"
    have k: "unat k = 10 ^ (9 + unat ud - unat qd)" "k \<noteq> 0"
      using scale_divisor [OF d True] by (auto simp: k_def)
    have v: "v = unat n div unat k + of_bool (up \<and> unat n mod unat k \<noteq> 0)"
      by (simp add: v_def exact_quote_downscale [OF True] n k)
    have "unat n div unat k \<le> unat n" by (rule div_le_dividend)
    moreover have "unat n + 1 < 2 ^ 128" using u64_product_bound [of p q] by (simp add: n)
    ultimately have "unat n div unat k + 1 < 2 ^ 128" by linarith
    then have "v < 2 ^ 128" by (simp add: v)
    then have "unat (of_nat v :: u128) = v" by (simp add: unat_of_nat)
    moreover from this
    have "plain_add (n div k) (of_bool (up \<and> (if up then n mod k else 0) \<noteq> 0)) =
        (Ok (of_nat v) :: (SpreadError, u128) res)"
      unfolding plain_add_eq_Ok by (simp add: v unat_div_distrib unat_mod_distrib word_eq_unat)
    ultimately show ?thesis
      unfolding v_def [symmetric] using False True final k(2) scales_compare [OF d]
      by (cases up) (simp_all add: quote_amount_def pow10_small [OF d(1)] pow10_small [OF d(2)]
          denominator_small [OF d(2)] numerator_small plain_div_def plain_mod_def
          flip: n_def k_def)
  next
    case up: False
    define f where "f = (10 ^ unat qd div (1000000000 * 10 ^ unat ud) :: u128)"
    have f: "unat f = 10 ^ (unat qd - (9 + unat ud))"
      using scale_factor [OF d] up by (simp add: f_def)
    have v: "v = unat n * unat f"
      using up by (simp add: v_def exact_quote_upscale n f)
    then show ?thesis
      using False up final [of "n * f"] scales_compare [OF d]
      by (auto simp: quote_amount_def pow10_small [OF d(1)] pow10_small [OF d(2)]
          denominator_small [OF d(2)] numerator_small plain_div_def checked_mul_def unat_mul_small
          simp flip: n_def f_def v_def)
  qed
qed

lemma quote_amount_eq_Ok [res_simps]:
  "quote_amount p q qd ud up = Ok v \<longleftrightarrow>
     qd \<le> 18 \<and> ud \<le> 18 \<and> unat v = exact_quote up (unat qd) (unat ud) (unat p) (unat q)"
  by (auto simp: quote_amount_eq word_eq_unat unat_of_nat not_less dest: unat_eq_bounded)

lemma quote_amount_not_Panic [simp]: "quote_amount p q qd ud up \<noteq> Panic"
  by (simp add: quote_amount_eq)

interpretation spread_scale: price_scale "\<lambda>p. quote_amount p q qd ud up" for q qd ud up
proof
  fix p p' a
  show "quote_amount p q qd ud up \<noteq> Panic" by simp
  assume "quote_amount p q qd ud up = Ok a" "p' \<le> p"
  then show "\<exists>a'. quote_amount p' q qd ud up = Ok a' \<and> a' \<le> a"
    using exact_quote_word_mono [of a up "unat qd" "unat ud" "unat p" "unat q" "unat p'"]
    by (simp add: quote_amount_eq_Ok word_le_nat_alt)
qed

section \<open>Collateral, payoff and settlement\<close>

lemma width_eq_Ok [res_simps]:
  "width lower upper = Ok w \<longleftrightarrow> lower < upper \<and> unat upper = unat lower + unat w"
  by (auto simp: width_def checked_sub_eq_Some ok_or_eq_Ok word_gt_0 word_eq_unat
      word_less_nat_alt split: option.splits if_splits)
    (auto simp: checked_sub_def word_le_nat_alt unat_sub_small split: if_splits)

lemma width_not_Panic [simp]: "width lower upper \<noteq> Panic"
  by (simp add: width_def ok_or_eq_Panic)

lemma terms_collateral_eq_Ok:
  "terms_collateral t = Ok c \<longleftrightarrow>
     (\<exists>w. width (st_lower_strike t) (st_upper_strike t) = Ok w \<and> terms_quote t w True = Ok c)"
  by (simp add: terms_collateral_def collateral_def terms_quote_def bind_res_eq_Ok)

lemma terms_collateral_not_Panic [simp]: "terms_collateral t \<noteq> Panic"
  by (simp add: terms_collateral_def collateral_def bind_res_eq_Panic)

lemma terms_quote_not_Panic [simp]: "terms_quote t p up \<noteq> Panic"
  by (simp add: terms_quote_def)

lemma intrinsic_le_width: "intrinsic t w s \<le> w"
  by (simp add: intrinsic_def)

lemma payoff_covered:
  assumes "terms_collateral t = Ok c"
  shows "\<exists>h. payoff t s = Ok h \<and> h \<le> c"
proof -
  from assms obtain w where w: "width (st_lower_strike t) (st_upper_strike t) = Ok w"
    and q: "terms_quote t w True = Ok c"
    by (auto simp: terms_collateral_eq_Ok)
  from spread_scale.conv_mono [OF q [unfolded terms_quote_def] intrinsic_le_width]
  show ?thesis by (simp add: payoff_def w terms_quote_def)
qed

lemma settle_not_Panic: "settle t s a \<noteq> Panic"
proof (cases "terms_collateral t")
  case (Ok c)
  then obtain h where "payoff t s = Ok h" using payoff_covered by blast
  with Ok show ?thesis by (simp add: settle_def bind_res_eq_Panic ok_or_eq_Panic)
qed (simp_all add: settle_def)

lemma settle_eq_Ok:
  assumes "settle t s a = Ok r"
  obtains c where "terms_collateral t = Ok c" "c \<le> a" "payoff t s = Ok (ss_holder_payoff r)"
    "unat a = unat (ss_holder_payoff r) + unat (ss_writer_return r)"
  using assms
  by (auto simp: settle_def res_simps not_less split: if_splits)

section \<open>Premium\<close>

lemma validate_premium_eq_Ok [res_simps]:
  "validate_premium k l u q p = Ok x \<longleftrightarrow>
     (\<exists>w. validate_strikes k l u = Ok w \<and> q \<noteq> 0 \<and> p \<noteq> 0 \<and> p < w)"
  by (auto simp: validate_premium_def res_simps not_le split: if_splits)

lemma validate_strikes_eq_Ok [res_simps]:
  "validate_strikes k l u = Ok w \<longleftrightarrow> \<not> (k = SCallSpread \<and> l = 0) \<and> width l u = Ok w"
  by (auto simp: validate_strikes_def)

lemma validate_premium_not_Panic [simp]: "validate_premium k l u q p \<noteq> Panic"
  by (auto simp: validate_premium_def validate_strikes_def res_simps)

lemma premium_eq_Ok:
  assumes "premium t p pb vb = Ok r"
  shows "validate_premium (st_kind t) (st_lower_strike t) (st_upper_strike t) (st_quantity t) p = Ok ()"
    and "pb \<le> 10000" "vb \<le> 10000"
    and "terms_collateral t = Ok (sp_collateral r)"
    and "terms_quote t p False = Ok (sp_gross_premium r)"
    and "sp_gross_premium r \<noteq> 0" "sp_gross_premium r < sp_collateral r"
    and "unat (sp_gross_premium r) = unat (sp_protocol_fee r) + unat (sp_net_premium r)"
    and "unat (sp_collateral r) = unat (sp_net_premium r) + unat (sp_prefunded_quote r)"
  using assms
  by (auto simp: premium_def bind_res_eq_Ok plain_sub_eq_Ok Let_def not_less not_le split: if_splits)

lemma premium_tail_not_Panic:
  assumes bps: "unat pb \<le> 10000" and g: "terms_quote t p False = Ok gross" "gross < coll"
  shows "bind_res (bps_fee SpreadOverflow p pb) (\<lambda>uf.
      bind_res (plain_sub p uf) (\<lambda>np. bind_res (terms_quote t np False) (\<lambda>nq.
      bind_res (plain_sub gross nq) (\<lambda>pf. bind_res (bps_fee SpreadOverflow ex vb) (\<lambda>vf.
      let fee = min pf vf in bind_res (plain_sub gross fee) (\<lambda>net.
      bind_res (plain_sub coll net) (\<lambda>prefunded. Ok (f fee net prefunded)))))))) \<noteq> Panic"
proof -
  from spread_scale.premium_fee_defined [OF g(1) [unfolded terms_quote_def] bps, of SpreadOverflow]
  obtain uf np nq pf where h: "bps_fee SpreadOverflow p pb = Ok uf"
    "plain_sub p uf = (Ok np :: (SpreadError, u64) res)" "terms_quote t np False = Ok nq"
    "plain_sub gross nq = (Ok pf :: (SpreadError, u64) res)" "unat gross = unat nq + unat pf"
    unfolding terms_quote_def by blast
  have m: "unat (min pf vf) \<le> unat gross" for vf
    using h(5) by (simp add: min_def word_le_nat_alt)
  show ?thesis
    unfolding h bind_res.simps Let_def
    by (intro no_panic_intros)
      (use m g(2) in \<open>auto simp: bps_fee_not_Panic plain_sub_eq_Panic plain_sub_eq_Ok word_less_nat_alt
        not_less\<close>)
qed

lemma premium_not_Panic: "premium t p pb vb \<noteq> Panic"
  unfolding premium_def
  by (intro no_panic_intros premium_tail_not_Panic)
    (auto simp: word_less_nat_alt not_le)

text \<open>The value in quote atoms of a price per underlying token under the terms, rounded down.\<close>

definition terms_floor :: "SpreadTerms \<Rightarrow> nat \<Rightarrow> nat" where
  "terms_floor t price = exact_quote False (unat (st_quote_decimals t))
     (unat (st_underlying_decimals t)) price (unat (st_quantity t))"

lemma terms_quote_floor: "terms_quote t p False = Ok v \<Longrightarrow> unat v = terms_floor t (unat p)"
  by (simp add: terms_quote_def terms_floor_def quote_amount_eq_Ok)

lemma premium_fee_value:
  assumes "premium t p pb vb = Ok r"
  shows "unat (sp_protocol_fee r) =
     min (terms_floor t (unat p) - terms_floor t (unat p - unat p * unat pb div 10000))
       (terms_floor t (unat (st_upper_strike t) - unat (st_lower_strike t)) * unat vb div 10000)"
proof -
  have b: "unat pb \<le> 10000" "unat vb \<le> 10000"
    using premium_eq_Ok(2,3) [OF assms] by (simp_all add: word_le_nat_alt)
  from assms obtain gross w ex uf np nq pf vf where h: "terms_quote t p False = Ok gross"
    "width (st_lower_strike t) (st_upper_strike t) = Ok w" "terms_quote t w False = Ok ex"
    "bps_fee SpreadOverflow p pb = Ok uf" "plain_sub p uf = (Ok np :: (SpreadError, u64) res)"
    "terms_quote t np False = Ok nq" "plain_sub gross nq = (Ok pf :: (SpreadError, u64) res)"
    "bps_fee SpreadOverflow ex vb = Ok vf" "sp_protocol_fee r = min pf vf"
    by (auto simp: premium_def bind_res_eq_Ok Let_def split: if_splits)
  have "unat uf = unat p * unat pb div 10000" "unat vf = unat ex * unat vb div 10000"
    using bps_fee_total [OF b(1), of SpreadOverflow p] bps_fee_total [OF b(2), of SpreadOverflow ex] h
    by auto
  then show ?thesis
    using h(2) h(5,7) [unfolded plain_sub_eq_Ok] terms_quote_floor [OF h(1)] terms_quote_floor [OF h(3)] terms_quote_floor [OF h(6)]
    by (auto simp: h(9) width_eq_Ok min_def word_le_nat_alt)
qed

section \<open>Properties\<close>

definition sample_spread :: SpreadTerms where
  "sample_spread = \<lparr>st_kind = SCallSpread, st_lower_strike = 100000000000,
     st_upper_strike = 120000000000, st_quantity = 3000000001, st_quote_decimals = 6,
     st_underlying_decimals = 9\<rparr>"

lemmas spread_eval = sample_spread_def quote_amount_eq exact_quote_def bps_fee_def width_def
  terms_collateral_def collateral_def terms_quote_def validate_premium_def validate_strikes_def
  arith_eval

text \<open>
  C19. \<open>quote_amount\<close> is the exact rational \<open>price * quantity * 10^qd / 10^(9+ud)\<close> rounded down or
  up as asked; it fails, with \<open>SpreadOverflow\<close>, exactly when a mint has more than 18 decimals or the
  rounded value needs more than 64 bits. No 128-bit intermediate overflows and nothing panics.
\<close>

theorem quote_amount_exact:
  "quote_amount price quantity qd ud up =
     (let x = rational_quote (unat qd) (unat ud) (unat price) (unat quantity);
          v = (if up then \<lceil>x\<rceil> else \<lfloor>x\<rfloor>)
      in if 18 < qd \<or> 18 < ud \<or> 2 ^ 64 \<le> v then Err SpreadOverflow else Ok (of_int v))"
  unfolding Let_def exact_quote_rational [symmetric] quote_amount_eq by simp

text \<open>
  C6. Settlement of a position whose collateral is at least the required one always succeeds: the
  holder gets the payoff, which never exceeds the required collateral, the writer gets all the
  rest, and the two sum to the collateral that was locked.
\<close>

theorem settle_conserves:
  assumes "terms_collateral t = Ok c" and "c \<le> actual"
  shows "\<exists>r. settle t price actual = Ok r \<and> payoff t price = Ok (ss_holder_payoff r)
    \<and> ss_holder_payoff r \<le> c
    \<and> unat (ss_holder_payoff r) + unat (ss_writer_return r) = unat actual"
proof -
  from payoff_covered [OF assms(1)] obtain h where h: "payoff t price = Ok h" "h \<le> c" by blast
  with assms have "h \<le> actual" by simp
  with h assms show ?thesis
    by (simp add: settle_def checked_sub_def unat_sub_small word_le_nat_alt not_less)
qed

theorem settle_conserves_witness:
  "\<exists>r. settle sample_spread 107000000000 60000021 = Ok r
    \<and> payoff sample_spread 107000000000 = Ok (ss_holder_payoff r)
    \<and> ss_holder_payoff r \<le> 60000001
    \<and> unat (ss_holder_payoff r) + unat (ss_writer_return r) = unat (60000021 :: u64)"
  by (rule settle_conserves) (simp_all add: spread_eval)

text \<open>
  C18. \<open>premium\<close> never panics, and when it returns: the gross premium is positive, below the
  collateral and exactly the rounded-down value of the price; the protocol fee is the smaller of
  the premium fee and the volume fee; gross = fee + net and collateral = net + prefunded, so no
  atom is created or lost in the split.
\<close>

theorem premium_split:
  "premium t price premium_bps volume_bps \<noteq> Panic \<and>
   (\<forall>r. premium t price premium_bps volume_bps = Ok r \<longrightarrow>
      terms_collateral t = Ok (sp_collateral r)
    \<and> unat (sp_gross_premium r) = terms_floor t (unat price)
    \<and> 0 < sp_gross_premium r \<and> sp_gross_premium r < sp_collateral r
    \<and> unat (sp_protocol_fee r) =
        min (terms_floor t (unat price) - terms_floor t (unat price - unat price * unat premium_bps div 10000))
          (terms_floor t (unat (st_upper_strike t) - unat (st_lower_strike t)) * unat volume_bps div 10000)
    \<and> unat (sp_gross_premium r) = unat (sp_protocol_fee r) + unat (sp_net_premium r)
    \<and> unat (sp_collateral r) = unat (sp_net_premium r) + unat (sp_prefunded_quote r))"
proof (intro conjI allI impI)
  fix r
  assume r: "premium t price premium_bps volume_bps = Ok r"
  note ok = premium_eq_Ok [OF r]
  show "terms_collateral t = Ok (sp_collateral r)" by (rule ok)
  show "unat (sp_gross_premium r) = terms_floor t (unat price)" by (rule terms_quote_floor [OF ok(5)])
  show "0 < sp_gross_premium r" using ok(6) by (simp add: word_gt_0)
qed (fact premium_not_Panic premium_eq_Ok premium_fee_value)+

theorem premium_split_witness:
  "\<exists>r. premium sample_spread 5000000000 100 10 = Ok r \<and> sp_protocol_fee r = 60000
    \<and> unat (sp_gross_premium r) = unat (sp_protocol_fee r) + unat (sp_net_premium r)
    \<and> unat (sp_collateral r) = unat (sp_net_premium r) + unat (sp_prefunded_quote r)"
proof -
  have "premium sample_spread 5000000000 100 10 = Ok \<lparr>sp_collateral = 60000001,
      sp_gross_premium = 15000000, sp_protocol_fee = 60000, sp_net_premium = 14940000,
      sp_prefunded_quote = 45060001\<rparr>"
    by (simp add: premium_def spread_eval)
  with premium_split [of sample_spread 5000000000 100 10] show ?thesis by simp
qed

text \<open>
  Parity: over the same strikes, quantity and decimals, the payoff of the call spread and that
  of the put spread at any settlement price lying between the strikes add up to the collateral of
  one of them, up to the single atom that rounding both sides up can add.
\<close>

theorem call_put_parity:
  assumes "terms_collateral t = Ok c" and "st_lower_strike t \<le> price" and "price \<le> st_upper_strike t"
  shows "\<exists>call put. payoff (t\<lparr>st_kind := SCallSpread\<rparr>) price = Ok call
    \<and> payoff (t\<lparr>st_kind := SPutSpread\<rparr>) price = Ok put
    \<and> unat c \<le> unat call + unat put \<and> unat call + unat put \<le> unat c + 1"
proof -
  have coll: "terms_collateral (t\<lparr>st_kind := k\<rparr>) = Ok c" for k
    using assms(1) by (simp add: terms_collateral_def)
  from payoff_covered [OF coll] obtain call where
    call: "payoff (t\<lparr>st_kind := SCallSpread\<rparr>) price = Ok call" by blast
  from payoff_covered [OF coll] obtain put where
    put: "payoff (t\<lparr>st_kind := SPutSpread\<rparr>) price = Ok put" by blast
  define ex where "ex = (\<lambda>p. exact_quote True (unat (st_quote_decimals t))
    (unat (st_underlying_decimals t)) p (unat (st_quantity t)))"
  obtain w where w: "width (st_lower_strike t) (st_upper_strike t) = Ok w"
    using assms(1) by (auto simp: terms_collateral_eq_Ok)
  have wn: "unat (st_upper_strike t) = unat (st_lower_strike t) + unat w"
    using w by (simp add: width_eq_Ok)
  have le: "unat (st_lower_strike t) \<le> unat price" "unat price \<le> unat (st_upper_strike t)"
    using assms(2,3) by (simp_all add: word_le_nat_alt)
  have "unat c = ex (unat w)"
    using assms(1) w by (auto simp: terms_collateral_eq_Ok terms_quote_def quote_amount_eq_Ok ex_def)
  moreover have "unat call = ex (unat price - unat (st_lower_strike t))"
    using call w wn le by (auto simp: payoff_def terms_quote_def quote_amount_eq_Ok ex_def
        intrinsic_def min_def word_le_nat_alt unat_saturating_sub)
  moreover have "unat put = ex (unat (st_upper_strike t) - unat price)"
    using put w wn le by (auto simp: payoff_def terms_quote_def quote_amount_eq_Ok ex_def
        intrinsic_def min_def word_le_nat_alt unat_saturating_sub)
  moreover have "unat w = (unat price - unat (st_lower_strike t)) + (unat (st_upper_strike t) - unat price)"
    using wn le by linarith
  ultimately show ?thesis
    using call put exact_quote_ceil_add unfolding ex_def by auto
qed

theorem call_put_parity_witness:
  "\<exists>call put. payoff (sample_spread\<lparr>st_kind := SCallSpread\<rparr>) 107000000000 = Ok call
    \<and> payoff (sample_spread\<lparr>st_kind := SPutSpread\<rparr>) 107000000000 = Ok put
    \<and> unat (60000001 :: u64) \<le> unat call + unat put \<and> unat call + unat put \<le> unat (60000001 :: u64) + 1"
  by (rule call_put_parity) (simp_all add: spread_eval)

end
