(* ===== verification/Terms.thy ===== *)
theory Terms
  imports Spreads
begin

text \<open>
  The domain values of \<^verbatim>\<open>src/src/types\<close>: position types and option terms with their chain form
  (\<^verbatim>\<open>ids.rs\<close>). A numeric newtype is its word.
\<close>

section \<open>Option terms\<close>

datatype PositionType = CoveredCall | CashSecuredPut | CallSpread | PutSpread | CashPut

fun position_is_spread :: "PositionType \<Rightarrow> bool" where
  "position_is_spread p = (p = CallSpread \<or> p = PutSpread \<or> p = CashPut)"

fun position_is_put :: "PositionType \<Rightarrow> bool" where
  "position_is_put p = (p = CashSecuredPut \<or> p = PutSpread \<or> p = CashPut)"

datatype OptionTerms =
  TCashPut u64
| TCoveredCall u64
| TCashSecuredPut u64
| TCallSpread u64 u64
| TPutSpread u64 u64

fun position_type :: "OptionTerms \<Rightarrow> PositionType" where
  "position_type (TCashPut _) = CashPut"
| "position_type (TCoveredCall _) = CoveredCall"
| "position_type (TCashSecuredPut _) = CashSecuredPut"
| "position_type (TCallSpread _ _) = CallSpread"
| "position_type (TPutSpread _ _) = PutSpread"

definition is_spread :: "OptionTerms \<Rightarrow> bool" where
  "is_spread t = position_is_spread (position_type t)"

fun with_strike :: "OptionTerms \<Rightarrow> u64 \<Rightarrow> OptionTerms" where
  "with_strike (TCashPut _) s = TCashPut s"
| "with_strike (TCoveredCall _) s = TCoveredCall s"
| "with_strike (TCashSecuredPut _) s = TCashSecuredPut s"
| "with_strike (TCallSpread _ u) s = TCallSpread s u"
| "with_strike (TPutSpread _ u) s = TPutSpread s u"

fun strike :: "OptionTerms \<Rightarrow> u64" where
  "strike (TCashPut s) = s"
| "strike (TCoveredCall s) = s"
| "strike (TCashSecuredPut s) = s"
| "strike (TCallSpread l _) = l"
| "strike (TPutSpread l _) = l"

fun upper_strike :: "OptionTerms \<Rightarrow> u64 option" where
  "upper_strike (TCashPut s) = Some s"
| "upper_strike (TCoveredCall _) = None"
| "upper_strike (TCashSecuredPut _) = None"
| "upper_strike (TCallSpread _ u) = Some u"
| "upper_strike (TPutSpread _ u) = Some u"

datatype ChainPositionType = ChainCoveredCall | ChainCashSecuredPut | ChainCallSpread | ChainPutSpread

datatype ChainPositionTypeParseError = ChainPositionTypeParseError u8

fun chain_position_u8 :: "ChainPositionType \<Rightarrow> u8" where
  "chain_position_u8 ChainCoveredCall = 0"
| "chain_position_u8 ChainCashSecuredPut = 1"
| "chain_position_u8 ChainCallSpread = 2"
| "chain_position_u8 ChainPutSpread = 3"

definition chain_position_try_from :: "u8 \<Rightarrow> (ChainPositionTypeParseError, ChainPositionType) res" where
  "chain_position_try_from v =
     (if v = 0 then Ok ChainCoveredCall
      else if v = 1 then Ok ChainCashSecuredPut
      else if v = 2 then Ok ChainCallSpread
      else if v = 3 then Ok ChainPutSpread
      else Err (ChainPositionTypeParseError v))"

fun chain_is_spread :: "ChainPositionType \<Rightarrow> bool" where
  "chain_is_spread p = (p = ChainCallSpread \<or> p = ChainPutSpread)"

fun chain_is_put :: "ChainPositionType \<Rightarrow> bool" where
  "chain_is_put p = (p = ChainCashSecuredPut \<or> p = ChainPutSpread)"

fun uses_quote_collateral :: "ChainPositionType \<Rightarrow> bool" where
  "uses_quote_collateral p = (p \<noteq> ChainCoveredCall)"

datatype ChainTerms =
  CCoveredCall u64
| CCashSecuredPut u64
| CCallSpread u64 u64
| CPutSpread u64 u64

fun chain_position_type :: "ChainTerms \<Rightarrow> ChainPositionType" where
  "chain_position_type (CCoveredCall _) = ChainCoveredCall"
| "chain_position_type (CCashSecuredPut _) = ChainCashSecuredPut"
| "chain_position_type (CCallSpread _ _) = ChainCallSpread"
| "chain_position_type (CPutSpread _ _) = ChainPutSpread"

fun chain_strike :: "ChainTerms \<Rightarrow> u64" where
  "chain_strike (CCoveredCall s) = s"
| "chain_strike (CCashSecuredPut s) = s"
| "chain_strike (CCallSpread l _) = l"
| "chain_strike (CPutSpread l _) = l"

fun chain_upper_strike :: "ChainTerms \<Rightarrow> u64 option" where
  "chain_upper_strike (CCoveredCall _) = None"
| "chain_upper_strike (CCashSecuredPut _) = None"
| "chain_upper_strike (CCallSpread _ u) = Some u"
| "chain_upper_strike (CPutSpread _ u) = Some u"

definition from_parts ::
  "ChainPositionType \<Rightarrow> u64 \<Rightarrow> u64 option \<Rightarrow> (SpreadError, ChainTerms) res" where
  "from_parts product k upper =
     (case (product, upper) of
        (ChainCoveredCall, None) \<Rightarrow>
          if k > 0 then Ok (CCoveredCall k) else Err InvalidStrikes
      | (ChainCashSecuredPut, None) \<Rightarrow>
          if k > 0 then Ok (CCashSecuredPut k) else Err InvalidStrikes
      | (ChainCallSpread, Some u) \<Rightarrow>
          if k > 0 \<and> u > k then Ok (CCallSpread k u) else Err InvalidStrikes
      | (ChainPutSpread, Some u) \<Rightarrow>
          if u > k then Ok (CPutSpread k u) else Err InvalidStrikes
      | _ \<Rightarrow> Err InvalidStrikes)"

fun to_chain :: "OptionTerms \<Rightarrow> ChainTerms" where
  "to_chain (TCoveredCall s) = CCoveredCall s"
| "to_chain (TCashSecuredPut s) = CCashSecuredPut s"
| "to_chain (TCallSpread l u) = CCallSpread l u"
| "to_chain (TPutSpread l u) = CPutSpread l u"
| "to_chain (TCashPut s) = CPutSpread 0 s"

fun from_chain :: "ChainTerms \<Rightarrow> OptionTerms" where
  "from_chain (CCoveredCall s) = TCoveredCall s"
| "from_chain (CCashSecuredPut s) = TCashSecuredPut s"
| "from_chain (CCallSpread l u) = TCallSpread l u"
| "from_chain (CPutSpread l u) = (if l = 0 then TCashPut u else TPutSpread l u)"

definition from_chain_parts ::
  "ChainPositionType \<Rightarrow> u64 \<Rightarrow> u64 option \<Rightarrow> (SpreadError, OptionTerms) res" where
  "from_chain_parts product k upper =
     bind_res (from_parts product k upper) (\<lambda>c. Ok (from_chain c))"

datatype TakerSide = Sell | Buy

fun is_taker_buy :: "TakerSide \<Rightarrow> bool" where
  "is_taker_buy side = (side = Buy)"

interpretation chain_tag: tag_codec chain_position_u8 chain_position_try_from
proof
  show "chain_position_try_from (chain_position_u8 x) = Ok x" for x
    by (cases x) (simp_all add: chain_position_try_from_def)
  show "chain_position_try_from b = Ok x \<Longrightarrow> chain_position_u8 x = b" for b x
    by (auto simp: chain_position_try_from_def split: if_splits)
  show "chain_position_try_from b \<noteq> Panic" for b
    by (simp add: chain_position_try_from_def)
qed

text \<open>The chain terms the contract admits: positive strikes where required, ordered legs.\<close>

fun valid_chain_terms :: "ChainTerms \<Rightarrow> bool" where
  "valid_chain_terms (CCoveredCall s) = (0 < s)"
| "valid_chain_terms (CCashSecuredPut s) = (0 < s)"
| "valid_chain_terms (CCallSpread l u) = (0 < l \<and> l < u)"
| "valid_chain_terms (CPutSpread l u) = (l < u)"

lemma from_parts_eq_Ok [res_simps]:
  "from_parts p s u = Ok c \<longleftrightarrow>
     valid_chain_terms c \<and> chain_position_type c = p \<and> chain_strike c = s \<and> chain_upper_strike c = u"
  by (cases p; cases u; cases c) (auto simp: from_parts_def)

lemma from_parts_not_Panic [simp]: "from_parts p s u \<noteq> Panic"
  by (cases p; cases u) (simp_all add: from_parts_def)

lemma to_chain_from_chain [simp]: "to_chain (from_chain c) = c"
  by (cases c) simp_all

lemma spread_terms_upper: "is_spread t \<Longrightarrow> upper_strike t = chain_upper_strike (to_chain t)"
  by (cases t) (simp_all add: is_spread_def)

lemma is_spread_chain: "is_spread t = chain_is_spread (chain_position_type (to_chain t))"
  by (cases t) (simp_all add: is_spread_def)

lemma is_put_chain: "position_is_put (position_type t) = chain_is_put (chain_position_type (to_chain t))"
  by (cases t) simp_all

text \<open>
  Chain parts decode exactly: \<open>from_parts\<close> accepts a position type, a strike and an optional
  upper strike when they are the parts of valid chain terms, and returns those terms. The public
  terms read from them convert back to the same chain terms, and the only public terms that do not
  survive a round trip through the chain form are put spreads with a zero lower strike, which
  come back as the cash put.
\<close>

theorem chain_terms_roundtrip:
  "(from_parts p s u = Ok c) =
     (valid_chain_terms c \<and> chain_position_type c = p \<and> chain_strike c = s \<and> chain_upper_strike c = u)
   \<and> to_chain (from_chain c) = c
   \<and> from_chain (to_chain t) =
     (case t of TPutSpread l k \<Rightarrow> if l = 0 then TCashPut k else t | _ \<Rightarrow> t)"
  by (intro conjI from_parts_eq_Ok) (simp_all split: OptionTerms.split)

end
