(* ===== verification/Domain.thy ===== *)
theory Domain
  imports Terms
begin

text \<open>
  The smaller domain values of \<^verbatim>\<open>src/src/types\<close>: product sets (\<^verbatim>\<open>products.rs\<close>), delegate permissions
  (\<^verbatim>\<open>vault.rs\<close>), quote expiries (\<^verbatim>\<open>expiry.rs\<close>) and referral codes (\<^verbatim>\<open>invite.rs\<close>). Text is a list of
  Unicode scalar values and a \<^verbatim>\<open>SystemTime\<close> is its signed distance from the epoch in nanoseconds.
\<close>

section \<open>Product sets\<close>

type_synonym ProductSet = u8

datatype InvalidProductSet = InvalidProductSet

fun product_bit :: "PositionType \<Rightarrow> u8" where
  "product_bit CoveredCall = 1"
| "product_bit CashSecuredPut = 2"
| "product_bit CallSpread = 4"
| "product_bit PutSpread = 8"
| "product_bit CashPut = 16"

definition products_from_bits :: "u8 \<Rightarrow> (InvalidProductSet, ProductSet) res" where
  "products_from_bits bits = (if bits = 0 \<or> bits > 31 then Err InvalidProductSet else Ok bits)"

fun products_collect :: "PositionType list \<Rightarrow> u8 \<Rightarrow> (InvalidProductSet, u8) res" where
  "products_collect [] bits = Ok bits"
| "products_collect (p # ps) bits =
     (if bits AND product_bit p \<noteq> 0 then Err InvalidProductSet
      else products_collect ps (bits OR product_bit p))"

definition products_new :: "PositionType list \<Rightarrow> (InvalidProductSet, ProductSet) res" where
  "products_new ps = bind_res (products_collect ps 0) products_from_bits"

definition products_contains :: "ProductSet \<Rightarrow> PositionType \<Rightarrow> bool" where
  "products_contains s p = (s AND product_bit p \<noteq> 0)"

definition products_iter :: "ProductSet \<Rightarrow> PositionType list" where
  "products_iter s =
     filter (products_contains s) [CoveredCall, CashSecuredPut, CallSpread, PutSpread, CashPut]"

fun product_index :: "PositionType \<Rightarrow> nat" where
  "product_index CoveredCall = 0"
| "product_index CashSecuredPut = 1"
| "product_index CallSpread = 2"
| "product_index PutSpread = 3"
| "product_index CashPut = 4"

lemma product_bit_push: "product_bit p = push_bit (product_index p) 1"
  by (cases p) simp_all

lemma product_index_inject: "product_index p = product_index q \<longleftrightarrow> p = q"
  by (cases p; cases q) simp_all

lemma product_index_bound: "product_index p < 5"
  by (cases p) simp_all

lemma bit_product_bit: "bit (product_bit p) n \<longleftrightarrow> n = product_index p"
  using product_index_bound [of p] by (auto simp: product_bit_push bit_simps)

lemma products_contains_bit: "products_contains s p \<longleftrightarrow> bit s (product_index p)"
proof -
  have "s AND product_bit p = 0 \<longleftrightarrow> (\<forall>n<8. \<not> (bit s n \<and> bit (product_bit p) n))"
  proof
    assume "s AND product_bit p = 0"
    then show "\<forall>n<8. \<not> (bit s n \<and> bit (product_bit p) n)" by (metis bit_0_eq bit_and_iff bot_apply bot_bool_def)
  qed (auto simp: bit_and_iff intro!: bit_word_eqI)
  then show ?thesis
    using product_index_bound [of p] by (auto simp: products_contains_def bit_product_bit)
qed

lemma products_collect_ok:
  "products_collect ps b = Ok s \<longleftrightarrow>
     distinct ps \<and> (\<forall>p\<in>set ps. \<not> products_contains b p)
     \<and> (\<forall>n<8. bit s n \<longleftrightarrow> bit b n \<or> (\<exists>p\<in>set ps. n = product_index p))"
proof (induction ps b rule: products_collect.induct)
  case (1 b)
  show ?case by (auto simp: bit_word_eqI dest: bit_imp_le_length intro!: bit_word_eqI)
next
  case (2 p ps b)
  have c: "products_contains (b OR product_bit p) q \<longleftrightarrow> products_contains b q \<or> q = p" for q
    by (auto simp: products_contains_bit bit_or_iff bit_product_bit product_index_inject)
  show ?case
    using 2 by (auto simp: c products_contains_def [symmetric] bit_or_iff bit_product_bit
        product_index_inject)
qed

lemma high_bit_clear:
  fixes u :: u8
  assumes "u \<le> 31" "5 \<le> n"
  shows "\<not> bit u n"
proof -
  have "unat u < 2 ^ 5" using assms(1) by (simp add: word_le_nat_alt)
  then have "unat u < 2 ^ n" using assms(2) by (meson order_less_le_trans power_increasing one_le_numeral)
  then have "\<not> bit (unat u) n" by (simp add: bit_iff_odd)
  then show ?thesis by (simp add: bit_unsigned_iff)
qed

lemma products_contains_eqI:
  assumes "s \<le> 31" "t \<le> 31" and "\<And>p. products_contains s p = products_contains t p"
  shows "s = t"
proof (rule bit_word_eqI)
  fix n assume "n < LENGTH(8)"
  consider "5 \<le> n" | "n = 0" | "n = 1" | "n = 2" | "n = 3" | "n = 4" by linarith
  then show "bit s n = bit t n"
    using assms(1,2) high_bit_clear assms(3) [of CoveredCall] assms(3) [of CashSecuredPut] assms(3) [of CallSpread]
      assms(3) [of PutSpread] assms(3) [of CashPut]
    by cases (auto simp: products_contains_bit)
qed

lemma products_new_eq_Ok:
  "products_new ps = Ok s \<longleftrightarrow>
     ps \<noteq> [] \<and> distinct ps \<and> s \<le> 31 \<and> (\<forall>p. products_contains s p \<longleftrightarrow> p \<in> set ps)"
proof
  assume "products_new ps = Ok s"
  then have c: "products_collect ps 0 = Ok s" and s: "s \<noteq> 0" "s \<le> 31"
    by (auto simp: products_new_def bind_res_eq_Ok products_from_bits_def not_less split: if_splits)
  from c have d: "distinct ps"
    and m: "\<And>n. n < 8 \<Longrightarrow> bit s n \<longleftrightarrow> (\<exists>p\<in>set ps. n = product_index p)"
    by (auto simp: products_collect_ok)
  have "products_contains s p \<longleftrightarrow> p \<in> set ps" for p
    using m [of "product_index p"] product_index_bound [of p]
    by (auto simp: products_contains_bit product_index_inject)
  moreover have "ps \<noteq> []" using c s by auto
  ultimately show "ps \<noteq> [] \<and> distinct ps \<and> s \<le> 31 \<and> (\<forall>p. products_contains s p \<longleftrightarrow> p \<in> set ps)"
    using d s by simp
next
  assume r: "ps \<noteq> [] \<and> distinct ps \<and> s \<le> 31 \<and> (\<forall>p. products_contains s p \<longleftrightarrow> p \<in> set ps)"
  then have "s \<noteq> 0" by (cases ps) (auto simp: products_contains_def)
  have "bit s n \<longleftrightarrow> (\<exists>p\<in>set ps. n = product_index p)" if "n < 8" for n
  proof -
    consider "5 \<le> n" | "n = product_index CoveredCall" | "n = product_index CashSecuredPut"
      | "n = product_index CallSpread" | "n = product_index PutSpread" | "n = product_index CashPut"
      using that by fastforce
    then show ?thesis
    proof cases
      case 1
      then have "\<not> bit s n" using high_bit_clear r by blast
      moreover have "n \<noteq> product_index p" for p using 1 product_index_bound [of p] by linarith
      ultimately show ?thesis by blast
    qed (use r in \<open>auto simp: product_index_inject products_contains_bit [symmetric]
          simp del: product_index.simps\<close>)
  qed
  then have "products_collect ps 0 = Ok s"
    using r by (auto simp: products_collect_ok products_contains_def)
  then show "products_new ps = Ok s"
    using r \<open>s \<noteq> 0\<close> by (auto simp: products_new_def products_from_bits_def)
qed

lemma products_not_Panic [simp]: "products_new ps \<noteq> Panic"
proof -
  have "products_collect ps b \<noteq> Panic" for b by (induction ps arbitrary: b) auto
  then show ?thesis by (auto simp: products_new_def bind_res_eq_Panic products_from_bits_def)
qed

lemma products_iter_set: "set (products_iter s) = {p. products_contains s p}"
proof -
  have all: "set [CoveredCall, CashSecuredPut, CallSpread, PutSpread, CashPut] = UNIV"
    using PositionType.exhaust by auto
  show ?thesis unfolding products_iter_def set_filter all by simp
qed

lemma products_iter_distinct: "distinct (products_iter s)"
  by (simp add: products_iter_def)

text \<open>
  A product set is built exactly from a non-empty list without repeats, contains exactly the
  listed products, and writing out any set built from bits 1 to 31 and reading it back gives the
  same set: the serialised list is a canonical form.
\<close>

theorem products_roundtrip:
  "((\<exists>s. products_new ps = Ok s) = (ps \<noteq> [] \<and> distinct ps))
   \<and> (products_from_bits b = Ok s \<longrightarrow> products_new (products_iter s) = Ok s)
   \<and> (products_new ps = Ok s \<longrightarrow> set (products_iter s) = set ps)"
proof (intro conjI impI)
  show "(\<exists>s. products_new ps = Ok s) = (ps \<noteq> [] \<and> distinct ps)"
  proof
    assume r: "ps \<noteq> [] \<and> distinct ps"
    define s where "s = fold (\<lambda>p b. b OR product_bit p) ps 0"
    have bits: "bit (fold (\<lambda>p b. b OR product_bit p) qs b) n \<longleftrightarrow>
        bit b n \<or> (\<exists>p\<in>set qs. n = product_index p)" for qs b n
      by (induction qs arbitrary: b) (auto simp: bit_or_iff bit_product_bit)
    have "products_collect ps 0 = Ok s"
      using r by (auto simp: products_collect_ok products_contains_def s_def bits)
    moreover have "s \<noteq> 0"
    proof -
      have "bit s (product_index (hd ps))" using r by (auto simp: s_def bits)
      then show ?thesis by auto
    qed
    moreover have "s \<le> 31"
    proof -
      have "\<not> bit s n" if "5 \<le> n" for n
        using that product_index_bound by (auto simp: s_def bits not_le [symmetric])
      then have "take_bit 5 s = s" by (intro bit_word_eqI) (auto simp: bit_take_bit_iff intro: ccontr)
      then have "unat s < 2 ^ 5" by (metis take_bit_nat_less_exp unsigned_take_bit_eq)
      then show ?thesis by (simp add: word_le_nat_alt)
    qed
    ultimately show "\<exists>s. products_new ps = Ok s"
      by (auto simp: products_new_def products_from_bits_def)
  qed (auto simp: products_new_eq_Ok)
  show "products_new (products_iter s) = Ok s" if "products_from_bits b = Ok s"
  proof -
    have s: "s \<noteq> 0" "s \<le> 31" using that by (auto simp: products_from_bits_def not_less split: if_splits)
    have "products_iter s \<noteq> []"
    proof
      assume "products_iter s = []"
      then have "products_contains s p = products_contains 0 p" for p
        using products_iter_set [of s] by (auto simp: products_contains_def)
      then show False using products_contains_eqI [of s 0] s by simp
    qed
    with s show ?thesis
      by (simp add: products_new_eq_Ok products_iter_distinct products_iter_set)
  qed
qed (simp add: products_iter_set products_new_eq_Ok)

theorem products_roundtrip_witness:
  "products_from_bits 9 = Ok 9 \<and> products_new (products_iter 9) = Ok 9
   \<and> products_new [PutSpread, CoveredCall] = Ok 9 \<and> set (products_iter 9) = {PutSpread, CoveredCall}"
  using products_roundtrip [of "[PutSpread, CoveredCall]" 9 9]
  by (simp add: products_from_bits_def products_new_def)

section \<open>Delegate permissions\<close>

type_synonym VaultDelegatePermissions = u32

definition PERM_OPEN_AS_WRITER :: VaultDelegatePermissions where
  "PERM_OPEN_AS_WRITER = push_bit 0 1"
definition PERM_SIGN_HOLDER_QUOTES :: VaultDelegatePermissions where
  "PERM_SIGN_HOLDER_QUOTES = push_bit 1 1"
definition PERM_SIGN_WRITER_QUOTES :: VaultDelegatePermissions where
  "PERM_SIGN_WRITER_QUOTES = push_bit 6 1"

definition perm_contains :: "VaultDelegatePermissions \<Rightarrow> VaultDelegatePermissions \<Rightarrow> bool" where
  "perm_contains a b = (a AND b = b)"

definition perm_union ::
  "VaultDelegatePermissions \<Rightarrow> VaultDelegatePermissions \<Rightarrow> VaultDelegatePermissions" where
  "perm_union a b = a OR b"

definition can_maker :: "VaultDelegatePermissions \<Rightarrow> bool" where
  "can_maker p = perm_contains p PERM_SIGN_HOLDER_QUOTES"

definition can_write_buys :: "VaultDelegatePermissions \<Rightarrow> bool" where
  "can_write_buys p = perm_contains p PERM_SIGN_WRITER_QUOTES"

definition can_taker :: "VaultDelegatePermissions \<Rightarrow> bool" where
  "can_taker p = perm_contains p PERM_OPEN_AS_WRITER"

lemma perm_contains_bits: "perm_contains a b \<longleftrightarrow> (\<forall>n. bit b n \<longrightarrow> bit a n)"
proof
  assume "perm_contains a b"
  then show "\<forall>n. bit b n \<longrightarrow> bit a n" by (metis bit_and_iff perm_contains_def)
qed (auto simp: perm_contains_def bit_and_iff intro!: bit_word_eqI)

lemma perm_union_least:
  "perm_contains c (perm_union a b) \<longleftrightarrow> perm_contains c a \<and> perm_contains c b"
  by (auto simp: perm_contains_bits perm_union_def bit_or_iff)

section \<open>Quote expiries\<close>

type_synonym QuoteExpiry = u64
type_synonym SystemTime = int

definition time_checked_add :: "SystemTime \<Rightarrow> int \<Rightarrow> SystemTime option" where
  "time_checked_add t d = (if (t + d) div 1000000000 < 2 ^ 63 then Some (t + d) else None)"

definition from_system_time :: "SystemTime \<Rightarrow> QuoteExpiry option" where
  "from_system_time t = (if t < 0 then None else Some (of_int (t div 1000000000)))"

definition expiry_after :: "SystemTime \<Rightarrow> int \<Rightarrow> QuoteExpiry option" where
  "expiry_after now lifetime =
     (case time_checked_add now lifetime of None \<Rightarrow> None | Some t \<Rightarrow> from_system_time t)"

definition to_system_time :: "QuoteExpiry \<Rightarrow> SystemTime option" where
  "to_system_time e = time_checked_add 0 (uint e * 1000000000)"

definition remaining_from :: "QuoteExpiry \<Rightarrow> SystemTime \<Rightarrow> int option" where
  "remaining_from e now =
     (case to_system_time e of None \<Rightarrow> None | Some t \<Rightarrow> if now \<le> t then Some (t - now) else None)"

lemma to_system_time_eq:
  "to_system_time e = (if uint e < 2 ^ 63 then Some (uint e * 1000000000) else None)"
  by (simp add: to_system_time_def time_checked_add_def)

lemma expiry_time_roundtrip: "to_system_time e = Some t \<Longrightarrow> from_system_time t = Some e"
  by (auto simp: to_system_time_eq from_system_time_def split: if_splits)

text \<open>Truncation only shortens a quote: the expiry is at most the requested instant and less than a second before it.\<close>

lemma expiry_after_truncates:
  assumes "expiry_after now d = Some e"
  shows "uint e * 1000000000 \<le> now + d \<and> now + d < (uint e + 1) * 1000000000"
proof -
  from assms have n: "0 \<le> now + d" and e: "e = of_int ((now + d) div 1000000000)"
    and lt: "(now + d) div 1000000000 < 2 ^ 63"
    by (auto simp: expiry_after_def time_checked_add_def from_system_time_def split: if_splits)
  have "uint e = (now + d) div 1000000000"
    using n lt by (simp add: e uint_word_of_int_eq take_bit_int_eq_self pos_imp_zdiv_nonneg_iff)
  moreover have "0 \<le> (now + d) mod 1000000000" "(now + d) mod 1000000000 < 1000000000" by simp_all
  ultimately show ?thesis using div_mult_mod_eq [of "now + d" 1000000000]
    unfolding distrib_right by (intro conjI) linarith+
qed

section \<open>Referral codes\<close>

type_synonym rust_str = "nat list"

definition char_is_whitespace :: "nat \<Rightarrow> bool" where
  "char_is_whitespace c =
     ((9 \<le> c \<and> c \<le> 13) \<or> c = 32 \<or> c = 133 \<or> c = 160 \<or> c = 5760 \<or> (8192 \<le> c \<and> c \<le> 8202)
      \<or> c = 8232 \<or> c = 8233 \<or> c = 8239 \<or> c = 8287 \<or> c = 12288)"

definition str_trim :: "rust_str \<Rightarrow> rust_str" where
  "str_trim s = rev (dropWhile char_is_whitespace (rev (dropWhile char_is_whitespace s)))"

definition char_to_ascii_uppercase :: "nat \<Rightarrow> nat" where
  "char_to_ascii_uppercase c = (if 97 \<le> c \<and> c \<le> 122 then c - 32 else c)"

definition char_len_utf8 :: "nat \<Rightarrow> nat" where
  "char_len_utf8 c = (if c < 128 then 1 else if c < 2048 then 2 else if c < 65536 then 3 else 4)"

definition str_len :: "rust_str \<Rightarrow> nat" where
  "str_len s = sum_list (map char_len_utf8 s)"

definition is_ascii_alphanumeric :: "nat \<Rightarrow> bool" where
  "is_ascii_alphanumeric c =
     ((48 \<le> c \<and> c \<le> 57) \<or> (65 \<le> c \<and> c \<le> 90) \<or> (97 \<le> c \<and> c \<le> 122))"

definition REFERRAL_CODE_MIN_LEN :: nat where "REFERRAL_CODE_MIN_LEN = 4"
definition REFERRAL_CODE_MAX_LEN :: nat where "REFERRAL_CODE_MAX_LEN = 16"

datatype ReferralCodeFormatError = ReferralLength nat nat | ReferralCharset

definition referral_parse :: "rust_str \<Rightarrow> (ReferralCodeFormatError, rust_str) res" where
  "referral_parse input =
     (let normalized = map char_to_ascii_uppercase (str_trim input) in
      if \<not> (REFERRAL_CODE_MIN_LEN \<le> str_len normalized \<and> str_len normalized \<le> REFERRAL_CODE_MAX_LEN)
      then Err (ReferralLength REFERRAL_CODE_MIN_LEN REFERRAL_CODE_MAX_LEN)
      else if \<not> list_all is_ascii_alphanumeric normalized then Err ReferralCharset
      else Ok normalized)"

lemma str_trim_clean: "list_all is_ascii_alphanumeric s \<Longrightarrow> str_trim s = s"
proof -
  have no_ws: "is_ascii_alphanumeric c \<Longrightarrow> \<not> char_is_whitespace c" for c
    by (auto simp: is_ascii_alphanumeric_def char_is_whitespace_def)
  assume s: "list_all is_ascii_alphanumeric s"
  then have "list_all is_ascii_alphanumeric (rev s)" by (simp add: list_all_iff)
  then have "dropWhile char_is_whitespace (rev s) = rev s" by (cases "rev s") (auto simp: no_ws)
  moreover have "dropWhile char_is_whitespace s = s" using s by (cases s) (auto simp: no_ws)
  ultimately show ?thesis by (simp add: str_trim_def)
qed

lemma ascii_uppercase_idem [simp]: "char_to_ascii_uppercase (char_to_ascii_uppercase c) = char_to_ascii_uppercase c"
  by (auto simp: char_to_ascii_uppercase_def)

lemma ascii_len: "list_all is_ascii_alphanumeric s \<Longrightarrow> str_len s = length s"
  by (induction s) (auto simp: str_len_def char_len_utf8_def is_ascii_alphanumeric_def)

text \<open>
  A parsed referral code is a normal form: it has 4 to 16 characters, each an upper-case ASCII
  letter or a digit, and parsing it again (as deserialisation does) returns it unchanged.
\<close>

theorem referral_parse_canonical:
  assumes "referral_parse input = Ok code"
  shows "4 \<le> length code \<and> length code \<le> 16
    \<and> list_all (\<lambda>c. (48 \<le> c \<and> c \<le> 57) \<or> (65 \<le> c \<and> c \<le> 90)) code
    \<and> referral_parse code = Ok code"
proof -
  from assms have code: "code = map char_to_ascii_uppercase (str_trim input)"
    and len: "4 \<le> str_len code" "str_len code \<le> 16" and cs: "list_all is_ascii_alphanumeric code"
    by (auto simp: referral_parse_def Let_def REFERRAL_CODE_MIN_LEN_def REFERRAL_CODE_MAX_LEN_def
        split: if_splits)
  have up: "map char_to_ascii_uppercase code = code" by (simp add: code)
  have "is_ascii_alphanumeric c \<Longrightarrow> char_to_ascii_uppercase c = c \<Longrightarrow>
      (48 \<le> c \<and> c \<le> 57) \<or> (65 \<le> c \<and> c \<le> 90)" for c
    by (auto simp: is_ascii_alphanumeric_def char_to_ascii_uppercase_def split: if_splits)
  moreover have "\<forall>c\<in>set code. char_to_ascii_uppercase c = c"
    using up by (metis map_eq_conv map_ident)
  ultimately have "list_all (\<lambda>c. (48 \<le> c \<and> c \<le> 57) \<or> (65 \<le> c \<and> c \<le> 90)) code"
    using cs unfolding list_all_iff by blast
  moreover have "referral_parse code = Ok code"
    using len cs by (simp add: referral_parse_def str_trim_clean up REFERRAL_CODE_MIN_LEN_def
        REFERRAL_CODE_MAX_LEN_def)
  ultimately show ?thesis using len by (simp add: ascii_len [OF cs])
qed

theorem referral_parse_canonical_witness:
  "referral_parse [32, 97, 99, 84, 57, 53, 160] = Ok [65, 67, 84, 57, 53]
   \<and> referral_parse [65, 67, 84, 57, 53] = Ok [65, 67, 84, 57, 53]"
proof -
  have ok: "referral_parse [32, 97, 99, 84, 57, 53, 160] = Ok [65, 67, 84, 57, 53]"
    by (simp add: referral_parse_def str_trim_def char_is_whitespace_def char_to_ascii_uppercase_def
        str_len_def char_len_utf8_def is_ascii_alphanumeric_def REFERRAL_CODE_MIN_LEN_def
        REFERRAL_CODE_MAX_LEN_def)
  with referral_parse_canonical [OF ok] show ?thesis by simp
qed

end
