(* ===== verification/Orders.thy ===== *)
theory Orders
  imports Domain
begin

text \<open>
  The signed order of \<^verbatim>\<open>src/src/orders\<close>: the two preimage layouts (physical, 182 bytes, and
  spread, 190 bytes), the order id, and the signers of \<^verbatim>\<open>orders/mod.rs\<close> and \<^verbatim>\<open>signing.rs\<close> with the
  text codecs of \<^verbatim>\<open>wire.rs\<close>. SHA-256, Ed25519, base58 and hex come from other crates: they are the
  fields of the parameter \<open>crypto\<close>.
\<close>

section \<open>External functions\<close>

record crypto =
  cr_sha256 :: "bytes \<Rightarrow> bytes"
  cr_public :: "bytes \<Rightarrow> key"
  cr_sign :: "bytes \<Rightarrow> bytes \<Rightarrow> bytes"
  cr_valid_key :: "key \<Rightarrow> bool"
  cr_verify :: "key \<Rightarrow> bytes \<Rightarrow> bytes \<Rightarrow> bool"
  cr_verify_strict :: "key \<Rightarrow> bytes \<Rightarrow> bytes \<Rightarrow> bool"
  cr_hex_encode :: "bytes \<Rightarrow> string"
  cr_hex_decode :: "string \<Rightarrow> bytes option"
  cr_b58_encode :: "bytes \<Rightarrow> string"
  cr_b58_decode :: "string \<Rightarrow> bytes option"

section \<open>Text codecs\<close>

datatype WireError = InvalidHex | InvalidBase58 | InvalidLength nat nat

definition strip_0x :: "string \<Rightarrow> string" where
  "strip_0x s = (if take 2 s = ''0x'' then drop 2 s else s)"

definition decode_hex_32 :: "crypto \<Rightarrow> string \<Rightarrow> (WireError, bytes) res" where
  "decode_hex_32 cr s =
     bind_res (ok_or InvalidHex (cr_hex_decode cr (strip_0x s))) (\<lambda>bs.
     if length bs \<noteq> 32 then Err (InvalidLength 32 (length bs)) else Ok bs)"

definition decode_base58_fixed :: "crypto \<Rightarrow> nat \<Rightarrow> string \<Rightarrow> (WireError, bytes) res" where
  "decode_base58_fixed cr n s =
     bind_res (ok_or InvalidBase58 (cr_b58_decode cr s)) (\<lambda>bs.
     if length bs \<noteq> n then Err (InvalidLength n (length bs)) else Ok bs)"

section \<open>Writing a fixed layout\<close>

text \<open>\<^verbatim>\<open>buf[a..b].copy_from_slice(bs)\<close> panics unless the range is in bounds and the lengths agree.\<close>

definition copy_range :: "nat \<Rightarrow> nat \<Rightarrow> bytes \<Rightarrow> bytes \<Rightarrow> ('e, bytes) res" where
  "copy_range a b bs buf =
     (if a \<le> b \<and> b \<le> length buf \<and> length bs = b - a then Ok (take a buf @ bs @ drop b buf) else Panic)"

definition set_byte :: "nat \<Rightarrow> u8 \<Rightarrow> bytes \<Rightarrow> ('e, bytes) res" where
  "set_byte i v buf = (if i < length buf then Ok (buf[i := v]) else Panic)"

section \<open>Physical orders\<close>

definition ORDER_DOMAIN_TAG :: bytes where "ORDER_DOMAIN_TAG = [65, 67, 84, 65]"

definition TAG_LEN :: nat where "TAG_LEN = 4"
definition CHAIN_ID_LEN :: nat where "CHAIN_ID_LEN = 8"
definition PUBKEY_LEN :: nat where "PUBKEY_LEN = 32"
definition BOOL_LEN :: nat where "BOOL_LEN = 1"
definition U64_LEN :: nat where "U64_LEN = 8"
definition HEADER_LEN :: nat where "HEADER_LEN = TAG_LEN + CHAIN_ID_LEN + PUBKEY_LEN"
definition OFF_IS_TAKER_BUY :: nat where "OFF_IS_TAKER_BUY = 0"
definition OFF_POSITION_TYPE :: nat where "OFF_POSITION_TYPE = OFF_IS_TAKER_BUY + BOOL_LEN"
definition OFF_MARKET :: nat where "OFF_MARKET = OFF_POSITION_TYPE + BOOL_LEN"
definition OFF_STRIKE :: nat where "OFF_STRIKE = OFF_MARKET + PUBKEY_LEN"
definition OFF_QUANTITY :: nat where "OFF_QUANTITY = OFF_STRIKE + U64_LEN"
definition OFF_GROSS_PRICE :: nat where "OFF_GROSS_PRICE = OFF_QUANTITY + U64_LEN"
definition OFF_VALID_UNTIL :: nat where "OFF_VALID_UNTIL = OFF_GROSS_PRICE + U64_LEN"
definition OFF_MAKER :: nat where "OFF_MAKER = OFF_VALID_UNTIL + U64_LEN"
definition OFF_TAKER :: nat where "OFF_TAKER = OFF_MAKER + PUBKEY_LEN"
definition OFF_NONCE :: nat where "OFF_NONCE = OFF_TAKER + PUBKEY_LEN"

definition ORDER_PREIMAGE_LEN :: nat where
  "ORDER_PREIMAGE_LEN = TAG_LEN + CHAIN_ID_LEN + PUBKEY_LEN + BOOL_LEN + BOOL_LEN + PUBKEY_LEN
     + U64_LEN + U64_LEN + U64_LEN + U64_LEN + PUBKEY_LEN + PUBKEY_LEN + U64_LEN"

lemmas layout_consts = TAG_LEN_def CHAIN_ID_LEN_def PUBKEY_LEN_def BOOL_LEN_def U64_LEN_def
  HEADER_LEN_def OFF_IS_TAKER_BUY_def OFF_POSITION_TYPE_def OFF_MARKET_def OFF_STRIKE_def
  OFF_QUANTITY_def OFF_GROSS_PRICE_def OFF_VALID_UNTIL_def OFF_MAKER_def OFF_TAKER_def
  OFF_NONCE_def ORDER_PREIMAGE_LEN_def

record OrderPreimageArgs =
  oa_chain_id :: u64
  oa_program_id :: key
  oa_side :: TakerSide
  oa_position_type :: PositionType
  oa_market :: key
  oa_strike :: u64
  oa_quantity :: u64
  oa_gross_price :: u64
  oa_valid_until :: u64
  oa_maker :: key
  oa_taker :: key
  oa_nonce :: u64

datatype OrderError =
  SpreadLayoutRequired | KeypairPublicKeyMismatch | InvalidSigningKey | InvalidVerifyingKey
| InvalidSignature | OrderWire WireError

definition build_physical_order_preimage :: "OrderPreimageArgs \<Rightarrow> bool \<Rightarrow> (OrderError, bytes) res" where
  "build_physical_order_preimage args is_put =
     (let b = HEADER_LEN in
      bind_res (copy_range 0 TAG_LEN ORDER_DOMAIN_TAG (replicate ORDER_PREIMAGE_LEN 0)) (\<lambda>buf.
      bind_res (copy_range TAG_LEN (TAG_LEN + CHAIN_ID_LEN) (u64_le (oa_chain_id args)) buf) (\<lambda>buf.
      bind_res (copy_range (TAG_LEN + CHAIN_ID_LEN) HEADER_LEN (oa_program_id args) buf) (\<lambda>buf.
      bind_res (set_byte (b + OFF_IS_TAKER_BUY) (of_bool (is_taker_buy (oa_side args))) buf) (\<lambda>buf.
      bind_res (set_byte (b + OFF_POSITION_TYPE) (of_bool is_put) buf) (\<lambda>buf.
      bind_res (copy_range (b + OFF_MARKET) (b + OFF_MARKET + PUBKEY_LEN) (oa_market args) buf) (\<lambda>buf.
      bind_res (copy_range (b + OFF_STRIKE) (b + OFF_STRIKE + U64_LEN) (u64_le (oa_strike args)) buf) (\<lambda>buf.
      bind_res (copy_range (b + OFF_QUANTITY) (b + OFF_QUANTITY + U64_LEN) (u64_le (oa_quantity args)) buf) (\<lambda>buf.
      bind_res (copy_range (b + OFF_GROSS_PRICE) (b + OFF_GROSS_PRICE + U64_LEN) (u64_le (oa_gross_price args)) buf) (\<lambda>buf.
      bind_res (copy_range (b + OFF_VALID_UNTIL) (b + OFF_VALID_UNTIL + U64_LEN) (u64_le (oa_valid_until args)) buf) (\<lambda>buf.
      bind_res (copy_range (b + OFF_MAKER) (b + OFF_MAKER + PUBKEY_LEN) (oa_maker args) buf) (\<lambda>buf.
      bind_res (copy_range (b + OFF_TAKER) (b + OFF_TAKER + PUBKEY_LEN) (oa_taker args) buf) (\<lambda>buf.
      copy_range (b + OFF_NONCE) (b + OFF_NONCE + U64_LEN) (u64_le (oa_nonce args)) buf)))))))))))))"

definition build_order_preimage :: "OrderPreimageArgs \<Rightarrow> (OrderError, bytes) res" where
  "build_order_preimage args =
     (if position_is_spread (oa_position_type args) then Err SpreadLayoutRequired
      else build_physical_order_preimage args (oa_position_type args = CashSecuredPut))"

definition hash_order_preimage :: "crypto \<Rightarrow> bytes \<Rightarrow> bytes" where
  "hash_order_preimage cr preimage = cr_sha256 cr preimage"

definition compute_order_id :: "crypto \<Rightarrow> OrderPreimageArgs \<Rightarrow> (OrderError, bytes) res" where
  "compute_order_id cr args =
     bind_res (build_order_preimage args) (\<lambda>p. Ok (hash_order_preimage cr p))"

section \<open>Spread orders\<close>

record SpreadOrderPreimageArgs =
  so_chain_id :: u64
  so_program_id :: key
  so_side :: TakerSide
  so_position_type :: SpreadType
  so_market :: key
  so_lower_strike :: u64
  so_upper_strike :: u64
  so_quantity :: u64
  so_gross_price :: u64
  so_valid_until :: u64
  so_maker :: key
  so_taker :: key
  so_nonce :: u64

definition SPREAD_ORDER_PREIMAGE_LEN :: nat where "SPREAD_ORDER_PREIMAGE_LEN = 190"

fun write_u64s :: "(nat \<times> u64) list \<Rightarrow> bytes \<Rightarrow> ('e, bytes) res" where
  "write_u64s [] buf = Ok buf"
| "write_u64s ((off, v) # ws) buf =
     bind_res (copy_range off (off + 8) (u64_le v) buf) (\<lambda>buf. write_u64s ws buf)"

definition build_spread_order_preimage :: "SpreadOrderPreimageArgs \<Rightarrow> (SpreadError, bytes) res" where
  "build_spread_order_preimage args =
     bind_res (validate_premium (so_position_type args) (so_lower_strike args) (so_upper_strike args)
       (so_quantity args) (so_gross_price args)) (\<lambda>_.
     bind_res (copy_range 0 4 ORDER_DOMAIN_TAG (replicate SPREAD_ORDER_PREIMAGE_LEN 0)) (\<lambda>buf.
     bind_res (copy_range 4 12 (u64_le (so_chain_id args)) buf) (\<lambda>buf.
     bind_res (copy_range 12 44 (so_program_id args) buf) (\<lambda>buf.
     bind_res (set_byte 44 (of_bool (is_taker_buy (so_side args))) buf) (\<lambda>buf.
     bind_res (set_byte 45 (spread_type_u8 (so_position_type args)) buf) (\<lambda>buf.
     bind_res (copy_range 46 78 (so_market args) buf) (\<lambda>buf.
     bind_res (write_u64s [(78, so_lower_strike args), (86, so_quantity args),
        (94, so_gross_price args), (102, so_valid_until args), (174, so_nonce args),
        (182, so_upper_strike args)] buf) (\<lambda>buf.
     bind_res (copy_range 110 142 (so_maker args) buf) (\<lambda>buf.
     copy_range 142 174 (so_taker args) buf)))))))))"

definition compute_spread_order_id :: "crypto \<Rightarrow> SpreadOrderPreimageArgs \<Rightarrow> (SpreadError, bytes) res" where
  "compute_spread_order_id cr args =
     bind_res (build_spread_order_preimage args) (\<lambda>p. Ok (cr_sha256 cr p))"

section \<open>Signers\<close>

record signer =
  sg_pubkey :: key
  sg_sign :: "bytes \<Rightarrow> bytes"

definition pubkey_base58 :: "crypto \<Rightarrow> signer \<Rightarrow> string" where
  "pubkey_base58 cr s = cr_b58_encode cr (sg_pubkey s)"

definition sign_message_base58 :: "crypto \<Rightarrow> signer \<Rightarrow> bytes \<Rightarrow> string" where
  "sign_message_base58 cr s msg = cr_b58_encode cr (sg_sign s msg)"

definition bytes_signer_from_secret :: "crypto \<Rightarrow> bytes \<Rightarrow> signer" where
  "bytes_signer_from_secret cr secret = \<lparr>sg_pubkey = cr_public cr secret, sg_sign = cr_sign cr secret\<rparr>"

definition bytes_signer_from_keypair :: "crypto \<Rightarrow> bytes \<Rightarrow> (OrderError, signer) res" where
  "bytes_signer_from_keypair cr keypair =
     bind_res (slice_res 0 32 keypair) (\<lambda>secret.
     let s = bytes_signer_from_secret cr secret in
     bind_res (slice_res 32 64 keypair) (\<lambda>public.
     if sg_pubkey s \<noteq> public then Err KeypairPublicKeyMismatch else Ok s))"

definition sign_order_id_with_signer :: "bytes \<Rightarrow> signer \<Rightarrow> bytes" where
  "sign_order_id_with_signer order_id s = sg_sign s order_id"

definition sign_spread_order ::
  "crypto \<Rightarrow> SpreadOrderPreimageArgs \<Rightarrow> signer \<Rightarrow> (SpreadError, bytes \<times> bytes) res" where
  "sign_spread_order cr args s =
     bind_res (compute_spread_order_id cr args) (\<lambda>order_id.
     Ok (order_id, sign_order_id_with_signer order_id s))"

definition verify_order_id_signature_bytes ::
  "crypto \<Rightarrow> bytes \<Rightarrow> bytes \<Rightarrow> key \<Rightarrow> (OrderError, unit) res" where
  "verify_order_id_signature_bytes cr order_id signature verifying_key =
     (if \<not> cr_valid_key cr verifying_key then Err InvalidVerifyingKey
      else if cr_verify cr verifying_key order_id signature then Ok () else Err InvalidSignature)"

definition verify_order_id_signature_base58 ::
  "crypto \<Rightarrow> string \<Rightarrow> string \<Rightarrow> string \<Rightarrow> (OrderError, unit) res" where
  "verify_order_id_signature_base58 cr order_id_hex signature_base58 pubkey =
     bind_res (map_err OrderWire (decode_hex_32 cr order_id_hex)) (\<lambda>order_id.
     bind_res (map_err OrderWire (decode_base58_fixed cr 64 signature_base58)) (\<lambda>signature.
     bind_res (map_err OrderWire (decode_base58_fixed cr 32 pubkey)) (\<lambda>pk.
     verify_order_id_signature_bytes cr order_id signature pk)))"

definition sign_order_id_from_base58_keypair ::
  "crypto \<Rightarrow> string \<Rightarrow> string \<Rightarrow> (OrderError, string) res" where
  "sign_order_id_from_base58_keypair cr order_id_hex keypair_base58 =
     bind_res (map_err OrderWire (decode_hex_32 cr order_id_hex)) (\<lambda>order_id.
     bind_res (map_err OrderWire (decode_base58_fixed cr 64 keypair_base58)) (\<lambda>keypair.
     bind_res (bytes_signer_from_keypair cr keypair) (\<lambda>s.
     Ok (sign_message_base58 cr s order_id))))"

text \<open>An asynchronous signer returns a signature or an error; the future itself is not modelled.\<close>

datatype SigningError = SignerFailed string | SignerInvalidKey | SignerWrongSignature

record async_signer =
  as_pubkey :: key
  as_sign :: "bytes \<Rightarrow> (SigningError, bytes) res"

definition sign_verified :: "crypto \<Rightarrow> async_signer \<Rightarrow> bytes \<Rightarrow> (SigningError, bytes) res" where
  "sign_verified cr s message =
     bind_res (as_sign s message) (\<lambda>signature.
     if \<not> cr_valid_key cr (as_pubkey s) then Err SignerInvalidKey
     else if \<not> cr_verify_strict cr (as_pubkey s) message signature then Err SignerWrongSignature
     else Ok signature)"

section \<open>Layouts\<close>

lemma set_byte_copy: "set_byte i v buf = copy_range i (i + 1) [v] buf"
  by (simp add: set_byte_def copy_range_def upd_conv_take_nth_drop Suc_le_eq)

lemma copy_range_next:
  assumes "length p = a" "b = a + length bs" "length bs \<le> k"
  shows "copy_range a b bs (p @ replicate k 0) = Ok ((p @ bs) @ replicate (k - length bs) 0)"
  using assms by (simp add: copy_range_def)

definition wf_order_args :: "OrderPreimageArgs \<Rightarrow> bool" where
  "wf_order_args a = (is_key (oa_program_id a) \<and> is_key (oa_market a) \<and> is_key (oa_maker a)
     \<and> is_key (oa_taker a))"

definition wf_spread_args :: "SpreadOrderPreimageArgs \<Rightarrow> bool" where
  "wf_spread_args a = (is_key (so_program_id a) \<and> is_key (so_market a) \<and> is_key (so_maker a)
     \<and> is_key (so_taker a))"

definition physical_layout :: "OrderPreimageArgs \<Rightarrow> bool \<Rightarrow> bytes" where
  "physical_layout a is_put = ORDER_DOMAIN_TAG @ u64_le (oa_chain_id a) @ oa_program_id a
     @ [of_bool (is_taker_buy (oa_side a)), of_bool is_put] @ oa_market a @ u64_le (oa_strike a)
     @ u64_le (oa_quantity a) @ u64_le (oa_gross_price a) @ u64_le (oa_valid_until a)
     @ oa_maker a @ oa_taker a @ u64_le (oa_nonce a)"

definition spread_layout :: "SpreadOrderPreimageArgs \<Rightarrow> bytes" where
  "spread_layout a = ORDER_DOMAIN_TAG @ u64_le (so_chain_id a) @ so_program_id a
     @ [of_bool (is_taker_buy (so_side a)), spread_type_u8 (so_position_type a)] @ so_market a
     @ u64_le (so_lower_strike a) @ u64_le (so_quantity a) @ u64_le (so_gross_price a)
     @ u64_le (so_valid_until a) @ so_maker a @ so_taker a @ u64_le (so_nonce a)
     @ u64_le (so_upper_strike a)"

lemma length_tag [simp]: "length ORDER_DOMAIN_TAG = 4"
  by (simp add: ORDER_DOMAIN_TAG_def)

lemma build_physical_layout:
  assumes "wf_order_args a"
  shows "build_physical_order_preimage a is_put = Ok (physical_layout a is_put)"
proof -
  have start: "replicate ORDER_PREIMAGE_LEN 0 = [] @ replicate 182 (0 :: u8)"
    by (simp add: layout_consts)
  have len: "length (oa_program_id a) = 32" "length (oa_market a) = 32" "length (oa_maker a) = 32"
    "length (oa_taker a) = 32"
    using assms by (simp_all add: wf_order_args_def)
  show ?thesis
    unfolding build_physical_order_preimage_def physical_layout_def start Let_def set_byte_copy
    by (simp add: copy_range_next layout_consts len del: append.simps append_assoc)
qed

lemma build_spread_layout:
  assumes "wf_spread_args a"
  shows "build_spread_order_preimage a =
    bind_res (validate_premium (so_position_type a) (so_lower_strike a) (so_upper_strike a)
      (so_quantity a) (so_gross_price a)) (\<lambda>_. Ok (spread_layout a))"
proof -
  have len: "length (so_program_id a) = 32" "length (so_market a) = 32" "length (so_maker a) = 32"
    "length (so_taker a) = 32"
    using assms by (simp_all add: wf_spread_args_def)
  show ?thesis
    unfolding build_spread_order_preimage_def spread_layout_def set_byte_copy
    by (simp add: copy_range_def len SPREAD_ORDER_PREIMAGE_LEN_def)
qed

text \<open>The message that either kind of order is hashed from.\<close>

fun signed_message :: "OrderPreimageArgs + SpreadOrderPreimageArgs \<Rightarrow> bytes option" where
  "signed_message (Inl a) = (case build_order_preimage a of Ok m \<Rightarrow> Some m | _ \<Rightarrow> None)"
| "signed_message (Inr a) = (case build_spread_order_preimage a of Ok m \<Rightarrow> Some m | _ \<Rightarrow> None)"

fun wf_order :: "OrderPreimageArgs + SpreadOrderPreimageArgs \<Rightarrow> bool" where
  "wf_order (Inl a) = wf_order_args a"
| "wf_order (Inr a) = wf_spread_args a"

lemma length_layouts:
  "wf_order_args a \<Longrightarrow> length (physical_layout a p) = 182"
  "wf_spread_args b \<Longrightarrow> length (spread_layout b) = 190"
  by (simp_all add: wf_order_args_def wf_spread_args_def physical_layout_def spread_layout_def)

lemma signed_message_physical:
  "wf_order_args a \<Longrightarrow> signed_message (Inl a) = Some m \<longleftrightarrow>
     \<not> position_is_spread (oa_position_type a) \<and> m = physical_layout a (oa_position_type a = CashSecuredPut)"
  by (auto simp: build_order_preimage_def build_physical_layout split: res.splits if_splits)

lemma signed_message_spread:
  "wf_spread_args a \<Longrightarrow> signed_message (Inr a) = Some m \<Longrightarrow> m = spread_layout a"
  by (auto simp: build_spread_layout bind_res_eq_Ok split: res.splits)

lemma is_taker_buy_inject: "is_taker_buy a = is_taker_buy b \<longleftrightarrow> a = b"
  by (cases a; cases b) simp_all

lemma of_bool_u8_inject: "(of_bool a :: u8) = of_bool b \<longleftrightarrow> a = b"
  by (cases a; cases b) simp_all

lemma physical_layout_inject:
  assumes "wf_order_args a" "wf_order_args b" "\<not> position_is_spread (oa_position_type a)"
    "\<not> position_is_spread (oa_position_type b)"
    and eq: "physical_layout a (oa_position_type a = CashSecuredPut) =
      physical_layout b (oa_position_type b = CashSecuredPut)"
  shows "a = b"
proof -
  have "oa_position_type a = oa_position_type b"
    if "(oa_position_type a = CashSecuredPut) = (oa_position_type b = CashSecuredPut)"
    using that assms(3,4) by (cases "oa_position_type a"; cases "oa_position_type b") simp_all
  then show ?thesis
    using eq assms(1,2) unfolding physical_layout_def
    by (simp add: wf_order_args_def is_taker_buy_inject of_bool_u8_inject
        del: is_taker_buy.simps)
qed

lemma spread_layout_inject:
  assumes "wf_spread_args a" "wf_spread_args b" and eq: "spread_layout a = spread_layout b"
  shows "a = b"
  using eq assms(1,2) unfolding spread_layout_def
  by (simp add: wf_spread_args_def is_taker_buy_inject of_bool_u8_inject spread_tag.to_tag_inject
      del: is_taker_buy.simps)

section \<open>Properties\<close>

text \<open>
  The preimage of an order is its documented layout: for arguments with 32-byte keys the
  builders never panic, a physical order of a spread position type is refused, every other one is
  the 182-byte concatenation of its fields, and a spread order that passes the premium check is
  the 190-byte one, although the source writes it field by field and out of order.
\<close>

theorem order_preimage_layout:
  assumes "wf_order_args a" and "wf_spread_args b"
  shows "build_order_preimage a = (if position_is_spread (oa_position_type a) then Err SpreadLayoutRequired
      else Ok (physical_layout a (oa_position_type a = CashSecuredPut)))
    \<and> length (physical_layout a (oa_position_type a = CashSecuredPut)) = ORDER_PREIMAGE_LEN
    \<and> build_spread_order_preimage b = bind_res (validate_premium (so_position_type b)
        (so_lower_strike b) (so_upper_strike b) (so_quantity b) (so_gross_price b))
        (\<lambda>_. Ok (spread_layout b))
    \<and> length (spread_layout b) = SPREAD_ORDER_PREIMAGE_LEN"
  using assms
  by (simp add: build_order_preimage_def build_physical_layout build_spread_layout length_layouts
      layout_consts SPREAD_ORDER_PREIMAGE_LEN_def)

definition sample_order :: OrderPreimageArgs where
  "sample_order = \<lparr>oa_chain_id = 0, oa_program_id = replicate 32 1, oa_side = Buy,
     oa_position_type = CashSecuredPut, oa_market = replicate 32 2, oa_strike = 100, oa_quantity = 7,
     oa_gross_price = 3, oa_valid_until = 1000, oa_maker = replicate 32 3, oa_taker = replicate 32 4,
     oa_nonce = 9\<rparr>"

definition sample_spread_order :: SpreadOrderPreimageArgs where
  "sample_spread_order = \<lparr>so_chain_id = 0, so_program_id = replicate 32 1, so_side = Sell,
     so_position_type = SPutSpread, so_market = replicate 32 2, so_lower_strike = 0,
     so_upper_strike = 100, so_quantity = 7, so_gross_price = 3, so_valid_until = 1000,
     so_maker = replicate 32 3, so_taker = replicate 32 4, so_nonce = 9\<rparr>"

lemma sample_orders_wf: "wf_order_args sample_order" "wf_spread_args sample_spread_order"
  by (simp_all add: sample_order_def sample_spread_order_def wf_order_args_def wf_spread_args_def)

theorem order_preimage_layout_witness:
  "build_order_preimage sample_order = Ok (physical_layout sample_order True)
   \<and> build_spread_order_preimage sample_spread_order = Ok (spread_layout sample_spread_order)"
  using order_preimage_layout [OF sample_orders_wf]
  by (simp add: sample_order_def sample_spread_order_def validate_premium_def validate_strikes_def
      width_def checked_sub_def)

lemma signed_message_inject:
  assumes "wf_order x" and "wf_order y" and "signed_message x = Some m" and "signed_message y = Some m"
  shows "x = y"
proof (cases x)
  case x: (Inl a)
  show ?thesis
  proof (cases y)
    case (Inl b)
    then show ?thesis
      using x assms physical_layout_inject [of a b] by (simp add: signed_message_physical del: signed_message.simps)
  next
    case (Inr b)
    have "length m = 182" using x assms by (auto simp: signed_message_physical length_layouts simp del: signed_message.simps)
    moreover have "length m = 190"
      using Inr assms signed_message_spread [of b m] by (simp add: length_layouts del: signed_message.simps)
    ultimately show ?thesis by simp
  qed
next
  case x: (Inr a)
  have m: "m = spread_layout a" using x assms signed_message_spread by (auto simp del: signed_message.simps)
  show ?thesis
  proof (cases y)
    case (Inl b)
    have "length m = 182" using Inl assms by (auto simp: signed_message_physical length_layouts simp del: signed_message.simps)
    then show ?thesis using x assms by (simp add: m length_layouts)
  next
    case (Inr b)
    then have "m = spread_layout b" using assms signed_message_spread by (auto simp del: signed_message.simps)
    then show ?thesis using x Inr m assms spread_layout_inject by auto
  qed
qed

text \<open>
  C20. The signed message binds every field: two orders, physical or spread, with the same message
  are the same order. In particular no physical order shares its message with a spread order, and
  an order id identifies one order up to a SHA-256 collision.
\<close>

theorem order_message_binds:
  assumes "wf_order x" and "wf_order y" and "signed_message x = Some m" and "signed_message y = Some m"
  shows "x = y"
  using assms by (rule signed_message_inject)

theorem order_message_binds_witness:
  "signed_message (Inl sample_order) = Some (physical_layout sample_order True)
   \<and> signed_message (Inl (sample_order\<lparr>oa_nonce := 10\<rparr>)) \<noteq> Some (physical_layout sample_order True)"
proof -
  have m: "signed_message (Inl sample_order) = Some (physical_layout sample_order True)"
    using signed_message_physical [OF sample_orders_wf(1)] by (simp add: sample_order_def)
  have "sample_order \<noteq> sample_order\<lparr>oa_nonce := 10\<rparr>" "wf_order_args (sample_order\<lparr>oa_nonce := 10\<rparr>)"
    by (simp_all add: sample_order_def wf_order_args_def)
  with m order_message_binds [of "Inl sample_order" "Inl (sample_order\<lparr>oa_nonce := 10\<rparr>)"]
    sample_orders_wf
  show ?thesis by auto
qed

section \<open>Signing and verifying\<close>

text \<open>What the Ed25519 and base58 crates document, as the two named hypotheses below.\<close>

definition ed25519_correct :: "crypto \<Rightarrow> bool" where
  "ed25519_correct cr = (\<forall>secret msg. length secret = 32 \<longrightarrow>
     length (cr_public cr secret) = 32 \<and> length (cr_sign cr secret msg) = 64
     \<and> cr_valid_key cr (cr_public cr secret)
     \<and> cr_verify cr (cr_public cr secret) msg (cr_sign cr secret msg))"

definition base58_roundtrip :: "crypto \<Rightarrow> bool" where
  "base58_roundtrip cr = (\<forall>bs. cr_b58_decode cr (cr_b58_encode cr bs) = Some bs)"

lemma decode_base58_fixed_eq_Ok [res_simps]:
  "decode_base58_fixed cr n s = Ok bs \<longleftrightarrow> cr_b58_decode cr s = Some bs \<and> length bs = n"
  by (auto simp: decode_base58_fixed_def res_simps split: if_splits)

lemma from_keypair_eq_Ok [res_simps]:
  assumes "length kp = 64"
  shows "bytes_signer_from_keypair cr kp = Ok s \<longleftrightarrow>
     cr_public cr (take 32 kp) = drop 32 kp
     \<and> s = \<lparr>sg_pubkey = drop 32 kp, sg_sign = cr_sign cr (take 32 kp)\<rparr>"
  using assms
  by (auto simp: bytes_signer_from_keypair_def slice_res_def bytes_signer_from_secret_def Let_def)

text \<open>
  Signing an order id with a base58 keypair and verifying it with that keypair's public half
  succeeds: the two text paths agree on the decoded id and on the key. The keypair is refused when
  its public half is not the one its secret half derives.
\<close>

theorem sign_then_verify_base58:
  assumes "ed25519_correct cr" and "base58_roundtrip cr"
    and "cr_b58_decode cr keypair = Some kp"
    and "sign_order_id_from_base58_keypair cr order_id keypair = Ok signature"
  shows "cr_public cr (take 32 kp) = drop 32 kp
    \<and> verify_order_id_signature_base58 cr order_id signature (cr_b58_encode cr (drop 32 kp)) = Ok ()"
proof -
  from assms(3,4) obtain oid s where oid: "decode_hex_32 cr order_id = Ok oid" and len: "length kp = 64"
    and s: "bytes_signer_from_keypair cr kp = Ok s" and sig: "signature = sign_message_base58 cr s oid"
    by (auto simp: sign_order_id_from_base58_keypair_def res_simps)
  from s have pub: "cr_public cr (take 32 kp) = drop 32 kp"
    and sgn: "sg_sign s = cr_sign cr (take 32 kp)"
    by (simp_all add: from_keypair_eq_Ok [OF len])
  have "length (take 32 kp) = 32" using len by simp
  with assms(1) have "length (cr_sign cr (take 32 kp) oid) = 64" "length (drop 32 kp) = 32"
    "cr_valid_key cr (drop 32 kp)" "cr_verify cr (drop 32 kp) oid (cr_sign cr (take 32 kp) oid)"
    unfolding ed25519_correct_def pub [symmetric] by blast+
  then show ?thesis
    using assms(2) oid pub
    by (simp add: verify_order_id_signature_base58_def decode_base58_fixed_def base58_roundtrip_def
        sig sign_message_base58_def sgn verify_order_id_signature_bytes_def)
qed

text \<open>A concrete instance of the external functions: a keypair repeats its secret.\<close>

definition plain_crypto :: crypto where
  "plain_crypto = \<lparr>cr_sha256 = (\<lambda>m. take 32 (m @ replicate 32 0)), cr_public = (\<lambda>s. s),
     cr_sign = (\<lambda>s m. s @ take 32 (m @ replicate 32 0)), cr_valid_key = (\<lambda>_. True),
     cr_verify = (\<lambda>k m sg. sg = k @ take 32 (m @ replicate 32 0)),
     cr_verify_strict = (\<lambda>k m sg. sg = k @ take 32 (m @ replicate 32 0)),
     cr_hex_encode = map (\<lambda>b. char_of (unat b)), cr_hex_decode = (\<lambda>s. Some (map (\<lambda>c. of_nat (of_char c)) s)),
     cr_b58_encode = map (\<lambda>b. char_of (unat b)), cr_b58_decode = (\<lambda>s. Some (map (\<lambda>c. of_nat (of_char c)) s))\<rparr>"

lemma plain_crypto_laws: "ed25519_correct plain_crypto" "base58_roundtrip plain_crypto"
proof -
  have "of_nat (of_char (char_of (unat b) :: char)) = b" for b :: u8
    using unat_bounded [of b] by (simp add: of_char_of)
  then show "base58_roundtrip plain_crypto"
    by (simp add: base58_roundtrip_def plain_crypto_def o_def)
qed (auto simp: ed25519_correct_def plain_crypto_def min_def)

theorem sign_then_verify_base58_witness:
  "verify_order_id_signature_base58 plain_crypto (replicate 32 CHR ''k'')
     (map (\<lambda>b. char_of (unat b)) (replicate 32 (97 :: u8) @ replicate 32 107))
     (cr_b58_encode plain_crypto (replicate 32 97)) = Ok ()"
proof -
  have "sign_order_id_from_base58_keypair plain_crypto (replicate 32 CHR ''k'') (replicate 64 CHR ''a'') =
      Ok (map (\<lambda>b. char_of (unat b)) (replicate 32 (97 :: u8) @ replicate 32 107))"
    by (simp add: sign_order_id_from_base58_keypair_def plain_crypto_def decode_hex_32_def strip_0x_def
        numeral_2_eq_2
        decode_base58_fixed_def bytes_signer_from_keypair_def slice_res_def bytes_signer_from_secret_def
        sign_message_base58_def)
  moreover have "cr_b58_decode plain_crypto (replicate 64 CHR ''a'') = Some (replicate 64 97)"
    by (simp add: plain_crypto_def)
  ultimately show ?thesis
    using sign_then_verify_base58 [OF plain_crypto_laws, of "replicate 64 CHR ''a''" "replicate 64 97"
        "replicate 32 CHR ''k''"]
    by simp
qed

end
