(* ===== verification/Quote.thy ===== *)
theory Quote
  imports Orders
begin

text \<open>
  Quote assembly of \<^verbatim>\<open>src/src/quote.rs\<close>: binding an inbound RFQ to the trusted program, the builder's
  checks, the order id of either layout and the signed message. Program-derived addresses come from
  another crate: the parameter \<open>pda\<close> maps seeds and a program to the address and bump that
  \<^verbatim>\<open>Pubkey::find_program_address\<close> returns.
\<close>

section \<open>Data\<close>

type_synonym uuid = u128

definition ACTA_PROGRAM_ID :: key where
  "ACTA_PROGRAM_ID = [
     30, 74, 92, 215, 61, 228, 38, 29, 242, 73, 93, 71, 12, 105, 28, 13, 179, 249, 75, 162,
     251, 213, 13, 21, 120, 49, 201, 116, 107, 243, 234, 229]"

record MarketDescriptor =
  md_chain_id :: u64
  md_program_id :: key
  md_market_pda :: key
  md_underlying_mint :: key
  md_quote_mint :: key
  md_expiry_ts :: SystemTime
  md_is_put :: bool
  md_collateral_mint :: key
  md_settlement_mint :: key

record RfqBroadcastMessage =
  rb_rfq_id :: uuid
  rb_market :: MarketDescriptor
  rb_terms :: OptionTerms
  rb_side :: TakerSide
  rb_quantity :: u64
  rb_expires_at :: SystemTime
  rb_taker :: key
  rb_order_options :: "OptionTerms list"
  rb_sent_at :: SystemTime

record QuoteMessage =
  qm_rfq_id :: uuid
  qm_terms :: OptionTerms
  qm_side :: TakerSide
  qm_price :: u64
  qm_valid_until :: QuoteExpiry
  qm_nonce :: u64
  qm_order_id :: bytes
  qm_signature :: string

record ReplaceQuoteMessage =
  rq_old_order_id :: bytes
  rq_rfq_id :: uuid
  rq_terms :: OptionTerms
  rq_side :: TakerSide
  rq_price :: u64
  rq_valid_until :: QuoteExpiry
  rq_nonce :: u64
  rq_order_id :: bytes
  rq_signature :: string

datatype QuoteBuildError =
  QbOrder OrderError
| QbSpread SpreadError
| QbMarketBinding string
| QbTermsNotOffered OptionTerms "OptionTerms list"
| QbMissing string
| QbValidUntilAfterMarketExpiry QuoteExpiry QuoteExpiry
| QbValidUntilTooSoon QuoteExpiry QuoteExpiry
| QbValidUntilWithinSettlementBuffer QuoteExpiry QuoteExpiry
| QbSigning SigningError

record RfqBinding =
  bd_rfq_id :: uuid
  bd_chain_id :: u64
  bd_program_id :: key
  bd_market :: key
  bd_market_expiry :: QuoteExpiry
  bd_taker :: key
  bd_terms :: OptionTerms
  bd_quantity :: u64
  bd_offered_terms :: "OptionTerms list"
  bd_side :: TakerSide

section \<open>Binding an RFQ\<close>

definition market_pda :: "find_pda \<Rightarrow> key \<Rightarrow> key \<Rightarrow> key \<Rightarrow> u64 \<Rightarrow> bool \<Rightarrow> key" where
  "market_pda pda program underlying quote_mint expiry is_put =
     fst (pda [[109, 97, 114, 107, 101, 116], underlying, quote_mint, u64_le expiry, [of_bool is_put]] program)"

definition validate_market_binding ::
  "find_pda \<Rightarrow> RfqBroadcastMessage \<Rightarrow> key \<Rightarrow> (QuoteBuildError, key \<times> QuoteExpiry) res" where
  "validate_market_binding pda rfq expected_program =
     (let d = rb_market rfq in
      if md_chain_id d \<noteq> 0 then Err (QbMarketBinding ''chain_id'')
      else if md_program_id d \<noteq> expected_program then Err (QbMarketBinding ''program_id'')
      else if md_is_put d \<noteq> position_is_put (position_type (rb_terms rfq))
      then Err (QbMarketBinding ''terms'')
      else
        let underlying = md_underlying_mint d; quote_mint = md_quote_mint d;
            (coll, settlement) =
              (if is_spread (rb_terms rfq) then (quote_mint, quote_mint)
               else if md_is_put d then (quote_mint, underlying)
               else (underlying, quote_mint)) in
        if md_collateral_mint d \<noteq> coll \<or> md_settlement_mint d \<noteq> settlement
        then Err (QbMarketBinding ''collateral/settlement mint'')
        else if md_expiry_ts d < 0 then Err (QbMarketBinding ''expiry_ts'')
        else if md_expiry_ts d mod 1000000000 \<noteq> 0 \<or> md_expiry_ts d div 1000000000 > 2 ^ 63 - 1
        then Err (QbMarketBinding ''expiry_ts'')
        else
          let secs = of_int (md_expiry_ts d div 1000000000);
              expected_market = market_pda pda expected_program underlying quote_mint secs (md_is_put d) in
          if md_market_pda d \<noteq> expected_market then Err (QbMarketBinding ''market_pda'')
          else Ok (md_market_pda d, secs))"

definition validate_spread_rfq :: "RfqBroadcastMessage \<Rightarrow> (QuoteBuildError, unit) res" where
  "validate_spread_rfq rfq =
     (let t = rb_terms rfq in
      bind_res (ok_or (QbMarketBinding ''spread terms'') (upper_strike t)) (\<lambda>upper.
      if position_type t \<noteq> CashPut \<and> strike t = 0 then Err (QbSpread InvalidStrikes)
      else
        bind_res (map_err QbSpread (spread_type_try_from
          (chain_position_u8 (chain_position_type (to_chain t))))) (\<lambda>kind.
        bind_res (map_err QbSpread (validate_strikes kind (chain_strike (to_chain t)) upper)) (\<lambda>_.
        bind_res (if rb_quantity rfq = 0 \<or> length (rb_order_options rfq) \<noteq> 1 then Ok True
           else bind_res (index_res 0 (rb_order_options rfq)) (\<lambda>option. Ok (option \<noteq> t))) (\<lambda>bad.
        if bad then Err (QbMarketBinding ''spread pair'') else Ok ())))))"

definition from_broadcast_for_program ::
  "find_pda \<Rightarrow> RfqBroadcastMessage \<Rightarrow> key \<Rightarrow> (QuoteBuildError, RfqBinding) res" where
  "from_broadcast_for_program pda rfq expected_program =
     (let t = rb_terms rfq in
      bind_res
        (if is_spread t then validate_spread_rfq rfq
         else if list_ex (\<lambda>option. is_spread option \<or> position_type option \<noteq> position_type t)
                  (rb_order_options rfq)
         then Err (QbMarketBinding ''physical order_options'')
         else Ok ()) (\<lambda>_.
      bind_res (validate_market_binding pda rfq expected_program) (\<lambda>(market, expiry).
      Ok \<lparr>bd_rfq_id = rb_rfq_id rfq, bd_chain_id = md_chain_id (rb_market rfq),
          bd_program_id = expected_program, bd_market = market, bd_market_expiry = expiry,
          bd_taker = rb_taker rfq, bd_terms = t, bd_quantity = rb_quantity rfq,
          bd_offered_terms = t # filter (\<lambda>option. option \<noteq> t) (rb_order_options rfq),
          bd_side = rb_side rfq\<rparr>)))"

definition from_broadcast ::
  "find_pda \<Rightarrow> RfqBroadcastMessage \<Rightarrow> (QuoteBuildError, RfqBinding) res" where
  "from_broadcast pda rfq = from_broadcast_for_program pda rfq ACTA_PROGRAM_ID"

section \<open>The builder\<close>

record Resolved =
  rs_price :: u64
  rs_valid_until :: QuoteExpiry
  rs_nonce :: u64
  rs_maker :: key

record QuoteBuilder =
  qb_binding :: RfqBinding
  qb_terms :: OptionTerms
  qb_price :: "u64 option"
  qb_valid_until :: "QuoteExpiry option"
  qb_min_valid_until :: "QuoteExpiry option"
  qb_buffer_end :: "QuoteExpiry option"
  qb_nonce :: "u64 option"
  qb_maker :: "key option"

definition binding_quote :: "RfqBinding \<Rightarrow> QuoteBuilder" where
  "binding_quote b = \<lparr>qb_binding = b, qb_terms = bd_terms b, qb_price = None, qb_valid_until = None,
     qb_min_valid_until = None, qb_buffer_end = None, qb_nonce = None, qb_maker = None\<rparr>"

definition qb_set_terms :: "OptionTerms \<Rightarrow> QuoteBuilder \<Rightarrow> QuoteBuilder" where
  "qb_set_terms t b = b\<lparr>qb_terms := t\<rparr>"
definition qb_set_price :: "u64 \<Rightarrow> QuoteBuilder \<Rightarrow> QuoteBuilder" where
  "qb_set_price p b = b\<lparr>qb_price := Some p\<rparr>"
definition qb_set_valid_until :: "QuoteExpiry \<Rightarrow> QuoteBuilder \<Rightarrow> QuoteBuilder" where
  "qb_set_valid_until v b = b\<lparr>qb_valid_until := Some v\<rparr>"
definition qb_set_min_valid_until :: "QuoteExpiry \<Rightarrow> QuoteBuilder \<Rightarrow> QuoteBuilder" where
  "qb_set_min_valid_until v b = b\<lparr>qb_min_valid_until := Some v\<rparr>"
definition qb_set_nonce :: "u64 \<Rightarrow> QuoteBuilder \<Rightarrow> QuoteBuilder" where
  "qb_set_nonce n b = b\<lparr>qb_nonce := Some n\<rparr>"
definition qb_set_maker_owner :: "key \<Rightarrow> QuoteBuilder \<Rightarrow> QuoteBuilder" where
  "qb_set_maker_owner k b = b\<lparr>qb_maker := Some k\<rparr>"

text \<open>\<open>now\<close> is the clock reading; the source reads it once for each bound.\<close>

definition quote_window :: "SystemTime \<Rightarrow> SystemTime \<Rightarrow> u32 \<Rightarrow> u32 \<Rightarrow> QuoteBuilder \<Rightarrow> QuoteBuilder" where
  "quote_window now now' min_quote_validity_seconds settlement_buffer_seconds b =
     b\<lparr>qb_min_valid_until := expiry_after now (uint min_quote_validity_seconds * 1000000000),
       qb_buffer_end := expiry_after now' (uint settlement_buffer_seconds * 1000000000)\<rparr>"

definition resolve :: "QuoteBuilder \<Rightarrow> (QuoteBuildError, Resolved) res" where
  "resolve b =
     (if qb_terms b \<notin> set (bd_offered_terms (qb_binding b))
      then Err (QbTermsNotOffered (qb_terms b) (bd_offered_terms (qb_binding b)))
      else
        bind_res (ok_or (QbMissing ''valid_until'') (qb_valid_until b)) (\<lambda>valid_until.
        bind_res (ok_or (QbMissing ''min_valid_until'') (qb_min_valid_until b)) (\<lambda>min_valid_until.
        if valid_until > bd_market_expiry (qb_binding b)
        then Err (QbValidUntilAfterMarketExpiry valid_until (bd_market_expiry (qb_binding b)))
        else if valid_until < min_valid_until
        then Err (QbValidUntilTooSoon valid_until min_valid_until)
        else
          bind_res (case qb_buffer_end b of
              Some buffer_end \<Rightarrow>
                if valid_until \<le> buffer_end
                then Err (QbValidUntilWithinSettlementBuffer valid_until buffer_end) else Ok ()
            | None \<Rightarrow> Ok ()) (\<lambda>_.
          bind_res (ok_or (QbMissing ''price'') (qb_price b)) (\<lambda>price.
          bind_res (ok_or (QbMissing ''nonce'') (qb_nonce b)) (\<lambda>nonce.
          bind_res (ok_or (QbMissing ''maker_owner'') (qb_maker b)) (\<lambda>maker.
          Ok \<lparr>rs_price = price, rs_valid_until = valid_until, rs_nonce = nonce, rs_maker = maker\<rparr>)))))))"

definition args_for :: "QuoteBuilder \<Rightarrow> Resolved \<Rightarrow> OrderPreimageArgs" where
  "args_for b r =
     \<lparr>oa_chain_id = bd_chain_id (qb_binding b), oa_program_id = bd_program_id (qb_binding b),
      oa_side = bd_side (qb_binding b), oa_position_type = position_type (qb_terms b),
      oa_market = bd_market (qb_binding b), oa_strike = strike (qb_terms b),
      oa_quantity = bd_quantity (qb_binding b), oa_gross_price = rs_price r,
      oa_valid_until = rs_valid_until r, oa_maker = rs_maker r, oa_taker = bd_taker (qb_binding b),
      oa_nonce = rs_nonce r\<rparr>"

definition preimage_args :: "QuoteBuilder \<Rightarrow> (QuoteBuildError, OrderPreimageArgs) res" where
  "preimage_args b =
     (if is_spread (qb_terms b) then Err (QbOrder SpreadLayoutRequired)
      else bind_res (resolve b) (\<lambda>r. Ok (args_for b r)))"

definition spread_args_for :: "QuoteBuilder \<Rightarrow> Resolved \<Rightarrow> (QuoteBuildError, SpreadOrderPreimageArgs) res" where
  "spread_args_for b r =
     (let args = args_for b r in
      bind_res (map_err QbSpread (spread_type_try_from
        (chain_position_u8 (chain_position_type (to_chain (qb_terms b)))))) (\<lambda>kind.
      bind_res (ok_or (QbMarketBinding ''spread terms'') (upper_strike (qb_terms b))) (\<lambda>upper.
      Ok \<lparr>so_chain_id = oa_chain_id args, so_program_id = oa_program_id args, so_side = oa_side args,
          so_position_type = kind, so_market = oa_market args,
          so_lower_strike = chain_strike (to_chain (qb_terms b)), so_upper_strike = upper,
          so_quantity = oa_quantity args, so_gross_price = oa_gross_price args,
          so_valid_until = oa_valid_until args, so_maker = oa_maker args, so_taker = oa_taker args,
          so_nonce = oa_nonce args\<rparr>)))"

definition spread_preimage_args :: "QuoteBuilder \<Rightarrow> (QuoteBuildError, SpreadOrderPreimageArgs) res" where
  "spread_preimage_args b = bind_res (resolve b) (spread_args_for b)"

definition builder_order_id :: "crypto \<Rightarrow> QuoteBuilder \<Rightarrow> Resolved \<Rightarrow> (QuoteBuildError, bytes) res" where
  "builder_order_id cr b r =
     (if is_spread (qb_terms b)
      then bind_res (spread_args_for b r) (\<lambda>args. map_err QbSpread (compute_spread_order_id cr args))
      else map_err QbOrder (compute_order_id cr (args_for b r)))"

definition assemble :: "crypto \<Rightarrow> QuoteBuilder \<Rightarrow> Resolved \<Rightarrow> bytes \<Rightarrow> bytes \<Rightarrow> QuoteMessage" where
  "assemble cr b r order_id signature =
     \<lparr>qm_rfq_id = bd_rfq_id (qb_binding b), qm_terms = qb_terms b, qm_side = bd_side (qb_binding b),
      qm_price = rs_price r, qm_valid_until = rs_valid_until r, qm_nonce = rs_nonce r,
      qm_order_id = order_id, qm_signature = cr_b58_encode cr signature\<rparr>"

definition sign_parts ::
  "crypto \<Rightarrow> QuoteBuilder \<Rightarrow> signer \<Rightarrow> (QuoteBuildError, Resolved \<times> bytes \<times> bytes) res" where
  "sign_parts cr b s =
     bind_res (resolve b) (\<lambda>r.
     bind_res (builder_order_id cr b r) (\<lambda>order_id.
     Ok (r, order_id, sign_order_id_with_signer order_id s)))"

definition builder_sign :: "crypto \<Rightarrow> QuoteBuilder \<Rightarrow> signer \<Rightarrow> (QuoteBuildError, QuoteMessage) res" where
  "builder_sign cr b s =
     bind_res (sign_parts cr b s) (\<lambda>(r, order_id, signature). Ok (assemble cr b r order_id signature))"

definition sign_with_async_signer ::
  "crypto \<Rightarrow> QuoteBuilder \<Rightarrow> async_signer \<Rightarrow> (QuoteBuildError, QuoteMessage) res" where
  "sign_with_async_signer cr b s =
     bind_res (resolve b) (\<lambda>r.
     bind_res (builder_order_id cr b r) (\<lambda>order_id.
     bind_res (map_err QbSigning (sign_verified cr s order_id)) (\<lambda>signature.
     Ok (assemble cr b r order_id signature))))"

definition into_replacement :: "QuoteMessage \<Rightarrow> bytes \<Rightarrow> ReplaceQuoteMessage" where
  "into_replacement q old =
     \<lparr>rq_old_order_id = old, rq_rfq_id = qm_rfq_id q, rq_terms = qm_terms q, rq_side = qm_side q,
      rq_price = qm_price q, rq_valid_until = qm_valid_until q, rq_nonce = qm_nonce q,
      rq_order_id = qm_order_id q, rq_signature = qm_signature q\<rparr>"

section \<open>Binding lemmas\<close>

lemma validate_market_binding_eq_Ok [res_simps]:
  "validate_market_binding pda rfq prog = Ok (m, e) \<longleftrightarrow>
     (let d = rb_market rfq in
        md_chain_id d = 0 \<and> md_program_id d = prog
      \<and> md_is_put d = position_is_put (position_type (rb_terms rfq))
      \<and> (md_collateral_mint d, md_settlement_mint d) =
          (if is_spread (rb_terms rfq) then (md_quote_mint d, md_quote_mint d)
           else if md_is_put d then (md_quote_mint d, md_underlying_mint d)
           else (md_underlying_mint d, md_quote_mint d))
      \<and> 0 \<le> md_expiry_ts d \<and> md_expiry_ts d mod 1000000000 = 0
      \<and> md_expiry_ts d div 1000000000 \<le> 2 ^ 63 - 1 \<and> e = of_int (md_expiry_ts d div 1000000000)
      \<and> m = md_market_pda d
      \<and> m = market_pda pda prog (md_underlying_mint d) (md_quote_mint d) e (md_is_put d))"
proof -
  obtain c s where cs: "(if is_spread (rb_terms rfq) then (md_quote_mint (rb_market rfq), md_quote_mint (rb_market rfq))
      else if md_is_put (rb_market rfq) then (md_quote_mint (rb_market rfq), md_underlying_mint (rb_market rfq))
      else (md_underlying_mint (rb_market rfq), md_quote_mint (rb_market rfq))) = (c, s)"
    by fastforce
  have if_Ok: "(if b then Err e else x) = Ok z \<longleftrightarrow> \<not> b \<and> x = Ok z" for b e x and z :: "key \<times> QuoteExpiry"
    by simp
  show ?thesis
    unfolding validate_market_binding_def Let_def cs prod.case if_Ok by (auto simp: not_less)
qed

lemma validate_market_binding_not_Panic [simp]: "validate_market_binding pda rfq prog \<noteq> Panic"
  by (auto simp: validate_market_binding_def Let_def split: prod.splits)

lemma spread_kind_exists:
  "is_spread t \<Longrightarrow> \<exists>k. spread_type_try_from (chain_position_u8 (chain_position_type (to_chain t))) = Ok k"
  by (cases t) (simp_all add: is_spread_def spread_type_try_from_def)

lemma validate_spread_rfq_eq_Ok:
  assumes "validate_spread_rfq rfq = Ok x" and "is_spread (rb_terms rfq)"
  shows "rb_order_options rfq = [rb_terms rfq] \<and> rb_quantity rfq \<noteq> 0
    \<and> valid_chain_terms (to_chain (rb_terms rfq))"
proof -
  from assms(1) have q: "rb_quantity rfq \<noteq> 0" and l: "length (rb_order_options rfq) = 1"
    and o: "rb_order_options rfq ! 0 = rb_terms rfq"
    by (auto simp: validate_spread_rfq_def Let_def res_simps split: if_splits)
  have "rb_order_options rfq = [rb_terms rfq]" using l o by (cases "rb_order_options rfq") auto
  moreover have "valid_chain_terms (to_chain (rb_terms rfq))"
    using assms
    by (cases "rb_terms rfq")
      (auto simp: validate_spread_rfq_def Let_def res_simps is_spread_def spread_type_try_from_def
        word_gt_0 split: if_splits)
  ultimately show ?thesis using q by simp
qed

lemma validate_spread_rfq_not_Panic [simp]: "validate_spread_rfq rfq \<noteq> Panic"
  unfolding validate_spread_rfq_def Let_def
  by (intro no_panic_intros) (auto simp: res_simps spread_type_try_from_def validate_strikes_def)

lemma from_broadcast_not_Panic: "from_broadcast_for_program pda rfq prog \<noteq> Panic"
  unfolding from_broadcast_for_program_def Let_def
  by (intro no_panic_intros) (auto split: prod.splits)

section \<open>Builder lemmas\<close>

lemma resolve_eq_Ok:
  "resolve b = Ok r \<longleftrightarrow>
     qb_terms b \<in> set (bd_offered_terms (qb_binding b))
   \<and> qb_valid_until b = Some (rs_valid_until r) \<and> qb_price b = Some (rs_price r)
   \<and> qb_nonce b = Some (rs_nonce r) \<and> qb_maker b = Some (rs_maker r)
   \<and> rs_valid_until r \<le> bd_market_expiry (qb_binding b)
   \<and> (\<exists>m. qb_min_valid_until b = Some m \<and> m \<le> rs_valid_until r)
   \<and> (\<forall>e. qb_buffer_end b = Some e \<longrightarrow> e < rs_valid_until r)"
  (is "?L \<longleftrightarrow> ?R")
proof
  show "?L \<Longrightarrow> ?R"
    by (auto simp: resolve_def res_simps not_less not_le split: if_splits option.splits)
next
  assume ?R
  then show ?L
    by (auto simp: resolve_def res_simps not_less not_le split: option.splits)
qed

lemma resolve_not_Panic [simp]: "resolve b \<noteq> Panic"
  unfolding resolve_def by (intro no_panic_intros) (auto simp: res_simps split: option.splits)

text \<open>The order a quote message stands for, rebuilt from the message, the RFQ binding and the maker.\<close>

definition quoted_order ::
  "RfqBinding \<Rightarrow> key \<Rightarrow> QuoteMessage \<Rightarrow> OrderPreimageArgs + SpreadOrderPreimageArgs" where
  "quoted_order bd maker q =
     (if is_spread (qm_terms q)
      then Inr \<lparr>so_chain_id = bd_chain_id bd, so_program_id = bd_program_id bd, so_side = qm_side q,
        so_position_type = (if position_type (qm_terms q) = CallSpread then SCallSpread else SPutSpread),
        so_market = bd_market bd, so_lower_strike = chain_strike (to_chain (qm_terms q)),
        so_upper_strike = the (upper_strike (qm_terms q)), so_quantity = bd_quantity bd,
        so_gross_price = qm_price q, so_valid_until = qm_valid_until q, so_maker = maker,
        so_taker = bd_taker bd, so_nonce = qm_nonce q\<rparr>
      else Inl \<lparr>oa_chain_id = bd_chain_id bd, oa_program_id = bd_program_id bd, oa_side = qm_side q,
        oa_position_type = position_type (qm_terms q), oa_market = bd_market bd,
        oa_strike = strike (qm_terms q), oa_quantity = bd_quantity bd, oa_gross_price = qm_price q,
        oa_valid_until = qm_valid_until q, oa_maker = maker, oa_taker = bd_taker bd,
        oa_nonce = qm_nonce q\<rparr>)"

lemma spread_args_for_eq:
  assumes "is_spread (qb_terms b)"
  shows "spread_args_for b r = Ok (projr (quoted_order (qb_binding b) (rs_maker r) (assemble cr b r oid sg)))"
  using assms
  by (cases "qb_terms b")
    (simp_all add: spread_args_for_def args_for_def quoted_order_def assemble_def is_spread_def
      spread_type_try_from_def)

lemma args_for_eq:
  assumes "\<not> is_spread (qb_terms b)"
  shows "quoted_order (qb_binding b) (rs_maker r) (assemble cr b r oid sg) = Inl (args_for b r)"
  using assms by (simp add: args_for_def quoted_order_def assemble_def)

lemma builder_order_id_eq_Ok:
  "builder_order_id cr b r = Ok oid \<longleftrightarrow>
     (\<exists>m. signed_message (quoted_order (qb_binding b) (rs_maker r) (assemble cr b r oid sg)) = Some m
        \<and> oid = cr_sha256 cr m)"
proof (cases "is_spread (qb_terms b)")
  case True
  then have sp: "is_spread (qm_terms (assemble cr b r oid sg))" by (simp add: assemble_def)
  define x where "x = quoted_order (qb_binding b) (rs_maker r) (assemble cr b r oid sg)"
  have x: "x = Inr (projr x)" using sp by (simp add: x_def quoted_order_def)
  have "builder_order_id cr b r = map_err QbSpread (compute_spread_order_id cr (projr x))"
    using True spread_args_for_eq [OF True, of r cr oid sg] by (simp add: builder_order_id_def x_def)
  moreover have "signed_message x = Some m \<longleftrightarrow> build_spread_order_preimage (projr x) = Ok m" for m
    by (subst x) (auto split: res.splits)
  ultimately show ?thesis
    unfolding x_def [symmetric] by (auto simp: compute_spread_order_id_def res_simps)
next
  case False
  then show ?thesis
    unfolding args_for_eq [OF False]
    by (auto simp: builder_order_id_def compute_order_id_def hash_order_preimage_def res_simps
        split: res.splits)
qed

section \<open>Properties\<close>

text \<open>
  C21. A bound RFQ is consistent with the trusted program: the binding carries the expected
  program and chain 0, its market is the address derived from the descriptor's mints, whole-second
  expiry and put flag, and the terms that may be quoted all have the requested product. A spread
  RFQ can be quoted on its own terms only, which are valid on chain, for a positive quantity. The
  check never panics, whatever the server sends.
\<close>

theorem from_broadcast_sound:
  "from_broadcast_for_program pda rfq prog \<noteq> Panic \<and>
   (\<forall>b. from_broadcast_for_program pda rfq prog = Ok b \<longrightarrow>
      bd_program_id b = prog \<and> md_program_id (rb_market rfq) = prog \<and> bd_chain_id b = 0
    \<and> bd_market b = md_market_pda (rb_market rfq)
    \<and> bd_market b = market_pda pda prog (md_underlying_mint (rb_market rfq))
        (md_quote_mint (rb_market rfq)) (bd_market_expiry b) (md_is_put (rb_market rfq))
    \<and> md_expiry_ts (rb_market rfq) = uint (bd_market_expiry b) * 1000000000
    \<and> (\<forall>t\<in>set (bd_offered_terms b). position_type t = position_type (rb_terms rfq)
        \<and> position_is_put (position_type t) = md_is_put (rb_market rfq))
    \<and> (is_spread (rb_terms rfq) \<longrightarrow> bd_offered_terms b = [rb_terms rfq]
        \<and> valid_chain_terms (to_chain (rb_terms rfq)) \<and> bd_quantity b \<noteq> 0))"
proof (intro conjI allI ballI impI)
  show "from_broadcast_for_program pda rfq prog \<noteq> Panic" by (rule from_broadcast_not_Panic)
  fix b
  assume ok: "from_broadcast_for_program pda rfq prog = Ok b"
  let ?d = "rb_market rfq"
  from ok obtain m e where mb: "validate_market_binding pda rfq prog = Ok (m, e)"
    and b: "bd_program_id b = prog" "bd_chain_id b = md_chain_id ?d" "bd_market b = m"
      "bd_market_expiry b = e" "bd_quantity b = rb_quantity rfq"
      "bd_offered_terms b = rb_terms rfq # filter (\<lambda>option. option \<noteq> rb_terms rfq) (rb_order_options rfq)"
    by (auto simp: from_broadcast_for_program_def Let_def bind_res_eq_Ok)
  note mk = mb [unfolded validate_market_binding_eq_Ok Let_def]
  show "bd_program_id b = prog" "md_program_id ?d = prog" "bd_chain_id b = 0"
    "bd_market b = md_market_pda ?d"
    "bd_market b = market_pda pda prog (md_underlying_mint ?d) (md_quote_mint ?d) (bd_market_expiry b) (md_is_put ?d)"
    unfolding b using mk by blast+
  have "uint e = md_expiry_ts ?d div 1000000000"
    using mk by (simp add: uint_word_of_int_eq take_bit_int_eq_self pos_imp_zdiv_nonneg_iff)
  then show "md_expiry_ts ?d = uint (bd_market_expiry b) * 1000000000"
    using mk b by (simp add: mod_0_imp_dvd)
  have spread: "rb_order_options rfq = [rb_terms rfq] \<and> rb_quantity rfq \<noteq> 0
      \<and> valid_chain_terms (to_chain (rb_terms rfq))" if "is_spread (rb_terms rfq)"
    using ok that validate_spread_rfq_eq_Ok
    by (auto simp: from_broadcast_for_program_def Let_def bind_res_eq_Ok)
  have phys: "\<forall>t\<in>set (rb_order_options rfq). position_type t = position_type (rb_terms rfq)"
    if "\<not> is_spread (rb_terms rfq)"
    using ok that by (auto simp: from_broadcast_for_program_def Let_def bind_res_eq_Ok list_ex_iff
        split: if_splits)
  have same: "position_type t = position_type (rb_terms rfq)" if "t \<in> set (bd_offered_terms b)" for t
    using that spread phys b by (cases "is_spread (rb_terms rfq)") auto
  fix t assume "t \<in> set (bd_offered_terms b)"
  from same [OF this] show "position_type t = position_type (rb_terms rfq)"
    and "position_is_put (position_type t) = md_is_put ?d"
    using mk by simp_all
next
  fix b
  assume ok: "from_broadcast_for_program pda rfq prog = Ok b" and sp: "is_spread (rb_terms rfq)"
  from ok sp have v: "validate_spread_rfq rfq = Ok ()"
    and b: "bd_quantity b = rb_quantity rfq"
      "bd_offered_terms b = rb_terms rfq # filter (\<lambda>option. option \<noteq> rb_terms rfq) (rb_order_options rfq)"
    by (auto simp: from_broadcast_for_program_def Let_def bind_res_eq_Ok)
  note sv = validate_spread_rfq_eq_Ok [OF v sp]
  show "bd_offered_terms b = [rb_terms rfq]" "valid_chain_terms (to_chain (rb_terms rfq))" "bd_quantity b \<noteq> 0"
    using sv b by simp_all
qed

definition sample_rfq :: RfqBroadcastMessage where
  "sample_rfq = \<lparr>rb_rfq_id = 7, rb_market = \<lparr>md_chain_id = 0, md_program_id = replicate 32 1,
      md_market_pda = replicate 32 9, md_underlying_mint = replicate 32 2, md_quote_mint = replicate 32 3,
      md_expiry_ts = 5000 * 1000000000, md_is_put = True, md_collateral_mint = replicate 32 3,
      md_settlement_mint = replicate 32 3\<rparr>, rb_terms = TPutSpread 10 30, rb_side = Sell,
    rb_quantity = 4, rb_expires_at = 0, rb_taker = replicate 32 5, rb_order_options = [TPutSpread 10 30],
    rb_sent_at = 0\<rparr>"

definition sample_binding :: RfqBinding where
  "sample_binding = \<lparr>bd_rfq_id = 7, bd_chain_id = 0, bd_program_id = replicate 32 1,
     bd_market = replicate 32 9, bd_market_expiry = 5000, bd_taker = replicate 32 5,
     bd_terms = TPutSpread 10 30, bd_quantity = 4, bd_offered_terms = [TPutSpread 10 30],
     bd_side = Sell\<rparr>"

lemma sample_rfq_binds:
  "from_broadcast_for_program (\<lambda>_ _. (replicate 32 9, 255)) sample_rfq (replicate 32 1) = Ok sample_binding"
  by (simp add: from_broadcast_for_program_def sample_rfq_def sample_binding_def is_spread_def
      validate_spread_rfq_def spread_type_try_from_def validate_strikes_def width_def checked_sub_def
      validate_market_binding_def market_pda_def index_res_def Let_def)

theorem from_broadcast_sound_witness:
  "bd_market sample_binding = market_pda (\<lambda>_ _. (replicate 32 9, 255)) (replicate 32 1) (replicate 32 2)
     (replicate 32 3) 5000 True \<and> bd_offered_terms sample_binding = [TPutSpread 10 30]"
  using from_broadcast_sound [of "\<lambda>_ _. (replicate 32 9, 255)" sample_rfq "replicate 32 1"] sample_rfq_binds
  by (simp add: sample_rfq_def sample_binding_def is_spread_def)

text \<open>
  C4. A signed quote says what it signs. The builder yields a message exactly from offered terms
  with a price, nonce and owner and a \<open>valid_until\<close> in the venue's window; the message's order id is
  the hash of the order rebuilt from the message itself, the binding and the owner, and its
  signature is the signer's over that id. This holds for physical and spread terms alike.
\<close>

theorem signed_quote_binds:
  assumes "builder_sign cr b s = Ok q"
  shows "\<exists>maker m. signed_message (quoted_order (qb_binding b) maker q) = Some m
    \<and> qm_order_id q = cr_sha256 cr m \<and> qm_signature q = cr_b58_encode cr (sg_sign s (qm_order_id q))
    \<and> qb_maker b = Some maker \<and> qm_terms q = qb_terms b \<and> qm_terms q \<in> set (bd_offered_terms (qb_binding b))
    \<and> qm_side q = bd_side (qb_binding b) \<and> qm_rfq_id q = bd_rfq_id (qb_binding b)
    \<and> qm_valid_until q \<le> bd_market_expiry (qb_binding b)
    \<and> (\<exists>v. qb_min_valid_until b = Some v \<and> v \<le> qm_valid_until q)
    \<and> (\<forall>e. qb_buffer_end b = Some e \<longrightarrow> e < qm_valid_until q)"
proof -
  from assms obtain r oid where r: "resolve b = Ok r" and oid: "builder_order_id cr b r = Ok oid"
    and q: "q = assemble cr b r oid (sg_sign s oid)"
    by (auto simp: builder_sign_def sign_parts_def sign_order_id_with_signer_def bind_res_eq_Ok)
  from oid obtain m where m: "signed_message (quoted_order (qb_binding b) (rs_maker r) q) = Some m"
    "oid = cr_sha256 cr m"
    unfolding q builder_order_id_eq_Ok [where sg = "sg_sign s oid"] by blast
  then show ?thesis
    using r unfolding resolve_eq_Ok
    by (intro exI [where x = "rs_maker r"] exI [where x = m]) (simp add: q assemble_def)
qed

definition sample_builder :: QuoteBuilder where
  "sample_builder = qb_set_maker_owner (replicate 32 6) (qb_set_nonce 11 (qb_set_min_valid_until 900
     (qb_set_valid_until 1000 (qb_set_price 5 (binding_quote sample_binding)))))"

theorem signed_quote_binds_witness:
  "\<exists>q. builder_sign plain_crypto sample_builder \<lparr>sg_pubkey = replicate 32 6, sg_sign = (\<lambda>m. m)\<rparr> = Ok q
    \<and> (\<exists>maker m. signed_message (quoted_order sample_binding maker q) = Some m
        \<and> qm_order_id q = cr_sha256 plain_crypto m)"
proof -
  have "\<exists>q. builder_sign plain_crypto sample_builder \<lparr>sg_pubkey = replicate 32 6, sg_sign = (\<lambda>m. m)\<rparr> = Ok q"
    by (simp add: builder_sign_def sign_parts_def resolve_def sample_builder_def binding_quote_def
        qb_set_maker_owner_def qb_set_nonce_def qb_set_min_valid_until_def qb_set_valid_until_def
        qb_set_price_def sample_binding_def builder_order_id_def is_spread_def spread_args_for_def
        spread_type_try_from_def args_for_def compute_spread_order_id_def build_spread_layout
        wf_spread_args_def validate_premium_def validate_strikes_def width_def checked_sub_def)
  then obtain q where q: "builder_sign plain_crypto sample_builder
      \<lparr>sg_pubkey = replicate 32 6, sg_sign = (\<lambda>m. m)\<rparr> = Ok q" by blast
  have "qb_binding sample_builder = sample_binding"
    by (simp add: sample_builder_def binding_quote_def qb_set_maker_owner_def qb_set_nonce_def
        qb_set_min_valid_until_def qb_set_valid_until_def qb_set_price_def)
  with signed_quote_binds [OF q] q show ?thesis by metis
qed

end
