(* ===== verification/ChainIx.thy ===== *)
theory ChainIx
  imports Quote
begin

text \<open>
  Solana instructions as data, the program constants and the maker instructions of
  \<^verbatim>\<open>src/src/chain/ix.rs\<close>, and the address derivations of \<^verbatim>\<open>src/src/chain/vault/pda.rs\<close>. Every seed
  list starts with an ASCII tag, spelt here in bytes.
\<close>

section \<open>Instructions\<close>

record AccountMeta =
  am_pubkey :: key
  am_is_signer :: bool
  am_is_writable :: bool

record Instruction =
  ix_program_id :: key
  ix_accounts :: "AccountMeta list"
  ix_data :: bytes

definition meta_new :: "key \<Rightarrow> bool \<Rightarrow> AccountMeta" where
  "meta_new k signer = \<lparr>am_pubkey = k, am_is_signer = signer, am_is_writable = True\<rparr>"

definition meta_readonly :: "key \<Rightarrow> bool \<Rightarrow> AccountMeta" where
  "meta_readonly k signer = \<lparr>am_pubkey = k, am_is_signer = signer, am_is_writable = False\<rparr>"

lemma meta_sel [simp]:
  "am_pubkey (meta_new k s) = k" "am_is_signer (meta_new k s) = s" "am_is_writable (meta_new k s)"
  "am_pubkey (meta_readonly k s) = k" "am_is_signer (meta_readonly k s) = s"
  "\<not> am_is_writable (meta_readonly k s)"
  by (simp_all add: meta_new_def meta_readonly_def)

section \<open>Program constants\<close>

definition SYSTEM_PROGRAM_ID :: key where
  "SYSTEM_PROGRAM_ID = replicate 32 0"

definition ASSOCIATED_TOKEN_PROGRAM_ID :: key where
  "ASSOCIATED_TOKEN_PROGRAM_ID = [
     140, 151, 37, 143, 78, 36, 137, 241, 187, 61, 16, 41, 20, 142, 13, 131, 11, 90, 19, 153,
     218, 255, 16, 132, 4, 142, 123, 216, 219, 233, 248, 89]"

definition RENT_SYSVAR_ID :: key where
  "RENT_SYSVAR_ID = [
     6, 167, 213, 23, 25, 44, 92, 81, 33, 140, 201, 76, 61, 74, 241, 127, 88, 218, 238, 8, 155,
     161, 253, 68, 227, 219, 217, 138, 0, 0, 0, 0]"

definition TOKEN_PROGRAM_ID :: key where
  "TOKEN_PROGRAM_ID = [
     6, 221, 246, 225, 215, 101, 161, 147, 217, 203, 225, 70, 206, 235, 121, 172, 28, 180, 133,
     237, 95, 91, 55, 145, 58, 140, 245, 133, 126, 255, 0, 169]"

definition TOKEN_2022_PROGRAM_ID :: key where
  "TOKEN_2022_PROGRAM_ID = [
     6, 221, 246, 225, 238, 117, 143, 222, 24, 66, 93, 188, 228, 108, 205, 218, 182, 26, 252, 77,
     131, 185, 13, 39, 254, 189, 249, 40, 216, 161, 139, 252]"

section \<open>Derived addresses\<close>

definition pda_global_config :: "find_pda \<Rightarrow> key \<Rightarrow> key \<times> u8" where
  "pda_global_config pda program = pda [[103, 108, 111, 98, 97, 108, 95, 99, 111, 110, 102, 105, 103]] program"

definition pda_price_route :: "find_pda \<Rightarrow> key \<Rightarrow> key \<Rightarrow> key \<times> u8" where
  "pda_price_route pda program mint = pda [[112, 114, 105, 99, 101, 95, 114, 111, 117, 116, 101], mint] program"

definition pda_swap_venues :: "find_pda \<Rightarrow> key \<Rightarrow> key \<times> u8" where
  "pda_swap_venues pda program = pda [[115, 119, 97, 112, 95, 118, 101, 110, 117, 101, 115]] program"

definition pda_vault :: "find_pda \<Rightarrow> key \<Rightarrow> bytes \<Rightarrow> key \<times> u8" where
  "pda_vault pda program vault_id = pda [[118, 97, 117, 108, 116], vault_id] program"

definition pda_vault_policy :: "find_pda \<Rightarrow> key \<Rightarrow> key \<Rightarrow> key \<times> u8" where
  "pda_vault_policy pda program vault = pda [[118, 97, 117, 108, 116, 95, 112, 111, 108, 105, 99, 121], vault] program"

definition pda_vault_delegate :: "find_pda \<Rightarrow> key \<Rightarrow> key \<Rightarrow> key \<Rightarrow> key \<times> u8" where
  "pda_vault_delegate pda program vault delegate = pda [[118, 97, 117, 108, 116, 95, 100, 101, 108, 101, 103, 97, 116, 101], vault, delegate] program"

definition pda_manager_stake :: "find_pda \<Rightarrow> key \<Rightarrow> key \<Rightarrow> key \<times> u8" where
  "pda_manager_stake pda program vault = pda [[109, 97, 110, 97, 103, 101, 114, 95, 115, 116, 97, 107, 101], vault] program"

definition pda_deposit_request :: "find_pda \<Rightarrow> key \<Rightarrow> key \<Rightarrow> key \<Rightarrow> key \<times> u8" where
  "pda_deposit_request pda program vault user = pda [[100, 101, 112, 111, 115, 105, 116, 95, 114, 101, 113, 117, 101, 115, 116], vault, user] program"

definition pda_deposit_escrow_authority :: "find_pda \<Rightarrow> key \<Rightarrow> key \<Rightarrow> key \<Rightarrow> key \<times> u8" where
  "pda_deposit_escrow_authority pda program vault user = pda [[100, 101, 112, 111, 115, 105, 116, 95, 101, 115, 99, 114, 111, 119], vault, user] program"

definition pda_withdraw_request :: "find_pda \<Rightarrow> key \<Rightarrow> key \<Rightarrow> key \<Rightarrow> key \<times> u8" where
  "pda_withdraw_request pda program vault user = pda [[119, 105, 116, 104, 100, 114, 97, 119, 95, 114, 101, 113, 117, 101, 115, 116], vault, user] program"

definition pda_withdraw_escrow_authority :: "find_pda \<Rightarrow> key \<Rightarrow> key \<Rightarrow> key \<Rightarrow> key \<times> u8" where
  "pda_withdraw_escrow_authority pda program vault user = pda [[119, 105, 116, 104, 100, 114, 97, 119, 95, 101, 115, 99, 114, 111, 119], vault, user] program"

definition pda_pending_vault_update :: "find_pda \<Rightarrow> key \<Rightarrow> key \<Rightarrow> u8 \<Rightarrow> key \<times> u8" where
  "pda_pending_vault_update pda program vault kind = pda [[112, 101, 110, 100, 105, 110, 103, 95, 117, 112, 100, 97, 116, 101], vault, [kind]] program"

definition pda_position :: "find_pda \<Rightarrow> key \<Rightarrow> bytes \<Rightarrow> key \<times> u8" where
  "pda_position pda program order_id = pda [[112, 111, 115, 105, 116, 105, 111, 110], order_id] program"

definition pda_premium_config :: "find_pda \<Rightarrow> key \<Rightarrow> key \<Rightarrow> key \<times> u8" where
  "pda_premium_config pda program premium_mint = pda [[99, 111, 110, 102, 105, 103], premium_mint] program"

definition maker_pda :: "find_pda \<Rightarrow> key \<Rightarrow> key \<Rightarrow> key \<times> u8" where
  "maker_pda pda program maker_owner = pda [[109, 97, 107, 101, 114], maker_owner] program"

definition ata_with_bump :: "find_pda \<Rightarrow> key \<Rightarrow> key \<Rightarrow> key \<Rightarrow> key \<times> u8" where
  "ata_with_bump pda owner mint token_program =
     pda [owner, token_program, mint] ASSOCIATED_TOKEN_PROGRAM_ID"

definition ata :: "find_pda \<Rightarrow> key \<Rightarrow> key \<Rightarrow> key \<Rightarrow> key" where
  "ata pda owner mint token_program = fst (ata_with_bump pda owner mint token_program)"

definition create_associated_token_account_idempotent_ix ::
  "key \<Rightarrow> key \<Rightarrow> key \<Rightarrow> key \<Rightarrow> key \<Rightarrow> Instruction" where
  "create_associated_token_account_idempotent_ix payer account owner mint token_program =
     \<lparr>ix_program_id = ASSOCIATED_TOKEN_PROGRAM_ID,
      ix_accounts = [meta_new payer True, meta_new account False, meta_readonly owner False,
        meta_readonly mint False, meta_readonly SYSTEM_PROGRAM_ID False,
        meta_readonly token_program False, meta_readonly RENT_SYSVAR_ID False],
      ix_data = [1]\<rparr>"

section \<open>Maker instructions\<close>

datatype ChainIxError = InvalidPositionType u8

datatype InstructionKind = UpdateMakerQuoteSigning | MakerDeposit | MakerWithdraw | DepositFundsToPosition

fun instruction_kind_u8 :: "InstructionKind \<Rightarrow> u8" where
  "instruction_kind_u8 UpdateMakerQuoteSigning = 3"
| "instruction_kind_u8 MakerDeposit = 4"
| "instruction_kind_u8 MakerWithdraw = 5"
| "instruction_kind_u8 DepositFundsToPosition = 9"

definition build_amount_instruction :: "InstructionKind \<Rightarrow> u64 \<Rightarrow> bytes" where
  "build_amount_instruction kind amount = instruction_kind_u8 kind # u64_le amount"

record MakerTransferIxArgs =
  mt_maker_owner :: key
  mt_amount :: u64
  mt_premium_mint :: key
  mt_token_program :: key
  mt_create_atas :: bool

definition build_maker_deposit_ixs ::
  "find_pda \<Rightarrow> key \<Rightarrow> MakerTransferIxArgs \<Rightarrow> key \<Rightarrow> (ChainIxError, Instruction list) res" where
  "build_maker_deposit_ixs pda program args fee_payer =
     (let maker = fst (maker_pda pda program (mt_maker_owner args));
          owner_ata = ata pda (mt_maker_owner args) (mt_premium_mint args) (mt_token_program args);
          custody_ata = ata pda maker (mt_premium_mint args) (mt_token_program args);
          create = (if mt_create_atas args
            then [create_associated_token_account_idempotent_ix fee_payer owner_ata
                    (mt_maker_owner args) (mt_premium_mint args) (mt_token_program args),
                  create_associated_token_account_idempotent_ix fee_payer custody_ata
                    maker (mt_premium_mint args) (mt_token_program args)]
            else []) in
      Ok (create @ [\<lparr>ix_program_id = program,
        ix_accounts = [meta_new (mt_maker_owner args) True, meta_readonly maker False,
          meta_new owner_ata False, meta_new custody_ata False,
          meta_readonly (mt_token_program args) False],
        ix_data = build_amount_instruction MakerDeposit (mt_amount args)\<rparr>]))"

definition build_maker_withdraw_ixs ::
  "find_pda \<Rightarrow> key \<Rightarrow> MakerTransferIxArgs \<Rightarrow> key \<Rightarrow> (ChainIxError, Instruction list) res" where
  "build_maker_withdraw_ixs pda program args fee_payer =
     (let maker = fst (maker_pda pda program (mt_maker_owner args));
          owner_ata = ata pda (mt_maker_owner args) (mt_premium_mint args) (mt_token_program args);
          custody_ata = ata pda maker (mt_premium_mint args) (mt_token_program args);
          create = (if mt_create_atas args
            then [create_associated_token_account_idempotent_ix fee_payer owner_ata
                    (mt_maker_owner args) (mt_premium_mint args) (mt_token_program args)]
            else []) in
      Ok (create @ [\<lparr>ix_program_id = program,
        ix_accounts = [meta_new (mt_maker_owner args) True, meta_new maker False,
          meta_new custody_ata False, meta_new owner_ata False,
          meta_readonly (mt_token_program args) False],
        ix_data = build_amount_instruction MakerWithdraw (mt_amount args)\<rparr>]))"

definition build_update_quote_signing_ixs :: "find_pda \<Rightarrow> key \<Rightarrow> key \<Rightarrow> key \<Rightarrow> Instruction list" where
  "build_update_quote_signing_ixs pda program maker_owner new_quote_signing =
     [\<lparr>ix_program_id = program,
       ix_accounts = [meta_readonly maker_owner True,
         meta_new (fst (maker_pda pda program maker_owner)) False],
       ix_data = instruction_kind_u8 UpdateMakerQuoteSigning # new_quote_signing\<rparr>]"

record FundPositionIxArgs =
  fp_holder :: key
  fp_position_pda :: key
  fp_market_pda :: key
  fp_position_type :: u8
  fp_underlying_mint :: key
  fp_quote_mint :: key
  fp_underlying_token_program_id :: key
  fp_quote_token_program_id :: key
  fp_create_atas :: bool

definition build_fund_position_ixs ::
  "find_pda \<Rightarrow> key \<Rightarrow> FundPositionIxArgs \<Rightarrow> key \<Rightarrow> (ChainIxError, Instruction list) res" where
  "build_fund_position_ixs pda program args fee_payer =
     (let maker = fst (maker_pda pda program (fp_holder args)) in
      bind_res
        (if fp_position_type args = 0 then Ok (fp_quote_mint args, fp_quote_token_program_id args)
         else if fp_position_type args = 1
         then Ok (fp_underlying_mint args, fp_underlying_token_program_id args)
         else Err (InvalidPositionType (fp_position_type args)))
      (\<lambda>(mint, token_program).
      let funding_ata = ata pda (fp_holder args) mint token_program;
          settlement_ata = ata pda (fp_position_pda args) mint token_program;
          create = (if fp_create_atas args
            then [create_associated_token_account_idempotent_ix fee_payer funding_ata
                    (fp_holder args) mint token_program,
                  create_associated_token_account_idempotent_ix fee_payer settlement_ata
                    (fp_position_pda args) mint token_program]
            else []) in
      Ok (create @ [\<lparr>ix_program_id = program,
        ix_accounts = [meta_new (fp_holder args) True, meta_readonly maker False,
          meta_new (fp_position_pda args) False, meta_readonly (fp_market_pda args) False,
          meta_new funding_ata False, meta_new settlement_ata False,
          meta_readonly token_program False],
        ix_data = [instruction_kind_u8 DepositFundsToPosition]\<rparr>])))"

end
