(* ===== verification/VaultAccounts.thy ===== *)
theory VaultAccounts
  imports ChainIx
begin

text \<open>
  The on-chain account layouts of \<^verbatim>\<open>src/src/chain/vault/account.rs\<close> with the error type of
  \<^verbatim>\<open>chain/vault/error.rs\<close>: the vault account and the deposit and withdrawal requests. Offsets are
  read with panicking slices, as in the source; that none of them can panic is a property.
\<close>

section \<open>Errors\<close>

datatype VaultChainError =
  VcStaged | VcGovernanceAuthorityRequired | VcColdAuthorityRequired | VcMissingPriceSection
| VcOwner key key
| VcAccountTooShort nat nat
| VcAccountLength nat nat
| VcDiscriminator u8 u8
| VcVersion u8
| VcUnknownPhase u8
| VcUnknownSafety u8
| VcUnknownTokenProgramKind u8
| VcUnknownAccountingFlags u32
| VcUnknownStagedKind u8
| VcUnknownStagedLeg u8
| VcPriceRoute string
| VcSecondLegRolled
| VcBatchTooLarge
| VcInvalidInput string

section \<open>Data\<close>

datatype VaultLeg = MainLeg | SecondLeg

datatype VaultPhase = PhaseIdle | PhaseActive | PhaseSettling | PhaseProcessingCapital

definition vault_phase_try_from :: "u8 \<Rightarrow> (VaultChainError, VaultPhase) res" where
  "vault_phase_try_from v =
     (if v = 0 then Ok PhaseIdle else if v = 1 then Ok PhaseActive else if v = 2 then Ok PhaseSettling
      else if v = 3 then Ok PhaseProcessingCapital else Err (VcUnknownPhase v))"

datatype VaultSafety = SafetyNormal | SafetyFrozen | SafetyEmergencyUnwind | SafetyWithdrawOnly | SafetyClosing

definition vault_safety_try_from :: "u8 \<Rightarrow> (VaultChainError, VaultSafety) res" where
  "vault_safety_try_from v =
     (if v = 0 then Ok SafetyNormal else if v = 1 then Ok SafetyFrozen
      else if v = 2 then Ok SafetyEmergencyUnwind else if v = 3 then Ok SafetyWithdrawOnly
      else if v = 4 then Ok SafetyClosing else Err (VcUnknownSafety v))"

record VaultStagedSlot =
  sl_mint :: key
  sl_from_leg :: VaultLeg
  sl_amount :: u64
  sl_staged_at :: u64

record VaultStagingState =
  sg_generation :: u64
  sg_open :: "VaultStagedSlot option"

record VaultAccount =
  va_vault_id :: bytes
  va_phase :: VaultPhase
  va_safety :: VaultSafety
  va_equity_computed :: bool
  va_accepting_deposits :: bool
  va_governance_authority :: key
  va_primary_delegate :: key
  va_pending_governance_authority :: key
  va_fee_recipient :: key
  va_main_mint :: key
  va_second_mint :: key
  va_share_mint :: key
  va_main_token_program :: key
  va_second_token_program :: key
  va_active_expiry :: u64
  va_open_positions :: u64
  va_total_shares :: u64
  va_pending_deposit_count :: u32
  va_pending_withdraw_count :: u32
  va_capital_fallback_delay_secs :: u64
  va_closing_started_at :: u64
  va_boundary_equity :: u64
  va_boundary_shares :: u64
  va_staging :: VaultStagingState
  va_second_leg_generation :: u64

section \<open>Field access\<close>

definition account_header ::
  "bytes \<Rightarrow> nat \<Rightarrow> u8 \<Rightarrow> u8 \<Rightarrow> (VaultChainError, bytes) res" where
  "account_header data len discriminator version =
     bind_res (ok_or (VcAccountTooShort len (length data)) (get_range 0 len data)) (\<lambda>data.
     bind_res (index_res 0 data) (\<lambda>d.
     if d \<noteq> discriminator then Err (VcDiscriminator discriminator d)
     else
       bind_res (index_res 1 data) (\<lambda>v.
       if v \<noteq> version then Err (VcVersion v) else Ok data)))"

definition token_program_of :: "u8 \<Rightarrow> (VaultChainError, key) res" where
  "token_program_of kind =
     (if kind = 0 then Ok TOKEN_PROGRAM_ID else if kind = 1 then Ok TOKEN_2022_PROGRAM_ID
      else Err (VcUnknownTokenProgramKind kind))"

definition bytes32_at :: "bytes \<Rightarrow> nat \<Rightarrow> (VaultChainError, bytes) res" where
  "bytes32_at data offset = slice_res offset (offset + 32) data"

definition u32_at :: "bytes \<Rightarrow> nat \<Rightarrow> (VaultChainError, u32) res" where
  "u32_at data offset = bind_res (slice_res offset (offset + 4) data) (\<lambda>b. Ok (from_le b))"

definition u64_at :: "bytes \<Rightarrow> nat \<Rightarrow> (VaultChainError, u64) res" where
  "u64_at data offset = bind_res (slice_res offset (offset + 8) data) (\<lambda>b. Ok (from_le b))"

section \<open>The vault account\<close>

definition VAULT_DISCRIMINATOR :: u8 where "VAULT_DISCRIMINATOR = 9"
definition VAULT_VERSION :: u8 where "VAULT_VERSION = 1"
definition REQUEST_VERSION :: u8 where "REQUEST_VERSION = 1"
definition EQUITY_COMPUTED :: u32 where "EQUITY_COMPUTED = push_bit 0 1"
definition ACCEPTING_DEPOSITS :: u32 where "ACCEPTING_DEPOSITS = push_bit 1 1"
definition VAULT_LEN :: nat where "VAULT_LEN = 712"

definition staged_leg :: "u8 \<Rightarrow> (VaultChainError, VaultLeg) res" where
  "staged_leg b =
     (if b = 0 then Ok MainLeg else if b = 1 then Ok SecondLeg else Err (VcUnknownStagedLeg b))"

definition staged_slot :: "bytes \<Rightarrow> (VaultChainError, VaultStagedSlot option) res" where
  "staged_slot data =
     bind_res (u64_at data 488) (\<lambda>amount.
     if amount = 0 then Ok None
     else
       bind_res (bytes32_at data 456) (\<lambda>mint.
       bind_res (index_res 5 data) (\<lambda>b.
       bind_res (staged_leg b) (\<lambda>leg.
       bind_res (u64_at data 496) (\<lambda>staged_at.
       Ok (Some \<lparr>sl_mint = mint, sl_from_leg = leg, sl_amount = amount, sl_staged_at = staged_at\<rparr>))))))"

definition vault_parse :: "bytes \<Rightarrow> (VaultChainError, VaultAccount) res" where
  "vault_parse input =
     (if length input \<noteq> VAULT_LEN then Err (VcAccountLength VAULT_LEN (length input))
      else
        bind_res (account_header input VAULT_LEN VAULT_DISCRIMINATOR VAULT_VERSION) (\<lambda>data.
        bind_res (u32_at data 12) (\<lambda>flags.
        if flags AND NOT (EQUITY_COMPUTED OR ACCEPTING_DEPOSITS) \<noteq> 0
        then Err (VcUnknownAccountingFlags flags)
        else
          bind_res (index_res 6 data) (\<lambda>staged_kind.
          if staged_kind \<noteq> 0 then Err (VcUnknownStagedKind staged_kind)
          else
            bind_res (staged_slot data) (\<lambda>slot.
            bind_res (bytes32_at data 16) (\<lambda>vault_id.
            bind_res (bind_res (index_res 3 data) vault_phase_try_from) (\<lambda>phase.
            bind_res (bind_res (index_res 4 data) vault_safety_try_from) (\<lambda>safety.
            bind_res (bytes32_at data 48) (\<lambda>governance_authority.
            bind_res (bytes32_at data 144) (\<lambda>primary_delegate.
            bind_res (bytes32_at data 80) (\<lambda>pending_governance_authority.
            bind_res (bytes32_at data 112) (\<lambda>fee_recipient.
            bind_res (bytes32_at data 176) (\<lambda>main_mint.
            bind_res (bytes32_at data 208) (\<lambda>second_mint.
            bind_res (bytes32_at data 240) (\<lambda>share_mint.
            bind_res (bind_res (index_res 402 data) token_program_of) (\<lambda>main_token_program.
            bind_res (bind_res (index_res 403 data) token_program_of) (\<lambda>second_token_program.
            bind_res (u64_at data 272) (\<lambda>active_expiry.
            bind_res (u64_at data 280) (\<lambda>open_positions.
            bind_res (u64_at data 288) (\<lambda>total_shares.
            bind_res (u32_at data 320) (\<lambda>pending_deposit_count.
            bind_res (u32_at data 324) (\<lambda>pending_withdraw_count.
            bind_res (u64_at data 408) (\<lambda>capital_fallback_delay_secs.
            bind_res (u64_at data 432) (\<lambda>closing_started_at.
            bind_res (u64_at data 440) (\<lambda>boundary_equity.
            bind_res (u64_at data 448) (\<lambda>boundary_shares.
            bind_res (u64_at data 504) (\<lambda>generation.
            bind_res (u64_at data 512) (\<lambda>second_leg_generation.
            Ok \<lparr>va_vault_id = vault_id, va_phase = phase, va_safety = safety,
              va_equity_computed = (flags AND EQUITY_COMPUTED \<noteq> 0),
              va_accepting_deposits = (flags AND ACCEPTING_DEPOSITS \<noteq> 0),
              va_governance_authority = governance_authority, va_primary_delegate = primary_delegate,
              va_pending_governance_authority = pending_governance_authority,
              va_fee_recipient = fee_recipient, va_main_mint = main_mint, va_second_mint = second_mint,
              va_share_mint = share_mint, va_main_token_program = main_token_program,
              va_second_token_program = second_token_program, va_active_expiry = active_expiry,
              va_open_positions = open_positions, va_total_shares = total_shares,
              va_pending_deposit_count = pending_deposit_count,
              va_pending_withdraw_count = pending_withdraw_count,
              va_capital_fallback_delay_secs = capital_fallback_delay_secs,
              va_closing_started_at = closing_started_at, va_boundary_equity = boundary_equity,
              va_boundary_shares = boundary_shares,
              va_staging = \<lparr>sg_generation = generation, sg_open = slot\<rparr>,
              va_second_leg_generation = second_leg_generation\<rparr>))))))))))))))))))))))))))))"

text \<open>A fetched account is its owner and its data.\<close>

record account =
  ac_owner :: key
  ac_data :: bytes

definition vault_from_account :: "account \<Rightarrow> key \<Rightarrow> (VaultChainError, VaultAccount) res" where
  "vault_from_account a program =
     (if ac_owner a \<noteq> program then Err (VcOwner program (ac_owner a)) else vault_parse (ac_data a))"

section \<open>Requests\<close>

datatype VaultRequestKind = RequestDeposit | RequestWithdraw

fun request_discriminator :: "VaultRequestKind \<Rightarrow> u8" where
  "request_discriminator RequestDeposit = 12"
| "request_discriminator RequestWithdraw = 13"

record VaultRequest =
  vr_user :: key
  vr_vault :: key
  vr_amount :: u64
  vr_created_at :: u64

definition REQUEST_LEN :: nat where "REQUEST_LEN = 344"

definition request_parse :: "bytes \<Rightarrow> VaultRequestKind \<Rightarrow> (VaultChainError, VaultRequest) res" where
  "request_parse input kind =
     bind_res (account_header input REQUEST_LEN (request_discriminator kind) REQUEST_VERSION) (\<lambda>data.
     bind_res (bytes32_at data 8) (\<lambda>user.
     bind_res (bytes32_at data 40) (\<lambda>vault.
     bind_res (u64_at data 72) (\<lambda>amount.
     bind_res (u64_at data 80) (\<lambda>created_at.
     Ok \<lparr>vr_user = user, vr_vault = vault, vr_amount = amount, vr_created_at = created_at\<rparr>)))))"

definition request_from_account ::
  "account \<Rightarrow> key \<Rightarrow> VaultRequestKind \<Rightarrow> (VaultChainError, VaultRequest) res" where
  "request_from_account a program kind =
     (if ac_owner a \<noteq> program then Err (VcOwner program (ac_owner a))
      else if length (ac_data a) \<noteq> REQUEST_LEN
      then Err (VcAccountLength REQUEST_LEN (length (ac_data a)))
      else request_parse (ac_data a) kind)"

section \<open>Tags\<close>

fun vault_phase_u8 :: "VaultPhase \<Rightarrow> u8" where
  "vault_phase_u8 PhaseIdle = 0"
| "vault_phase_u8 PhaseActive = 1"
| "vault_phase_u8 PhaseSettling = 2"
| "vault_phase_u8 PhaseProcessingCapital = 3"

fun vault_safety_u8 :: "VaultSafety \<Rightarrow> u8" where
  "vault_safety_u8 SafetyNormal = 0"
| "vault_safety_u8 SafetyFrozen = 1"
| "vault_safety_u8 SafetyEmergencyUnwind = 2"
| "vault_safety_u8 SafetyWithdrawOnly = 3"
| "vault_safety_u8 SafetyClosing = 4"

fun leg_u8 :: "VaultLeg \<Rightarrow> u8" where
  "leg_u8 MainLeg = 0"
| "leg_u8 SecondLeg = 1"

interpretation phase_tag: tag_codec vault_phase_u8 vault_phase_try_from
proof
  show "vault_phase_try_from (vault_phase_u8 x) = Ok x" for x
    by (cases x) (simp_all add: vault_phase_try_from_def)
qed (auto simp: vault_phase_try_from_def split: if_splits)

interpretation safety_tag: tag_codec vault_safety_u8 vault_safety_try_from
proof
  show "vault_safety_try_from (vault_safety_u8 x) = Ok x" for x
    by (cases x) (simp_all add: vault_safety_try_from_def)
qed (auto simp: vault_safety_try_from_def split: if_splits)

interpretation leg_tag: tag_codec leg_u8 staged_leg
proof
  show "staged_leg (leg_u8 x) = Ok x" for x
    by (cases x) (simp_all add: staged_leg_def)
qed (auto simp: staged_leg_def split: if_splits)

lemma token_program_of_not_Panic [simp]: "token_program_of k \<noteq> Panic"
  by (simp add: token_program_of_def)

section \<open>Reading fields\<close>

lemma field_not_Panic [simp]:
  "offset + 32 \<le> length data \<Longrightarrow> bytes32_at data offset \<noteq> Panic"
  "offset + 4 \<le> length data \<Longrightarrow> u32_at data offset \<noteq> Panic"
  "offset + 8 \<le> length data \<Longrightarrow> u64_at data offset \<noteq> Panic"
  by (simp_all add: bytes32_at_def u32_at_def u64_at_def slice_res_def)

lemma index_not_Panic [simp]: "i < length xs \<Longrightarrow> index_res i xs \<noteq> Panic"
  by (simp add: index_res_def)

lemma account_header_eq_Ok [res_simps]:
  "account_header data len d v = Ok out \<longleftrightarrow>
     len \<le> length data \<and> 1 < len \<and> out = take len data \<and> data ! 0 = d \<and> data ! 1 = v"
  if "0 < len" for len
  using that by (auto simp: account_header_def res_simps min_def)

lemma account_header_not_Panic: "2 \<le> len \<Longrightarrow> account_header data len d v \<noteq> Panic"
  unfolding account_header_def by (intro no_panic_intros) (auto simp: res_simps)

lemma bytes32_at_eq_Ok [res_simps]:
  "bytes32_at data i = Ok b \<longleftrightarrow> i + 32 \<le> length data \<and> b = take 32 (drop i data)"
  by (auto simp: bytes32_at_def res_simps)

lemma u64_at_eq_Ok [res_simps]:
  "u64_at data i = Ok w \<longleftrightarrow> i + 8 \<le> length data \<and> u64_le w = take 8 (drop i data)"
  by (auto simp: u64_at_def res_simps u64_le_from_le) (metis from_le_roundtrip(3))

lemma u32_at_eq_Ok [res_simps]:
  "u32_at data i = Ok w \<longleftrightarrow> i + 4 \<le> length data \<and> u32_le w = take 4 (drop i data)"
  by (auto simp: u32_at_def res_simps u32_le_from_le) (metis from_le_roundtrip(2))

lemma staged_slot_not_Panic:
  assumes "length data = VAULT_LEN"
  shows "staged_slot data \<noteq> Panic"
  unfolding staged_slot_def using assms
  by (intro no_panic_intros) (simp_all add: VAULT_LEN_def leg_tag.of_tag_total)

section \<open>The layout as a table\<close>

text \<open>
  \<open>vault_layout data v\<close> is the account layout read as a specification: which bytes stand at which
  offset of an account that holds \<open>v\<close>. Bytes the table does not name are free.
\<close>

definition accounting_flags :: "bool \<Rightarrow> bool \<Rightarrow> u32" where
  "accounting_flags computed accepting = (if computed then 1 else 0) OR (if accepting then 2 else 0)"

definition fields_at :: "bytes \<Rightarrow> (nat \<times> bytes) list \<Rightarrow> bool" where
  "fields_at data fs = list_all (\<lambda>(offset, bs). take (length bs) (drop offset data) = bs) fs"

definition staged_layout :: "bytes \<Rightarrow> VaultStagedSlot option \<Rightarrow> bool" where
  "staged_layout data slot =
     (case slot of
        None \<Rightarrow> fields_at data [(488, u64_le 0)]
      | Some s \<Rightarrow> sl_amount s \<noteq> 0 \<and> is_key (sl_mint s) \<and>
          fields_at data [(488, u64_le (sl_amount s)), (456, sl_mint s), (5, [leg_u8 (sl_from_leg s)]),
            (496, u64_le (sl_staged_at s))])"

definition token_kind :: "key \<Rightarrow> u8 option" where
  "token_kind k = (if k = TOKEN_PROGRAM_ID then Some 0 else if k = TOKEN_2022_PROGRAM_ID then Some 1 else None)"

definition vault_tags_layout :: "bytes \<Rightarrow> VaultAccount \<Rightarrow> bool" where
  "vault_tags_layout data v \<longleftrightarrow>
     fields_at data [(0, [VAULT_DISCRIMINATOR]), (1, [VAULT_VERSION]), (3, [vault_phase_u8 (va_phase v)]),
       (4, [vault_safety_u8 (va_safety v)]), (6, [0]),
       (12, u32_le (accounting_flags (va_equity_computed v) (va_accepting_deposits v)))] \<and>
     token_kind (va_main_token_program v) = Some (data ! 402) \<and>
     token_kind (va_second_token_program v) = Some (data ! 403)"

definition vault_keys_layout :: "bytes \<Rightarrow> VaultAccount \<Rightarrow> bool" where
  "vault_keys_layout data v \<longleftrightarrow>
     list_all is_key [va_vault_id v, va_governance_authority v, va_pending_governance_authority v,
       va_fee_recipient v, va_primary_delegate v, va_main_mint v, va_second_mint v, va_share_mint v] \<and>
     fields_at data [(16, va_vault_id v), (48, va_governance_authority v),
       (80, va_pending_governance_authority v), (112, va_fee_recipient v), (144, va_primary_delegate v),
       (176, va_main_mint v), (208, va_second_mint v), (240, va_share_mint v)]"

definition vault_counters_layout :: "bytes \<Rightarrow> VaultAccount \<Rightarrow> bool" where
  "vault_counters_layout data v =
     fields_at data [(272, u64_le (va_active_expiry v)), (280, u64_le (va_open_positions v)),
       (288, u64_le (va_total_shares v)), (320, u32_le (va_pending_deposit_count v)),
       (324, u32_le (va_pending_withdraw_count v)), (408, u64_le (va_capital_fallback_delay_secs v)),
       (432, u64_le (va_closing_started_at v)), (440, u64_le (va_boundary_equity v)),
       (448, u64_le (va_boundary_shares v)), (504, u64_le (sg_generation (va_staging v))),
       (512, u64_le (va_second_leg_generation v))]"

definition vault_layout :: "bytes \<Rightarrow> VaultAccount \<Rightarrow> bool" where
  "vault_layout data v \<longleftrightarrow>
     length data = VAULT_LEN \<and> vault_tags_layout data v \<and> staged_layout data (sg_open (va_staging v)) \<and>
     vault_keys_layout data v \<and> vault_counters_layout data v"

lemma byte_field: "i < length data \<Longrightarrow> take (Suc 0) (drop i data) = [b] \<longleftrightarrow> data ! i = b"
  by (simp add: take_Suc hd_drop_conv_nth)

lemma first_byte: "0 < length data \<Longrightarrow> take (Suc 0) data = [b] \<longleftrightarrow> data ! 0 = b"
  using byte_field [of 0 data b] by simp

lemma accounting_flags_iff:
  "flags = accounting_flags computed accepting \<longleftrightarrow>
     flags AND NOT (EQUITY_COMPUTED OR ACCEPTING_DEPOSITS) = 0 \<and>
     computed = (flags AND EQUITY_COMPUTED \<noteq> 0) \<and> accepting = (flags AND ACCEPTING_DEPOSITS \<noteq> 0)"
  (is "?l = ?r")
proof
  show "?l \<Longrightarrow> ?r"
    by (simp add: accounting_flags_def EQUITY_COMPUTED_def ACCEPTING_DEPOSITS_def)
next
  assume r: ?r
  have low: "flags AND NOT 3 = 0"
    using r by (simp add: EQUITY_COMPUTED_def ACCEPTING_DEPOSITS_def)
  have "flags = flags AND (3 OR NOT 3)"
    by simp
  also have "\<dots> = (flags AND 1) OR (flags AND 2)"
    unfolding bit.conj_disj_distrib low by (simp add: bit.conj_disj_distrib [symmetric])
  also have "flags AND 1 = (if computed then 1 else 0)"
    using r by (simp add: EQUITY_COMPUTED_def and_one_eq odd_iff_mod_2_eq_one)
  also have "flags AND 2 = (if accepting then 2 else 0)"
  proof -
    have "flags AND 2 = 0 \<or> flags AND 2 = 2"
      by (cases "bit flags 1") (auto intro!: bit_word_eqI simp: bit_and_iff bit_2_iff)
    with r show ?thesis by (auto simp: ACCEPTING_DEPOSITS_def)
  qed
  finally show ?l by (simp add: accounting_flags_def)
qed

lemma field_total:
  "i + 8 \<le> length data \<Longrightarrow> \<exists>w. u64_at data i = Ok w"
  "i + 4 \<le> length data \<Longrightarrow> \<exists>w. u32_at data i = Ok w"
  by (simp_all add: u64_at_def u32_at_def slice_res_def)

lemma staged_slot_iff:
  assumes "length data = VAULT_LEN"
  shows "staged_slot data = Ok slot \<longleftrightarrow> staged_layout data slot"
proof -
  have len: "length data = 712" using assms by (simp add: VAULT_LEN_def)
  then obtain a t where a: "u64_at data 488 = Ok a" and t: "u64_at data 496 = Ok t"
    using field_total(1) [of 488 data] field_total(1) [of 496 data] by auto
  have bytes: "take 8 (drop 488 data) = u64_le a" "take 8 (drop 496 data) = u64_le t"
    using a t by (simp_all add: u64_at_eq_Ok)
  show ?thesis
  proof (cases "a = 0")
    case True
    then show ?thesis using a bytes
      by (auto simp: staged_slot_def staged_layout_def fields_at_def split: option.splits)
  next
    case False
    have slot: "staged_slot data =
      bind_res (staged_leg (data ! 5)) (\<lambda>leg. Ok (Some \<lparr>sl_mint = take 32 (drop 456 data),
         sl_from_leg = leg, sl_amount = a, sl_staged_at = t\<rparr>))"
      using False a t len by (simp add: staged_slot_def bytes32_at_def slice_res_def index_res_def)
    have leg: "take (Suc 0) (drop 5 data) = [b] \<longleftrightarrow> data ! 5 = b" for b
      using len by (intro byte_field) simp
    show ?thesis
    proof (cases slot)
      case None
      have "u64_le a \<noteq> u64_le 0" using False by simp
      then show ?thesis
        unfolding slot None by (simp add: bind_res_eq_Ok staged_layout_def fields_at_def bytes)
    next
      case (Some s)
      obtain m l am st where s: "s = \<lparr>sl_mint = m, sl_from_leg = l, sl_amount = am, sl_staged_at = st\<rparr>"
        by (cases s)
      show ?thesis
        unfolding slot Some s using False len
        by (auto simp: bind_res_eq_Ok staged_layout_def fields_at_def bytes leg leg_tag.of_tag_Ok_iff)
    qed
  qed
qed

lemma token_program_of_iff: "token_program_of b = Ok k \<longleftrightarrow> token_kind k = Some b"
proof -
  have "TOKEN_PROGRAM_ID \<noteq> TOKEN_2022_PROGRAM_ID"
    by (simp add: TOKEN_PROGRAM_ID_def TOKEN_2022_PROGRAM_ID_def)
  then show ?thesis by (auto simp: token_program_of_def token_kind_def)
qed

lemma fields_at_simps [simp]:
  "fields_at data []"
  "fields_at data ((i, bs) # fs) \<longleftrightarrow> take (length bs) (drop i data) = bs \<and> fields_at data fs"
  by (simp_all add: fields_at_def)

lemma layout_parses:
  assumes "vault_layout data v"
  shows "vault_parse data = Ok v"
proof -
  have len: "length data = 712"
    and tags: "vault_tags_layout data v" and slot: "staged_slot data = Ok (sg_open (va_staging v))"
    and keys: "vault_keys_layout data v" and counters: "vault_counters_layout data v"
    using assms staged_slot_iff by (auto simp: vault_layout_def VAULT_LEN_def)
  have bytes: "data ! 0 = VAULT_DISCRIMINATOR" "data ! 1 = VAULT_VERSION"
    "data ! 3 = vault_phase_u8 (va_phase v)" "data ! 4 = vault_safety_u8 (va_safety v)" "data ! 6 = 0"
    using tags len by (simp_all add: vault_tags_layout_def byte_field first_byte)
  have flags: "u32_at data 12 = Ok (accounting_flags (va_equity_computed v) (va_accepting_deposits v))"
    using tags len by (simp add: vault_tags_layout_def u32_at_eq_Ok)
  have programs: "token_program_of (data ! 402) = Ok (va_main_token_program v)"
    "token_program_of (data ! 403) = Ok (va_second_token_program v)"
    using tags by (simp_all add: vault_tags_layout_def token_program_of_iff)
  have pubkeys: "bytes32_at data 16 = Ok (va_vault_id v)" "bytes32_at data 48 = Ok (va_governance_authority v)"
    "bytes32_at data 80 = Ok (va_pending_governance_authority v)" "bytes32_at data 112 = Ok (va_fee_recipient v)"
    "bytes32_at data 144 = Ok (va_primary_delegate v)" "bytes32_at data 176 = Ok (va_main_mint v)"
    "bytes32_at data 208 = Ok (va_second_mint v)" "bytes32_at data 240 = Ok (va_share_mint v)"
    using keys len by (auto simp: vault_keys_layout_def bytes32_at_eq_Ok)
  have nums: "u64_at data 272 = Ok (va_active_expiry v)" "u64_at data 280 = Ok (va_open_positions v)"
    "u64_at data 288 = Ok (va_total_shares v)" "u32_at data 320 = Ok (va_pending_deposit_count v)"
    "u32_at data 324 = Ok (va_pending_withdraw_count v)"
    "u64_at data 408 = Ok (va_capital_fallback_delay_secs v)" "u64_at data 432 = Ok (va_closing_started_at v)"
    "u64_at data 440 = Ok (va_boundary_equity v)" "u64_at data 448 = Ok (va_boundary_shares v)"
    "u64_at data 504 = Ok (sg_generation (va_staging v))" "u64_at data 512 = Ok (va_second_leg_generation v)"
    using counters len by (simp_all add: vault_counters_layout_def u64_at_eq_Ok u32_at_eq_Ok)
  have header: "account_header data VAULT_LEN VAULT_DISCRIMINATOR VAULT_VERSION = Ok data"
    using len bytes by (simp add: account_header_eq_Ok VAULT_LEN_def)
  have index: "index_res 3 data = Ok (data ! 3)" "index_res 4 data = Ok (data ! 4)"
    "index_res 6 data = Ok (data ! 6)" "index_res 402 data = Ok (data ! 402)"
    "index_res 403 data = Ok (data ! 403)"
    using len by (simp_all add: index_res_def)
  note fl = accounting_flags_iff [THEN iffD1, OF refl, of "va_equity_computed v" "va_accepting_deposits v"]
  show ?thesis
    using fl by (simp add: vault_parse_def len VAULT_LEN_def header [unfolded VAULT_LEN_def] flags index bytes
        slot pubkeys nums programs phase_tag.of_to safety_tag.of_to)
qed

lemma vault_parse_header:
  assumes "vault_parse data = Ok v"
  shows "length data = VAULT_LEN" and "data ! 0 = VAULT_DISCRIMINATOR" and "data ! 1 = VAULT_VERSION"
    and "account_header data VAULT_LEN VAULT_DISCRIMINATOR VAULT_VERSION = Ok data"
proof -
  show len: "length data = VAULT_LEN" using assms by (simp add: vault_parse_def split: if_splits)
  obtain d where d: "account_header data VAULT_LEN VAULT_DISCRIMINATOR VAULT_VERSION = Ok d"
    using assms by (auto simp: vault_parse_def bind_res_eq_Ok split: if_splits)
  have hd: "d = data \<and> data ! 0 = VAULT_DISCRIMINATOR \<and> data ! 1 = VAULT_VERSION"
    using d len by (simp add: account_header_eq_Ok VAULT_LEN_def)
  then show "data ! 0 = VAULT_DISCRIMINATOR" "data ! 1 = VAULT_VERSION"
    "account_header data VAULT_LEN VAULT_DISCRIMINATOR VAULT_VERSION = Ok data"
    using d by simp_all
qed

lemma parses_layout:
  assumes "vault_parse data = Ok v"
  shows "vault_layout data v"
proof -
  note hd = vault_parse_header [OF assms]
  have len: "length data = 712" using hd(1) by (simp add: VAULT_LEN_def)
  obtain flags where f: "u32_at data 12 = Ok flags" using field_total(2) [of 12 data] len by auto
  have fits: "flags AND NOT (EQUITY_COMPUTED OR ACCEPTING_DEPOSITS) = 0"
    using assms hd(1) by (auto simp: vault_parse_def hd(4) f split: if_splits)
  have flags: "flags = accounting_flags (va_equity_computed v) (va_accepting_deposits v)"
    using assms hd(1) unfolding vault_parse_def accounting_flags_iff
    by (clarsimp simp: hd(4) f fits bind_res_eq_Ok if_Err_eq_Ok)
  note parse = assms [unfolded vault_parse_def, simplified hd(1,4) f fits bind_res_eq_Ok if_Err_eq_Ok simp_thms]
  have tags: "vault_tags_layout data v"
    using parse len hd(2,3) f flags
    by (clarsimp simp: vault_tags_layout_def index_res_eq_Ok byte_field first_byte u32_at_eq_Ok
        phase_tag.of_tag_Ok_iff safety_tag.of_tag_Ok_iff token_program_of_iff)
  have slot: "staged_layout data (sg_open (va_staging v))"
    using parse by (clarsimp simp: staged_slot_iff [OF hd(1)])
  have keys: "vault_keys_layout data v"
    using parse len by (clarsimp simp: vault_keys_layout_def bytes32_at_eq_Ok)
  have "vault_counters_layout data v"
    using parse len by (clarsimp simp: vault_counters_layout_def u64_at_eq_Ok u32_at_eq_Ok)
  with tags slot keys hd(1) show ?thesis by (simp add: vault_layout_def)
qed

lemma vault_parse_no_panic: "vault_parse data \<noteq> Panic"
proof (cases "account_header data VAULT_LEN VAULT_DISCRIMINATOR VAULT_VERSION")
  case (Ok d)
  then have "length d = VAULT_LEN" by (auto simp: account_header_eq_Ok VAULT_LEN_def)
  then show ?thesis
    unfolding vault_parse_def Ok
    by (intro no_panic_intros staged_slot_not_Panic phase_tag.of_tag_total safety_tag.of_tag_total)
      (auto simp: VAULT_LEN_def)
next
  case (Err e)
  then show ?thesis by (simp add: vault_parse_def)
next
  case Panic
  then show ?thesis using account_header_not_Panic by (simp add: VAULT_LEN_def)
qed

text \<open>
  C29. \<open>VaultAccount::parse\<close> accepts exactly the accounts of the documented layout: 712 bytes, discriminator
  9, version 1, known phase, safety, leg and token-program tags, no unknown accounting flag, and every
  key and counter at its offset. It returns the one account with those fields, and no input makes it
  panic.
\<close>

theorem vault_parse_layout:
  "vault_parse data \<noteq> Panic \<and> (vault_parse data = Ok v \<longleftrightarrow> vault_layout data v)"
  using vault_parse_no_panic parses_layout layout_parses by blast

lemma request_parse_no_panic: "request_parse data kind \<noteq> Panic"
proof (cases "account_header data REQUEST_LEN (request_discriminator kind) REQUEST_VERSION")
  case (Ok d)
  then have "length d = REQUEST_LEN" by (auto simp: account_header_eq_Ok REQUEST_LEN_def)
  then show ?thesis
    unfolding request_parse_def Ok by (intro no_panic_intros) (auto simp: REQUEST_LEN_def)
next
  case (Err e)
  then show ?thesis by (simp add: request_parse_def)
next
  case Panic
  then show ?thesis using account_header_not_Panic by (simp add: REQUEST_LEN_def)
qed

text \<open>The two request kinds differ in their discriminator, so no account parses as both.\<close>

lemma request_kind_unique:
  assumes "request_parse data k1 = Ok r1" and "request_parse data k2 = Ok r2"
  shows "k1 = k2 \<and> r1 = r2"
proof -
  have "data ! 0 = request_discriminator k1" "data ! 0 = request_discriminator k2"
    using assms by (auto simp: request_parse_def bind_res_eq_Ok account_header_eq_Ok REQUEST_LEN_def)
  then have "k1 = k2" by (cases k1; cases k2) auto
  with assms show ?thesis by simp
qed

end
