(* ===== verification/Reader.thy ===== *)
theory Reader
  imports Prelude
begin

text \<open>
  The contract of a byte reader and what it gives every decoder built on one. Two decoders of the
  source own a private \<^verbatim>\<open>Reader\<close>: one keeps a position into the input
  (\<^verbatim>\<open>chain/vault/served.rs\<close>), the other the unread slice (\<^verbatim>\<open>chain/vault/price_route.rs\<close>). A decoder is
  a function from a reader to a value and the reader after it; \<open>rbind\<close> sequences two of them the
  way \<^verbatim>\<open>?\<close> does on a \<^verbatim>\<open>&mut self\<close> method.
\<close>

section \<open>Decoders\<close>

type_synonym ('r, 'e, 'a) decoder = "'r \<Rightarrow> ('e, 'a \<times> 'r) res"

definition rret :: "'a \<Rightarrow> ('r, 'e, 'a) decoder" where
  "rret x r = Ok (x, r)"

definition rfail :: "'e \<Rightarrow> ('r, 'e, 'a) decoder" where
  "rfail e r = Err e"

definition rbind :: "('r, 'e, 'a) decoder \<Rightarrow> ('a \<Rightarrow> ('r, 'e, 'b) decoder) \<Rightarrow> ('r, 'e, 'b) decoder" where
  "rbind p q r = bind_res (p r) (\<lambda>(x, r'). q x r')"

text \<open>\<^verbatim>\<open>(0..n).map(|_| p).collect::<Result<Vec<_>, _>>()\<close>\<close>

fun rmany :: "nat \<Rightarrow> ('r, 'e, 'a) decoder \<Rightarrow> ('r, 'e, 'a list) decoder" where
  "rmany 0 p = rret []"
| "rmany (Suc n) p = rbind p (\<lambda>x. rbind (rmany n p) (\<lambda>xs. rret (x # xs)))"

section \<open>What a decoder reads and keeps\<close>

text \<open>
  \<open>reads ok rem p bs x\<close>: from any reader in state \<open>ok\<close> whose unread input starts with \<open>bs\<close>, \<open>p\<close> returns
  \<open>x\<close> and leaves the rest. \<open>safe ok rem p\<close>: \<open>p\<close> never panics, and what it leaves is a suffix of what it
  was given.
\<close>

definition reads :: "('r \<Rightarrow> bool) \<Rightarrow> ('r \<Rightarrow> bytes) \<Rightarrow> ('r, 'e, 'a) decoder \<Rightarrow> bytes \<Rightarrow> 'a \<Rightarrow> bool" where
  "reads ok rem p bs x \<longleftrightarrow>
     (\<forall>r rest. ok r \<longrightarrow> rem r = bs @ rest \<longrightarrow> (\<exists>r'. p r = Ok (x, r') \<and> rem r' = rest \<and> ok r'))"

definition safe :: "('r \<Rightarrow> bool) \<Rightarrow> ('r \<Rightarrow> bytes) \<Rightarrow> ('r, 'e, 'a) decoder \<Rightarrow> bool" where
  "safe ok rem p \<longleftrightarrow>
     (\<forall>r. ok r \<longrightarrow> p r \<noteq> Panic \<and> (\<forall>x r'. p r = Ok (x, r') \<longrightarrow> ok r' \<and> (\<exists>bs. rem r = bs @ rem r')))"

lemma readsD:
  assumes "reads ok rem p bs x" "ok r" "rem r = bs @ rest"
  obtains r' where "p r = Ok (x, r')" "rem r' = rest" "ok r'"
  using assms unfolding reads_def by blast

lemma rbind_eq_Ok [res_simps]:
  "rbind p q r = Ok (y, s) \<longleftrightarrow> (\<exists>x r'. p r = Ok (x, r') \<and> q x r' = Ok (y, s))"
  by (auto simp: rbind_def bind_res_eq_Ok)

lemma rret_eq_Ok [res_simps]: "rret x r = Ok (y, s) \<longleftrightarrow> y = x \<and> s = r"
  by (auto simp: rret_def)

lemma rfail_eq_Ok [res_simps]: "rfail e r = Ok z \<longleftrightarrow> False"
  by (simp add: rfail_def)

lemma if_decoder_Err_eq_Ok [res_simps]:
  "(if c then rfail e else p) r = Ok z \<longleftrightarrow> \<not> c \<and> p r = Ok z"
  by (simp add: rfail_def)

lemma reads_rret: "reads ok rem (rret x) [] x"
  by (simp add: reads_def rret_def)

lemma reads_rbind:
  assumes "reads ok rem p a x" and "reads ok rem (q x) b y"
  shows "reads ok rem (rbind p q) (a @ b) y"
  unfolding reads_def
proof (intro allI impI)
  fix r rest
  assume "ok r" and "rem r = (a @ b) @ rest"
  then obtain r' where p: "p r = Ok (x, r')" and r': "rem r' = b @ rest" "ok r'"
    using readsD [OF assms(1), of r "b @ rest"] by auto
  from readsD [OF assms(2) r'(2,1)] obtain r'' where "q x r' = Ok (y, r'')" "rem r'' = rest" "ok r''" .
  with p show "\<exists>r'. rbind p q r = Ok (y, r') \<and> rem r' = rest \<and> ok r'"
    by (simp add: rbind_def)
qed

lemma reads_rmany:
  assumes "list_all2 (reads ok rem p) bss xs"
  shows "reads ok rem (rmany (length xs) p) (concat bss) xs"
  using assms
proof (induction rule: list_all2_induct)
  case Nil
  show ?case by (simp add: reads_rret)
next
  case (Cons bs bss x xs)
  have "reads ok rem (rbind (rmany (length xs) p) (\<lambda>xs. rret (x # xs))) (concat bss @ []) (x # xs)"
    by (rule reads_rbind [OF Cons.IH reads_rret])
  with reads_rbind [OF Cons.hyps(1), of _ "concat bss" "x # xs"] show ?case by simp
qed

lemma safe_rret: "safe ok rem (rret x)"
  by (simp add: safe_def rret_def)

lemma safe_rfail: "safe ok rem (rfail e)"
  by (simp add: safe_def rfail_def)

lemma safe_if: "safe ok rem p \<Longrightarrow> safe ok rem q \<Longrightarrow> safe ok rem (if c then p else q)"
  by simp

lemma safe_rbind:
  assumes "safe ok rem p" and "\<And>x. safe ok rem (q x)"
  shows "safe ok rem (rbind p q)"
  unfolding safe_def
proof (intro allI impI conjI)
  fix r assume r: "ok r"
  have p: "p r \<noteq> Panic" "\<And>x r'. p r = Ok (x, r') \<Longrightarrow> ok r' \<and> (\<exists>bs. rem r = bs @ rem r')"
    using assms(1) r unfolding safe_def by blast+
  have q: "q x r' \<noteq> Panic" "\<And>y r''. q x r' = Ok (y, r'') \<Longrightarrow> ok r'' \<and> (\<exists>bs. rem r' = bs @ rem r'')"
    if "ok r'" for x r'
    using assms(2) [of x] that unfolding safe_def by blast+
  show "rbind p q r \<noteq> Panic"
    using p q by (auto simp: rbind_def bind_res_eq_Panic)
  fix y r'' assume "rbind p q r = Ok (y, r'')"
  then obtain x r' where x: "p r = Ok (x, r')" "q x r' = Ok (y, r'')"
    by (auto simp: rbind_def bind_res_eq_Ok)
  from p(2) [OF x(1)] obtain as where r': "ok r'" "rem r = as @ rem r'" by blast
  from q(2) [OF r'(1) x(2)] obtain bs where "ok r''" "rem r' = bs @ rem r''" by blast
  with r' show "ok r''" "\<exists>bs. rem r = bs @ rem r''" by auto
qed

lemma safe_pointwise:
  assumes "\<And>r. \<exists>p. safe ok rem p \<and> q r = p r"
  shows "safe ok rem q"
  unfolding safe_def
proof (intro allI impI)
  fix r assume r: "ok r"
  obtain p where p: "safe ok rem p" "q r = p r" using assms by blast
  show "q r \<noteq> Panic \<and> (\<forall>x r'. q r = Ok (x, r') \<longrightarrow> ok r' \<and> (\<exists>bs. rem r = bs @ rem r'))"
    using p(1) [unfolded safe_def, rule_format, OF r] unfolding p(2) .
qed

lemma safe_rmany: "safe ok rem p \<Longrightarrow> safe ok rem (rmany n p)"
  by (induction n) (auto intro: safe_rret safe_rbind)

lemmas safe_intros = safe_rret safe_rfail safe_rbind safe_if safe_rmany

lemma safe_not_Panic: "safe ok rem p \<Longrightarrow> ok r \<Longrightarrow> p r \<noteq> Panic"
  by (simp add: safe_def)

lemma safe_suffix:
  assumes "safe ok rem p" "ok r" "p r = Ok (x, r')"
  obtains bs where "ok r'" "rem r = bs @ rem r'"
  using assms unfolding safe_def by blast

section \<open>The contract of a reader\<close>

locale byte_source =
  fixes ok :: "'r \<Rightarrow> bool" and rem :: "'r \<Rightarrow> bytes" and take_n :: "nat \<Rightarrow> ('r, 'e, bytes) decoder"
  assumes take_some: "ok r \<Longrightarrow> n \<le> length (rem r) \<Longrightarrow>
      \<exists>r'. take_n n r = Ok (take n (rem r), r') \<and> rem r' = drop n (rem r) \<and> ok r'"
    and take_none: "ok r \<Longrightarrow> length (rem r) < n \<Longrightarrow> \<exists>e. take_n n r = Err e"
begin

lemma reads_take: "length bs = n \<Longrightarrow> reads ok rem (take_n n) bs bs"
  unfolding reads_def
proof (intro allI impI)
  fix r rest
  assume n: "length bs = n" and r: "ok r" "rem r = bs @ rest"
  then show "\<exists>r'. take_n n r = Ok (bs, r') \<and> rem r' = rest \<and> ok r'"
    using take_some [of r n] by auto
qed

lemma take_eq_Ok:
  assumes "ok r" "take_n n r = Ok (bs, r')"
  shows "length bs = n \<and> rem r = bs @ rem r' \<and> ok r'"
proof (cases "n \<le> length (rem r)")
  case True
  from take_some [OF assms(1) this] assms(2) True show ?thesis by auto
next
  case False
  with take_none [OF assms(1), of n] assms(2) show ?thesis by auto
qed

lemma safe_take: "safe ok rem (take_n n)"
  unfolding safe_def
proof (intro allI impI conjI)
  fix r assume r: "ok r"
  show "take_n n r \<noteq> Panic"
    using take_some [OF r, of n] take_none [OF r, of n] by (cases "n \<le> length (rem r)") auto
  fix bs r' assume "take_n n r = Ok (bs, r')"
  from take_eq_Ok [OF r this] show "ok r'" "\<exists>bs. rem r = bs @ rem r'" by auto
qed

text \<open>A fixed-width little-endian integer, read through any function that turns bytes into one.\<close>

lemma reads_fixed:
  assumes "length bs = n" "f bs = x"
  shows "reads ok rem (rbind (take_n n) (\<lambda>b. rret (f b))) bs x"
proof -
  have "reads ok rem (rbind (take_n n) (\<lambda>b. rret (f b))) (bs @ []) (f bs)"
    by (rule reads_rbind [OF reads_take [OF assms(1)] reads_rret])
  then show ?thesis using assms(2) by simp
qed

lemma safe_fixed: "safe ok rem (rbind (take_n n) (\<lambda>b. rret (f b)))"
  by (intro safe_intros safe_take)

end

end
