(* ===== verification/TxDecode.thy ===== *)
theory TxDecode
  imports VaultAccounts Reader
begin

text \<open>
  The wire decoder of \<^verbatim>\<open>src/src/chain/vault/served.rs\<close>: a reader with a position, the compact length
  prefix and \<^verbatim>\<open>CompiledMessage::decode\<close>. The Solana wire format is written down as an encoder, the
  decoder is proved to read it back, and to be free of panics on arbitrary input.
\<close>

section \<open>Errors\<close>

datatype VaultIntentError =
  ViInvalidBase64
| ViMalformed string
| ViUnsupportedVersion u8
| ViOpenRequiresVersionZero
| ViOpenRequiresLookupTable
| ViOpenRequiresStaticAccount key
| ViOpenTransactionTooLarge nat nat
| ViMissingLookupTable key
| ViLookupIndex key u8
| ViFeePayer key key
| ViInstructionCount nat nat
| ViProgram nat key key
| ViAccountCount nat nat nat
| ViAccount nat nat key bool bool key bool bool
| ViData nat nat
| ViPrivilege key bool bool
| ViSignerNotRequired key
| ViParticipantSigner key key
| ViUnexpectedSigner key
| ViUnexpectedAccount key
| ViComputeUnitLimit u32 u32
| ViComputeUnitPrice u64 u64
| ViComputeBudget nat
| ViQuoteSignature string
| ViOrderId
| ViRoute string
| ViTerms string
| ViPriceSection string
| ViSetup string
| ViIntent VaultChainError

section \<open>The reader\<close>

text \<open>
  A \<^verbatim>\<open>usize\<close> position is a natural number. \<^verbatim>\<open>pos.checked_add(len)\<close> and the bound on its result fail with
  the same error, so the model only keeps the bound.
\<close>

record TxReader =
  tr_bytes :: bytes
  tr_pos :: nat

type_synonym 'a tx_decoder = "(TxReader, VaultIntentError, 'a) decoder"

definition tx_take :: "nat \<Rightarrow> bytes tx_decoder" where
  "tx_take len r =
     (let fin = tr_pos r + len in
      if fin \<le> length (tr_bytes r)
      then bind_res (slice_res (tr_pos r) fin (tr_bytes r)) (\<lambda>slice. Ok (slice, r\<lparr>tr_pos := fin\<rparr>))
      else Err (ViMalformed ''truncated transaction''))"

definition lift_res :: "(VaultIntentError, 'a) res \<Rightarrow> 'a tx_decoder" where
  "lift_res x r = bind_res x (\<lambda>a. Ok (a, r))"

definition tx_byte :: "u8 tx_decoder" where
  "tx_byte = rbind (tx_take 1) (\<lambda>b. lift_res (index_res 0 b))"

fun compact_loop :: "nat list \<Rightarrow> nat \<Rightarrow> nat tx_decoder" where
  "compact_loop [] acc = rfail (ViMalformed ''length prefix too long'')"
| "compact_loop (shift # shifts) acc = rbind tx_byte (\<lambda>byte.
     let acc' = acc OR push_bit shift (unat (byte AND 127)) in
     if byte AND 128 = 0 then rret acc' else compact_loop shifts acc')"

definition tx_compact :: "nat tx_decoder" where
  "tx_compact = compact_loop [0, 7, 14] 0"

definition tx_key :: "key tx_decoder" where
  "tx_key = tx_take 32"

definition tx_vec :: "bytes tx_decoder" where
  "tx_vec = rbind tx_compact tx_take"

section \<open>The compiled message\<close>

definition SIGNATURE_LEN :: nat where "SIGNATURE_LEN = 64"

record Lookup =
  lk_table :: key
  lk_writable :: bytes
  lk_readonly :: bytes

record CompiledInstruction =
  ci_program :: u8
  ci_accounts :: bytes
  ci_data :: bytes

record CompiledMessage =
  cm_signatures_start :: nat
  cm_message_start :: nat
  cm_required_signers :: nat
  cm_readonly_signed :: nat
  cm_readonly_unsigned :: nat
  cm_static_keys :: "key list"
  cm_instructions :: "CompiledInstruction list"
  cm_lookups :: "Lookup list"
  cm_is_version_zero :: bool

definition usize_saturating_mul :: "nat \<Rightarrow> nat \<Rightarrow> nat" where
  "usize_saturating_mul a b = min (a * b) (2 ^ 64 - 1)"

definition tx_pos :: "nat tx_decoder" where
  "tx_pos r = Ok (tr_pos r, r)"

text \<open>The optional version byte: it has its high bit set, which a legacy header count has not.\<close>

definition tx_version :: "bool tx_decoder" where
  "tx_version r =
     (case get_opt (tr_pos r) (tr_bytes r) of
        Some byte \<Rightarrow>
          if byte AND 128 \<noteq> 0
          then rbind tx_byte (\<lambda>b.
            let version = b AND 127 in
            if version \<noteq> 0 then rfail (ViUnsupportedVersion version) else rret True) r
          else rret False r
      | None \<Rightarrow> rret False r)"

definition tx_instruction :: "CompiledInstruction tx_decoder" where
  "tx_instruction = rbind tx_byte (\<lambda>program. rbind tx_vec (\<lambda>accounts. rbind tx_vec (\<lambda>data.
     rret \<lparr>ci_program = program, ci_accounts = accounts, ci_data = data\<rparr>)))"

definition tx_lookup :: "Lookup tx_decoder" where
  "tx_lookup = rbind tx_key (\<lambda>table. rbind tx_vec (\<lambda>writable. rbind tx_vec (\<lambda>readonly.
     rret \<lparr>lk_table = table, lk_writable = writable, lk_readonly = readonly\<rparr>)))"

definition tx_lookups :: "bool \<Rightarrow> Lookup list tx_decoder" where
  "tx_lookups versioned = (if versioned then rbind tx_compact (\<lambda>n. rmany n tx_lookup) else rret [])"

text \<open>Everything after the signature block; the arguments are what the head has read.\<close>

definition tx_body :: "nat \<Rightarrow> nat \<Rightarrow> nat \<Rightarrow> CompiledMessage tx_decoder" where
  "tx_body signatures signatures_start message_start =
     rbind tx_version (\<lambda>versioned.
     rbind tx_byte (\<lambda>required. rbind tx_byte (\<lambda>ro_signed. rbind tx_byte (\<lambda>ro_unsigned.
     let required_signers = unat required; readonly_signed = unat ro_signed;
         readonly_unsigned = unat ro_unsigned in
     rbind tx_compact (\<lambda>key_count.
     rbind (rmany key_count tx_key) (\<lambda>static_keys.
     if signatures \<noteq> required_signers \<or> readonly_signed > required_signers \<or>
        required_signers = readonly_signed \<or> required_signers + readonly_unsigned > length static_keys
     then rfail (ViMalformed ''invalid message header'')
     else
       rbind (tx_take 32) (\<lambda>_.
       rbind tx_compact (\<lambda>instruction_count.
       rbind (rmany instruction_count tx_instruction) (\<lambda>instructions.
       rbind (tx_lookups versioned) (\<lambda>lookups.
       rret \<lparr>cm_signatures_start = signatures_start, cm_message_start = message_start,
         cm_required_signers = required_signers, cm_readonly_signed = readonly_signed,
         cm_readonly_unsigned = readonly_unsigned, cm_static_keys = static_keys,
         cm_instructions = instructions, cm_lookups = lookups, cm_is_version_zero = versioned\<rparr>))))))))))"

definition tx_message :: "CompiledMessage tx_decoder" where
  "tx_message =
     rbind tx_compact (\<lambda>signatures.
     rbind tx_pos (\<lambda>signatures_start.
     rbind (tx_take (usize_saturating_mul signatures SIGNATURE_LEN)) (\<lambda>_.
     rbind tx_pos (\<lambda>message_start.
     tx_body signatures signatures_start message_start))))"

definition compiled_decode :: "bytes \<Rightarrow> (VaultIntentError, CompiledMessage) res" where
  "compiled_decode transaction =
     bind_res (tx_message \<lparr>tr_bytes = transaction, tr_pos = 0\<rparr>) (\<lambda>(m, r).
     if tr_pos r \<noteq> length transaction then Err (ViMalformed ''trailing bytes'') else Ok m)"

section \<open>The reader as a byte source\<close>

text \<open>A reader over the fixed input \<open>t\<close>; what it has left determines its position.\<close>

definition tx_ok :: "bytes \<Rightarrow> TxReader \<Rightarrow> bool" where
  "tx_ok t r \<longleftrightarrow> tr_bytes r = t \<and> tr_pos r \<le> length t"

definition tx_rem :: "TxReader \<Rightarrow> bytes" where
  "tx_rem r = drop (tr_pos r) (tr_bytes r)"

interpretation tx_source: byte_source "tx_ok t" tx_rem tx_take for t
proof
  fix r n
  assume "tx_ok t r" "n \<le> length (tx_rem r)"
  then show "\<exists>r'. tx_take n r = Ok (take n (tx_rem r), r') \<and> tx_rem r' = drop n (tx_rem r) \<and> tx_ok t r'"
    by (auto simp: tx_take_def tx_ok_def tx_rem_def slice_res_def Let_def add.commute)
next
  fix r n
  assume "tx_ok t r" "length (tx_rem r) < n"
  then show "\<exists>e. tx_take n r = Err e"
    by (auto simp: tx_take_def tx_ok_def tx_rem_def Let_def)
qed

lemma tx_pos_rem: "tx_ok t r \<Longrightarrow> tr_pos r = length t - length (tx_rem r)"
  by (auto simp: tx_ok_def tx_rem_def)

abbreviation tx_reads :: "bytes \<Rightarrow> 'a tx_decoder \<Rightarrow> bytes \<Rightarrow> 'a \<Rightarrow> bool" where
  "tx_reads t \<equiv> reads (tx_ok t) tx_rem"

abbreviation tx_safe :: "bytes \<Rightarrow> 'a tx_decoder \<Rightarrow> bool" where
  "tx_safe t \<equiv> safe (tx_ok t) tx_rem"

section \<open>Freedom from panics\<close>

lemma safe_byte: "tx_safe t tx_byte"
  unfolding safe_def
proof (intro allI impI conjI)
  fix r assume r: "tx_ok t r"
  have split: "tx_byte r = (case tx_take 1 r of Ok (b, r') \<Rightarrow> Ok (b ! 0, r') | Err e \<Rightarrow> Err e | Panic \<Rightarrow> Panic)"
    using tx_source.take_eq_Ok [OF r, of 1]
    by (auto simp: tx_byte_def rbind_def lift_res_def index_res_def split: res.splits)
  show "tx_byte r \<noteq> Panic"
    using safe_not_Panic [OF tx_source.safe_take r] by (auto simp: split split: res.splits)
  fix b r' assume "tx_byte r = Ok (b, r')"
  then obtain bs where "tx_take 1 r = Ok (bs, r')" by (auto simp: split split: res.splits)
  from tx_source.take_eq_Ok [OF r this] show "tx_ok t r'" "\<exists>bs. tx_rem r = bs @ tx_rem r'" by auto
qed

lemma safe_compact: "tx_safe t tx_compact"
proof -
  have "tx_safe t (compact_loop shifts acc)" for shifts acc
    by (induction shifts arbitrary: acc) (auto simp: Let_def intro!: safe_intros safe_byte)
  then show ?thesis by (simp only: tx_compact_def)
qed

lemma safe_vec: "tx_safe t tx_vec"
  unfolding tx_vec_def by (intro safe_intros safe_compact tx_source.safe_take)

lemma safe_pos: "tx_safe t tx_pos"
  by (simp add: safe_def tx_pos_def)

lemma safe_version: "tx_safe t tx_version"
proof (rule safe_pointwise)
  fix r
  have "tx_safe t (rbind tx_byte (\<lambda>b. let version = b AND 127 in
      if version \<noteq> 0 then rfail (ViUnsupportedVersion version) else rret True))" (is "tx_safe t ?p")
    unfolding Let_def by (intro safe_intros safe_byte)
  moreover have "tx_safe t (rret False)" by (rule safe_rret)
  moreover have "tx_version r = ?p r \<or> tx_version r = rret False r"
    by (simp add: tx_version_def split: option.splits)
  ultimately show "\<exists>p. tx_safe t p \<and> tx_version r = p r" by blast
qed

lemma safe_message: "tx_safe t tx_message"
  unfolding tx_message_def tx_body_def tx_lookups_def tx_instruction_def tx_lookup_def tx_key_def Let_def
  by (intro safe_intros safe_compact safe_pos safe_version safe_byte safe_vec tx_source.safe_take)

lemma compiled_decode_no_panic: "compiled_decode t \<noteq> Panic"
  using safe_not_Panic [OF safe_message, of t "\<lparr>tr_bytes = t, tr_pos = 0\<rparr>"]
  by (auto simp: compiled_decode_def tx_ok_def bind_res_eq_Panic)

section \<open>The wire format\<close>

definition compact_bytes :: "nat \<Rightarrow> bytes" where
  "compact_bytes n =
     (if n < 128 then [of_nat n]
      else if n < 16384 then [of_nat (n mod 128 + 128), of_nat (n div 128)]
      else [of_nat (n mod 128 + 128), of_nat (n div 128 mod 128 + 128), of_nat (n div 16384)])"

definition vec_bytes :: "bytes \<Rightarrow> bytes" where
  "vec_bytes bs = compact_bytes (length bs) @ bs"

definition instruction_bytes :: "CompiledInstruction \<Rightarrow> bytes" where
  "instruction_bytes ix = ci_program ix # vec_bytes (ci_accounts ix) @ vec_bytes (ci_data ix)"

definition lookup_bytes :: "Lookup \<Rightarrow> bytes" where
  "lookup_bytes l = lk_table l @ vec_bytes (lk_writable l) @ vec_bytes (lk_readonly l)"

record WireTx =
  wt_signatures :: "bytes list"
  wt_version_zero :: bool
  wt_readonly_signed :: nat
  wt_readonly_unsigned :: nat
  wt_keys :: "key list"
  wt_blockhash :: bytes
  wt_instructions :: "CompiledInstruction list"
  wt_lookups :: "Lookup list"

definition body_bytes :: "WireTx \<Rightarrow> bytes" where
  "body_bytes w =
     [of_nat (length (wt_signatures w)), of_nat (wt_readonly_signed w), of_nat (wt_readonly_unsigned w)] @
     compact_bytes (length (wt_keys w)) @ concat (wt_keys w) @ wt_blockhash w @
     compact_bytes (length (wt_instructions w)) @ concat (map instruction_bytes (wt_instructions w)) @
     (if wt_version_zero w
      then compact_bytes (length (wt_lookups w)) @ concat (map lookup_bytes (wt_lookups w)) else [])"

definition message_bytes :: "WireTx \<Rightarrow> bytes" where
  "message_bytes w = (if wt_version_zero w then [128] else []) @ body_bytes w"

definition tx_bytes :: "WireTx \<Rightarrow> bytes" where
  "tx_bytes w = compact_bytes (length (wt_signatures w)) @ concat (wt_signatures w) @ message_bytes w"

definition vec_ok :: "bytes \<Rightarrow> bool" where
  "vec_ok bs \<longleftrightarrow> length bs < 2 ^ 21"

definition instruction_ok :: "CompiledInstruction \<Rightarrow> bool" where
  "instruction_ok ix \<longleftrightarrow> vec_ok (ci_accounts ix) \<and> vec_ok (ci_data ix)"

definition lookup_ok :: "Lookup \<Rightarrow> bool" where
  "lookup_ok l \<longleftrightarrow> is_key (lk_table l) \<and> vec_ok (lk_writable l) \<and> vec_ok (lk_readonly l)"

text \<open>A transaction that has a wire form: counts in range and a header that makes sense.\<close>

definition wire_ok :: "WireTx \<Rightarrow> bool" where
  "wire_ok w \<longleftrightarrow>
     length (wt_signatures w) < 128 \<and> list_all (\<lambda>s. length s = SIGNATURE_LEN) (wt_signatures w) \<and>
     wt_readonly_signed w < length (wt_signatures w) \<and> wt_readonly_unsigned w < 256 \<and>
     length (wt_signatures w) + wt_readonly_unsigned w \<le> length (wt_keys w) \<and>
     length (wt_keys w) < 2 ^ 21 \<and> list_all is_key (wt_keys w) \<and> length (wt_blockhash w) = 32 \<and>
     length (wt_instructions w) < 2 ^ 21 \<and> list_all instruction_ok (wt_instructions w) \<and>
     length (wt_lookups w) < 2 ^ 21 \<and> list_all lookup_ok (wt_lookups w) \<and>
     (\<not> wt_version_zero w \<longrightarrow> wt_lookups w = [])"

section \<open>Decoding the wire format\<close>

lemma or_push_bit_small:
  fixes a b :: nat
  assumes "a < 2 ^ n"
  shows "a OR push_bit n b = a + b * 2 ^ n"
proof -
  have "\<not> bit a i" if "n \<le> i" for i
  proof -
    have "a < 2 ^ i" using assms that by (meson order_less_le_trans one_le_numeral power_increasing)
    then show ?thesis by (simp add: bit_iff_odd)
  qed
  then have "a AND push_bit n b = 0"
    by (intro bit_eqI) (auto simp: bit_simps)
  then have "a + push_bit n b = a OR push_bit n b" by (rule disjunctive_add_eq_or)
  then show ?thesis by (simp add: push_bit_eq_mult)
qed

lemma byte_low: "unat (b AND 127) = unat b mod 128" for b :: u8
proof -
  have "b AND 127 = take_bit 7 b" by (simp add: take_bit_eq_mask mask_eq_exp_minus_1)
  then have "unat (b AND 127) = take_bit 7 (unat b)" by (simp only: unsigned_take_bit_eq)
  then show ?thesis by (simp add: take_bit_eq_mod)
qed

lemma byte_high: "b AND 128 = 0 \<longleftrightarrow> unat b < 128" for b :: u8
proof -
  have "b AND 128 = 0 \<longleftrightarrow> \<not> bit b 7"
    using and_exp_eq_0_iff_not_bit [of b 7] by simp
  also have "\<dots> \<longleftrightarrow> \<not> bit (unat b) 7" by (simp add: bit_unsigned_iff)
  also have "\<dots> \<longleftrightarrow> even (unat b div 128)" by (simp add: bit_iff_odd)
  also have "\<dots> \<longleftrightarrow> unat b < 128"
  proof -
    have "unat b div 128 < 2" using unat_bounded [of b] by simp
    then show ?thesis by (cases "unat b div 128 = 0") auto
  qed
  finally show ?thesis .
qed

lemma reads_byte: "tx_reads t tx_byte [b] b"
proof -
  have "tx_reads t (lift_res (index_res 0 [b])) [] b"
    by (simp add: reads_def lift_res_def index_res_def)
  then have "tx_reads t tx_byte ([b] @ []) b"
    unfolding tx_byte_def by (intro reads_rbind [OF tx_source.reads_take]) simp_all
  then show ?thesis by simp
qed

lemma reads_byte_then: "tx_reads t (q b) bs y \<Longrightarrow> tx_reads t (rbind tx_byte q) (b # bs) y"
  using reads_rbind [OF reads_byte] by fastforce

lemma reads_compact:
  assumes "n < 2 ^ 21"
  shows "tx_reads t tx_compact (compact_bytes n) n"
proof -
  have fits: "unat (of_nat m :: u8) = m" if "m < 256" for m
    using that by (simp add: unat_of_nat)
  have step: "unat (of_nat m + 128 :: u8) = m + 128" if "m < 128" for m
    using that fits [of "m + 128"] by simp
  have small: "unat (of_nat m :: u8) = m" if "m < 128" for m
    using that fits by simp
  consider "n < 128" | "128 \<le> n" "n < 16384" | "16384 \<le> n" by linarith
  then show ?thesis
  proof cases
    case 1
    then show ?thesis
      unfolding tx_compact_def compact_bytes_def
      by (simp add: small byte_low byte_high reads_byte_then reads_rret Let_def)
  next
    case 2
    have q: "n div 128 < 128" using 2 by simp
    have v: "n mod 128 OR push_bit 7 (n div 128) = n"
      using or_push_bit_small [of "n mod 128" 7 "n div 128"] by simp
    show ?thesis
      unfolding tx_compact_def compact_bytes_def
      using 2 q by (auto simp: step small byte_low byte_high Let_def v
          intro!: reads_byte_then reads_rret)
  next
    case 3
    have q: "n div 16384 < 128" using assms by simp
    have v1: "n mod 128 OR push_bit 7 (n div 128 mod 128) = n mod 16384"
      using or_push_bit_small [of "n mod 128" 7 "n div 128 mod 128"] mod_mult2_eq [of n 128 128]
      by (simp add: mult.commute add.commute)
    have v2: "n mod 16384 OR push_bit 14 (n div 16384) = n"
      using or_push_bit_small [of "n mod 16384" 14 "n div 16384"] by simp
    show ?thesis
      unfolding tx_compact_def compact_bytes_def
      using 3 q by (auto simp: step small byte_low byte_high Let_def v1 v2
          intro!: reads_byte_then reads_rret)
  qed
qed

lemma reads_compact_then:
  "n < 2 ^ 21 \<Longrightarrow> tx_reads t (q n) bs y \<Longrightarrow> tx_reads t (rbind tx_compact q) (compact_bytes n @ bs) y"
  by (rule reads_rbind [OF reads_compact])

lemma reads_vec: "vec_ok bs \<Longrightarrow> tx_reads t tx_vec (vec_bytes bs) bs"
  unfolding tx_vec_def vec_bytes_def vec_ok_def
  by (intro reads_compact_then tx_source.reads_take) simp_all

lemma reads_vec_then:
  "vec_ok b \<Longrightarrow> tx_reads t (q b) bs y \<Longrightarrow> tx_reads t (rbind tx_vec q) (vec_bytes b @ bs) y"
  by (rule reads_rbind [OF reads_vec])

lemma reads_take_then:
  "length b = n \<Longrightarrow> tx_reads t (q b) bs y \<Longrightarrow> tx_reads t (rbind (tx_take n) q) (b @ bs) y"
  by (rule reads_rbind [OF tx_source.reads_take])

lemma reads_last: "tx_reads t p bs x \<Longrightarrow> tx_reads t (rbind p (\<lambda>a. rret (f a))) bs (f x)"
  using reads_rbind [OF _ reads_rret] by fastforce

lemma reads_instruction:
  "instruction_ok ix \<Longrightarrow> tx_reads t tx_instruction (instruction_bytes ix) ix"
proof -
  assume ok: "instruction_ok ix"
  have "tx_reads t tx_instruction (ci_program ix # vec_bytes (ci_accounts ix) @ vec_bytes (ci_data ix))
    \<lparr>ci_program = ci_program ix, ci_accounts = ci_accounts ix, ci_data = ci_data ix\<rparr>"
    unfolding tx_instruction_def using ok
    by (intro reads_byte_then reads_vec_then reads_last reads_vec) (simp_all add: instruction_ok_def)
  then show ?thesis by (cases ix) (simp add: instruction_bytes_def)
qed

lemma reads_lookup: "lookup_ok l \<Longrightarrow> tx_reads t tx_lookup (lookup_bytes l) l"
proof -
  assume ok: "lookup_ok l"
  have "tx_reads t tx_lookup (lk_table l @ vec_bytes (lk_writable l) @ vec_bytes (lk_readonly l))
    \<lparr>lk_table = lk_table l, lk_writable = lk_writable l, lk_readonly = lk_readonly l\<rparr>"
    unfolding tx_lookup_def tx_key_def using ok
    by (intro reads_take_then reads_vec_then reads_last reads_vec) (simp_all add: lookup_ok_def)
  then show ?thesis by (cases l) (simp add: lookup_bytes_def)
qed

lemma reads_all:
  assumes "\<And>x. x \<in> set xs \<Longrightarrow> tx_reads t p (enc x) x"
  shows "tx_reads t (rmany (length xs) p) (concat (map enc xs)) xs"
  using assms by (intro reads_rmany) (simp add: list.rel_map list.rel_refl_strong)

lemma reads_legacy:
  assumes "unat b < 128" and "tx_reads t (q False) (b # bs) y"
  shows "tx_reads t (rbind tx_version q) (b # bs) y"
  unfolding reads_def
proof (intro allI impI)
  fix r rest assume r: "tx_ok t r" "tx_rem r = (b # bs) @ rest"
  have "drop (tr_pos r) (tr_bytes r) = b # bs @ rest" using r(2) by (simp add: tx_rem_def)
  then have "get_opt (tr_pos r) (tr_bytes r) = Some b"
    by (metis drop_eq_Nil2 get_opt_eq_Some hd_drop_conv_nth leI list.distinct(1) list.sel(1))
  then have "tx_version r = Ok (False, r)"
    using assms(1) by (simp add: tx_version_def byte_high rret_def)
  then show "\<exists>r'. rbind tx_version q r = Ok (y, r') \<and> tx_rem r' = rest \<and> tx_ok t r'"
    using readsD [OF assms(2) r] by (auto simp: rbind_def)
qed

lemma reads_versioned:
  assumes "tx_reads t (q True) bs y"
  shows "tx_reads t (rbind tx_version q) (128 # bs) y"
  unfolding reads_def
proof (intro allI impI)
  fix r rest assume r: "tx_ok t r" "tx_rem r = (128 # bs) @ rest"
  have "drop (tr_pos r) (tr_bytes r) = 128 # bs @ rest" using r(2) by (simp add: tx_rem_def)
  then have get: "get_opt (tr_pos r) (tr_bytes r) = Some 128"
    by (metis drop_eq_Nil2 get_opt_eq_Some hd_drop_conv_nth leI list.distinct(1) list.sel(1))
  obtain r' where r': "tx_byte r = Ok (128, r')" "tx_rem r' = bs @ rest" "tx_ok t r'"
    using readsD [OF reads_byte r(1), of 128 "bs @ rest"] r(2) by auto
  have "tx_version r = Ok (True, r')"
    using get by (simp add: tx_version_def rbind_def r' rret_def)
  then show "\<exists>r'. rbind tx_version q r = Ok (y, r') \<and> tx_rem r' = rest \<and> tx_ok t r'"
    using readsD [OF assms r'(3,2)] by (auto simp: rbind_def)
qed

lemma reads_lookups:
  assumes "length ls < 2 ^ 21" "list_all lookup_ok ls" "\<not> v \<longrightarrow> ls = []"
  shows "tx_reads t (tx_lookups v) (if v then compact_bytes (length ls) @ concat (map lookup_bytes ls) else []) ls"
  using assms unfolding tx_lookups_def
  by (cases v) (auto simp: list_all_iff intro!: reads_compact_then reads_all reads_lookup reads_rret)

text \<open>The compiled form of a wire transaction: what decoding should return.\<close>

definition compiled_of :: "WireTx \<Rightarrow> CompiledMessage" where
  "compiled_of w =
     (let start = length (compact_bytes (length (wt_signatures w))) in
      \<lparr>cm_signatures_start = start, cm_message_start = start + SIGNATURE_LEN * length (wt_signatures w),
       cm_required_signers = length (wt_signatures w), cm_readonly_signed = wt_readonly_signed w,
       cm_readonly_unsigned = wt_readonly_unsigned w, cm_static_keys = wt_keys w,
       cm_instructions = wt_instructions w, cm_lookups = wt_lookups w,
       cm_is_version_zero = wt_version_zero w\<rparr>)"

lemma reads_body:
  assumes "wire_ok w"
  shows "tx_reads t (tx_body (length (wt_signatures w)) a b) (message_bytes w)
    (compiled_of w\<lparr>cm_signatures_start := a, cm_message_start := b\<rparr>)"
proof -
  note ok = assms [unfolded wire_ok_def]
  have header: "unat (of_nat (length (wt_signatures w)) :: u8) = length (wt_signatures w)"
    "unat (of_nat (wt_readonly_signed w) :: u8) = wt_readonly_signed w"
    "unat (of_nat (wt_readonly_unsigned w) :: u8) = wt_readonly_unsigned w"
    using ok by (simp_all add: unat_of_nat)
  have keys: "tx_reads t (rmany (length (wt_keys w)) tx_key) (concat (wt_keys w)) (wt_keys w)"
    using reads_all [where enc = "\<lambda>k. k" and p = tx_key and xs = "wt_keys w"] ok
    by (simp add: tx_key_def list_all_iff tx_source.reads_take)
  have instructions: "tx_reads t (rmany (length (wt_instructions w)) tx_instruction)
      (concat (map instruction_bytes (wt_instructions w))) (wt_instructions w)"
    using ok by (intro reads_all reads_instruction) (simp add: list_all_iff)
  have lookups: "tx_reads t (tx_lookups (wt_version_zero w))
      (if wt_version_zero w then compact_bytes (length (wt_lookups w)) @ concat (map lookup_bytes (wt_lookups w))
       else []) (wt_lookups w)"
    using ok by (intro reads_lookups) simp_all
  have rest: "tx_reads t (rbind tx_byte (\<lambda>required. rbind tx_byte (\<lambda>ro_signed. rbind tx_byte (\<lambda>ro_unsigned. q
    required ro_signed ro_unsigned)))) (body_bytes w) y"
    if "tx_reads t (q (of_nat (length (wt_signatures w))) (of_nat (wt_readonly_signed w))
      (of_nat (wt_readonly_unsigned w))) (drop 3 (body_bytes w)) y" for q y
    using that unfolding body_bytes_def by (auto intro!: reads_byte_then)
  have first: "body_bytes w = of_nat (length (wt_signatures w)) # tl (body_bytes w)"
    by (simp add: body_bytes_def)
  have v: "tx_reads t (rbind tx_version q) (message_bytes w) y"
    if "tx_reads t (q (wt_version_zero w)) (body_bytes w) y" for q :: "bool \<Rightarrow> CompiledMessage tx_decoder" and y
  proof (cases "wt_version_zero w")
    case True
    with that show ?thesis by (simp add: message_bytes_def reads_versioned)
  next
    case False
    have "tx_reads t (rbind tx_version q) (of_nat (length (wt_signatures w)) # tl (body_bytes w)) y"
      using that False first ok header(1) by (intro reads_legacy) simp_all
    with False first show ?thesis by (simp add: message_bytes_def)
  qed
  have drop3: "drop 3 (body_bytes w) = compact_bytes (length (wt_keys w)) @ concat (wt_keys w) @
     wt_blockhash w @ compact_bytes (length (wt_instructions w)) @
     concat (map instruction_bytes (wt_instructions w)) @
     (if wt_version_zero w then compact_bytes (length (wt_lookups w)) @ concat (map lookup_bytes (wt_lookups w))
      else [])"
    by (simp add: body_bytes_def)
  have tail: "tx_reads t (rbind (tx_take 32) (\<lambda>_. rbind tx_compact (\<lambda>n. rbind (rmany n tx_instruction)
      (\<lambda>ixs. rbind (tx_lookups (wt_version_zero w)) (\<lambda>ls. rret (f ixs ls))))))
    (wt_blockhash w @ compact_bytes (length (wt_instructions w)) @
     concat (map instruction_bytes (wt_instructions w)) @
     (if wt_version_zero w then compact_bytes (length (wt_lookups w)) @ concat (map lookup_bytes (wt_lookups w))
      else [])) (f (wt_instructions w) (wt_lookups w))" for f :: "_ \<Rightarrow> _ \<Rightarrow> CompiledMessage"
    using ok
    by (intro reads_compact_then reads_take_then reads_rbind [OF instructions] reads_last [OF lookups]) simp_all
  have "tx_reads t (tx_body (length (wt_signatures w)) a b) (message_bytes w)
    \<lparr>cm_signatures_start = a, cm_message_start = b, cm_required_signers = length (wt_signatures w),
     cm_readonly_signed = wt_readonly_signed w, cm_readonly_unsigned = wt_readonly_unsigned w,
     cm_static_keys = wt_keys w, cm_instructions = wt_instructions w, cm_lookups = wt_lookups w,
     cm_is_version_zero = wt_version_zero w\<rparr>"
    unfolding tx_body_def
  proof (rule v, rule rest, unfold Let_def header drop3, goal_cases)
    case 1
    have accepted: "\<not> (length (wt_signatures w) \<noteq> length (wt_signatures w) \<or>
      length (wt_signatures w) < wt_readonly_signed w \<or> length (wt_signatures w) = wt_readonly_signed w \<or>
      length (wt_keys w) < length (wt_signatures w) + wt_readonly_unsigned w)"
      using ok by auto
    show ?case
    proof (rule reads_compact_then, goal_cases)
      case 1
      then show ?case using ok by blast
    next
      case 2
      show ?case
        by (rule reads_rbind [OF keys]) (unfold if_not_P [OF accepted], rule tail)
    qed
  qed
  then show ?thesis by (simp add: compiled_of_def Let_def)
qed

lemma length_concat_fixed: "list_all (\<lambda>x. length x = n) xs \<Longrightarrow> length (concat xs) = n * length xs"
  by (induction xs) simp_all

lemma decode_wire:
  assumes "wire_ok w"
  shows "compiled_decode (tx_bytes w) = Ok (compiled_of w)"
proof -
  define t where "t = tx_bytes w"
  define sigs where "sigs = length (wt_signatures w)"
  define r0 where "r0 = \<lparr>tr_bytes = t, tr_pos = 0\<rparr>"
  have small: "sigs < 2 ^ 21" using assms by (simp add: wire_ok_def sigs_def)
  have len: "length (concat (wt_signatures w)) = SIGNATURE_LEN * sigs"
    using assms unfolding wire_ok_def sigs_def by (intro length_concat_fixed) simp
  have mul: "usize_saturating_mul sigs SIGNATURE_LEN = SIGNATURE_LEN * sigs"
    using small by (simp add: usize_saturating_mul_def SIGNATURE_LEN_def)
  have block: "length (concat (wt_signatures w)) = usize_saturating_mul sigs SIGNATURE_LEN"
    by (simp only: len mul)
  have r0: "tx_ok t r0" "tx_rem r0 = compact_bytes sigs @ concat (wt_signatures w) @ message_bytes w"
    by (simp_all add: r0_def tx_ok_def tx_rem_def t_def tx_bytes_def sigs_def)
  obtain r1 where r1: "tx_compact r0 = Ok (sigs, r1)" "tx_rem r1 = concat (wt_signatures w) @ message_bytes w" "tx_ok t r1"
    by (rule readsD [OF reads_compact [OF small] r0])
  obtain r2 where r2: "tx_take (usize_saturating_mul sigs SIGNATURE_LEN) r1 = Ok (concat (wt_signatures w), r2)"
      "tx_rem r2 = message_bytes w" "tx_ok t r2"
    by (rule readsD [OF tx_source.reads_take [OF block] r1(3,2)])
  have pos: "tr_pos r1 = length (compact_bytes sigs)" "tr_pos r2 = length (compact_bytes sigs) + SIGNATURE_LEN * sigs"
    using tx_pos_rem [OF r1(3)] tx_pos_rem [OF r2(3)] by (simp_all add: r1(2) r2(2) len t_def tx_bytes_def flip: sigs_def)
  obtain r3 where r3: "tx_body sigs (tr_pos r1) (tr_pos r2) r2 =
      Ok (compiled_of w\<lparr>cm_signatures_start := tr_pos r1, cm_message_start := tr_pos r2\<rparr>, r3)"
      "tx_rem r3 = []" "tx_ok t r3"
    by (rule readsD [OF reads_body [OF assms, folded sigs_def] r2(3), of "[]"]) (simp add: r2(2))
  have "compiled_of w\<lparr>cm_signatures_start := tr_pos r1, cm_message_start := tr_pos r2\<rparr> = compiled_of w"
    by (simp add: compiled_of_def Let_def pos sigs_def)
  then have "tx_message r0 = Ok (compiled_of w, r3)"
    using r3(1) by (simp add: tx_message_def rbind_def r1(1) r2(1) tx_pos_def)
  moreover have "tr_pos r3 = length t" using tx_pos_rem [OF r3(3)] r3(2) by simp
  ultimately show ?thesis
    by (simp add: compiled_decode_def t_def r0_def)
qed

section \<open>What a decoded message guarantees\<close>

lemma rmany_length: "rmany n p r = Ok (xs, s) \<Longrightarrow> length xs = n"
  by (induction n arbitrary: r xs s) (auto simp: rbind_eq_Ok rret_eq_Ok)

lemma rmany_all:
  assumes "\<And>r x s. p r = Ok (x, s) \<Longrightarrow> P x"
  shows "rmany n p r = Ok (xs, s) \<Longrightarrow> list_all P xs"
  by (induction n arbitrary: r xs s) (auto simp: rbind_eq_Ok rret_eq_Ok dest: assms)

lemma tx_take_length: "tx_take n r = Ok (b, s) \<Longrightarrow> length b = n"
  by (auto simp: tx_take_def Let_def bind_res_eq_Ok slice_res_eq_Ok split: if_splits)

definition message_ok :: "nat \<Rightarrow> CompiledMessage \<Rightarrow> bool" where
  "message_ok len m \<longleftrightarrow>
     cm_message_start m = cm_signatures_start m + SIGNATURE_LEN * cm_required_signers m \<and>
     cm_message_start m \<le> len \<and> cm_readonly_signed m < cm_required_signers m \<and>
     cm_required_signers m + cm_readonly_unsigned m \<le> length (cm_static_keys m) \<and>
     cm_required_signers m < 256 \<and> list_all is_key (cm_static_keys m)"

lemma tx_body_ok:
  assumes "tx_body sigs a b r = Ok (m, s)"
  shows "cm_signatures_start m = a \<and> cm_message_start m = b \<and> cm_required_signers m = sigs \<and>
    cm_readonly_signed m < sigs \<and> sigs + cm_readonly_unsigned m \<le> length (cm_static_keys m) \<and>
    sigs < 256 \<and> list_all is_key (cm_static_keys m)"
proof -
  have byte: "unat (x :: u8) < 256" for x using unat_bounded [of x] by simp
  have keys: "list_all is_key ks" if "rmany n tx_key r = Ok (ks, s)" for n r ks s
    using that by (rule rmany_all [rotated]) (simp add: tx_key_def tx_take_length)
  show ?thesis
    using assms byte unfolding tx_body_def Let_def
    by (clarsimp simp: rbind_eq_Ok rret_eq_Ok if_decoder_Err_eq_Ok keys)
qed

lemma decode_message_ok:
  assumes "compiled_decode t = Ok m"
  shows "message_ok (length t) m"
proof -
  define r0 where "r0 = \<lparr>tr_bytes = t, tr_pos = 0\<rparr>"
  have r0: "tx_ok t r0" by (simp add: tx_ok_def r0_def)
  obtain sigs r1 sg r2 s where
    d: "tx_compact r0 = Ok (sigs, r1)" "tx_take (usize_saturating_mul sigs SIGNATURE_LEN) r1 = Ok (sg, r2)"
       "tx_body sigs (tr_pos r1) (tr_pos r2) r2 = Ok (m, s)"
    using assms by (auto simp: compiled_decode_def r0_def bind_res_eq_Ok tx_message_def rbind_eq_Ok tx_pos_def
        split: if_splits)
  have r1: "tx_ok t r1" using safe_suffix [OF safe_compact r0 d(1)] by blast
  note take = tx_source.take_eq_Ok [OF r1 d(2)]
  note body = tx_body_ok [OF d(3)]
  have mul: "usize_saturating_mul sigs SIGNATURE_LEN = SIGNATURE_LEN * sigs"
    using body by (simp add: usize_saturating_mul_def SIGNATURE_LEN_def)
  have "tr_pos r2 = tr_pos r1 + SIGNATURE_LEN * sigs"
    using d(2) by (auto simp: tx_take_def Let_def bind_res_eq_Ok mul split: if_splits)
  moreover have "tr_pos r2 \<le> length t" using take by (simp add: tx_ok_def)
  ultimately show ?thesis using body by (simp add: message_ok_def)
qed

section \<open>The message does not depend on the signatures\<close>

text \<open>
  \<open>tx_stable p\<close>: what \<open>p\<close> returns is determined by the bytes it consumes, whatever the rest of the input.
\<close>

definition tx_stable :: "'a tx_decoder \<Rightarrow> bool" where
  "tx_stable p \<longleftrightarrow> (\<forall>t r x s. tx_ok t r \<longrightarrow> p r = Ok (x, s) \<longrightarrow>
     tx_ok t s \<and> (\<exists>bs. tx_rem r = bs @ tx_rem s \<and> (\<forall>t'. tx_reads t' p bs x)))"

lemma tx_stableD:
  assumes "tx_stable p" "tx_ok t r" "p r = Ok (x, s)"
  obtains bs where "tx_ok t s" "tx_rem r = bs @ tx_rem s" "\<And>t'. tx_reads t' p bs x"
  using assms unfolding tx_stable_def by blast

lemma stable_rret: "tx_stable (rret x)"
  by (auto simp: tx_stable_def rret_eq_Ok reads_rret)

lemma stable_rfail: "tx_stable (rfail e)"
  by (simp add: tx_stable_def rfail_def)

lemma stable_if: "tx_stable p \<Longrightarrow> tx_stable q \<Longrightarrow> tx_stable (if c then p else q)"
  by simp

lemma stable_take: "tx_stable (tx_take n)"
  unfolding tx_stable_def
proof (intro allI impI)
  fix t r x s assume "tx_ok t r" "tx_take n r = Ok (x, s)"
  from tx_source.take_eq_Ok [OF this]
  show "tx_ok t s \<and> (\<exists>bs. tx_rem r = bs @ tx_rem s \<and> (\<forall>t'. tx_reads t' (tx_take n) bs x))"
    by (auto intro: tx_source.reads_take)
qed

lemma stable_rbind:
  assumes "tx_stable p" and "\<And>x. tx_stable (q x)"
  shows "tx_stable (rbind p q)"
  unfolding tx_stable_def
proof (intro allI impI)
  fix t r y s assume r: "tx_ok t r" "rbind p q r = Ok (y, s)"
  then obtain x r' where x: "p r = Ok (x, r')" "q x r' = Ok (y, s)" by (auto simp: rbind_eq_Ok)
  obtain as where a: "tx_ok t r'" "tx_rem r = as @ tx_rem r'" "\<And>t'. tx_reads t' p as x"
    using tx_stableD [OF assms(1) r(1) x(1)] by blast
  obtain bs where b: "tx_ok t s" "tx_rem r' = bs @ tx_rem s" "\<And>t'. tx_reads t' (q x) bs y"
    using tx_stableD [OF assms(2) a(1) x(2)] by blast
  have "tx_reads t' (rbind p q) (as @ bs) y" for t' by (rule reads_rbind, rule a(3), rule b(3))
  then show "tx_ok t s \<and> (\<exists>bs. tx_rem r = bs @ tx_rem s \<and> (\<forall>t'. tx_reads t' (rbind p q) bs y))"
    using a(2) b(1,2) by (metis append_assoc)
qed

lemma stable_rmany: "tx_stable p \<Longrightarrow> tx_stable (rmany n p)"
  by (induction n) (auto intro: stable_rret stable_rbind)

lemmas stable_intros = stable_rret stable_rfail stable_if stable_rbind stable_rmany stable_take

lemma stable_byte: "tx_stable tx_byte"
  unfolding tx_stable_def
proof (intro allI impI)
  fix t r x s assume r: "tx_ok t r" "tx_byte r = Ok (x, s)"
  then obtain b where b: "tx_take 1 r = Ok (b, s)" "index_res 0 b = (Ok x :: (VaultIntentError, u8) res)"
    by (auto simp: tx_byte_def rbind_eq_Ok lift_res_def bind_res_eq_Ok)
  from tx_source.take_eq_Ok [OF r(1) b(1)] b(2) have "b = [x]" "tx_rem r = b @ tx_rem s" "tx_ok t s"
    by (auto simp: index_res_eq_Ok length_Suc_conv)
  then show "tx_ok t s \<and> (\<exists>bs. tx_rem r = bs @ tx_rem s \<and> (\<forall>t'. tx_reads t' tx_byte bs x))"
    using reads_byte by blast
qed

lemma stable_compact: "tx_stable tx_compact"
proof -
  have "tx_stable (compact_loop shifts acc)" for shifts acc
    by (induction shifts arbitrary: acc) (auto simp: Let_def intro!: stable_intros stable_byte)
  then show ?thesis by (simp only: tx_compact_def)
qed

lemma stable_vec: "tx_stable tx_vec"
  unfolding tx_vec_def by (intro stable_intros stable_compact)

text \<open>
  Looking at the version byte is only stable together with the byte after it: a legacy message is
  recognised by its first header byte, which is not consumed.
\<close>

lemma version_cases:
  assumes "tx_ok t r" "tx_version r = Ok (v, s)" "tx_byte s = Ok (b, s')"
  shows "(v \<and> tx_byte r = Ok (128, s)) \<or> (\<not> v \<and> s = r \<and> unat b < 128)"
proof (cases "get_opt (tr_pos r) (tr_bytes r)")
  case None
  then have "s = r" using assms(2) by (simp add: tx_version_def rret_eq_Ok)
  moreover have "length (tr_bytes r) \<le> tr_pos r" using None by (simp only: get_opt_eq_None)
  ultimately show ?thesis using assms(3)
    by (auto simp: tx_byte_def rbind_eq_Ok tx_take_def Let_def)
next
  case (Some byte)
  have first: "x = byte" if "tx_byte r = Ok (x, u)" for x u
    using that Some by (auto simp: tx_byte_def rbind_eq_Ok lift_res_def bind_res_eq_Ok index_res_eq_Ok
        tx_take_def Let_def slice_res_eq_Ok get_opt_eq_Some split: if_splits)
  show ?thesis
  proof (cases "byte AND 128 = 0")
    case True
    then have "v = False \<and> s = r" using assms(2) Some by (simp add: tx_version_def rret_eq_Ok)
    with first [of b s'] assms(3) True show ?thesis by (auto simp: byte_high)
  next
    case False
    then obtain x where x: "tx_byte r = Ok (x, s)" "x AND 127 = 0" "v"
      using assms(2) Some by (auto simp: tx_version_def rbind_eq_Ok rret_eq_Ok Let_def if_decoder_Err_eq_Ok)
    have "unat x = 128"
    proof -
      have "unat x mod 128 = 0" using x(2) byte_low [of x] by simp
      moreover have "128 \<le> unat x" using False first [OF x(1)] byte_high [of x] by simp
      moreover have "unat x < 256" using unat_bounded [of x] by simp
      ultimately show ?thesis by presburger
    qed
    then have "x = 128" by (simp add: word_eq_unat)
    with x show ?thesis by blast
  qed
qed

lemma stable_version:
  assumes "\<And>v b. tx_stable (f v b)"
  shows "tx_stable (rbind tx_version (\<lambda>v. rbind tx_byte (f v)))" (is "tx_stable ?p")
  unfolding tx_stable_def
proof (intro allI impI)
  fix t r y s assume r: "tx_ok t r" "?p r = Ok (y, s)"
  then obtain v r1 b r2 where
    d: "tx_version r = Ok (v, r1)" "tx_byte r1 = Ok (b, r2)" "f v b r2 = Ok (y, s)"
    by (auto simp: rbind_eq_Ok)
  have tail: "tx_stable (rbind tx_byte (f v))" for v by (intro stable_intros stable_byte assms)
  have run: "rbind tx_byte (f v) r1 = Ok (y, s)" using d(2,3) by (auto simp: rbind_eq_Ok)
  consider "v" "tx_byte r = Ok (128, r1)" | "\<not> v" "r1 = r" "unat b < 128"
    using version_cases [OF r(1) d(1,2)] by blast
  then show "tx_ok t s \<and> (\<exists>bs. tx_rem r = bs @ tx_rem s \<and> (\<forall>t'. tx_reads t' ?p bs y))"
  proof cases
    case 1
    obtain as where a: "tx_ok t r1" "tx_rem r = as @ tx_rem r1" "\<And>t'. tx_reads t' tx_byte as 128"
      using tx_stableD [OF stable_byte r(1) 1(2)] by blast
    have "as = [128]"
      using tx_source.take_eq_Ok [OF r(1), of 1] 1(2) a(2)
      by (auto simp: tx_byte_def rbind_eq_Ok lift_res_def bind_res_eq_Ok index_res_eq_Ok length_Suc_conv)
    moreover obtain bs where b: "tx_ok t s" "tx_rem r1 = bs @ tx_rem s" "\<And>t'. tx_reads t' (rbind tx_byte (f v)) bs y"
      using tx_stableD [OF tail a(1) run] by blast
    moreover have "tx_reads t' ?p (128 # bs) y" for t'
      using b(3) 1(1) by (intro reads_versioned) simp
    ultimately show ?thesis using a(2) by (metis append_Cons append_Nil)
  next
    case 2
    obtain bs where b: "tx_ok t s" "tx_rem r = bs @ tx_rem s" "\<And>t'. tx_reads t' (rbind tx_byte (f v)) bs y"
      using tx_stableD [OF tail r(1)] run 2(2) by blast
    have "tx_rem r = b # tx_rem r2"
      using tx_source.take_eq_Ok [OF r(1), of 1] d(2) 2(2)
      by (auto simp: tx_byte_def rbind_eq_Ok lift_res_def bind_res_eq_Ok index_res_eq_Ok length_Suc_conv)
    moreover have "\<exists>cs. tx_rem r2 = cs @ tx_rem s"
    proof -
      have "tx_ok t r2" using tx_stableD [OF stable_byte r(1)] d(2) 2(2) by blast
      from tx_stableD [OF assms this d(3)] show ?thesis by blast
    qed
    ultimately obtain cs where cs: "bs = b # cs" using b(2) by (metis append_Cons append_same_eq)
    have "tx_reads t' ?p (b # cs) y" for t'
      using b(3) [of t'] 2 cs by (intro reads_legacy) simp_all
    with b(1,2) cs show ?thesis by blast
  qed
qed

lemma stable_body: "tx_stable (tx_body sigs a b)"
  unfolding tx_body_def tx_lookups_def tx_instruction_def tx_lookup_def tx_key_def Let_def
  by (intro stable_version stable_intros stable_byte stable_compact stable_vec)

text \<open>Decoding step by step: the signature count, the signature block, the body.\<close>

lemma compiled_decode_steps:
  "compiled_decode t = Ok m \<longleftrightarrow>
     (\<exists>sigs r1 sg r2 s. tx_compact \<lparr>tr_bytes = t, tr_pos = 0\<rparr> = Ok (sigs, r1) \<and>
        tx_take (usize_saturating_mul sigs SIGNATURE_LEN) r1 = Ok (sg, r2) \<and>
        tx_body sigs (tr_pos r1) (tr_pos r2) r2 = Ok (m, s) \<and> tr_pos s = length t)"
  by (auto simp: compiled_decode_def bind_res_eq_Ok tx_message_def rbind_eq_Ok tx_pos_def if_Err_eq_Ok)

lemma decode_resign:
  assumes "compiled_decode t = Ok m" and "length t' = length t"
    and "take (cm_signatures_start m) t' = take (cm_signatures_start m) t"
    and "drop (cm_message_start m) t' = drop (cm_message_start m) t"
  shows "compiled_decode t' = Ok m"
proof -
  obtain sigs r1 sg r2 s where
    d: "tx_compact \<lparr>tr_bytes = t, tr_pos = 0\<rparr> = Ok (sigs, r1)"
       "tx_take (usize_saturating_mul sigs SIGNATURE_LEN) r1 = Ok (sg, r2)"
       "tx_body sigs (tr_pos r1) (tr_pos r2) r2 = Ok (m, s)" "tr_pos s = length t"
    using assms(1) unfolding compiled_decode_steps by blast
  let ?n = "usize_saturating_mul sigs SIGNATURE_LEN"
  have start: "cm_signatures_start m = tr_pos r1" "cm_message_start m = tr_pos r2"
    using tx_body_ok [OF d(3)] by simp_all
  have ok0: "tx_ok t \<lparr>tr_bytes = t, tr_pos = 0\<rparr>" by (simp add: tx_ok_def)
  obtain as where a: "tx_ok t r1" "t = as @ tx_rem r1" "\<And>t'. tx_reads t' tx_compact as sigs"
    using tx_stableD [OF stable_compact ok0 d(1)] by (auto simp: tx_rem_def)
  have sg: "length sg = ?n" "tx_rem r1 = sg @ tx_rem r2" "tx_ok t r2"
    using tx_source.take_eq_Ok [OF a(1) d(2)] by simp_all
  obtain bs where b: "tx_ok t s" "tx_rem r2 = bs @ tx_rem s"
    "\<And>t'. tx_reads t' (tx_body sigs (tr_pos r1) (tr_pos r2)) bs m"
    using tx_stableD [OF stable_body sg(3) d(3)] by blast
  have t: "t = as @ sg @ bs" using a(2) sg(2) b(1,2) d(4) by (simp add: tx_rem_def tx_ok_def)
  have pos: "tr_pos r1 = length as" "tr_pos r2 = length as + ?n"
    using tx_pos_rem [OF a(1)] tx_pos_rem [OF sg(3)] a(2) sg(1,2) by simp_all
  obtain sg' where t': "t' = as @ sg' @ bs" "length sg' = ?n"
  proof
    show "t' = as @ take ?n (drop (length as) t') @ bs"
    proof -
      have "take (length as) t' = as" "drop (length as + ?n) t' = bs"
        using assms(3,4) sg(1) by (simp_all add: start pos t)
      then show ?thesis by (metis add.commute append_take_drop_id drop_drop)
    qed
    show "length (take ?n (drop (length as) t')) = ?n" using assms(2) sg(1) by (simp add: t)
  qed
  let ?q0 = "\<lparr>tr_bytes = t', tr_pos = 0\<rparr>"
  have q0: "tx_ok t' ?q0" "tx_rem ?q0 = as @ sg' @ bs" by (simp_all add: tx_ok_def tx_rem_def t')
  obtain q1 where q1: "tx_compact ?q0 = Ok (sigs, q1)" "tx_rem q1 = sg' @ bs" "tx_ok t' q1"
    by (rule readsD [OF a(3) q0])
  obtain q2 where q2: "tx_take ?n q1 = Ok (sg', q2)" "tx_rem q2 = bs" "tx_ok t' q2"
    by (rule readsD [OF tx_source.reads_take [OF t'(2)] q1(3,2)])
  obtain q3 where q3: "tx_body sigs (tr_pos r1) (tr_pos r2) q2 = Ok (m, q3)" "tx_rem q3 = []" "tx_ok t' q3"
    by (rule readsD [OF b(3) q2(3), of "[]"]) (simp add: q2(2))
  have "tr_pos q1 = tr_pos r1" "tr_pos q2 = tr_pos r2" "tr_pos q3 = length t'"
    using tx_pos_rem [OF q1(3)] tx_pos_rem [OF q2(3)] tx_pos_rem [OF q3(3)] q1(2) q2(2) q3(2)
    by (simp_all add: pos t')
  with q1(1) q2(1) q3(1) show ?thesis unfolding compiled_decode_steps by fastforce
qed

text \<open>
  C27. The decoder reads the Solana wire format: every well-formed transaction decodes to its own
  signatures offset, message offset, header, keys, instructions and lookups. On any input whatever it
  returns or reports an error, never panicking, and a message it does return has its signature block
  inside the transaction and a consistent header.
\<close>

theorem decode_roundtrip:
  "(wire_ok w \<longrightarrow> compiled_decode (tx_bytes w) = Ok (compiled_of w)) \<and> compiled_decode t \<noteq> Panic \<and>
   (compiled_decode t = Ok m \<longrightarrow> message_ok (length t) m)"
  using decode_wire compiled_decode_no_panic decode_message_ok by blast

definition sample_tx :: WireTx where
  "sample_tx = \<lparr>wt_signatures = [replicate 64 0], wt_version_zero = True, wt_readonly_signed = 0,
     wt_readonly_unsigned = 1, wt_keys = [replicate 32 7, replicate 32 8], wt_blockhash = replicate 32 9,
     wt_instructions = [\<lparr>ci_program = 1, ci_accounts = [0], ci_data = [5, 6]\<rparr>],
     wt_lookups = [\<lparr>lk_table = replicate 32 3, lk_writable = [4], lk_readonly = []\<rparr>]\<rparr>"

theorem decode_roundtrip_witness:
  "wire_ok sample_tx \<and> compiled_decode (tx_bytes sample_tx) = Ok (compiled_of sample_tx) \<and>
   message_ok (length (tx_bytes sample_tx)) (compiled_of sample_tx)"
proof -
  have "wire_ok sample_tx"
    by (simp add: wire_ok_def sample_tx_def SIGNATURE_LEN_def instruction_ok_def lookup_ok_def vec_ok_def)
  with decode_roundtrip [of sample_tx "tx_bytes sample_tx" "compiled_of sample_tx"] show ?thesis by blast
qed

end
