(* ===== verification/Served.thy ===== *)
theory Served
  imports TxDecode
begin

text \<open>
  The served message of \<^verbatim>\<open>src/src/chain/vault/served.rs\<close>: resolving a compiled message against lookup
  tables, the compute-budget and quote-signature checks, the comparison with the expected
  instructions and the signing of what was verified. Base64 is a parameter; lookup tables are
  supplied by the caller.
\<close>

section \<open>Data\<close>

record base64 =
  b64_encode :: "bytes \<Rightarrow> string"
  b64_decode :: "string \<Rightarrow> bytes option"

record Flags =
  fl_signer :: bool
  fl_writable :: bool

record AddressLookupTableAccount =
  lt_key :: key
  lt_addresses :: "key list"

record VerifiedTransaction =
  vt_bytes :: bytes
  vt_signatures_start :: nat
  vt_message_start :: nat
  vt_signers :: "key list"

record ServedMessage =
  sv_keys :: "(key \<times> Flags) list"
  sv_instructions :: "Instruction list"
  sv_transaction :: VerifiedTransaction
  sv_static_keys :: "key list"
  sv_is_version_zero :: bool
  sv_has_lookup_table :: bool
  sv_wire_len :: nat

record ComputeBudgetBounds =
  cb_max_unit_limit :: u32
  cb_max_unit_price_micro_lamports :: u64

definition COMPUTE_BUDGET_PROGRAM_ID :: key where
  "COMPUTE_BUDGET_PROGRAM_ID = [
     3, 6, 70, 111, 229, 33, 23, 50, 255, 236, 173, 186, 114, 195, 155, 231,
     188, 140, 229, 187, 197, 247, 18, 107, 44, 67, 155, 58, 64, 0, 0, 0]"

definition ED25519_PROGRAM_ID :: key where
  "ED25519_PROGRAM_ID = [
     3, 125, 70, 214, 124, 147, 251, 190, 18, 249, 66, 143, 131, 141, 64, 255,
     5, 112, 116, 73, 39, 244, 138, 100, 252, 202, 112, 68, 128, 0, 0, 0]"

definition ED25519_HEADER :: bytes where
  "ED25519_HEADER = [1, 0, 48, 0, 255, 255, 16, 0, 255, 255, 112, 0, 32, 0, 255, 255]"

definition ED25519_DATA_LEN :: nat where "ED25519_DATA_LEN = 144"
definition MAX_TRANSACTION_WIRE_BYTES :: nat where "MAX_TRANSACTION_WIRE_BYTES = 1232"
definition SET_COMPUTE_UNIT_LIMIT :: u8 where "SET_COMPUTE_UNIT_LIMIT = 2"
definition SET_COMPUTE_UNIT_PRICE :: u8 where "SET_COMPUTE_UNIT_PRICE = 3"
definition MAX_COMPUTE_UNIT_LIMIT :: u32 where "MAX_COMPUTE_UNIT_LIMIT = 1400000"

section \<open>Resolving the keys\<close>

definition usize_sub :: "nat \<Rightarrow> nat \<Rightarrow> ('e, nat) res" where
  "usize_sub a b = (if b \<le> a then Ok (a - b) else Panic)"

definition static_entry :: "CompiledMessage \<Rightarrow> nat \<times> key \<Rightarrow> (VaultIntentError, key \<times> Flags) res" where
  "static_entry m ik = (case ik of (index, k) \<Rightarrow>
     if index < cm_required_signers m
     then bind_res (usize_sub (cm_required_signers m) (cm_readonly_signed m)) (\<lambda>limit.
       Ok (k, \<lparr>fl_signer = True, fl_writable = index < limit\<rparr>))
     else bind_res (usize_sub (length (cm_static_keys m)) (cm_readonly_unsigned m)) (\<lambda>limit.
       Ok (k, \<lparr>fl_signer = False, fl_writable = index < limit\<rparr>)))"

definition lookup_keys ::
  "AddressLookupTableAccount list \<Rightarrow> bool \<times> Lookup \<Rightarrow> (VaultIntentError, (key \<times> Flags) list) res" where
  "lookup_keys tables wl = (case wl of (writable, l) \<Rightarrow>
     bind_res (ok_or (ViMissingLookupTable (lk_table l)) (find (\<lambda>t. lt_key t = lk_table l) tables)) (\<lambda>table.
     collect_res (\<lambda>index.
         bind_res (ok_or (ViLookupIndex (lk_table l) index) (get_opt (unat index) (lt_addresses table))) (\<lambda>k.
         Ok (k, \<lparr>fl_signer = False, fl_writable = writable\<rparr>)))
       (if writable then lk_writable l else lk_readonly l)))"

text \<open>\<^verbatim>\<open>keys.iter().all(|(key, _)| seen.insert(*key))\<close>\<close>

fun all_fresh :: "key list \<Rightarrow> key list \<Rightarrow> bool" where
  "all_fresh seen [] = True"
| "all_fresh seen (k # ks) = (k \<notin> set seen \<and> all_fresh (k # seen) ks)"

definition key_at :: "(key \<times> Flags) list \<Rightarrow> u8 \<Rightarrow> (VaultIntentError, key \<times> Flags) res" where
  "key_at ks index = ok_or (ViMalformed ''account index out of range'') (get_opt (unat index) ks)"

definition resolve_account :: "(key \<times> Flags) list \<Rightarrow> u8 \<Rightarrow> (VaultIntentError, AccountMeta) res" where
  "resolve_account ks index = bind_res (key_at ks index) (\<lambda>(k, f).
     Ok \<lparr>am_pubkey = k, am_is_signer = fl_signer f, am_is_writable = fl_writable f\<rparr>)"

definition resolve_instruction ::
  "(key \<times> Flags) list \<Rightarrow> CompiledInstruction \<Rightarrow> (VaultIntentError, Instruction) res" where
  "resolve_instruction ks compiled =
     bind_res (key_at ks (ci_program compiled)) (\<lambda>(program_id, _).
     bind_res (collect_res (resolve_account ks) (ci_accounts compiled)) (\<lambda>accounts.
     Ok \<lparr>ix_program_id = program_id, ix_accounts = accounts, ix_data = ci_data compiled\<rparr>))"

definition served_of_bytes ::
  "bytes \<Rightarrow> AddressLookupTableAccount list \<Rightarrow> (VaultIntentError, ServedMessage) res" where
  "served_of_bytes bytes tables =
     bind_res (compiled_decode bytes) (\<lambda>m.
     bind_res (collect_res (static_entry m) (enumerate 0 (cm_static_keys m))) (\<lambda>static.
     bind_res (collect_res (lookup_keys tables)
         (concat (map (\<lambda>writable. map (\<lambda>l. (writable, l)) (cm_lookups m)) [True, False]))) (\<lambda>loaded.
     let keys = static @ concat loaded in
     if \<not> all_fresh [] (map fst keys) then Err (ViMalformed ''duplicate account key'')
     else
       bind_res (collect_res (resolve_instruction keys) (cm_instructions m)) (\<lambda>instructions.
       bind_res (slice_res 0 (cm_required_signers m) (cm_static_keys m)) (\<lambda>signers.
       Ok \<lparr>sv_keys = keys, sv_instructions = instructions,
         sv_transaction = \<lparr>vt_bytes = bytes, vt_signatures_start = cm_signatures_start m,
           vt_message_start = cm_message_start m, vt_signers = signers\<rparr>,
         sv_static_keys = cm_static_keys m, sv_is_version_zero = cm_is_version_zero m,
         sv_has_lookup_table = list_ex (\<lambda>l. lk_writable l \<noteq> [] \<or> lk_readonly l \<noteq> []) (cm_lookups m),
         sv_wire_len = length bytes\<rparr>)))))"

definition served_decode ::
  "base64 \<Rightarrow> string \<Rightarrow> AddressLookupTableAccount list \<Rightarrow> (VaultIntentError, ServedMessage) res" where
  "served_decode b64 tx_base64 tables =
     bind_res (ok_or ViInvalidBase64 (b64_decode b64 tx_base64)) (\<lambda>bytes. served_of_bytes bytes tables)"

definition served_lookup_table_keys :: "base64 \<Rightarrow> string \<Rightarrow> (VaultIntentError, key list) res" where
  "served_lookup_table_keys b64 tx_base64 =
     bind_res (ok_or ViInvalidBase64 (b64_decode b64 tx_base64)) (\<lambda>bytes.
     bind_res (compiled_decode bytes) (\<lambda>m. Ok (map lk_table (cm_lookups m))))"

section \<open>Checks\<close>

definition require_vault_open_wire_shape :: "ServedMessage \<Rightarrow> (VaultIntentError, unit) res" where
  "require_vault_open_wire_shape s =
     (if \<not> sv_is_version_zero s then Err ViOpenRequiresVersionZero
      else if \<not> sv_has_lookup_table s then Err ViOpenRequiresLookupTable
      else if MAX_TRANSACTION_WIRE_BYTES < sv_wire_len s
      then Err (ViOpenTransactionTooLarge (sv_wire_len s) MAX_TRANSACTION_WIRE_BYTES)
      else Ok ())"

definition require_static_accounts :: "ServedMessage \<Rightarrow> key list \<Rightarrow> (VaultIntentError, unit) res" where
  "require_static_accounts s accounts =
     (case find (\<lambda>a. a \<notin> set (sv_static_keys s)) accounts of
        None \<Rightarrow> Ok ()
      | Some a \<Rightarrow> Err (ViOpenRequiresStaticAccount a))"

definition budget_payload :: "ServedMessage \<Rightarrow> nat \<Rightarrow> u8 \<Rightarrow> nat \<Rightarrow> (VaultIntentError, bytes) res" where
  "budget_payload s index tag len =
     (case get_opt index (sv_instructions s) of
        None \<Rightarrow> Err (ViComputeBudget index)
      | Some ix \<Rightarrow>
          if ix_program_id ix = COMPUTE_BUDGET_PROGRAM_ID \<and> ix_accounts ix = [] \<and>
             length (ix_data ix) = len \<and> get_opt 0 (ix_data ix) = Some tag
          then slice_res 1 (length (ix_data ix)) (ix_data ix)
          else Err (ViComputeBudget index))"

definition budget_instruction :: "u8 \<Rightarrow> bytes \<Rightarrow> Instruction" where
  "budget_instruction tag value =
     \<lparr>ix_program_id = COMPUTE_BUDGET_PROGRAM_ID, ix_accounts = [], ix_data = tag # value\<rparr>"

text \<open>\<^verbatim>\<open>copy_from_slice\<close> panics unless the lengths agree.\<close>

definition copy_exact :: "nat \<Rightarrow> bytes \<Rightarrow> ('e, bytes) res" where
  "copy_exact n bs = (if length bs = n then Ok bs else Panic)"

definition compute_budget ::
  "ServedMessage \<Rightarrow> ComputeBudgetBounds \<Rightarrow> (VaultIntentError, Instruction list) res" where
  "compute_budget s bounds =
     bind_res (bind_res (budget_payload s 0 SET_COMPUTE_UNIT_LIMIT 5) (copy_exact 4)) (\<lambda>lb.
     let limit = (from_le lb :: u32) in
     bind_res (bind_res (budget_payload s 1 SET_COMPUTE_UNIT_PRICE 9) (copy_exact 8)) (\<lambda>pb.
     let price = (from_le pb :: u64); max_limit = min (cb_max_unit_limit bounds) MAX_COMPUTE_UNIT_LIMIT in
     if limit = 0 \<or> max_limit < limit then Err (ViComputeUnitLimit limit max_limit)
     else if cb_max_unit_price_micro_lamports bounds < price
     then Err (ViComputeUnitPrice price (cb_max_unit_price_micro_lamports bounds))
     else Ok [budget_instruction SET_COMPUTE_UNIT_LIMIT (u32_le limit),
              budget_instruction SET_COMPUTE_UNIT_PRICE (u64_le price)]))"

definition quote_signature ::
  "crypto \<Rightarrow> ServedMessage \<Rightarrow> nat \<Rightarrow> key \<Rightarrow> bytes \<Rightarrow> (VaultIntentError, Instruction) res" where
  "quote_signature cr s index signer order_id =
     bind_res (ok_or (ViQuoteSignature ''missing'') (get_opt index (sv_instructions s))) (\<lambda>ix.
     if ix_program_id ix \<noteq> ED25519_PROGRAM_ID \<or> ix_accounts ix \<noteq> [] \<or> length (ix_data ix) \<noteq> ED25519_DATA_LEN
     then Err (ViQuoteSignature ''not a single inline Ed25519 check'')
     else
       bind_res (slice_res 0 16 (ix_data ix)) (\<lambda>header.
       if header \<noteq> ED25519_HEADER then Err (ViQuoteSignature ''not a single inline Ed25519 check'')
       else
         bind_res (slice_res 16 48 (ix_data ix)) (\<lambda>key.
         if key \<noteq> signer then Err (ViQuoteSignature ''binds a different quote signer'')
         else
           bind_res (slice_res 112 (length (ix_data ix)) (ix_data ix)) (\<lambda>message.
           if message \<noteq> order_id then Err (ViQuoteSignature ''binds a different order'')
           else
             bind_res (bind_res (slice_res 48 112 (ix_data ix)) (copy_exact SIGNATURE_LEN)) (\<lambda>signature.
             bind_res (map_err (\<lambda>_. ViQuoteSignature ''signature does not verify'')
                 (verify_order_id_signature_bytes cr order_id signature signer)) (\<lambda>_.
             Ok ix))))))"

section \<open>Comparing with the expected instructions\<close>

type_synonym flag_map = "key \<Rightarrow> Flags option"

abbreviation no_flags :: Flags where
  "no_flags \<equiv> \<lparr>fl_signer = False, fl_writable = False\<rparr>"

definition or_insert :: "key \<Rightarrow> flag_map \<Rightarrow> flag_map" where
  "or_insert k flags = (case flags k of Some _ \<Rightarrow> flags | None \<Rightarrow> flags(k \<mapsto> no_flags))"

definition merge_meta :: "AccountMeta \<Rightarrow> flag_map \<Rightarrow> flag_map" where
  "merge_meta meta flags =
     (let entry = (case flags (am_pubkey meta) of Some f \<Rightarrow> f | None \<Rightarrow> no_flags) in
      flags(am_pubkey meta \<mapsto> \<lparr>fl_signer = fl_signer entry \<or> am_is_signer meta,
        fl_writable = fl_writable entry \<or> am_is_writable meta\<rparr>))"

definition merge_instruction :: "Instruction \<Rightarrow> flag_map \<Rightarrow> flag_map" where
  "merge_instruction ix flags = fold merge_meta (ix_accounts ix) (or_insert (ix_program_id ix) flags)"

definition expected_flags :: "key \<Rightarrow> Instruction list \<Rightarrow> flag_map" where
  "expected_flags payer expected =
     fold merge_instruction expected [payer \<mapsto> \<lparr>fl_signer = True, fl_writable = True\<rparr>]"

definition first_difference :: "bytes \<Rightarrow> bytes \<Rightarrow> nat" where
  "first_difference a b =
     (case find (\<lambda>(_, x, y). x \<noteq> y) (enumerate 0 (zip a b)) of
        Some (offset, _) \<Rightarrow> offset
      | None \<Rightarrow> min (length a) (length b))"

fun match_accounts ::
  "flag_map \<Rightarrow> nat \<Rightarrow> nat \<Rightarrow> AccountMeta list \<Rightarrow> AccountMeta list \<Rightarrow> (VaultIntentError, unit) res" where
  "match_accounts flags index position (found # fs) (wanted # ws) =
     (let wanted_flags = (case flags (am_pubkey wanted) of
            Some f \<Rightarrow> f
          | None \<Rightarrow> \<lparr>fl_signer = am_is_signer wanted, fl_writable = am_is_writable wanted\<rparr>) in
      if am_pubkey found \<noteq> am_pubkey wanted \<or> am_is_signer found \<noteq> fl_signer wanted_flags \<or>
         am_is_writable found \<noteq> fl_writable wanted_flags
      then Err (ViAccount index position (am_pubkey wanted) (fl_signer wanted_flags)
        (fl_writable wanted_flags) (am_pubkey found) (am_is_signer found) (am_is_writable found))
      else match_accounts flags index (position + 1) fs ws)"
| "match_accounts flags index position _ _ = Ok ()"

definition match_instruction ::
  "flag_map \<Rightarrow> nat \<Rightarrow> Instruction \<Rightarrow> Instruction \<Rightarrow> (VaultIntentError, unit) res" where
  "match_instruction flags index served expected =
     (if ix_program_id served \<noteq> ix_program_id expected
      then Err (ViProgram index (ix_program_id expected) (ix_program_id served))
      else if length (ix_accounts served) \<noteq> length (ix_accounts expected)
      then Err (ViAccountCount index (length (ix_accounts expected)) (length (ix_accounts served)))
      else
        bind_res (match_accounts flags index 0 (ix_accounts served) (ix_accounts expected)) (\<lambda>_.
        if ix_data served \<noteq> ix_data expected
        then Err (ViData index (first_difference (ix_data served) (ix_data expected)))
        else Ok ()))"

fun match_instructions ::
  "flag_map \<Rightarrow> nat \<Rightarrow> Instruction list \<Rightarrow> Instruction list \<Rightarrow> (VaultIntentError, unit) res" where
  "match_instructions flags index (s # ss) (e # es) =
     bind_res (match_instruction flags index s e) (\<lambda>_. match_instructions flags (index + 1) ss es)"
| "match_instructions flags index _ _ = Ok ()"

fun match_keys :: "flag_map \<Rightarrow> (key \<times> Flags) list \<Rightarrow> (VaultIntentError, unit) res" where
  "match_keys flags [] = Ok ()"
| "match_keys flags ((k, found) # rest) =
     (case flags k of
        None \<Rightarrow> Err (ViUnexpectedAccount k)
      | Some wanted \<Rightarrow>
          if fl_signer found \<and> \<not> fl_signer wanted then Err (ViUnexpectedSigner k)
          else if found \<noteq> wanted then Err (ViPrivilege k (fl_writable wanted) (fl_writable found))
          else match_keys flags rest)"

definition check_fee_payer :: "ServedMessage \<Rightarrow> key \<Rightarrow> (VaultIntentError, unit) res" where
  "check_fee_payer s payer =
     (case get_opt 0 (sv_keys s) of
        Some (found, _) \<Rightarrow> if found \<noteq> payer then Err (ViFeePayer payer found) else Ok ()
      | None \<Rightarrow> Ok ())"

definition served_matches ::
  "ServedMessage \<Rightarrow> key \<Rightarrow> Instruction list \<Rightarrow> (VaultIntentError, VerifiedTransaction) res" where
  "served_matches s payer expected =
     (let flags = expected_flags payer expected in
      bind_res (check_fee_payer s payer) (\<lambda>_.
      if length (sv_instructions s) \<noteq> length expected
      then Err (ViInstructionCount (length expected) (length (sv_instructions s)))
      else
        bind_res (match_instructions flags 0 (sv_instructions s) expected) (\<lambda>_.
        bind_res (match_keys flags (sv_keys s)) (\<lambda>_. Ok (sv_transaction s)))))"

section \<open>Signing\<close>

fun key_position :: "key \<Rightarrow> nat \<Rightarrow> key list \<Rightarrow> nat option" where
  "key_position k i [] = None"
| "key_position k i (x # xs) = (if x = k then Some i else key_position k (i + 1) xs)"

definition sign_with_participant_signature ::
  "crypto \<Rightarrow> base64 \<Rightarrow> VerifiedTransaction \<Rightarrow> signer \<Rightarrow> (VaultIntentError, string \<times> string) res" where
  "sign_with_participant_signature cr b64 tx sg =
     bind_res (ok_or (ViSignerNotRequired (sg_pubkey sg)) (key_position (sg_pubkey sg) 0 (vt_signers tx))) (\<lambda>index.
     bind_res (slice_res (vt_message_start tx) (length (vt_bytes tx)) (vt_bytes tx)) (\<lambda>message.
     let signature = sg_sign sg message; slot = vt_signatures_start tx + index * SIGNATURE_LEN in
     bind_res (slice_res slot (slot + SIGNATURE_LEN) (vt_bytes tx)) (\<lambda>_.
     bind_res (copy_into slot signature (vt_bytes tx)) (\<lambda>bytes.
     Ok (b64_encode b64 bytes, cr_b58_encode cr signature)))))"

definition sign_transaction ::
  "crypto \<Rightarrow> base64 \<Rightarrow> VerifiedTransaction \<Rightarrow> signer \<Rightarrow> (VaultIntentError, string) res" where
  "sign_transaction cr b64 tx sg =
     bind_res (sign_with_participant_signature cr b64 tx sg) (\<lambda>(transaction, _). Ok transaction)"

section \<open>The privileges an intent allows\<close>

text \<open>
  The specification side: which accounts the payer and the expected instructions mention, which of
  them must sign and which may be written.
\<close>

definition all_metas :: "Instruction list \<Rightarrow> AccountMeta list" where
  "all_metas es = concat (map ix_accounts es)"

definition mentioned :: "key \<Rightarrow> Instruction list \<Rightarrow> key \<Rightarrow> bool" where
  "mentioned payer es k \<longleftrightarrow> k = payer \<or> k \<in> ix_program_id ` set es \<or> k \<in> am_pubkey ` set (all_metas es)"

definition must_sign :: "key \<Rightarrow> Instruction list \<Rightarrow> key \<Rightarrow> bool" where
  "must_sign payer es k \<longleftrightarrow> k = payer \<or> list_ex (\<lambda>m. am_pubkey m = k \<and> am_is_signer m) (all_metas es)"

definition may_write :: "key \<Rightarrow> Instruction list \<Rightarrow> key \<Rightarrow> bool" where
  "may_write payer es k \<longleftrightarrow> k = payer \<or> list_ex (\<lambda>m. am_pubkey m = k \<and> am_is_writable m) (all_metas es)"

definition signs :: "flag_map \<Rightarrow> key \<Rightarrow> bool" where
  "signs flags k = (case flags k of Some f \<Rightarrow> fl_signer f | None \<Rightarrow> False)"

definition writes :: "flag_map \<Rightarrow> key \<Rightarrow> bool" where
  "writes flags k = (case flags k of Some f \<Rightarrow> fl_writable f | None \<Rightarrow> False)"

lemma merge_meta_view:
  "dom (merge_meta m flags) = insert (am_pubkey m) (dom flags)"
  "signs (merge_meta m flags) k \<longleftrightarrow> signs flags k \<or> (am_pubkey m = k \<and> am_is_signer m)"
  "writes (merge_meta m flags) k \<longleftrightarrow> writes flags k \<or> (am_pubkey m = k \<and> am_is_writable m)"
  by (auto simp: merge_meta_def signs_def writes_def Let_def split: option.splits)

lemma or_insert_view:
  "dom (or_insert p flags) = insert p (dom flags)"
  "signs (or_insert p flags) k \<longleftrightarrow> signs flags k"
  "writes (or_insert p flags) k \<longleftrightarrow> writes flags k"
  by (auto simp: or_insert_def signs_def writes_def split: option.splits)

lemma fold_merge_meta_view:
  "dom (fold merge_meta ms flags) = dom flags \<union> am_pubkey ` set ms"
  "signs (fold merge_meta ms flags) k \<longleftrightarrow> signs flags k \<or> list_ex (\<lambda>m. am_pubkey m = k \<and> am_is_signer m) ms"
  "writes (fold merge_meta ms flags) k \<longleftrightarrow> writes flags k \<or> list_ex (\<lambda>m. am_pubkey m = k \<and> am_is_writable m) ms"
  by (induction ms arbitrary: flags) (auto simp: merge_meta_view)

lemma fold_merge_instruction_view:
  "dom (fold merge_instruction es flags) = dom flags \<union> ix_program_id ` set es \<union> am_pubkey ` set (all_metas es)"
  "signs (fold merge_instruction es flags) k \<longleftrightarrow>
     signs flags k \<or> list_ex (\<lambda>m. am_pubkey m = k \<and> am_is_signer m) (all_metas es)"
  "writes (fold merge_instruction es flags) k \<longleftrightarrow>
     writes flags k \<or> list_ex (\<lambda>m. am_pubkey m = k \<and> am_is_writable m) (all_metas es)"
  by (induction es arbitrary: flags)
    (auto simp: merge_instruction_def fold_merge_meta_view or_insert_view all_metas_def)

lemma flags_view:
  "flags k = (if k \<in> dom flags then Some \<lparr>fl_signer = signs flags k, fl_writable = writes flags k\<rparr> else None)"
  by (auto simp: signs_def writes_def)

lemma expected_flags_spec:
  "expected_flags payer es k =
     (if mentioned payer es k
      then Some \<lparr>fl_signer = must_sign payer es k, fl_writable = may_write payer es k\<rparr> else None)"
proof -
  let ?init = "[payer \<mapsto> \<lparr>fl_signer = True, fl_writable = True\<rparr>]"
  have init: "dom ?init = {payer}" "signs ?init k \<longleftrightarrow> k = payer" "writes ?init k \<longleftrightarrow> k = payer"
    by (simp_all add: signs_def writes_def)
  show ?thesis
    unfolding expected_flags_def mentioned_def must_sign_def may_write_def
    by (subst flags_view) (simp only: fold_merge_instruction_view init Un_iff singleton_iff disj_assoc)
qed

section \<open>What a match means\<close>

text \<open>A served instruction is the expected one, with the privileges of the whole transaction.\<close>

definition same_instruction :: "key \<Rightarrow> Instruction list \<Rightarrow> Instruction \<Rightarrow> Instruction \<Rightarrow> bool" where
  "same_instruction payer es served wanted \<longleftrightarrow>
     ix_program_id served = ix_program_id wanted \<and> ix_data served = ix_data wanted \<and>
     ix_accounts served = map (\<lambda>m. \<lparr>am_pubkey = am_pubkey m, am_is_signer = must_sign payer es (am_pubkey m),
       am_is_writable = may_write payer es (am_pubkey m)\<rparr>) (ix_accounts wanted)"

definition served_exactly :: "ServedMessage \<Rightarrow> key \<Rightarrow> Instruction list \<Rightarrow> bool" where
  "served_exactly s payer es \<longleftrightarrow>
     (sv_keys s = [] \<or> fst (hd (sv_keys s)) = payer) \<and>
     list_all2 (same_instruction payer es) (sv_instructions s) es \<and>
     list_all (\<lambda>(k, f). mentioned payer es k \<and>
       f = \<lparr>fl_signer = must_sign payer es k, fl_writable = may_write payer es k\<rparr>) (sv_keys s)"

lemma match_accounts_iff:
  assumes "length fs = length ws" "set ws \<subseteq> set (all_metas es)"
  shows "match_accounts (expected_flags payer es) i p fs ws = Ok () \<longleftrightarrow>
    fs = map (\<lambda>m. \<lparr>am_pubkey = am_pubkey m, am_is_signer = must_sign payer es (am_pubkey m),
       am_is_writable = may_write payer es (am_pubkey m)\<rparr>) ws"
  using assms
proof (induction fs ws arbitrary: p rule: list_induct2)
  case (Cons f fs w ws)
  have "mentioned payer es (am_pubkey w)" using Cons.prems by (auto simp: mentioned_def)
  then show ?case
    using Cons by (cases f) (auto simp: expected_flags_spec Let_def)
qed simp

lemma match_instruction_iff:
  assumes "w \<in> set es"
  shows "match_instruction (expected_flags payer es) i s w = Ok () \<longleftrightarrow> same_instruction payer es s w"
proof -
  have "set (ix_accounts w) \<subseteq> set (all_metas es)" using assms by (auto simp: all_metas_def)
  from match_accounts_iff [OF _ this] show ?thesis
    by (auto simp: match_instruction_def same_instruction_def bind_res_eq_Ok if_Err_eq_Ok)
qed

lemma match_instructions_iff:
  assumes "length ss = length ws" "set ws \<subseteq> set es"
  shows "match_instructions (expected_flags payer es) i ss ws = Ok () \<longleftrightarrow>
    list_all2 (same_instruction payer es) ss ws"
  using assms
  by (induction ss ws arbitrary: i rule: list_induct2) (auto simp: bind_res_eq_Ok match_instruction_iff)

lemma match_keys_lookup: "match_keys flags ks = Ok () \<longleftrightarrow> list_all (\<lambda>(k, f). flags k = Some f) ks"
proof (induction ks)
  case (Cons e ks)
  obtain k f where "e = (k, f)" by fastforce
  then show ?case using Cons by (cases "flags k") auto
qed simp

lemma match_keys_iff:
  "match_keys (expected_flags payer es) ks = Ok () \<longleftrightarrow>
     list_all (\<lambda>(k, f). mentioned payer es k \<and>
       f = \<lparr>fl_signer = must_sign payer es k, fl_writable = may_write payer es k\<rparr>) ks"
  unfolding match_keys_lookup
  by (rule arg_cong [where f = "\<lambda>P. list_all P ks"]) (auto simp: fun_eq_iff expected_flags_spec)

lemma match_accounts_no_panic: "match_accounts flags i p fs ws \<noteq> Panic"
  by (induction flags i p fs ws rule: match_accounts.induct) (simp_all add: Let_def)

lemma match_instructions_no_panic: "match_instructions flags i ss es \<noteq> Panic"
proof (induction flags i ss es rule: match_instructions.induct)
  case (1 flags i s ss e es)
  have "match_instruction flags i s e \<noteq> Panic"
    unfolding match_instruction_def by (intro no_panic_intros match_accounts_no_panic) simp_all
  with 1 show ?case by (cases "match_instruction flags i s e") simp_all
qed simp_all

lemma match_keys_no_panic: "match_keys flags ks \<noteq> Panic"
  by (induction flags ks rule: match_keys.induct) (auto split: option.splits)

lemma served_matches_no_panic: "served_matches s payer es \<noteq> Panic"
  unfolding served_matches_def Let_def
  by (intro no_panic_intros match_instructions_no_panic match_keys_no_panic)
    (auto simp: check_fee_payer_def split: option.splits)

lemma served_matches_iff:
  "served_matches s payer es = Ok tx \<longleftrightarrow> tx = sv_transaction s \<and> served_exactly s payer es"
proof -
  have payer: "check_fee_payer s payer = Ok () \<longleftrightarrow> sv_keys s = [] \<or> fst (hd (sv_keys s)) = payer"
    by (cases "sv_keys s") (auto simp: check_fee_payer_def get_opt_def if_Err_eq_Ok)
  show ?thesis
  proof (cases "length (sv_instructions s) = length es")
    case True
    then show ?thesis
      using match_instructions_iff [OF True subset_refl]
      by (auto simp: served_matches_def served_exactly_def bind_res_eq_Ok payer match_keys_iff Let_def)
  next
    case False
    then show ?thesis
      by (auto simp: served_matches_def served_exactly_def bind_res_eq_Ok Let_def dest: list_all2_lengthD)
  qed
qed

text \<open>
  C11. The comparison accepts a served message exactly when the fee payer is the expected one, the
  instructions are the expected ones in order (program, data, accounts), and every account the
  transaction loads is mentioned by the payer or an expected instruction and has exactly the signer
  and writable privileges those together require. No extra account, signer or privilege passes.
\<close>

theorem matches_exact:
  "served_matches s payer es = Ok tx \<longleftrightarrow> tx = sv_transaction s \<and> served_exactly s payer es"
  by (rule served_matches_iff)

section \<open>Decoding and signing\<close>

lemma all_fresh_distinct: "all_fresh seen ks \<longleftrightarrow> distinct ks \<and> set ks \<inter> set seen = {}"
  by (induction ks arbitrary: seen) auto

lemma static_entry_no_panic:
  assumes "message_ok n m"
  shows "static_entry m ik \<noteq> Panic"
  using assms by (cases ik) (auto simp: static_entry_def usize_sub_def message_ok_def)

lemma resolve_account_no_panic: "resolve_account ks i \<noteq> Panic"
  by (auto simp: resolve_account_def key_at_def res_simps split: prod.splits)

lemma resolve_instruction_no_panic: "resolve_instruction ks ci \<noteq> Panic"
  using collect_res_not_Panic [of "ci_accounts ci" "resolve_account ks"] resolve_account_no_panic
  by (auto simp: resolve_instruction_def key_at_def res_simps split: prod.splits)

lemma lookup_keys_no_panic: "lookup_keys tables wl \<noteq> Panic"
  unfolding lookup_keys_def
  by (cases wl) (auto simp: res_simps intro!: collect_res_not_Panic)

lemma served_of_bytes_no_panic: "served_of_bytes bytes tables \<noteq> Panic"
proof (cases "compiled_decode bytes")
  case (Ok m)
  then have ok: "message_ok (length bytes) m" by (rule decode_message_ok)
  then have "slice_res 0 (cm_required_signers m) (cm_static_keys m) \<noteq> (Panic :: (VaultIntentError, _) res)"
    by (simp add: slice_res_def message_ok_def)
  then show ?thesis
    unfolding served_of_bytes_def Ok Let_def bind_res.simps
    by (intro no_panic_intros collect_res_not_Panic static_entry_no_panic [OF ok] lookup_keys_no_panic
        resolve_instruction_no_panic) simp_all
qed (simp_all add: served_of_bytes_def compiled_decode_no_panic)

lemma served_of_bytes_transaction:
  assumes "served_of_bytes bytes tables = Ok s"
  obtains m where "compiled_decode bytes = Ok m" "message_ok (length bytes) m"
    "sv_transaction s = \<lparr>vt_bytes = bytes, vt_signatures_start = cm_signatures_start m,
       vt_message_start = cm_message_start m, vt_signers = take (cm_required_signers m) (cm_static_keys m)\<rparr>"
    "distinct (map fst (sv_keys s))"
proof -
  obtain m where m: "compiled_decode bytes = Ok m" using assms by (auto simp: served_of_bytes_def bind_res_eq_Ok)
  show ?thesis
  proof (rule that [OF m decode_message_ok [OF m]])
    show "sv_transaction s = \<lparr>vt_bytes = bytes, vt_signatures_start = cm_signatures_start m,
       vt_message_start = cm_message_start m, vt_signers = take (cm_required_signers m) (cm_static_keys m)\<rparr>"
      "distinct (map fst (sv_keys s))"
      using assms unfolding served_of_bytes_def m
      by (auto simp: bind_res_eq_Ok Let_def if_Err_eq_Ok slice_res_eq_Ok all_fresh_distinct)
  qed
qed

text \<open>Two byte strings that decode to the same message are served as the same message.\<close>

lemma served_of_bytes_same_message:
  assumes "compiled_decode bytes' = compiled_decode bytes" "length bytes' = length bytes"
    and "served_of_bytes bytes tables = Ok s"
  shows "served_of_bytes bytes' tables = Ok (s\<lparr>sv_transaction := sv_transaction s\<lparr>vt_bytes := bytes'\<rparr>\<rparr>)"
  using assms unfolding served_of_bytes_def
  by (cases "compiled_decode bytes") (clarsimp simp: bind_res_eq_Ok Let_def if_Err_eq_Ok)+

lemma key_position_Some:
  "key_position k i ks = Some j \<Longrightarrow> i \<le> j \<and> j < i + length ks \<and> ks ! (j - i) = k"
proof (induction ks arbitrary: i)
  case (Cons x ks)
  show ?case
  proof (cases "x = k")
    case False
    with Cons.prems have "key_position k (i + 1) ks = Some j" by simp
    from Cons.IH [OF this] show ?thesis by (auto simp: nth_Cons' Suc_diff_Suc)
  qed (use Cons.prems in auto)
qed simp

lemma key_position_total: "k \<in> set ks \<Longrightarrow> \<exists>j. key_position k i ks = Some j"
  by (induction ks arbitrary: i) auto

definition sign_slot :: "VerifiedTransaction \<Rightarrow> nat \<Rightarrow> nat" where
  "sign_slot tx index = vt_signatures_start tx + index * SIGNATURE_LEN"

lemma sign_bytes:
  assumes "served_of_bytes bytes tables = Ok s" and "sg_pubkey sg \<in> set (vt_signers (sv_transaction s))"
    and "\<And>m. length (sg_sign sg m) = SIGNATURE_LEN"
  obtains index bytes' where
    "vt_signers (sv_transaction s) ! index = sg_pubkey sg"
    "sign_with_participant_signature cr b64 (sv_transaction s) sg =
       Ok (b64_encode b64 bytes', cr_b58_encode cr (sg_sign sg (drop (vt_message_start (sv_transaction s)) bytes)))"
    "bytes' = take (sign_slot (sv_transaction s) index) bytes @
       sg_sign sg (drop (vt_message_start (sv_transaction s)) bytes) @
       drop (sign_slot (sv_transaction s) index + SIGNATURE_LEN) bytes"
    "sign_slot (sv_transaction s) index + SIGNATURE_LEN \<le> vt_message_start (sv_transaction s)"
    "vt_message_start (sv_transaction s) \<le> length bytes"
proof -
  obtain m where m: "message_ok (length bytes) m"
    "sv_transaction s = \<lparr>vt_bytes = bytes, vt_signatures_start = cm_signatures_start m,
       vt_message_start = cm_message_start m, vt_signers = take (cm_required_signers m) (cm_static_keys m)\<rparr>"
    using served_of_bytes_transaction [OF assms(1)] by blast
  obtain index where i: "key_position (sg_pubkey sg) 0 (vt_signers (sv_transaction s)) = Some index"
    using key_position_total [OF assms(2)] by blast
  have idx: "index < cm_required_signers m" "vt_signers (sv_transaction s) ! index = sg_pubkey sg"
    using key_position_Some [OF i] by (simp_all add: m(2))
  have "index * SIGNATURE_LEN + SIGNATURE_LEN \<le> cm_required_signers m * SIGNATURE_LEN"
    using mult_le_mono1 [of "Suc index" "cm_required_signers m" SIGNATURE_LEN] idx(1) by simp
  then have fits: "sign_slot (sv_transaction s) index + SIGNATURE_LEN \<le> cm_message_start m"
    "cm_message_start m \<le> length bytes"
    using m(1) by (simp_all add: sign_slot_def m(2) message_ok_def mult.commute)
  show ?thesis
    by (rule that [OF idx(2) _ refl])
      (use fits i assms(3) in \<open>simp_all add: sign_with_participant_signature_def m(2) slice_res_def copy_into_def
        sign_slot_def Let_def\<close>)
qed

text \<open>
  C15. Signing what was verified changes nothing of it: for every served transaction and required
  signer, signing succeeds without a panic, signs exactly the message bytes, writes the signature into
  the signer's own slot and leaves every other byte as served; and the signed bytes decode, against the
  same tables, to the same keys, instructions and signers.
\<close>

theorem sign_keeps_message:
  assumes "served_of_bytes bytes tables = Ok s" and "sg_pubkey sg \<in> set (vt_signers (sv_transaction s))"
    and "\<And>m. length (sg_sign sg m) = SIGNATURE_LEN"
  shows "\<exists>index bytes'. vt_signers (sv_transaction s) ! index = sg_pubkey sg \<and>
    sign_with_participant_signature cr b64 (sv_transaction s) sg =
      Ok (b64_encode b64 bytes', cr_b58_encode cr (sg_sign sg (drop (vt_message_start (sv_transaction s)) bytes))) \<and>
    bytes' = take (sign_slot (sv_transaction s) index) bytes @
      sg_sign sg (drop (vt_message_start (sv_transaction s)) bytes) @
      drop (sign_slot (sv_transaction s) index + SIGNATURE_LEN) bytes \<and>
    served_of_bytes bytes' tables = Ok (s\<lparr>sv_transaction := sv_transaction s\<lparr>vt_bytes := bytes'\<rparr>\<rparr>)"
proof -
  obtain m where m: "compiled_decode bytes = Ok m"
    "sv_transaction s = \<lparr>vt_bytes = bytes, vt_signatures_start = cm_signatures_start m,
       vt_message_start = cm_message_start m, vt_signers = take (cm_required_signers m) (cm_static_keys m)\<rparr>"
    using served_of_bytes_transaction [OF assms(1)] by blast
  obtain index bytes' where b:
    "vt_signers (sv_transaction s) ! index = sg_pubkey sg"
    "sign_with_participant_signature cr b64 (sv_transaction s) sg =
       Ok (b64_encode b64 bytes', cr_b58_encode cr (sg_sign sg (drop (vt_message_start (sv_transaction s)) bytes)))"
    "bytes' = take (sign_slot (sv_transaction s) index) bytes @
       sg_sign sg (drop (vt_message_start (sv_transaction s)) bytes) @
       drop (sign_slot (sv_transaction s) index + SIGNATURE_LEN) bytes"
    "sign_slot (sv_transaction s) index + SIGNATURE_LEN \<le> vt_message_start (sv_transaction s)"
    "vt_message_start (sv_transaction s) \<le> length bytes"
    using sign_bytes [OF assms] by metis
  have len: "length bytes' = length bytes" using b(3-5) assms(3) by simp
  have "compiled_decode bytes' = Ok m"
  proof (rule decode_resign [OF m(1) len])
    show "take (cm_signatures_start m) bytes' = take (cm_signatures_start m) bytes"
      using b(4,5) by (simp add: b(3) sign_slot_def m(2) min_def SIGNATURE_LEN_def)
    show "drop (cm_message_start m) bytes' = drop (cm_message_start m) bytes"
      using b(4,5) assms(3) by (simp add: b(3) sign_slot_def m(2) min_def SIGNATURE_LEN_def)
  qed
  then have "compiled_decode bytes' = compiled_decode bytes" using m(1) by simp
  from served_of_bytes_same_message [OF this len assms(1)] b(1,2,3) show ?thesis by blast
qed

definition sample_tables :: "AddressLookupTableAccount list" where
  "sample_tables = [\<lparr>lt_key = replicate 32 3,
     lt_addresses = [replicate 32 40, replicate 32 41, replicate 32 42, replicate 32 43, replicate 32 44]\<rparr>]"

definition sample_signer :: signer where
  "sample_signer = \<lparr>sg_pubkey = replicate 32 7, sg_sign = (\<lambda>_. replicate 64 1)\<rparr>"

lemma sample_served:
  "served_of_bytes (tx_bytes sample_tx) sample_tables = Ok
     \<lparr>sv_keys = [(replicate 32 7, \<lparr>fl_signer = True, fl_writable = True\<rparr>),
        (replicate 32 8, \<lparr>fl_signer = False, fl_writable = False\<rparr>),
        (replicate 32 44, \<lparr>fl_signer = False, fl_writable = True\<rparr>)],
      sv_instructions = [\<lparr>ix_program_id = replicate 32 8, ix_accounts = [meta_new (replicate 32 7) True],
        ix_data = [5, 6]\<rparr>],
      sv_transaction = \<lparr>vt_bytes = tx_bytes sample_tx, vt_signatures_start = 1, vt_message_start = 65,
        vt_signers = [replicate 32 7]\<rparr>,
      sv_static_keys = [replicate 32 7, replicate 32 8], sv_is_version_zero = True,
      sv_has_lookup_table = True, sv_wire_len = length (tx_bytes sample_tx)\<rparr>"
proof -
  have "wire_ok sample_tx"
    by (simp add: wire_ok_def sample_tx_def SIGNATURE_LEN_def instruction_ok_def lookup_ok_def vec_ok_def)
  then have decode: "compiled_decode (tx_bytes sample_tx) = Ok (compiled_of sample_tx)" by (rule decode_wire)
  have "compiled_of sample_tx = \<lparr>cm_signatures_start = 1, cm_message_start = 65, cm_required_signers = 1,
      cm_readonly_signed = 0, cm_readonly_unsigned = 1, cm_static_keys = [replicate 32 7, replicate 32 8],
      cm_instructions = [\<lparr>ci_program = 1, ci_accounts = [0], ci_data = [5, 6]\<rparr>],
      cm_lookups = [\<lparr>lk_table = replicate 32 3, lk_writable = [4], lk_readonly = []\<rparr>],
      cm_is_version_zero = True\<rparr>"
    by (simp add: compiled_of_def sample_tx_def compact_bytes_def SIGNATURE_LEN_def)
  then show ?thesis
    by (simp add: served_of_bytes_def decode static_entry_def usize_sub_def lookup_keys_def sample_tables_def
        get_opt_def slice_res_def resolve_instruction_def resolve_account_def key_at_def meta_new_def)
qed

theorem sign_keeps_message_witness:
  "\<exists>s. served_of_bytes (tx_bytes sample_tx) sample_tables = Ok s \<and>
     (\<exists>text sig. sign_with_participant_signature plain_crypto
        \<lparr>b64_encode = map (\<lambda>b. char_of (unat b)), b64_decode = (\<lambda>_. None)\<rparr> (sv_transaction s) sample_signer = Ok (text, sig))"
  using sign_keeps_message [OF sample_served, of sample_signer plain_crypto
      "\<lparr>b64_encode = map (\<lambda>b. char_of (unat b)), b64_decode = (\<lambda>_. None)\<rparr>"]
  by (auto simp: sample_served sample_signer_def SIGNATURE_LEN_def)

section \<open>The server-chosen parts\<close>

lemma budget_payload_Ok:
  "budget_payload s i tag (Suc n) = Ok b \<longleftrightarrow>
     i < length (sv_instructions s) \<and> length b = n \<and> sv_instructions s ! i = budget_instruction tag b"
proof (cases "i < length (sv_instructions s)")
  case True
  obtain p as d where ix: "sv_instructions s ! i = \<lparr>ix_program_id = p, ix_accounts = as, ix_data = d\<rparr>"
    by (cases "sv_instructions s ! i")
  show ?thesis
    using True by (cases d) (auto simp: budget_payload_def get_opt_def ix budget_instruction_def slice_res_def)
qed (auto simp: budget_payload_def get_opt_def)

lemma budget_payload_no_panic: "budget_payload s i tag (Suc n) \<noteq> Panic"
  by (auto simp: budget_payload_def slice_res_def split: option.splits)

lemma budget_payload_copy:
  "bind_res (budget_payload s i tag 5) (copy_exact 4) = budget_payload s i tag (Suc 4)"
  "bind_res (budget_payload s i tag 9) (copy_exact 8) = budget_payload s i tag (Suc 8)"
proof -
  have "bind_res (budget_payload s i tag (Suc n)) (copy_exact n) = budget_payload s i tag (Suc n)" for n
    by (cases "budget_payload s i tag (Suc n)") (auto simp: copy_exact_def dest: budget_payload_Ok [THEN iffD1])
  from this [of 4] this [of 8]
  show "bind_res (budget_payload s i tag 5) (copy_exact 4) = budget_payload s i tag (Suc 4)"
    "bind_res (budget_payload s i tag 9) (copy_exact 8) = budget_payload s i tag (Suc 8)" by simp_all
qed

lemma compute_budget_no_panic: "compute_budget s bounds \<noteq> Panic"
  unfolding compute_budget_def budget_payload_copy Let_def
  by (intro no_panic_intros budget_payload_no_panic) simp_all

lemma compute_budget_Ok:
  assumes "compute_budget s bounds = Ok ixs"
  shows "\<exists>limit price. ixs = take 2 (sv_instructions s) \<and>
    ixs = [budget_instruction 2 (u32_le limit), budget_instruction 3 (u64_le price)] \<and>
    0 < limit \<and> limit \<le> cb_max_unit_limit bounds \<and> limit \<le> 1400000 \<and>
    price \<le> cb_max_unit_price_micro_lamports bounds"
proof -
  obtain lb pb where
    b: "budget_payload s 0 SET_COMPUTE_UNIT_LIMIT (Suc 4) = Ok lb" "budget_payload s 1 SET_COMPUTE_UNIT_PRICE (Suc 8) = Ok pb"
    and c: "(from_le lb :: u32) \<noteq> 0" "from_le lb \<le> min (cb_max_unit_limit bounds) MAX_COMPUTE_UNIT_LIMIT"
      "(from_le pb :: u64) \<le> cb_max_unit_price_micro_lamports bounds"
    and ixs: "ixs = [budget_instruction SET_COMPUTE_UNIT_LIMIT (u32_le (from_le lb)),
      budget_instruction SET_COMPUTE_UNIT_PRICE (u64_le (from_le pb))]"
    using assms unfolding compute_budget_def budget_payload_copy Let_def
    by (auto simp: bind_res_eq_Ok if_Err_eq_Ok not_less)
  note at = b(1) [unfolded budget_payload_Ok] b(2) [unfolded budget_payload_Ok]
  have len: "length lb = 4" "length pb = 8" "1 < length (sv_instructions s)" using at by auto
  have "take 2 (sv_instructions s) = [sv_instructions s ! 0, sv_instructions s ! 1]"
    using len(3) by (cases "sv_instructions s"; cases "tl (sv_instructions s)") auto
  then have "ixs = take 2 (sv_instructions s)"
    using at by (simp add: ixs u32_le_from_le [OF len(1)] u64_le_from_le [OF len(2)])
  moreover have "0 < (from_le lb :: u32)" using c(1) by (simp add: word_gt_0)
  ultimately show ?thesis
    using c(2,3) ixs
    by (intro exI [of _ "from_le lb"] exI [of _ "from_le pb"])
      (simp add: SET_COMPUTE_UNIT_LIMIT_def SET_COMPUTE_UNIT_PRICE_def MAX_COMPUTE_UNIT_LIMIT_def)
qed

text \<open>
  C36. The compute budget the server chose is accepted only inside the operator's ceilings: the first
  two instructions are a canonical unit-limit and unit-price instruction, the limit is positive and at
  most both the operator's bound and 1,400,000, the price is at most the operator's bound, and what is
  returned is exactly those two served instructions. The check never panics.
\<close>

theorem compute_budget_bounded:
  "compute_budget s bounds \<noteq> Panic \<and>
   (compute_budget s bounds = Ok ixs \<longrightarrow>
     (\<exists>limit price. ixs = take 2 (sv_instructions s) \<and>
        ixs = [budget_instruction 2 (u32_le limit), budget_instruction 3 (u64_le price)] \<and>
        0 < limit \<and> limit \<le> cb_max_unit_limit bounds \<and> limit \<le> 1400000 \<and>
        price \<le> cb_max_unit_price_micro_lamports bounds))"
  using compute_budget_no_panic compute_budget_Ok by blast

text \<open>A served message with a compute budget and an inline quote signature over order id \<open>[3, ...]\<close>.\<close>

definition sample_quoted :: ServedMessage where
  "sample_quoted = \<lparr>sv_keys = [],
     sv_instructions = [budget_instruction 2 (u32_le 200000), budget_instruction 3 (u64_le 5),
       \<lparr>ix_program_id = ED25519_PROGRAM_ID, ix_accounts = [],
        ix_data = ED25519_HEADER @ replicate 32 7 @ (replicate 32 7 @ replicate 32 3) @ replicate 32 3\<rparr>],
     sv_transaction = \<lparr>vt_bytes = [], vt_signatures_start = 0, vt_message_start = 0, vt_signers = []\<rparr>,
     sv_static_keys = [], sv_is_version_zero = True, sv_has_lookup_table = True, sv_wire_len = 0\<rparr>"

lemma sample_quoted_budget:
  "compute_budget sample_quoted \<lparr>cb_max_unit_limit = 300000, cb_max_unit_price_micro_lamports = 5\<rparr> =
     Ok [budget_instruction 2 (u32_le 200000), budget_instruction 3 (u64_le 5)]"
  by (simp add: compute_budget_def sample_quoted_def budget_payload_def get_opt_def budget_instruction_def
      SET_COMPUTE_UNIT_LIMIT_def SET_COMPUTE_UNIT_PRICE_def slice_res_def copy_exact_def
      MAX_COMPUTE_UNIT_LIMIT_def)

theorem compute_budget_bounded_witness:
  "[budget_instruction 2 (u32_le 200000), budget_instruction 3 (u64_le 5)] = take 2 (sv_instructions sample_quoted)"
  using compute_budget_bounded [of sample_quoted "\<lparr>cb_max_unit_limit = 300000, cb_max_unit_price_micro_lamports = 5\<rparr>"
      "[budget_instruction 2 (u32_le 200000), budget_instruction 3 (u64_le 5)]"] sample_quoted_budget
  by blast

lemma slices_concat:
  "length d = 144 \<Longrightarrow> d = take 16 d @ take 32 (drop 16 d) @ take 64 (drop 48 d) @ drop 112 d"
proof -
  have "drop 16 d = take 32 (drop 16 d) @ drop 48 d"
    using append_take_drop_id [of 32 "drop 16 d"] by simp
  moreover have "drop 48 d = take 64 (drop 48 d) @ drop 112 d"
    using append_take_drop_id [of 64 "drop 48 d"] by simp
  ultimately show ?thesis by (metis append_take_drop_id)
qed

lemma quote_signature_no_panic: "quote_signature cr s index signer order_id \<noteq> Panic"
  unfolding quote_signature_def
  by (intro no_panic_intros)
    (auto simp: res_simps ED25519_DATA_LEN_def copy_exact_def SIGNATURE_LEN_def verify_order_id_signature_bytes_def)

lemma quote_signature_Ok:
  assumes ok: "quote_signature cr s index signer order_id = Ok ix"
  shows "index < length (sv_instructions s) \<and> ix = sv_instructions s ! index \<and>
     ix_program_id ix = ED25519_PROGRAM_ID \<and> ix_accounts ix = [] \<and>
     is_key signer \<and> length order_id = 32 \<and> (\<exists>signature. length signature = 64 \<and> ix_data ix = ED25519_HEADER @ signer @ signature @ order_id \<and>
        cr_valid_key cr signer \<and> cr_verify cr signer order_id signature)"
proof -
  have head: "index < length (sv_instructions s)" "ix = sv_instructions s ! index"
    "ix_program_id ix = ED25519_PROGRAM_ID" "ix_accounts ix = []" "length (ix_data ix) = 144"
    using ok by (auto simp: quote_signature_def res_simps ED25519_DATA_LEN_def)
  have parts: "take 16 (ix_data ix) = ED25519_HEADER" "take 32 (drop 16 (ix_data ix)) = signer"
    "drop 112 (ix_data ix) = order_id" "cr_valid_key cr signer"
    "cr_verify cr signer order_id (take 64 (drop 48 (ix_data ix)))"
    using ok head(5)
    by (auto simp: quote_signature_def bind_res_eq_Ok if_Err_eq_Ok slice_res_eq_Ok ok_or_eq_Ok map_err_eq_Ok
        copy_exact_def verify_order_id_signature_bytes_def split: if_splits)
  have "ix_data ix = ED25519_HEADER @ signer @ take 64 (drop 48 (ix_data ix)) @ order_id"
    using slices_concat [OF head(5)] unfolding parts by simp
  moreover have "length (take 64 (drop 48 (ix_data ix))) = 64" using head(5) by simp
  moreover have "is_key signer" "length order_id = 32" using head(5) parts(2,3) by auto
  ultimately show ?thesis using head parts(4,5) by blast
qed

text \<open>
  C35. The quote-signature check accepts only an inline Ed25519 instruction that binds exactly the given
  signer and order id: the served data is the fixed header, the signer, a signature and the order id,
  the signature verifies for that signer over that order id, and the instruction is returned unchanged.
  It never panics.
\<close>

theorem quote_signature_sound:
  "quote_signature cr s index signer order_id \<noteq> Panic \<and>
   (quote_signature cr s index signer order_id = Ok ix \<longrightarrow>
     index < length (sv_instructions s) \<and> ix = sv_instructions s ! index \<and>
     ix_program_id ix = ED25519_PROGRAM_ID \<and> ix_accounts ix = [] \<and>
     (\<exists>signature. length signature = 64 \<and> ix_data ix = ED25519_HEADER @ signer @ signature @ order_id \<and>
        cr_valid_key cr signer \<and> cr_verify cr signer order_id signature))"
  using quote_signature_no_panic quote_signature_Ok by blast

theorem quote_signature_sound_witness:
  "\<exists>signature. length signature = 64 \<and>
     ix_data (sv_instructions sample_quoted ! 2) = ED25519_HEADER @ replicate 32 7 @ signature @ replicate 32 3"
proof -
  have "quote_signature plain_crypto sample_quoted 2 (replicate 32 7) (replicate 32 3) =
      Ok (sv_instructions sample_quoted ! 2)"
    by (simp add: quote_signature_def sample_quoted_def get_opt_def ED25519_HEADER_def ED25519_DATA_LEN_def
        slice_res_def copy_exact_def SIGNATURE_LEN_def verify_order_id_signature_bytes_def plain_crypto_def)
  with quote_signature_sound [of plain_crypto sample_quoted 2 "replicate 32 7" "replicate 32 3"
      "sv_instructions sample_quoted ! 2"]
  show ?thesis by blast
qed

end
