(* ===== verification/PriceRoutes.thy ===== *)
theory PriceRoutes
  imports VaultAccounts Reader
begin

text \<open>
  \<^verbatim>\<open>src/src/chain/vault/price_route.rs\<close>: the price-route account, its bricks and the reader that decodes
  them. The reader is the unread slice. The brick encoding the program uses is written down as a
  reference encoder, and the decoder is proved to accept exactly its output.
\<close>

section \<open>Data\<close>

definition MAX_PRICE_BRICKS :: nat where "MAX_PRICE_BRICKS = 6"
definition MAX_PRICE_ROUTE_BYTES :: nat where "MAX_PRICE_ROUTE_BYTES = 640"
definition MAX_RATIO_DISCRIMINATOR_LEN :: nat where "MAX_RATIO_DISCRIMINATOR_LEN = 8"
definition PRICE_ROUTE_DISCRIMINATOR :: u8 where "PRICE_ROUTE_DISCRIMINATOR = 15"
definition PRICE_ROUTE_VERSION :: u8 where "PRICE_ROUTE_VERSION = 1"
definition BRICKS_OFFSET :: nat where "BRICKS_OFFSET = 48"

record PythBrick =
  py_feed_id :: bytes
  py_max_age_secs :: u32
  py_min_band_ppm :: u32

record RatioField =
  rf_at :: u16
  rf_width :: u8

datatype FreshnessUnit = FreshEpoch | FreshSlot | FreshUnixSecond

record RatioFreshness =
  fr_unit :: FreshnessUnit
  fr_at :: u16
  fr_max_lag :: u32

record AccountRatioBrick =
  ra_account :: key
  ra_owner :: key
  ra_program_data :: key
  ra_deploy_slot :: u64
  ra_discriminator :: bytes
  ra_min_len :: u16
  ra_mint_at :: "u16 option"
  ra_numerator :: RatioField
  ra_denominator :: RatioField
  ra_scale_exp :: u8
  ra_min_denominator :: u64
  ra_min :: u128
  ra_max :: u128
  ra_freshness :: "RatioFreshness option"

record MaturitySource =
  ms_brick :: u8
  ms_start_at :: u16
  ms_duration_at :: u16

record MaturityDiscountBrick =
  md_maturity :: u64
  md_apy_low_ppm :: u32
  md_apy_mid_ppm :: u32
  md_apy_high_ppm :: u32
  md_maturity_source :: "MaturitySource option"

record GrowthCapBrick =
  gc_anchor_rate :: u128
  gc_anchor_ts :: u64
  gc_max_growth_ppm :: u32
  gc_max_anchor_age_secs :: u32

datatype PriceBrick =
  BrickPyth PythBrick
| BrickAccountRatio AccountRatioBrick
| BrickMaturityDiscount MaturityDiscountBrick
| BrickClampMax u128
| BrickGrowthCap GrowthCapBrick

record PriceRoute =
  rt_mint :: key
  rt_max_skew_secs :: u32
  rt_bricks :: "PriceBrick list"
  rt_updated_slot :: u64

section \<open>The reader\<close>

text \<open>\<^verbatim>\<open>struct Reader { bytes }\<close> is the slice it has left.\<close>

type_synonym 'a slice_decoder = "(bytes, VaultChainError, 'a) decoder"

definition pr_take :: "nat \<Rightarrow> bytes slice_decoder" where
  "pr_take len r =
     (if len \<le> length r then Ok (take len r, drop len r)
      else Err (VcPriceRoute ''brick is truncated''))"

definition pr_array :: "nat \<Rightarrow> bytes slice_decoder" where
  "pr_array n = pr_take n"

definition pr_pubkey :: "key slice_decoder" where
  "pr_pubkey = pr_array 32"

definition pr_u8 :: "u8 slice_decoder" where
  "pr_u8 = rbind (pr_array 1) (\<lambda>b. rret (hd b))"

definition pr_u16 :: "u16 slice_decoder" where
  "pr_u16 = rbind (pr_array 2) (\<lambda>b. rret (from_le b))"

definition pr_u32 :: "u32 slice_decoder" where
  "pr_u32 = rbind (pr_array 4) (\<lambda>b. rret (from_le b))"

definition pr_u64 :: "u64 slice_decoder" where
  "pr_u64 = rbind (pr_array 8) (\<lambda>b. rret (from_le b))"

definition pr_u128 :: "u128 slice_decoder" where
  "pr_u128 = rbind (pr_array 16) (\<lambda>b. rret (from_le b))"

definition pr_field :: "RatioField slice_decoder" where
  "pr_field = rbind pr_u16 (\<lambda>offset. rbind pr_u8 (\<lambda>w. rret \<lparr>rf_at = offset, rf_width = w\<rparr>))"

definition pr_option :: "'a slice_decoder \<Rightarrow> 'a option slice_decoder" where
  "pr_option read = rbind pr_u8 (\<lambda>tag.
     if tag = 0 then rret None
     else if tag = 1 then rbind read (\<lambda>x. rret (Some x))
     else rfail (VcPriceRoute ''option tag must be 0 or 1''))"

section \<open>Decoding a brick\<close>

definition decode_pyth :: "PriceBrick slice_decoder" where
  "decode_pyth = rbind (pr_array 32) (\<lambda>feed_id. rbind pr_u32 (\<lambda>max_age_secs. rbind pr_u32 (\<lambda>min_band_ppm.
     rret (BrickPyth \<lparr>py_feed_id = feed_id, py_max_age_secs = max_age_secs,
       py_min_band_ppm = min_band_ppm\<rparr>))))"

definition decode_discriminator :: "bytes slice_decoder" where
  "decode_discriminator = rbind pr_u8 (\<lambda>len.
     if MAX_RATIO_DISCRIMINATOR_LEN < unat len
     then rfail (VcPriceRoute ''ratio discriminator exceeds 8 bytes'')
     else pr_take (unat len))"

definition freshness_unit :: "u8 \<Rightarrow> FreshnessUnit slice_decoder" where
  "freshness_unit b =
     (if b = 0 then rret FreshEpoch else if b = 1 then rret FreshSlot
      else if b = 2 then rret FreshUnixSecond
      else rfail (VcPriceRoute ''unknown freshness unit''))"

definition decode_freshness :: "RatioFreshness slice_decoder" where
  "decode_freshness = rbind pr_u8 (\<lambda>b. rbind (freshness_unit b) (\<lambda>unit. rbind pr_u16 (\<lambda>offset.
     rbind pr_u32 (\<lambda>max_lag. rret \<lparr>fr_unit = unit, fr_at = offset, fr_max_lag = max_lag\<rparr>))))"

definition decode_account_ratio :: "PriceBrick slice_decoder" where
  "decode_account_ratio =
     rbind pr_pubkey (\<lambda>acct. rbind pr_pubkey (\<lambda>owner. rbind pr_pubkey (\<lambda>program_data.
     rbind pr_u64 (\<lambda>deploy_slot. rbind decode_discriminator (\<lambda>discriminator.
     rbind pr_u16 (\<lambda>min_len. rbind (pr_option pr_u16) (\<lambda>mint_at.
     rbind pr_field (\<lambda>numerator. rbind pr_field (\<lambda>denominator.
     rbind pr_u8 (\<lambda>scale_exp. rbind pr_u64 (\<lambda>min_denominator.
     rbind pr_u128 (\<lambda>lo. rbind pr_u128 (\<lambda>hi.
     rbind (pr_option decode_freshness) (\<lambda>freshness.
     rret (BrickAccountRatio \<lparr>ra_account = acct, ra_owner = owner, ra_program_data = program_data,
       ra_deploy_slot = deploy_slot, ra_discriminator = discriminator, ra_min_len = min_len,
       ra_mint_at = mint_at, ra_numerator = numerator, ra_denominator = denominator,
       ra_scale_exp = scale_exp, ra_min_denominator = min_denominator, ra_min = lo, ra_max = hi,
       ra_freshness = freshness\<rparr>)))))))))))))))"

definition decode_maturity_source :: "MaturitySource slice_decoder" where
  "decode_maturity_source = rbind pr_u8 (\<lambda>brick. rbind pr_u16 (\<lambda>start_at. rbind pr_u16 (\<lambda>duration_at.
     rret \<lparr>ms_brick = brick, ms_start_at = start_at, ms_duration_at = duration_at\<rparr>)))"

definition decode_maturity_discount :: "PriceBrick slice_decoder" where
  "decode_maturity_discount = rbind pr_u64 (\<lambda>maturity. rbind pr_u32 (\<lambda>low. rbind pr_u32 (\<lambda>mid.
     rbind pr_u32 (\<lambda>high. rbind (pr_option decode_maturity_source) (\<lambda>source.
     rret (BrickMaturityDiscount \<lparr>md_maturity = maturity, md_apy_low_ppm = low, md_apy_mid_ppm = mid,
       md_apy_high_ppm = high, md_maturity_source = source\<rparr>))))))"

definition decode_growth_cap :: "PriceBrick slice_decoder" where
  "decode_growth_cap = rbind pr_u128 (\<lambda>rate. rbind pr_u64 (\<lambda>ts. rbind pr_u32 (\<lambda>growth.
     rbind pr_u32 (\<lambda>age.
     rret (BrickGrowthCap \<lparr>gc_anchor_rate = rate, gc_anchor_ts = ts, gc_max_growth_ppm = growth,
       gc_max_anchor_age_secs = age\<rparr>)))))"

definition brick_decode :: "PriceBrick slice_decoder" where
  "brick_decode = rbind pr_u8 (\<lambda>kind.
     if kind = 0 then decode_pyth
     else if kind = 1 then decode_account_ratio
     else if kind = 2 then decode_maturity_discount
     else if kind = 3 then rbind pr_u128 (\<lambda>m. rret (BrickClampMax m))
     else if kind = 4 then decode_growth_cap
     else rfail (VcPriceRoute ''unknown brick kind''))"

fun account_count :: "PriceBrick \<Rightarrow> nat" where
  "account_count (BrickPyth _) = 1"
| "account_count (BrickAccountRatio _) = 2"
| "account_count (BrickMaturityDiscount _) = 0"
| "account_count (BrickClampMax _) = 0"
| "account_count (BrickGrowthCap _) = 0"

section \<open>The encoding of a brick\<close>

definition u128_le :: "u128 \<Rightarrow> bytes" where
  "u128_le w = nat_bytes 16 (unat w)"

definition field_bytes :: "RatioField \<Rightarrow> bytes" where
  "field_bytes f = u16_le (rf_at f) @ [rf_width f]"

definition option_bytes :: "('a \<Rightarrow> bytes) \<Rightarrow> 'a option \<Rightarrow> bytes" where
  "option_bytes enc x = (case x of None \<Rightarrow> [0] | Some a \<Rightarrow> 1 # enc a)"

fun freshness_tag :: "FreshnessUnit \<Rightarrow> u8" where
  "freshness_tag FreshEpoch = 0"
| "freshness_tag FreshSlot = 1"
| "freshness_tag FreshUnixSecond = 2"

definition freshness_bytes :: "RatioFreshness \<Rightarrow> bytes" where
  "freshness_bytes f = freshness_tag (fr_unit f) # u16_le (fr_at f) @ u32_le (fr_max_lag f)"

definition source_bytes :: "MaturitySource \<Rightarrow> bytes" where
  "source_bytes m = ms_brick m # u16_le (ms_start_at m) @ u16_le (ms_duration_at m)"

definition ratio_bytes :: "AccountRatioBrick \<Rightarrow> bytes" where
  "ratio_bytes b = ra_account b @ ra_owner b @ ra_program_data b @ u64_le (ra_deploy_slot b) @
     of_nat (length (ra_discriminator b)) # ra_discriminator b @ u16_le (ra_min_len b) @
     option_bytes u16_le (ra_mint_at b) @ field_bytes (ra_numerator b) @ field_bytes (ra_denominator b) @
     ra_scale_exp b # u64_le (ra_min_denominator b) @ u128_le (ra_min b) @ u128_le (ra_max b) @
     option_bytes freshness_bytes (ra_freshness b)"

fun brick_bytes :: "PriceBrick \<Rightarrow> bytes" where
  "brick_bytes (BrickPyth b) = 0 # py_feed_id b @ u32_le (py_max_age_secs b) @ u32_le (py_min_band_ppm b)"
| "brick_bytes (BrickAccountRatio b) = 1 # ratio_bytes b"
| "brick_bytes (BrickMaturityDiscount b) = 2 # u64_le (md_maturity b) @ u32_le (md_apy_low_ppm b) @
     u32_le (md_apy_mid_ppm b) @ u32_le (md_apy_high_ppm b) @ option_bytes source_bytes (md_maturity_source b)"
| "brick_bytes (BrickClampMax m) = 3 # u128_le m"
| "brick_bytes (BrickGrowthCap b) = 4 # u128_le (gc_anchor_rate b) @ u64_le (gc_anchor_ts b) @
     u32_le (gc_max_growth_ppm b) @ u32_le (gc_max_anchor_age_secs b)"

fun brick_ok :: "PriceBrick \<Rightarrow> bool" where
  "brick_ok (BrickPyth b) = is_key (py_feed_id b)"
| "brick_ok (BrickAccountRatio b) = (is_key (ra_account b) \<and> is_key (ra_owner b) \<and>
     is_key (ra_program_data b) \<and> length (ra_discriminator b) \<le> MAX_RATIO_DISCRIMINATOR_LEN)"
| "brick_ok _ = True"

section \<open>The decoder accepts exactly the encoding\<close>

interpretation slice_source: byte_source "\<lambda>_. True" "\<lambda>r. r" pr_take
  by unfold_locales (auto simp: pr_take_def)

lemma pr_take_iff: "pr_take n r = Ok (b, s) \<longleftrightarrow> length b = n \<and> r = b @ s"
  by (auto simp: pr_take_def)

lemma pr_array_iff: "pr_array n r = Ok (b, s) \<longleftrightarrow> length b = n \<and> r = b @ s"
  by (simp add: pr_array_def pr_take_iff)

lemma pr_pubkey_iff: "pr_pubkey r = Ok (k, s) \<longleftrightarrow> is_key k \<and> r = k @ s"
  by (simp add: pr_pubkey_def pr_array_iff)

lemma pr_u8_iff: "pr_u8 r = Ok (b, s) \<longleftrightarrow> r = b # s"
  by (auto simp: pr_u8_def rbind_eq_Ok rret_eq_Ok pr_array_iff length_Suc_conv)

lemma from_le_fixed:
  assumes "\<And>bs. length bs = n \<Longrightarrow> enc (from_le bs) = bs" and "\<And>w. length (enc w) = n"
    and "\<And>w. from_le (enc w) = w"
  shows "rbind (pr_array n) (\<lambda>b. rret (from_le b)) r = Ok (w, s) \<longleftrightarrow> r = enc w @ s"
  using assms by (auto simp: rbind_eq_Ok rret_eq_Ok pr_array_iff)

lemma length_u128_le [simp]: "length (u128_le w) = 16"
  by (simp add: u128_le_def)

lemma from_le_u128 [simp]: "from_le (u128_le w) = w"
  by (simp add: u128_le_def from_le_nat_bytes)

lemma u128_le_from_le: "length bs = 16 \<Longrightarrow> u128_le (from_le bs) = bs"
  using nat_bytes_bytes_nat [of bs] by (simp add: u128_le_def unat_from_le)

lemma pr_ints_iff:
  "pr_u16 r = Ok (w16, s) \<longleftrightarrow> r = u16_le w16 @ s"
  "pr_u32 r = Ok (w32, s) \<longleftrightarrow> r = u32_le w32 @ s"
  "pr_u64 r = Ok (w64, s) \<longleftrightarrow> r = u64_le w64 @ s"
  "pr_u128 r = Ok (w128, s) \<longleftrightarrow> r = u128_le w128 @ s"
  unfolding pr_u16_def pr_u32_def pr_u64_def pr_u128_def
  by (intro from_le_fixed; simp add: u16_le_from_le u32_le_from_le u64_le_from_le u128_le_from_le)+

lemma if_decoder_eq_Ok:
  "(if c then p else q) r = Ok z \<longleftrightarrow> (c \<and> p r = Ok z) \<or> (\<not> c \<and> q r = Ok z)"
  by simp

lemmas pr_iffs = if_decoder_eq_Ok rbind_eq_Ok rret_eq_Ok rfail_eq_Ok pr_array_iff pr_pubkey_iff pr_u8_iff pr_ints_iff

lemma pr_field_iff: "pr_field r = Ok (f, s) \<longleftrightarrow> r = field_bytes f @ s"
  by (cases f) (auto simp: pr_field_def pr_iffs field_bytes_def)

lemma pr_option_iff:
  assumes "\<And>r x s. read r = Ok (x, s) \<longleftrightarrow> r = enc x @ s"
  shows "pr_option read r = Ok (x, s) \<longleftrightarrow> r = option_bytes enc x @ s"
  by (cases x) (auto simp: pr_option_def pr_iffs option_bytes_def assms)

lemma decode_freshness_iff: "decode_freshness r = Ok (f, s) \<longleftrightarrow> r = freshness_bytes f @ s"
proof -
  have unit: "freshness_unit b r = Ok (u, s) \<longleftrightarrow> b = freshness_tag u \<and> s = r" for b r u s
    by (cases u) (auto simp: freshness_unit_def pr_iffs)
  show ?thesis
    by (cases f) (auto simp: decode_freshness_def pr_iffs unit freshness_bytes_def)
qed

lemma decode_maturity_source_iff: "decode_maturity_source r = Ok (m, s) \<longleftrightarrow> r = source_bytes m @ s"
  by (cases m) (auto simp: decode_maturity_source_def pr_iffs source_bytes_def)

lemma decode_discriminator_iff:
  "decode_discriminator r = Ok (d, s) \<longleftrightarrow>
     length d \<le> MAX_RATIO_DISCRIMINATOR_LEN \<and> r = of_nat (length d) # d @ s"
proof -
  have "unat (of_nat n :: u8) = n" if "n \<le> MAX_RATIO_DISCRIMINATOR_LEN" for n
    using that by (simp add: unat_of_nat MAX_RATIO_DISCRIMINATOR_LEN_def)
  then show ?thesis
    by (auto simp: decode_discriminator_def pr_iffs pr_take_iff)
qed

lemmas decoder_iffs = pr_iffs pr_field_iff decode_discriminator_iff
  pr_option_iff [where read = pr_u16 and enc = u16_le, OF pr_ints_iff(1)]
  pr_option_iff [where read = decode_freshness and enc = freshness_bytes, OF decode_freshness_iff]
  pr_option_iff [where read = decode_maturity_source and enc = source_bytes, OF decode_maturity_source_iff]

lemma brick_decode_kind:
  "brick_decode r = Ok (b, s) \<longleftrightarrow>
     (\<exists>t. r = 0 # t \<and> decode_pyth t = Ok (b, s)) \<or>
     (\<exists>t. r = 1 # t \<and> decode_account_ratio t = Ok (b, s)) \<or>
     (\<exists>t. r = 2 # t \<and> decode_maturity_discount t = Ok (b, s)) \<or>
     (\<exists>t m. r = 3 # t \<and> b = BrickClampMax m \<and> t = u128_le m @ s) \<or>
     (\<exists>t. r = 4 # t \<and> decode_growth_cap t = Ok (b, s))"
  by (auto simp: brick_decode_def pr_iffs)

lemma decode_account_ratio_iff:
  "decode_account_ratio t = Ok (b, s) \<longleftrightarrow>
     (\<exists>a. b = BrickAccountRatio a \<and> brick_ok b \<and> t = ratio_bytes a @ s)" (is "?l = ?r")
proof
  show "?l \<Longrightarrow> ?r"
    unfolding decode_account_ratio_def decoder_iffs by (auto simp: ratio_bytes_def)
  assume ?r
  then obtain a where a: "b = BrickAccountRatio a" "brick_ok b" "t = ratio_bytes a @ s" by blast
  then show ?l
    unfolding decode_account_ratio_def decoder_iffs
    by (cases a) (auto simp: ratio_bytes_def)
qed

lemmas brick_decoders = brick_decode_kind decode_account_ratio_iff decode_pyth_def
  decode_maturity_discount_def decode_growth_cap_def decoder_iffs

lemma brick_decode_iff: "brick_decode r = Ok (b, s) \<longleftrightarrow> brick_ok b \<and> r = brick_bytes b @ s"
proof (cases b)
  case (BrickPyth p)
  then show ?thesis
    by (cases p) (auto simp: brick_decoders)
next
  case (BrickAccountRatio a)
  then show ?thesis
    by (auto simp: brick_decoders)
next
  case (BrickMaturityDiscount m)
  then show ?thesis
    by (cases m) (auto simp: brick_decoders)
next
  case (BrickClampMax m)
  then show ?thesis
    by (auto simp: brick_decoders)
next
  case (BrickGrowthCap g)
  then show ?thesis
    by (cases g) (auto simp: brick_decoders)
qed

interpretation brick_codec: prefix_codec brick_ok brick_bytes brick_decode
  by unfold_locales (simp add: brick_decode_iff)

lemma brick_bytes_nonempty: "brick_bytes b \<noteq> []"
  by (cases b) simp_all

lemma safe_pr [simp]:
  "safe (\<lambda>_. True) (\<lambda>r. r) (pr_array n)" "safe (\<lambda>_. True) (\<lambda>r. r) pr_pubkey"
  "safe (\<lambda>_. True) (\<lambda>r. r) pr_u8" "safe (\<lambda>_. True) (\<lambda>r. r) pr_u16" "safe (\<lambda>_. True) (\<lambda>r. r) pr_u32"
  "safe (\<lambda>_. True) (\<lambda>r. r) pr_u64" "safe (\<lambda>_. True) (\<lambda>r. r) pr_u128" "safe (\<lambda>_. True) (\<lambda>r. r) pr_field"
  unfolding pr_field_def pr_u8_def pr_u16_def pr_u32_def pr_u64_def pr_u128_def pr_pubkey_def pr_array_def
  by (intro safe_intros slice_source.safe_take)+

lemma safe_pr_option: "safe (\<lambda>_. True) (\<lambda>r. r) p \<Longrightarrow> safe (\<lambda>_. True) (\<lambda>r. r) (pr_option p)"
  unfolding pr_option_def by (intro safe_intros safe_pr)

lemma safe_brick_decode: "safe (\<lambda>_. True) (\<lambda>r. r) brick_decode"
  unfolding brick_decode_def decode_pyth_def decode_account_ratio_def decode_discriminator_def
    decode_freshness_def freshness_unit_def decode_maturity_discount_def decode_maturity_source_def
    decode_growth_cap_def
  by (intro safe_intros safe_pr safe_pr_option slice_source.safe_take)

section \<open>The account\<close>

text \<open>The \<^verbatim>\<open>while\<close> loop of \<^verbatim>\<open>parse\<close>: each turn consumes at least the brick's tag.\<close>

function (sequential) route_bricks :: "bytes \<Rightarrow> PriceBrick list \<Rightarrow> (VaultChainError, PriceBrick list) res" where
  "route_bricks [] bricks = Ok bricks"
| "route_bricks r bricks =
     (if length bricks = MAX_PRICE_BRICKS then Err (VcPriceRoute ''more than 6 bricks'')
      else bind_res (brick_decode r) (\<lambda>(b, r'). route_bricks r' (bricks @ [b])))"
  by pat_completeness auto

termination
proof (relation "measure (\<lambda>(r, _). length r)", goal_cases)
  case (2 v va bricks z b r')
  then have "brick_decode (v # va) = Ok (b, r')" by simp
  then have "v # va = brick_bytes b @ r'" by (simp add: brick_decode_iff)
  moreover have "0 < length (brick_bytes b)" using brick_bytes_nonempty by blast
  ultimately have "length r' < length (v # va)" by simp
  then show ?case by simp
qed simp

definition PRICE_ROUTE_LEN :: nat where "PRICE_ROUTE_LEN = 696"

text \<open>\<^verbatim>\<open>[data[i], ...]\<close>: single-byte indexing, as the source writes these fields.\<close>

definition bytes_at :: "bytes \<Rightarrow> nat \<Rightarrow> nat \<Rightarrow> (VaultChainError, bytes) res" where
  "bytes_at data from n = collect_res (\<lambda>i. index_res i data) [from ..< from + n]"

definition price_route_parse :: "bytes \<Rightarrow> (VaultChainError, PriceRoute) res" where
  "price_route_parse input =
     (if length input \<noteq> PRICE_ROUTE_LEN then Err (VcAccountLength PRICE_ROUTE_LEN (length input))
      else
        bind_res (account_header input PRICE_ROUTE_LEN PRICE_ROUTE_DISCRIMINATOR PRICE_ROUTE_VERSION) (\<lambda>data.
        bind_res (bytes_at data 4 2) (\<lambda>lb.
        let len = unat (from_le lb :: u16) in
        if MAX_PRICE_ROUTE_BYTES < len then Err (VcPriceRoute ''bricks exceed 640 bytes'')
        else
          bind_res (slice_res BRICKS_OFFSET (BRICKS_OFFSET + len) data) (\<lambda>blob.
          bind_res (route_bricks blob []) (\<lambda>bricks.
          if bricks = [] then Err (VcPriceRoute ''route has no bricks'')
          else
            bind_res (index_res 3 data) (\<lambda>count.
            if sum_list (map account_count bricks) \<noteq> unat count
            then Err (VcPriceRoute ''account count does not match the bricks'')
            else
              bind_res (bytes32_at data 8) (\<lambda>mint.
              bind_res (bytes_at data 40 4) (\<lambda>skew.
              bind_res (bytes_at data 688 8) (\<lambda>slot.
              Ok \<lparr>rt_mint = mint, rt_max_skew_secs = from_le skew, rt_bricks = bricks,
                rt_updated_slot = from_le slot\<rparr>)))))))))"

definition price_route_from_account :: "account \<Rightarrow> key \<Rightarrow> (VaultChainError, PriceRoute) res" where
  "price_route_from_account a program =
     (if ac_owner a \<noteq> program then Err (VcOwner program (ac_owner a)) else price_route_parse (ac_data a))"

definition PYTH_PUSH_ORACLE_ID :: key where
  "PYTH_PUSH_ORACLE_ID =
     [12, 74, 160, 18, 142, 149, 211, 225, 98, 42, 165, 1, 197, 133, 169, 235,
      7, 179, 115, 84, 193, 8, 234, 11, 121, 27, 69, 109, 199, 238, 163, 54]"

definition pyth_price_feed_account :: "find_pda \<Rightarrow> bytes \<Rightarrow> u16 \<Rightarrow> key" where
  "pyth_price_feed_account pda feed_id shard = fst (pda [u16_le shard, feed_id] PYTH_PUSH_ORACLE_ID)"

fun brick_accounts :: "find_pda \<Rightarrow> u16 \<Rightarrow> PriceBrick \<Rightarrow> AccountMeta list" where
  "brick_accounts pda shard (BrickPyth p) =
     [meta_readonly (pyth_price_feed_account pda (py_feed_id p) shard) False]"
| "brick_accounts pda shard (BrickAccountRatio r) =
     map (\<lambda>k. meta_readonly k False) [ra_account r, ra_program_data r]"
| "brick_accounts pda shard (BrickMaturityDiscount _) = []"
| "brick_accounts pda shard (BrickClampMax _) = []"
| "brick_accounts pda shard (BrickGrowthCap _) = []"

definition route_accounts :: "find_pda \<Rightarrow> PriceRoute \<Rightarrow> key \<Rightarrow> u16 \<Rightarrow> AccountMeta list" where
  "route_accounts pda route address shard =
     meta_readonly address False # concat (map (brick_accounts pda shard) (rt_bricks route))"

definition account_ratios :: "PriceRoute \<Rightarrow> AccountRatioBrick list" where
  "account_ratios route =
     List.map_filter (\<lambda>b. case b of BrickAccountRatio r \<Rightarrow> Some r | _ \<Rightarrow> None) (rt_bricks route)"

section \<open>What parsing accepts\<close>

definition route_blob :: "PriceRoute \<Rightarrow> bytes" where
  "route_blob route = concat (map brick_bytes (rt_bricks route))"

definition route_layout :: "bytes \<Rightarrow> PriceRoute \<Rightarrow> bool" where
  "route_layout data route \<longleftrightarrow>
     length data = PRICE_ROUTE_LEN \<and> is_key (rt_mint route) \<and>
     rt_bricks route \<noteq> [] \<and> length (rt_bricks route) \<le> MAX_PRICE_BRICKS \<and>
     list_all brick_ok (rt_bricks route) \<and> length (route_blob route) \<le> MAX_PRICE_ROUTE_BYTES \<and>
     unat (data ! 3) = sum_list (map account_count (rt_bricks route)) \<and>
     fields_at data [(0, [PRICE_ROUTE_DISCRIMINATOR]), (1, [PRICE_ROUTE_VERSION]),
       (4, u16_le (of_nat (length (route_blob route)))), (8, rt_mint route),
       (40, u32_le (rt_max_skew_secs route)), (BRICKS_OFFSET, route_blob route),
       (688, u64_le (rt_updated_slot route))]"

lemma route_bricks_no_panic: "route_bricks r bricks \<noteq> Panic"
proof (induction r bricks rule: route_bricks.induct)
  case (2 v va bricks)
  show ?case
    using 2 safe_not_Panic [OF safe_brick_decode]
    by (auto simp: bind_res_eq_Panic)
qed simp

lemma route_bricks_iff:
  "length bricks \<le> MAX_PRICE_BRICKS \<Longrightarrow> route_bricks r bricks = Ok out \<longleftrightarrow>
     (\<exists>new. out = bricks @ new \<and> length out \<le> MAX_PRICE_BRICKS \<and> list_all brick_ok new \<and>
        r = concat (map brick_bytes new))"
proof (induction r bricks rule: route_bricks.induct)
  case (1 bricks)
  have "concat (map brick_bytes new) = [] \<longleftrightarrow> new = []" for new
    using brick_bytes_nonempty by (cases new) auto
  with 1 show ?case by (auto simp: eq_commute [of "[]"])
next
  case (2 v va bricks)
  show ?case
  proof (cases "length bricks = MAX_PRICE_BRICKS")
    case True
    then show ?thesis by auto
  next
    case False
    then have room: "Suc (length bricks) \<le> MAX_PRICE_BRICKS" using 2 by simp
    have "route_bricks (v # va) bricks = Ok out \<longleftrightarrow>
      (\<exists>b s. brick_decode (v # va) = Ok (b, s) \<and> route_bricks s (bricks @ [b]) = Ok out)"
      using False by (auto simp: bind_res_eq_Ok)
    also have "\<dots> \<longleftrightarrow> (\<exists>b s new. brick_ok b \<and> v # va = brick_bytes b @ s \<and> out = (bricks @ [b]) @ new \<and>
        length out \<le> MAX_PRICE_BRICKS \<and> list_all brick_ok new \<and> s = concat (map brick_bytes new))"
      using 2(1) [OF False _ refl] room by (auto simp: brick_decode_iff)
    also have "\<dots> \<longleftrightarrow> (\<exists>b new. out = bricks @ (b # new) \<and> length out \<le> MAX_PRICE_BRICKS \<and>
        list_all brick_ok (b # new) \<and> v # va = concat (map brick_bytes (b # new)))"
      by auto
    also have "\<dots> \<longleftrightarrow> (\<exists>new. out = bricks @ new \<and> length out \<le> MAX_PRICE_BRICKS \<and>
        list_all brick_ok new \<and> v # va = concat (map brick_bytes new))"
      by (metis concat.simps(1) list.distinct(1) list.exhaust list.simps(8))
    finally show ?thesis .
  qed
qed

lemma bytes_at_slice:
  assumes "i + n \<le> length data"
  shows "bytes_at data i n = Ok (take n (drop i data))"
  unfolding bytes_at_def collect_res_eq_Ok
  using assms by (auto simp: list_all2_conv_all_nth index_res_def)

lemma u16_field_iff:
  assumes "n < 2 ^ 16" and "length bs = 2"
  shows "u16_le (of_nat n) = bs \<longleftrightarrow> unat (from_le bs :: u16) = n"
proof
  assume "u16_le (of_nat n) = bs"
  then have "(from_le bs :: u16) = of_nat n" by (metis from_le_roundtrip(1))
  then show "unat (from_le bs :: u16) = n" using assms(1) by (simp add: unat_of_nat)
next
  assume "unat (from_le bs :: u16) = n"
  then have "(of_nat n :: u16) = from_le bs" by auto
  then show "u16_le (of_nat n) = bs" using assms(2) by (simp add: u16_le_from_le)
qed

text \<open>An account that passed the length and header checks.\<close>

definition route_header_ok :: "bytes \<Rightarrow> bool" where
  "route_header_ok data \<longleftrightarrow> length data = PRICE_ROUTE_LEN \<and>
     data ! 0 = PRICE_ROUTE_DISCRIMINATOR \<and> data ! 1 = PRICE_ROUTE_VERSION"

lemma route_parse_header: "price_route_parse data = Ok route \<Longrightarrow> route_header_ok data"
  by (auto simp: price_route_parse_def route_header_ok_def bind_res_eq_Ok if_Err_eq_Ok
      account_header_eq_Ok PRICE_ROUTE_LEN_def)

lemma route_parse_body:
  assumes "route_header_ok data"
  defines "len \<equiv> unat (from_le (take 2 (drop 4 data)) :: u16)"
  shows "price_route_parse data =
    (if MAX_PRICE_ROUTE_BYTES < len then Err (VcPriceRoute ''bricks exceed 640 bytes'')
     else bind_res (route_bricks (take len (drop BRICKS_OFFSET data)) []) (\<lambda>bricks.
       if bricks = [] then Err (VcPriceRoute ''route has no bricks'')
       else if sum_list (map account_count bricks) \<noteq> unat (data ! 3)
       then Err (VcPriceRoute ''account count does not match the bricks'')
       else Ok \<lparr>rt_mint = take 32 (drop 8 data), rt_max_skew_secs = from_le (take 4 (drop 40 data)),
         rt_bricks = bricks, rt_updated_slot = from_le (take 8 (drop 688 data))\<rparr>))"
proof -
  have len: "length data = 696" using assms(1) by (simp add: route_header_ok_def PRICE_ROUTE_LEN_def)
  have header: "account_header data 696 PRICE_ROUTE_DISCRIMINATOR PRICE_ROUTE_VERSION = Ok data"
    using assms(1) len by (simp add: account_header_eq_Ok route_header_ok_def)
  have fields: "bytes_at data 4 2 = Ok (take 2 (drop 4 data))" "bytes_at data 40 4 = Ok (take 4 (drop 40 data))"
    "bytes_at data 688 8 = Ok (take 8 (drop 688 data))" "bytes32_at data 8 = Ok (take 32 (drop 8 data))"
    "index_res 3 data = Ok (data ! 3)"
    using len by (simp_all add: bytes_at_slice bytes32_at_eq_Ok index_res_def)
  have slice: "slice_res BRICKS_OFFSET (BRICKS_OFFSET + len) data = Ok (take len (drop BRICKS_OFFSET data))"
    if "len \<le> MAX_PRICE_ROUTE_BYTES"
    using that len by (simp add: slice_res_def BRICKS_OFFSET_def MAX_PRICE_ROUTE_BYTES_def)
  show ?thesis
    by (cases "MAX_PRICE_ROUTE_BYTES < len")
      (simp_all add: price_route_parse_def len PRICE_ROUTE_LEN_def header fields slice Let_def
        flip: len_def cong: if_cong)
qed

lemma blob_size_iff:
  assumes "length data = 696" and "length blob \<le> 640"
  shows "u16_le (of_nat (length blob)) = take 2 (drop 4 data) \<longleftrightarrow>
      unat (from_le (take 2 (drop 4 data)) :: u16) = length blob"
    and "len \<le> 640 \<and> take len (drop 48 data) = blob \<longleftrightarrow>
      len = length blob \<and> take (length blob) (drop 48 data) = blob"
  using assms by (auto simp: u16_field_iff)

lemma route_parse_iff: "price_route_parse data = Ok route \<longleftrightarrow> route_layout data route"
proof (cases "route_header_ok data")
  case False
  have "\<not> route_layout data route"
  proof
    assume l: "route_layout data route"
    then have "length data = 696" by (simp add: route_layout_def PRICE_ROUTE_LEN_def)
    with l False show False
      by (simp add: route_layout_def route_header_ok_def first_byte byte_field)
  qed
  with False route_parse_header show ?thesis by blast
next
  case True
  define len where "len = unat (from_le (take 2 (drop 4 data)) :: u16)"
  have l: "length data = 696" "data ! 0 = PRICE_ROUTE_DISCRIMINATOR" "data ! 1 = PRICE_ROUTE_VERSION"
    using True by (simp_all add: route_header_ok_def PRICE_ROUTE_LEN_def)
  obtain m k bs u where r: "route = \<lparr>rt_mint = m, rt_max_skew_secs = k, rt_bricks = bs, rt_updated_slot = u\<rparr>"
    by (cases route)
  have "price_route_parse data = Ok route \<longleftrightarrow>
    len \<le> MAX_PRICE_ROUTE_BYTES \<and> route_bricks (take len (drop BRICKS_OFFSET data)) [] = Ok bs \<and>
    bs \<noteq> [] \<and> sum_list (map account_count bs) = unat (data ! 3) \<and> m = take 32 (drop 8 data) \<and>
    k = from_le (take 4 (drop 40 data)) \<and> u = from_le (take 8 (drop 688 data))"
    unfolding route_parse_body [OF True] len_def [symmetric] r
    by (auto simp: bind_res_eq_Ok if_Err_eq_Ok)
  also have "\<dots> \<longleftrightarrow> len \<le> MAX_PRICE_ROUTE_BYTES \<and> length bs \<le> MAX_PRICE_BRICKS \<and> list_all brick_ok bs \<and>
    take len (drop BRICKS_OFFSET data) = route_blob route \<and>
    bs \<noteq> [] \<and> sum_list (map account_count bs) = unat (data ! 3) \<and> m = take 32 (drop 8 data) \<and>
    u32_le k = take 4 (drop 40 data) \<and> u64_le u = take 8 (drop 688 data)"
    using l by (auto simp: route_bricks_iff route_blob_def r u32_le_from_le u64_le_from_le
        MAX_PRICE_BRICKS_def) (metis from_le_roundtrip)+
  also have "\<dots> \<longleftrightarrow> route_layout data route"
  proof (cases "length (route_blob route) \<le> MAX_PRICE_ROUTE_BYTES")
    case True
    define blob where "blob = route_blob route"
    have small: "length blob \<le> 640" using True by (simp add: blob_def MAX_PRICE_ROUTE_BYTES_def)
    note size = blob_size_iff(1) [OF l(1) small, folded len_def] blob_size_iff(2) [OF l(1) small, of len]
    have r': "rt_mint route = m" "rt_max_skew_secs route = k" "rt_bricks route = bs" "rt_updated_slot route = u"
      by (simp_all add: r)
    show ?thesis
      unfolding route_layout_def blob_def [symmetric] r' MAX_PRICE_ROUTE_BYTES_def BRICKS_OFFSET_def
      using l small size by (auto simp: PRICE_ROUTE_LEN_def first_byte byte_field)
  next
    case False
    then have "len \<le> MAX_PRICE_ROUTE_BYTES \<Longrightarrow> take len (drop BRICKS_OFFSET data) \<noteq> route_blob route"
      by (metis le_trans length_take min.cobounded2)
    with False show ?thesis by (auto simp: route_layout_def)
  qed
  finally show ?thesis .
qed

lemma route_parse_no_panic: "price_route_parse data \<noteq> Panic"
proof (cases "length data = PRICE_ROUTE_LEN")
  case True
  show ?thesis
  proof (cases "route_header_ok data")
    case header: True
    show ?thesis
      unfolding route_parse_body [OF header]
      by (intro no_panic_intros route_bricks_no_panic) simp_all
  next
    case False
    then have "account_header data PRICE_ROUTE_LEN PRICE_ROUTE_DISCRIMINATOR PRICE_ROUTE_VERSION \<noteq> Ok d" for d
      using True by (auto simp: account_header_eq_Ok PRICE_ROUTE_LEN_def route_header_ok_def)
    moreover have "account_header data PRICE_ROUTE_LEN PRICE_ROUTE_DISCRIMINATOR PRICE_ROUTE_VERSION \<noteq> Panic"
      by (intro account_header_not_Panic) (simp add: PRICE_ROUTE_LEN_def)
    ultimately show ?thesis
      using True
      by (cases "account_header data PRICE_ROUTE_LEN PRICE_ROUTE_DISCRIMINATOR PRICE_ROUTE_VERSION")
        (auto simp: price_route_parse_def)
  qed
qed (simp add: price_route_parse_def)

text \<open>
  C28. \<open>PriceRoute::parse\<close> accepts exactly the encodings of one to six well-formed bricks in at most 640
  bytes under the right header, account count and length, and returns the route they encode: the
  decoder, with its tags, options, bounded discriminators and the loop over the unread slice, is the
  inverse of the encoding. It never panics.
\<close>

theorem price_route_parse_exact:
  "price_route_parse data \<noteq> Panic \<and> (price_route_parse data = Ok route \<longleftrightarrow> route_layout data route)"
  using route_parse_no_panic route_parse_iff by blast

lemma length_brick_accounts [simp]: "length (brick_accounts pda shard b) = account_count b"
  by (cases b) simp_all

lemma length_route_accounts:
  "length (route_accounts pda route address shard) = Suc (sum_list (map account_count (rt_bricks route)))"
proof -
  have "length \<circ> brick_accounts pda shard = account_count"
    by (simp add: fun_eq_iff)
  then show ?thesis by (simp add: route_accounts_def length_concat)
qed

lemma brick_accounts_readonly:
  "m \<in> set (brick_accounts pda shard b) \<Longrightarrow> \<not> am_is_signer m \<and> \<not> am_is_writable m"
  by (cases b) auto

text \<open>
  The account list of a parsed route has one entry for the route and as many as the account's own
  count byte says, and every entry is read-only and unsigned: a price section built from a route can
  neither ask for a signature nor let a price account be written.
\<close>

theorem route_accounts_shape:
  assumes "price_route_parse data = Ok route"
  shows "length (route_accounts pda route address shard) = 1 + unat (data ! 3) \<and>
    list_all (\<lambda>m. \<not> am_is_signer m \<and> \<not> am_is_writable m) (route_accounts pda route address shard)"
proof
  show "length (route_accounts pda route address shard) = 1 + unat (data ! 3)"
    using assms by (simp add: length_route_accounts route_parse_iff route_layout_def)
  show "list_all (\<lambda>m. \<not> am_is_signer m \<and> \<not> am_is_writable m) (route_accounts pda route address shard)"
    by (auto simp: route_accounts_def list_all_iff dest: brick_accounts_readonly)
qed

definition sample_route_data :: bytes where
  "sample_route_data = [15, 1, 0, 0] @ u16_le 17 @ [0, 0] @ replicate 32 9 @ u32_le 30 @ replicate 4 0 @
     brick_bytes (BrickClampMax 5) @ replicate 623 0 @ u64_le 7"

theorem route_accounts_shape_witness:
  "length (route_accounts (\<lambda>_ _. ([], 0)) \<lparr>rt_mint = replicate 32 9, rt_max_skew_secs = 30,
      rt_bricks = [BrickClampMax 5], rt_updated_slot = 7\<rparr> (replicate 32 1) 3) = 1 + unat (sample_route_data ! 3)"
proof -
  have "price_route_parse sample_route_data = Ok \<lparr>rt_mint = replicate 32 9, rt_max_skew_secs = 30,
      rt_bricks = [BrickClampMax 5], rt_updated_slot = 7\<rparr>"
    by (simp add: route_parse_iff route_layout_def sample_route_data_def route_blob_def PRICE_ROUTE_LEN_def
        MAX_PRICE_BRICKS_def MAX_PRICE_ROUTE_BYTES_def BRICKS_OFFSET_def PRICE_ROUTE_DISCRIMINATOR_def
        PRICE_ROUTE_VERSION_def)
  from route_accounts_shape [OF this] show ?thesis by blast
qed

end
