(* ===== verification/VaultManager.thy ===== *)
theory VaultManager
  imports PriceRoutes "HOL-Library.Multiset"
begin

text \<open>
  \<^verbatim>\<open>src/src/chain/vault/manager.rs\<close>: the vault manager, its derived addresses, the capital-cycle
  instructions and the compute-unit estimate of a capital batch. Address derivation and SHA-256 are
  parameters.
\<close>

section \<open>Instruction tags\<close>

datatype VaultIx =
  Bootstrap | TopUpManagerStake | UnlockManagerStake | AcceptGovernance | RevokeGovernanceNomination
| ApplyFeeRecipientUpdate | StartShutdown | FinalizeShutdown | CloseVault | ProcessVaultEquity
| OpenPositionForVaultWriter | OpenPositionForVaultHolder | FundPositionForVaultHolder
| VaultSpotRebalance | RecoveryConvertToMain | ProcessWithdrawals | ProcessDeposits
| FinalizeVaultCycle | SetAcceptingDeposits | RotateVaultDelegate | ProposeVaultUpdate
| ApplyVaultUpdate | CancelVaultUpdate | ProcessFinalWithdrawal | OpenPositionBetweenVaults
| OpenSpreadForVaultWriter | OpenSpreadForVaultHolder | OpenSpreadBetweenVaults
| DisableVaultDelegate | ClosingConvertToMain | VaultStagingSwap

fun vault_ix_u8 :: "VaultIx \<Rightarrow> u8" where
  "vault_ix_u8 Bootstrap = 64"
| "vault_ix_u8 TopUpManagerStake = 65"
| "vault_ix_u8 UnlockManagerStake = 48"
| "vault_ix_u8 AcceptGovernance = 58"
| "vault_ix_u8 RevokeGovernanceNomination = 63"
| "vault_ix_u8 ApplyFeeRecipientUpdate = 66"
| "vault_ix_u8 StartShutdown = 67"
| "vault_ix_u8 FinalizeShutdown = 69"
| "vault_ix_u8 CloseVault = 59"
| "vault_ix_u8 ProcessVaultEquity = 37"
| "vault_ix_u8 OpenPositionForVaultWriter = 41"
| "vault_ix_u8 OpenPositionForVaultHolder = 42"
| "vault_ix_u8 FundPositionForVaultHolder = 43"
| "vault_ix_u8 VaultSpotRebalance = 45"
| "vault_ix_u8 RecoveryConvertToMain = 46"
| "vault_ix_u8 ProcessWithdrawals = 38"
| "vault_ix_u8 ProcessDeposits = 39"
| "vault_ix_u8 FinalizeVaultCycle = 40"
| "vault_ix_u8 SetAcceptingDeposits = 44"
| "vault_ix_u8 RotateVaultDelegate = 47"
| "vault_ix_u8 ProposeVaultUpdate = 55"
| "vault_ix_u8 ApplyVaultUpdate = 56"
| "vault_ix_u8 CancelVaultUpdate = 57"
| "vault_ix_u8 ProcessFinalWithdrawal = 60"
| "vault_ix_u8 OpenPositionBetweenVaults = 61"
| "vault_ix_u8 OpenSpreadForVaultWriter = 78"
| "vault_ix_u8 OpenSpreadForVaultHolder = 79"
| "vault_ix_u8 OpenSpreadBetweenVaults = 80"
| "vault_ix_u8 DisableVaultDelegate = 62"
| "vault_ix_u8 ClosingConvertToMain = 68"
| "vault_ix_u8 VaultStagingSwap = 76"

section \<open>Data\<close>

definition VAULT_CAPITAL_BATCH_USERS :: nat where "VAULT_CAPITAL_BATCH_USERS = 3"
definition BATCH_BASE_COMPUTE_UNITS :: u32 where "BATCH_BASE_COMPUTE_UNITS = 40000"
definition COMPUTE_UNITS_PER_USER :: u32 where "COMPUTE_UNITS_PER_USER = 13000"
definition COMPUTE_UNITS_PER_CREATED_DESTINATION :: u32 where
  "COMPUTE_UNITS_PER_CREATED_DESTINATION = 25000"
definition COMPUTE_UNITS_PER_DERIVATION_STEP :: u32 where
  "COMPUTE_UNITS_PER_DERIVATION_STEP = 1800"

record DepositPayout =
  dp_user :: key
  dp_refund :: "key option"
  dp_shares :: "key option"

definition deposit_payout_new :: "key \<Rightarrow> DepositPayout" where
  "deposit_payout_new user = \<lparr>dp_user = user, dp_refund = None, dp_shares = None\<rparr>"

definition refund_to :: "DepositPayout \<Rightarrow> key \<Rightarrow> DepositPayout" where
  "refund_to p acct = p\<lparr>dp_refund := Some acct\<rparr>"

definition shares_to :: "DepositPayout \<Rightarrow> key \<Rightarrow> DepositPayout" where
  "shares_to p acct = p\<lparr>dp_shares := Some acct\<rparr>"

record WithdrawalPayout =
  wp_user :: key
  wp_shares_back :: "key option"

definition withdrawal_payout_new :: "key \<Rightarrow> WithdrawalPayout" where
  "withdrawal_payout_new user = \<lparr>wp_user = user, wp_shares_back = None\<rparr>"

definition shares_back_to :: "WithdrawalPayout \<Rightarrow> key \<Rightarrow> WithdrawalPayout" where
  "shares_back_to p acct = p\<lparr>wp_shares_back := Some acct\<rparr>"

record CapitalBatchShape =
  bs_users :: u32
  bs_created_destinations :: u32
  bs_derivation_steps :: u32

record VaultManagerArgs =
  vm_program_id :: key
  vm_vault_id :: bytes
  vm_actor :: key
  vm_delegate_authority :: key
  vm_main_mint :: key
  vm_second_mint :: key
  vm_share_mint :: key
  vm_main_token_program :: key
  vm_second_token_program :: key
  vm_second_leg_generation :: u64

record VaultAddresses =
  ad_vault :: key
  ad_policy :: key
  ad_delegate :: key
  ad_global_config :: key
  ad_swap_venues :: key
  ad_main_price_route :: key
  ad_second_price_route :: key
  ad_manager_stake_authority :: key
  ad_vault_main_ata :: key
  ad_vault_second_ata :: key
  ad_manager_stake_ata :: key

record VaultManager =
  mg_args :: VaultManagerArgs
  mg_addresses :: VaultAddresses

section \<open>Construction\<close>

definition manager_addresses :: "find_pda \<Rightarrow> VaultManagerArgs \<Rightarrow> VaultAddresses" where
  "manager_addresses pda args =
     (let program_id = vm_program_id args;
          vault = fst (pda_vault pda program_id (vm_vault_id args));
          manager_stake_authority = fst (pda_manager_stake pda program_id vault) in
      \<lparr>ad_vault = vault,
       ad_policy = fst (pda_vault_policy pda program_id vault),
       ad_delegate = fst (pda_vault_delegate pda program_id vault (vm_delegate_authority args)),
       ad_global_config = fst (pda_global_config pda program_id),
       ad_swap_venues = fst (pda_swap_venues pda program_id),
       ad_main_price_route = fst (pda_price_route pda program_id (vm_main_mint args)),
       ad_second_price_route = fst (pda_price_route pda program_id (vm_second_mint args)),
       ad_manager_stake_authority = manager_stake_authority,
       ad_vault_main_ata = ata pda vault (vm_main_mint args) (vm_main_token_program args),
       ad_vault_second_ata = ata pda vault (vm_second_mint args) (vm_second_token_program args),
       ad_manager_stake_ata = ata pda manager_stake_authority (vm_share_mint args) TOKEN_PROGRAM_ID\<rparr>)"

definition manager_new :: "find_pda \<Rightarrow> VaultManagerArgs \<Rightarrow> (VaultChainError, VaultManager) res" where
  "manager_new pda args =
     (if vm_vault_id args = replicate 32 0 \<or> vm_actor args = replicate 32 0 \<or>
         vm_delegate_authority args = replicate 32 0
      then Err (VcInvalidInput ''vault id, actor and delegate authority must be non-zero'')
      else if vm_main_mint args = vm_second_mint args \<or> vm_share_mint args = vm_main_mint args \<or>
         vm_share_mint args = vm_second_mint args
      then Err (VcInvalidInput ''vault main, second and share mints must be distinct'')
      else if list_ex (\<lambda>p. p \<noteq> TOKEN_PROGRAM_ID \<and> p \<noteq> TOKEN_2022_PROGRAM_ID)
         [vm_main_token_program args, vm_second_token_program args]
      then Err (VcInvalidInput ''pair token program must be legacy SPL or Token-2022'')
      else Ok \<lparr>mg_args = args, mg_addresses = manager_addresses pda args\<rparr>)"

definition from_vault :: "find_pda \<Rightarrow> key \<Rightarrow> key \<Rightarrow> VaultAccount \<Rightarrow> (VaultChainError, VaultManager) res" where
  "from_vault pda program_id actor v =
     manager_new pda \<lparr>vm_program_id = program_id, vm_vault_id = va_vault_id v, vm_actor = actor,
       vm_delegate_authority = va_primary_delegate v, vm_main_mint = va_main_mint v,
       vm_second_mint = va_second_mint v, vm_share_mint = va_share_mint v,
       vm_main_token_program = va_main_token_program v, vm_second_token_program = va_second_token_program v,
       vm_second_leg_generation = va_second_leg_generation v\<rparr>"

definition ensure_current :: "VaultManager \<Rightarrow> VaultAccount \<Rightarrow> (VaultChainError, unit) res" where
  "ensure_current m v =
     (if va_vault_id v \<noteq> vm_vault_id (mg_args m)
      then Err (VcInvalidInput ''vault account belongs to another vault'')
      else if va_second_leg_generation v \<noteq> vm_second_leg_generation (mg_args m) \<or>
         va_second_mint v \<noteq> vm_second_mint (mg_args m) \<or>
         va_second_token_program v \<noteq> vm_second_token_program (mg_args m)
      then Err VcSecondLegRolled
      else Ok ())"

text \<open>\<^verbatim>\<open>refresh(&mut self)\<close>: the result and the manager after it.\<close>

definition refresh :: "find_pda \<Rightarrow> VaultManager \<Rightarrow> VaultAccount \<Rightarrow> (VaultChainError, bool) res \<times> VaultManager" where
  "refresh pda m v =
     (case ensure_current m v of
        Err VcSecondLegRolled \<Rightarrow>
          (case manager_new pda (mg_args m\<lparr>vm_second_mint := va_second_mint v,
              vm_second_token_program := va_second_token_program v,
              vm_second_leg_generation := va_second_leg_generation v\<rparr>) of
             Ok m' \<Rightarrow> (Ok True, m')
           | Err e \<Rightarrow> (Err e, m)
           | Panic \<Rightarrow> (Panic, m))
      | Err e \<Rightarrow> (Err e, m)
      | Ok _ \<Rightarrow> (Ok False, m)
      | Panic \<Rightarrow> (Panic, m))"

section \<open>Instructions\<close>

definition vault_instruction :: "VaultManager \<Rightarrow> VaultIx \<Rightarrow> AccountMeta list \<Rightarrow> bytes \<Rightarrow> Instruction" where
  "vault_instruction m ix accounts args =
     \<lparr>ix_program_id = vm_program_id (mg_args m), ix_accounts = accounts, ix_data = vault_ix_u8 ix # args\<rparr>"

definition set_accepting_deposits :: "VaultManager \<Rightarrow> bool \<Rightarrow> Instruction" where
  "set_accepting_deposits m accepting =
     vault_instruction m SetAcceptingDeposits
       [meta_readonly (vm_actor (mg_args m)) True, meta_new (ad_vault (mg_addresses m)) False,
        meta_readonly (ad_delegate (mg_addresses m)) False, meta_readonly (vm_share_mint (mg_args m)) False,
        meta_readonly (ad_manager_stake_ata (mg_addresses m)) False]
       [if accepting then 1 else 0]"

definition price_section ::
  "find_pda \<Rightarrow> VaultManager \<Rightarrow> PriceRoute \<Rightarrow> PriceRoute \<Rightarrow> u16 \<Rightarrow> (VaultChainError, AccountMeta list) res" where
  "price_section pda m main second shard =
     (if rt_mint main \<noteq> vm_main_mint (mg_args m) \<or> rt_mint second \<noteq> vm_second_mint (mg_args m)
      then Err (VcInvalidInput ''price routes must price the vault's main and second mints'')
      else Ok (route_accounts pda main (ad_main_price_route (mg_addresses m)) shard @
        route_accounts pda second (ad_second_price_route (mg_addresses m)) shard))"

definition process_equity :: "VaultManager \<Rightarrow> AccountMeta list \<Rightarrow> Instruction" where
  "process_equity m section =
     vault_instruction m ProcessVaultEquity
       ([meta_readonly (vm_actor (mg_args m)) True, meta_new (ad_vault (mg_addresses m)) False,
         meta_readonly (ad_policy (mg_addresses m)) False, meta_readonly (ad_delegate (mg_addresses m)) False,
         meta_new (vm_share_mint (mg_args m)) False, meta_new (ad_vault_main_ata (mg_addresses m)) False,
         meta_new (ad_vault_second_ata (mg_addresses m)) False,
         meta_new (ad_manager_stake_ata (mg_addresses m)) False,
         meta_readonly (vm_main_mint (mg_args m)) False, meta_readonly (vm_second_mint (mg_args m)) False,
         meta_readonly (vm_main_token_program (mg_args m)) False,
         meta_readonly (vm_second_token_program (mg_args m)) False, meta_readonly TOKEN_PROGRAM_ID False] @
        section) []"

definition process_idle_withdrawal :: "find_pda \<Rightarrow> VaultManager \<Rightarrow> key \<Rightarrow> AccountMeta list \<Rightarrow> Instruction" where
  "process_idle_withdrawal pda m user section =
     (let request = fst (pda_withdraw_request pda (vm_program_id (mg_args m)) (ad_vault (mg_addresses m)) user);
          ix = process_equity m section in
      ix\<lparr>ix_accounts := ix_accounts ix @ [meta_readonly request False]\<rparr>)"

definition share_ata :: "find_pda \<Rightarrow> VaultManager \<Rightarrow> key \<Rightarrow> key" where
  "share_ata pda m user = ata pda user (vm_share_mint (mg_args m)) TOKEN_PROGRAM_ID"

definition main_ata :: "find_pda \<Rightarrow> VaultManager \<Rightarrow> key \<Rightarrow> key" where
  "main_ata pda m owner = ata pda owner (vm_main_mint (mg_args m)) (vm_main_token_program (mg_args m))"

definition validate_batch :: "key list \<Rightarrow> nat \<Rightarrow> (VaultChainError, unit) res" where
  "validate_batch users len =
     (if len = 0 then Err (VcInvalidInput ''vault batch cannot be empty'')
      else if VAULT_CAPITAL_BATCH_USERS < len then Err VcBatchTooLarge
      else if length (remdups users) \<noteq> len
      then Err (VcInvalidInput ''vault batch contains duplicate users'')
      else Ok ())"

text \<open>The accounts both capital batches start with.\<close>

definition batch_accounts :: "VaultManager \<Rightarrow> AccountMeta list" where
  "batch_accounts m =
     [meta_new (vm_actor (mg_args m)) True, meta_new (ad_vault (mg_addresses m)) False,
      meta_readonly (ad_delegate (mg_addresses m)) False, meta_new (vm_share_mint (mg_args m)) False,
      meta_new (ad_vault_main_ata (mg_addresses m)) False, meta_readonly (vm_main_mint (mg_args m)) False,
      meta_readonly (vm_main_token_program (mg_args m)) False, meta_readonly TOKEN_PROGRAM_ID False,
      meta_readonly SYSTEM_PROGRAM_ID False, meta_readonly ASSOCIATED_TOKEN_PROGRAM_ID False]"

definition deposit_accounts :: "find_pda \<Rightarrow> VaultManager \<Rightarrow> DepositPayout \<Rightarrow> AccountMeta list" where
  "deposit_accounts pda m p =
     (let user = dp_user p; program_id = vm_program_id (mg_args m); vault = ad_vault (mg_addresses m);
          escrow = fst (pda_deposit_escrow_authority pda program_id vault user);
          canonical = share_ata pda m user;
          refund = (case dp_refund p of Some r \<Rightarrow> r | None \<Rightarrow> main_ata pda m user);
          share = (case dp_shares p of Some s \<Rightarrow> s | None \<Rightarrow> canonical) in
      [meta_new user False, meta_new (fst (pda_deposit_request pda program_id vault user)) False,
       meta_readonly escrow False, meta_new (main_ata pda m escrow) False, meta_new refund False,
       meta_new share False, meta_readonly canonical False])"

definition process_deposits ::
  "find_pda \<Rightarrow> VaultManager \<Rightarrow> DepositPayout list \<Rightarrow> (VaultChainError, Instruction) res" where
  "process_deposits pda m payouts =
     bind_res (validate_batch (map dp_user payouts) (length payouts)) (\<lambda>_.
     Ok (vault_instruction m ProcessDeposits
       (batch_accounts m @ [meta_readonly (ad_manager_stake_ata (mg_addresses m)) False] @
        concat (map (deposit_accounts pda m) payouts)) []))"

definition withdrawal_accounts :: "find_pda \<Rightarrow> VaultManager \<Rightarrow> WithdrawalPayout \<Rightarrow> AccountMeta list" where
  "withdrawal_accounts pda m p =
     (let user = wp_user p; program_id = vm_program_id (mg_args m); vault = ad_vault (mg_addresses m);
          escrow = fst (pda_withdraw_escrow_authority pda program_id vault user);
          canonical = share_ata pda m user;
          share = (case wp_shares_back p of Some s \<Rightarrow> s | None \<Rightarrow> canonical) in
      [meta_new user False, meta_new (fst (pda_withdraw_request pda program_id vault user)) False,
       meta_readonly escrow False, meta_new (share_ata pda m escrow) False, meta_new (main_ata pda m user) False,
       meta_new share False, meta_readonly canonical False])"

definition process_withdrawals ::
  "find_pda \<Rightarrow> VaultManager \<Rightarrow> WithdrawalPayout list \<Rightarrow> (VaultChainError, Instruction) res" where
  "process_withdrawals pda m payouts =
     bind_res (validate_batch (map wp_user payouts) (length payouts)) (\<lambda>_.
     Ok (vault_instruction m ProcessWithdrawals
       (batch_accounts m @ concat (map (withdrawal_accounts pda m) payouts)) []))"

definition process_final_withdrawal :: "find_pda \<Rightarrow> VaultManager \<Rightarrow> WithdrawalPayout \<Rightarrow> Instruction" where
  "process_final_withdrawal pda m p =
     (let user = wp_user p; args = mg_args m; a = mg_addresses m; program_id = vm_program_id args;
          escrow = fst (pda_withdraw_escrow_authority pda program_id (ad_vault a) user);
          canonical = share_ata pda m user;
          share = (case wp_shares_back p of Some s \<Rightarrow> s | None \<Rightarrow> canonical) in
      vault_instruction m ProcessFinalWithdrawal
        [meta_new (vm_actor args) True, meta_new (ad_vault a) False, meta_readonly (ad_delegate a) False,
         meta_new user False, meta_new (fst (pda_withdraw_request pda program_id (ad_vault a) user)) False,
         meta_readonly escrow False, meta_new (share_ata pda m escrow) False,
         meta_new (vm_share_mint args) False, meta_new (ad_vault_main_ata a) False,
         meta_new (ad_vault_second_ata a) False, meta_new (main_ata pda m user) False,
         meta_new (ata pda user (vm_second_mint args) (vm_second_token_program args)) False,
         meta_readonly (vm_main_mint args) False, meta_readonly (vm_second_mint args) False,
         meta_readonly (vm_main_token_program args) False, meta_readonly (vm_second_token_program args) False,
         meta_readonly TOKEN_PROGRAM_ID False, meta_new share False, meta_readonly SYSTEM_PROGRAM_ID False,
         meta_readonly ASSOCIATED_TOKEN_PROGRAM_ID False, meta_readonly canonical False] [])"

definition finalize_cycle :: "VaultManager \<Rightarrow> Instruction" where
  "finalize_cycle m =
     vault_instruction m FinalizeVaultCycle
       [meta_readonly (vm_actor (mg_args m)) True, meta_new (ad_vault (mg_addresses m)) False,
        meta_readonly (ad_policy (mg_addresses m)) False, meta_readonly (ad_delegate (mg_addresses m)) False,
        meta_new (ad_vault_main_ata (mg_addresses m)) False, meta_readonly (vm_main_mint (mg_args m)) False,
        meta_readonly (vm_main_token_program (mg_args m)) False] []"

text \<open>\<^verbatim>\<open>b"acta-share-return-v1"\<close>\<close>

definition SHARE_RETURN_TAG :: bytes where
  "SHARE_RETURN_TAG = [97, 99, 116, 97, 45, 115, 104, 97, 114, 101, 45, 114, 101, 116, 117, 114, 110, 45, 118, 49]"

definition share_return_account ::
  "find_pda \<Rightarrow> crypto \<Rightarrow> VaultManager \<Rightarrow> VaultRequestKind \<Rightarrow> key \<Rightarrow> (VaultChainError, key) res" where
  "share_return_account pda cr m kind user =
     (let program_id = vm_program_id (mg_args m); vault = ad_vault (mg_addresses m);
          request = (case kind of
              RequestDeposit \<Rightarrow> fst (pda_deposit_request pda program_id vault user)
            | RequestWithdraw \<Rightarrow> fst (pda_withdraw_request pda program_id vault user));
          digest = cr_sha256 cr (SHARE_RETURN_TAG @ request) in
      bind_res (slice_res 0 16 digest) (\<lambda>d.
      let seed = map (\<lambda>c. of_nat (of_char c)) (cr_hex_encode cr d) in
      Ok (cr_sha256 cr (vm_actor (mg_args m) @ seed @ TOKEN_PROGRAM_ID))))"

section \<open>The cost of a capital batch\<close>

definition batch_users :: "nat \<Rightarrow> u32" where
  "batch_users len = of_nat (min len VAULT_CAPITAL_BATCH_USERS)"

definition steps :: "u8 \<Rightarrow> u32" where
  "steps bump = ucast (255 - bump)"

definition ata_steps :: "find_pda \<Rightarrow> key \<Rightarrow> key \<Rightarrow> key \<Rightarrow> u32" where
  "ata_steps pda owner mint token_program = steps (snd (ata_with_bump pda owner mint token_program))"

text \<open>\<^verbatim>\<open>iter().sum::<u32>()\<close>, which panics on overflow.\<close>

fun sum_u32 :: "u32 list \<Rightarrow> (unit, u32) res" where
  "sum_u32 [] = Ok 0"
| "sum_u32 (x # xs) = bind_res (sum_u32 xs) (\<lambda>s. plain_add x s)"

definition max_creation_steps :: "u32 list \<Rightarrow> nat \<Rightarrow> (unit, u32) res" where
  "max_creation_steps destination_steps n =
     sum_u32 (take (min n VAULT_CAPITAL_BATCH_USERS) (rev (sort destination_steps)))"

definition vault_capital_batch_compute_units :: "CapitalBatchShape \<Rightarrow> (unit, u32) res" where
  "vault_capital_batch_compute_units shape =
     (let users = min (bs_users shape) (batch_users VAULT_CAPITAL_BATCH_USERS) in
      bind_res (plain_mul users 2) (\<lambda>limit.
      let created = min (bs_created_destinations shape) limit in
      bind_res (plain_mul users COMPUTE_UNITS_PER_USER) (\<lambda>per_user.
      bind_res (plain_mul created COMPUTE_UNITS_PER_CREATED_DESTINATION) (\<lambda>per_created.
      Ok (saturating_add (saturating_add (saturating_add BATCH_BASE_COMPUTE_UNITS per_user) per_created)
        (saturating_mul (bs_derivation_steps shape) COMPUTE_UNITS_PER_DERIVATION_STEP))))))"

text \<open>One user's steps: the total, and the share and main destinations' own.\<close>

definition user_steps ::
  "find_pda \<Rightarrow> VaultManager \<Rightarrow> VaultRequestKind \<Rightarrow> u32 \<Rightarrow> key \<Rightarrow> (unit, u32 \<times> u32 \<times> u32) res" where
  "user_steps pda m kind main_checks user =
     (let args = mg_args m; program_id = vm_program_id args; vault = ad_vault (mg_addresses m) in
      bind_res (case kind of
          RequestDeposit \<Rightarrow>
            (let eb = pda_deposit_escrow_authority pda program_id vault user in
             bind_res (plain_mul (ata_steps pda (fst eb) (vm_main_mint args) (vm_main_token_program args)) main_checks)
               (\<lambda>escrow_steps. Ok (snd (pda_deposit_request pda program_id vault user), snd eb, escrow_steps)))
        | RequestWithdraw \<Rightarrow>
            (let eb = pda_withdraw_escrow_authority pda program_id vault user in
             Ok (snd (pda_withdraw_request pda program_id vault user), snd eb,
               ata_steps pda (fst eb) (vm_share_mint args) TOKEN_PROGRAM_ID)))
        (\<lambda>(request_bump, escrow_bump, escrow_steps).
      let share = ata_steps pda user (vm_share_mint args) TOKEN_PROGRAM_ID;
          main = ata_steps pda user (vm_main_mint args) (vm_main_token_program args) in
      bind_res (plain_add (steps request_bump) (steps escrow_bump)) (\<lambda>a.
      bind_res (plain_add a escrow_steps) (\<lambda>b.
      bind_res (plain_add b main) (\<lambda>c.
      bind_res (plain_add c share) (\<lambda>total.
      Ok (total, share, main)))))))"

definition common_batch_steps ::
  "find_pda \<Rightarrow> VaultManager \<Rightarrow> VaultRequestKind \<Rightarrow> u32 \<Rightarrow> (unit, u32) res" where
  "common_batch_steps pda m kind main_checks =
     (let args = mg_args m; vault = ad_vault (mg_addresses m) in
      bind_res (plain_mul (ata_steps pda vault (vm_main_mint args) (vm_main_token_program args)) main_checks) (\<lambda>common.
      if kind = RequestDeposit
      then
        (let mb = pda_manager_stake pda (vm_program_id args) vault in
         bind_res (plain_add (steps (snd mb)) (ata_steps pda (fst mb) (vm_share_mint args) TOKEN_PROGRAM_ID))
           (\<lambda>stake. plain_add common stake))
      else Ok common))"

definition pad_steps :: "u32 list \<Rightarrow> u32 list" where
  "pad_steps xs = xs @ replicate (VAULT_CAPITAL_BATCH_USERS - length xs) 0"

definition batch_shape ::
  "find_pda \<Rightarrow> VaultManager \<Rightarrow> VaultRequestKind \<Rightarrow> key list \<Rightarrow> nat \<Rightarrow> nat \<Rightarrow> (unit, CapitalBatchShape) res" where
  "batch_shape pda m kind users missing_share missing_main =
     (let main_checks = (if vm_main_token_program (mg_args m) = TOKEN_2022_PROGRAM_ID then 2 else 1) in
      bind_res (common_batch_steps pda m kind main_checks) (\<lambda>common.
      bind_res (collect_res (user_steps pda m kind main_checks) (take VAULT_CAPITAL_BATCH_USERS users)) (\<lambda>per.
      bind_res (sum_u32 (map fst per)) (\<lambda>per_user.
      let share_steps = pad_steps (map (fst \<circ> snd) per); main_steps = pad_steps (map (snd \<circ> snd) per) in
      bind_res (plain_add (batch_users missing_share) (batch_users missing_main)) (\<lambda>created.
      bind_res (max_creation_steps share_steps (min missing_share (length users))) (\<lambda>share_max.
      bind_res (plain_add per_user share_max) (\<lambda>a.
      bind_res (max_creation_steps main_steps (min missing_main (length users))) (\<lambda>main_max.
      bind_res (plain_add a main_max) (\<lambda>b.
      bind_res (plain_add b common) (\<lambda>total.
      Ok \<lparr>bs_users = batch_users (length users), bs_created_destinations = created,
        bs_derivation_steps = total\<rparr>))))))))))"

definition deposit_batch_shape ::
  "find_pda \<Rightarrow> VaultManager \<Rightarrow> key list \<Rightarrow> nat \<Rightarrow> nat \<Rightarrow> (unit, CapitalBatchShape) res" where
  "deposit_batch_shape pda m users missing_share_accounts missing_main_refund_accounts =
     batch_shape pda m RequestDeposit users missing_share_accounts missing_main_refund_accounts"

definition withdrawal_batch_shape ::
  "find_pda \<Rightarrow> VaultManager \<Rightarrow> key list \<Rightarrow> nat \<Rightarrow> nat \<Rightarrow> (unit, CapitalBatchShape) res" where
  "withdrawal_batch_shape pda m users missing_main_accounts missing_share_return_accounts =
     batch_shape pda m RequestWithdraw users missing_share_return_accounts missing_main_accounts"

section \<open>Sums of steps\<close>

lemma unat_steps: "unat (steps b) \<le> 255"
proof -
  have "unat (steps b) = unat (255 - b)"
    by (simp add: steps_def unsigned_ucast_eq take_bit_nat_eq_self order_less_le_trans [OF unat_bounded])
  also have "\<dots> < 256" using unat_bounded [of "255 - b"] by simp
  finally show ?thesis by simp
qed

lemma unat_ata_steps: "unat (ata_steps pda o' mi tp) \<le> 255"
  by (simp add: ata_steps_def unat_steps)

lemma sum_u32_Ok:
  "sum_list (map unat xs) < 2 ^ 32 \<Longrightarrow> \<exists>s. sum_u32 xs = Ok s \<and> unat s = sum_list (map unat xs)"
proof (induction xs)
  case (Cons x xs)
  then obtain s where s: "sum_u32 xs = Ok s" "unat s = sum_list (map unat xs)" by auto
  have fits: "unat x + unat s < 2 ^ LENGTH(32)" using Cons.prems s(2) by simp
  then show ?case using s by (simp add: plain_add_def unat_add_small)
qed simp

text \<open>The largest \<open>n\<close> elements outweigh any \<open>n\<close> elements.\<close>

lemma sum_le_sum_largest:
  fixes zs ys :: "nat list"
  assumes "sorted_wrt (\<ge>) zs" "mset ys \<subseteq># mset zs" "length ys \<le> n"
  shows "sum_list ys \<le> sum_list (take n zs)"
  using assms
proof (induction zs arbitrary: ys n)
  case (Cons z zs)
  show ?case
  proof (cases ys)
    case ys: (Cons y ys')
    then obtain k where n: "n = Suc k" using Cons.prems(3) by (cases n) auto
    define d where "d = (if z \<in> set ys then z else y)"
    have d: "d \<in># mset ys" "d \<le> z"
      using Cons.prems(1,2) ys by (auto simp: d_def dest: mset_subset_eqD)
    have "mset (remove1 d ys) \<subseteq># mset zs"
    proof (cases "z \<in> set ys")
      case True
      then show ?thesis using Cons.prems(2) by (simp add: d_def subset_eq_diff_conv)
    next
      case False
      then have "mset ys \<subseteq># mset zs"
        using Cons.prems(2) by (metis diff_single_trivial mset.simps(2) set_mset_mset subset_eq_diff_conv add_mset_add_single)
      then show ?thesis by (metis diff_subset_eq_self mset_remove1 subset_mset.order_trans)
    qed
    then have "sum_list (remove1 d ys) \<le> sum_list (take k zs)"
      using Cons.prems(1,3) d(1) n by (intro Cons.IH) (auto simp: length_remove1)
    moreover have "sum_list ys = d + sum_list (remove1 d ys)"
      using d(1) sum_list_map_remove1 [of d ys "\<lambda>x. x"] by simp
    ultimately show ?thesis using d(2) by (simp add: n)
  qed simp
qed simp

lemma sorted_wrt_desc: "sorted_wrt (\<ge>) (map unat (rev (sort xs)))" for xs :: "u32 list"
  by (auto simp: sorted_wrt_rev sorted_wrt_map word_le_nat_alt rev_map [symmetric]
      intro: sorted_wrt_mono_rel [OF _ sorted_sort])

lemma sum_le_bound: "(\<And>x. x \<in> set xs \<Longrightarrow> unat x \<le> b) \<Longrightarrow> sum_list (map unat xs) \<le> b * length xs"
  for xs :: "u32 list"
  by (induction xs) (auto simp: add_mono)

lemma max_creation_steps_value:
  assumes "\<And>x. x \<in> set xs \<Longrightarrow> unat x \<le> 255"
  obtains s where "max_creation_steps xs n = Ok s"
    "unat s = sum_list (take (min n 3) (map unat (rev (sort xs))))" "unat s \<le> 765"
proof -
  let ?top = "take (min n 3) (rev (sort xs))"
  have "sum_list (map unat ?top) \<le> 255 * length ?top"
    using assms by (intro sum_le_bound) (auto dest!: in_set_takeD)
  also have "\<dots> \<le> 765" by simp
  finally have le: "sum_list (map unat ?top) \<le> 765" .
  then obtain s where "sum_u32 ?top = Ok s" "unat s = sum_list (map unat ?top)"
    using sum_u32_Ok [of ?top] by auto
  with le that show ?thesis
    by (auto simp: max_creation_steps_def VAULT_CAPITAL_BATCH_USERS_def take_map)
qed

text \<open>
  The creation allowance of a capital batch covers every choice of missing destinations: whichever
  at most \<open>n\<close> of the three destinations turn out to be missing, their derivation steps add up to no
  more than \<open>max_creation_steps\<close>, which never panics.
\<close>

theorem max_creation_steps_covers:
  assumes "length xs = 3" and "\<And>x. x \<in> set xs \<Longrightarrow> unat x \<le> 255"
    and "mset missing \<subseteq># mset xs" and "length missing \<le> n"
  shows "\<exists>s. max_creation_steps xs n = Ok s \<and> sum_list (map unat missing) \<le> unat s"
proof -
  obtain s where s: "max_creation_steps xs n = Ok s"
    "unat s = sum_list (take (min n 3) (map unat (rev (sort xs))))"
    using max_creation_steps_value [of xs n] assms(2) by auto
  have "mset (map unat missing) \<subseteq># mset (map unat (rev (sort xs)))"
    using image_mset_subseteq_mono [OF assms(3), of unat] by simp
  moreover have "length (map unat missing) \<le> min n 3"
    using assms(1,4) size_mset_mono [OF assms(3)] by simp
  ultimately have "sum_list (map unat missing) \<le> unat s"
    unfolding s(2) by (intro sum_le_sum_largest sorted_wrt_desc)
  with s(1) show ?thesis by blast
qed

theorem max_creation_steps_covers_witness:
  "\<exists>s. max_creation_steps [9, 1, 15] 2 = Ok s \<and> sum_list (map unat [15, 1 :: u32]) \<le> unat s"
  by (rule max_creation_steps_covers) auto

section \<open>The estimate is exact\<close>

lemma plain_add_bounded:
  fixes a b :: u32
  assumes "unat a \<le> x" "unat b \<le> y" "x + y < 2 ^ 32"
  obtains c where "plain_add a b = (Ok c :: (unit, u32) res)" "unat c = unat a + unat b" "unat c \<le> x + y"
proof
  have "unat a + unat b < 2 ^ LENGTH(32)" using assms by simp
  then show "plain_add a b = (Ok (a + b) :: (unit, u32) res)" "unat (a + b) = unat a + unat b"
    by (simp_all add: plain_add_def unat_add_small)
  then show "unat (a + b) \<le> x + y" using assms by simp
qed

lemma plain_mul_bounded:
  fixes a b :: u32
  assumes "unat a \<le> x" "unat b \<le> y" "x * y < 2 ^ 32"
  obtains c where "plain_mul a b = (Ok c :: (unit, u32) res)" "unat c = unat a * unat b" "unat c \<le> x * y"
proof
  have le: "unat a * unat b \<le> x * y" using assms by (simp add: mult_mono)
  then have "unat a * unat b < 2 ^ LENGTH(32)" using assms(3) by simp
  then show "plain_mul a b = (Ok (a * b) :: (unit, u32) res)" "unat (a * b) = unat a * unat b"
    by (simp_all add: plain_mul_def unat_mul_small)
  then show "unat (a * b) \<le> x * y" using le by simp
qed

lemma user_steps_bounded:
  assumes "unat main_checks \<le> 2"
  obtains t sh mn where "user_steps pda m kind main_checks user = Ok (t, sh, mn)"
    "unat t \<le> 1530" "unat sh \<le> 255" "unat mn \<le> 255"
proof -
  let ?args = "mg_args m" let ?p = "vm_program_id (mg_args m)" let ?v = "ad_vault (mg_addresses m)"
  define rb eb where "rb = (case kind of RequestDeposit \<Rightarrow> snd (pda_deposit_request pda ?p ?v user)
      | RequestWithdraw \<Rightarrow> snd (pda_withdraw_request pda ?p ?v user))"
    and "eb = (case kind of RequestDeposit \<Rightarrow> pda_deposit_escrow_authority pda ?p ?v user
      | RequestWithdraw \<Rightarrow> pda_withdraw_escrow_authority pda ?p ?v user)"
  obtain dep where dep: "plain_mul (ata_steps pda (fst eb) (vm_main_mint ?args) (vm_main_token_program ?args)) main_checks
      = (Ok dep :: (unit, u32) res)" "unat dep \<le> 255 * 2"
    by (rule plain_mul_bounded [OF unat_ata_steps assms]) auto
  define es where "es = (case kind of RequestDeposit \<Rightarrow> dep
      | RequestWithdraw \<Rightarrow> ata_steps pda (fst eb) (vm_share_mint ?args) TOKEN_PROGRAM_ID)"
  have es: "unat es \<le> 510"
    using dep(2) unat_ata_steps [of pda "fst eb" "vm_share_mint ?args" TOKEN_PROGRAM_ID]
    by (simp add: es_def split: VaultRequestKind.splits)
  let ?sh = "ata_steps pda user (vm_share_mint ?args) TOKEN_PROGRAM_ID"
  let ?mn = "ata_steps pda user (vm_main_mint ?args) (vm_main_token_program ?args)"
  obtain a where a: "plain_add (steps rb) (steps (snd eb)) = (Ok a :: (unit, u32) res)" "unat a \<le> 255 + 255"
    by (rule plain_add_bounded [OF unat_steps unat_steps]) auto
  obtain b where b: "plain_add a es = (Ok b :: (unit, u32) res)" "unat b \<le> 510 + 510"
    by (rule plain_add_bounded [of a 510 es 510]) (use a(2) es in auto)
  obtain c where c: "plain_add b ?mn = (Ok c :: (unit, u32) res)" "unat c \<le> 1020 + 255"
    by (rule plain_add_bounded [of b 1020 ?mn 255]) (use b(2) unat_ata_steps in auto)
  obtain t where t: "plain_add c ?sh = (Ok t :: (unit, u32) res)" "unat t \<le> 1275 + 255"
    by (rule plain_add_bounded [of c 1275 ?sh 255]) (use c(2) unat_ata_steps in auto)
  have "user_steps pda m kind main_checks user = Ok (t, ?sh, ?mn)"
    using dep(1) a(1) b(1) c(1) t(1)
    by (cases kind) (simp_all add: user_steps_def Let_def rb_def eb_def es_def)
  with that t(2) unat_ata_steps show ?thesis by simp
qed

lemma common_batch_steps_bounded:
  assumes "unat main_checks \<le> 2"
  obtains c where "common_batch_steps pda m kind main_checks = Ok c" "unat c \<le> 1020"
proof -
  let ?args = "mg_args m" let ?v = "ad_vault (mg_addresses m)"
  obtain a where a: "plain_mul (ata_steps pda ?v (vm_main_mint ?args) (vm_main_token_program ?args)) main_checks
      = (Ok a :: (unit, u32) res)" "unat a \<le> 255 * 2"
    by (rule plain_mul_bounded [OF unat_ata_steps assms]) auto
  let ?mb = "pda_manager_stake pda (vm_program_id ?args) ?v"
  obtain b where b: "plain_add (steps (snd ?mb)) (ata_steps pda (fst ?mb) (vm_share_mint ?args) TOKEN_PROGRAM_ID)
      = (Ok b :: (unit, u32) res)" "unat b \<le> 255 + 255"
    by (rule plain_add_bounded [OF unat_steps unat_ata_steps]) auto
  obtain c where c: "plain_add a b = (Ok c :: (unit, u32) res)" "unat c \<le> 510 + 510"
    by (rule plain_add_bounded [of a 510 b 510]) (use a(2) b(2) in auto)
  show ?thesis
    using that [of "if kind = RequestDeposit then c else a"] a b c
    by (simp add: common_batch_steps_def Let_def split: if_splits)
qed

lemma per_user_steps_bounded:
  assumes "unat main_checks \<le> 2"
  obtains per where "collect_res (user_steps pda m kind main_checks) us = Ok per"
    "length per = length us" "list_all (\<lambda>(t, sh, mn). unat t \<le> 1530 \<and> unat sh \<le> 255 \<and> unat mn \<le> 255) per"
proof (induction us arbitrary: thesis)
  case Nil
  then show ?case by simp
next
  case (Cons u us)
  obtain per where per: "collect_res (user_steps pda m kind main_checks) us = Ok per"
    "length per = length us" "list_all (\<lambda>(t, sh, mn). unat t \<le> 1530 \<and> unat sh \<le> 255 \<and> unat mn \<le> 255) per"
    using Cons.IH by blast
  obtain t sh mn where "user_steps pda m kind main_checks u = Ok (t, sh, mn)"
    "unat t \<le> 1530" "unat sh \<le> 255" "unat mn \<le> 255"
    using user_steps_bounded [OF assms] by blast
  with per show ?case by (intro Cons.prems [of "(t, sh, mn) # per"]) simp_all
qed

lemma unat_batch_users: "unat (batch_users n) = min n 3"
  by (simp add: batch_users_def VAULT_CAPITAL_BATCH_USERS_def unat_of_nat)

lemma batch_shape_bounded:
  obtains shape where "batch_shape pda m kind users ms mm = Ok shape"
    "unat (bs_users shape) = min (length users) 3"
    "unat (bs_created_destinations shape) = min ms 3 + min mm 3"
    "unat (bs_derivation_steps shape) \<le> 7140"
proof -
  define mc :: u32 where "mc = (if vm_main_token_program (mg_args m) = TOKEN_2022_PROGRAM_ID then 2 else 1)"
  have mc: "unat mc \<le> 2" by (simp add: mc_def)
  obtain common where common: "common_batch_steps pda m kind mc = Ok common" "unat common \<le> 1020"
    by (rule common_batch_steps_bounded [OF mc])
  obtain per where per: "collect_res (user_steps pda m kind mc) (take 3 users) = Ok per" "length per \<le> 3"
    "list_all (\<lambda>(t, sh, mn). unat t \<le> 1530 \<and> unat sh \<le> 255 \<and> unat mn \<le> 255) per"
    by (rule per_user_steps_bounded [OF mc, of pda m kind "take 3 users"]) simp
  have "sum_list (map unat (map fst per)) \<le> 1530 * length (map fst per)"
    using per(3) by (intro sum_le_bound) (auto simp: list_all_iff)
  also have "\<dots> \<le> 4590" using per(2) by simp
  finally have "sum_list (map unat (map fst per)) \<le> 4590" .
  then obtain pu where pu: "sum_u32 (map fst per) = Ok pu" "unat pu \<le> 4590"
    using sum_u32_Ok [of "map fst per"] by auto
  have "\<And>x. x \<in> set (pad_steps (map (fst \<circ> snd) per)) \<Longrightarrow> unat x \<le> 255"
    "\<And>x. x \<in> set (pad_steps (map (snd \<circ> snd) per)) \<Longrightarrow> unat x \<le> 255"
    using per(3) by (auto simp: pad_steps_def list_all_iff)
  then obtain sm mx where
    sm: "max_creation_steps (pad_steps (map (fst \<circ> snd) per)) (min ms (length users)) = Ok sm" "unat sm \<le> 765" and
    mx: "max_creation_steps (pad_steps (map (snd \<circ> snd) per)) (min mm (length users)) = Ok mx" "unat mx \<le> 765"
    using max_creation_steps_value by metis
  obtain created where created: "plain_add (batch_users ms) (batch_users mm) = (Ok created :: (unit, u32) res)"
    "unat created = unat (batch_users ms) + unat (batch_users mm)"
    by (rule plain_add_bounded [of "batch_users ms" 3 "batch_users mm" 3]) (auto simp: unat_batch_users)
  obtain a where a: "plain_add pu sm = (Ok a :: (unit, u32) res)" "unat a \<le> 4590 + 765"
    by (rule plain_add_bounded [of pu 4590 sm 765]) (use pu sm in auto)
  obtain b where b: "plain_add a mx = (Ok b :: (unit, u32) res)" "unat b \<le> 5355 + 765"
    by (rule plain_add_bounded [of a 5355 mx 765]) (use a mx in auto)
  obtain t where t: "plain_add b common = (Ok t :: (unit, u32) res)" "unat t \<le> 6120 + 1020"
    by (rule plain_add_bounded [of b 6120 common 1020]) (use b common in auto)
  show ?thesis
    by (rule that [of "\<lparr>bs_users = batch_users (length users), bs_created_destinations = created, bs_derivation_steps = t\<rparr>"])
      (use t(2) in \<open>simp_all add: batch_shape_def mc_def [symmetric] common per pu sm mx created a b t(1) Let_def
        unat_batch_users VAULT_CAPITAL_BATCH_USERS_def\<close>)
qed

lemma saturating_exact:
  fixes a b :: u32
  shows "unat a + unat b < 2 ^ 32 \<Longrightarrow> unat (saturating_add a b) = unat a + unat b"
    and "unat a * unat b < 2 ^ 32 \<Longrightarrow> unat (saturating_mul a b) = unat a * unat b"
  by (simp_all add: unat_saturating_add unat_saturating_mul)

lemma compute_units_value:
  assumes "unat (bs_users shape) \<le> 3" and "unat (bs_derivation_steps shape) \<le> 7140"
  obtains u where "vault_capital_batch_compute_units shape = Ok u"
    "unat u = 40000 + 13000 * unat (bs_users shape) +
      25000 * min (unat (bs_created_destinations shape)) (2 * unat (bs_users shape)) +
      1800 * unat (bs_derivation_steps shape)"
proof -
  let ?users = "bs_users shape" let ?d = "bs_derivation_steps shape"
  have users: "min ?users (batch_users VAULT_CAPITAL_BATCH_USERS) = ?users"
    using assms(1) by (simp add: min_def word_le_nat_alt unat_batch_users VAULT_CAPITAL_BATCH_USERS_def)
  obtain l where l: "plain_mul ?users 2 = (Ok l :: (unit, u32) res)" "unat l = unat ?users * 2"
    by (rule plain_mul_bounded [OF assms(1), of 2 2]) auto
  define created where "created = min (bs_created_destinations shape) l"
  have created: "unat created = min (unat (bs_created_destinations shape)) (2 * unat ?users)"
    using l(2) by (simp add: created_def min_def word_le_nat_alt)
  obtain pu where pu: "plain_mul ?users COMPUTE_UNITS_PER_USER = (Ok pu :: (unit, u32) res)" "unat pu = unat ?users * 13000"
    by (rule plain_mul_bounded [OF assms(1), of COMPUTE_UNITS_PER_USER 13000]) (auto simp: COMPUTE_UNITS_PER_USER_def)
  obtain pc where pc: "plain_mul created COMPUTE_UNITS_PER_CREATED_DESTINATION = (Ok pc :: (unit, u32) res)"
      "unat pc = unat created * 25000"
    by (rule plain_mul_bounded [of created 6 COMPUTE_UNITS_PER_CREATED_DESTINATION 25000])
      (use created assms(1) in \<open>auto simp: COMPUTE_UNITS_PER_CREATED_DESTINATION_def\<close>)
  have small: "unat pu \<le> 39000" "unat pc \<le> 150000" using pu(2) pc(2) created assms(1) by auto
  have mul: "unat (saturating_mul ?d COMPUTE_UNITS_PER_DERIVATION_STEP) = unat ?d * 1800"
    using assms(2) by (subst saturating_exact) (simp_all add: COMPUTE_UNITS_PER_DERIVATION_STEP_def)
  have "unat (saturating_add (saturating_add (saturating_add BATCH_BASE_COMPUTE_UNITS pu) pc)
      (saturating_mul ?d COMPUTE_UNITS_PER_DERIVATION_STEP)) = 40000 + unat pu + unat pc + unat ?d * 1800"
    using small assms(2)
    by (simp add: saturating_exact mul BATCH_BASE_COMPUTE_UNITS_def)
  then show ?thesis
    using that l(1) pu pc created created_def
    by (simp add: vault_capital_batch_compute_units_def users Let_def)
qed

text \<open>
  The compute-unit estimate of a capital batch is computed without overflow, panic or saturation,
  whatever the derivation bumps: at most three users, six created destinations and 7,140 derivation
  steps are counted, and the estimate is the exact sum of the base, per-user, per-destination and
  per-step costs.
\<close>

theorem batch_estimate_exact:
  "\<exists>shape u. batch_shape pda m kind users ms mm = Ok shape \<and>
     unat (bs_users shape) = min (length users) 3 \<and>
     unat (bs_created_destinations shape) = min ms 3 + min mm 3 \<and>
     unat (bs_derivation_steps shape) \<le> 7140 \<and>
     vault_capital_batch_compute_units shape = Ok u \<and>
     unat u = 40000 + 13000 * unat (bs_users shape) +
       25000 * min (unat (bs_created_destinations shape)) (2 * unat (bs_users shape)) +
       1800 * unat (bs_derivation_steps shape)"
proof -
  obtain shape where s: "batch_shape pda m kind users ms mm = Ok shape"
    "unat (bs_users shape) = min (length users) 3" "unat (bs_created_destinations shape) = min ms 3 + min mm 3"
    "unat (bs_derivation_steps shape) \<le> 7140"
    by (rule batch_shape_bounded)
  obtain u where "vault_capital_batch_compute_units shape = Ok u"
    "unat u = 40000 + 13000 * unat (bs_users shape) +
      25000 * min (unat (bs_created_destinations shape)) (2 * unat (bs_users shape)) +
      1800 * unat (bs_derivation_steps shape)"
    by (rule compute_units_value) (use s in auto)
  with s show ?thesis by blast
qed

section \<open>Current managers\<close>

text \<open>The type invariant of a manager: checked arguments and addresses derived from them.\<close>

definition manager_ok :: "find_pda \<Rightarrow> VaultManager \<Rightarrow> bool" where
  "manager_ok pda m \<longleftrightarrow>
     vm_vault_id (mg_args m) \<noteq> replicate 32 0 \<and> vm_actor (mg_args m) \<noteq> replicate 32 0 \<and>
     vm_delegate_authority (mg_args m) \<noteq> replicate 32 0 \<and>
     distinct [vm_main_mint (mg_args m), vm_second_mint (mg_args m), vm_share_mint (mg_args m)] \<and>
     set [vm_main_token_program (mg_args m), vm_second_token_program (mg_args m)] \<subseteq>
       {TOKEN_PROGRAM_ID, TOKEN_2022_PROGRAM_ID} \<and>
     mg_addresses m = manager_addresses pda (mg_args m)"

lemma manager_new_iff: "manager_new pda args = Ok m \<longleftrightarrow> mg_args m = args \<and> manager_ok pda m"
  by (cases m) (auto simp: manager_new_def manager_ok_def)

lemma manager_new_no_panic: "manager_new pda args \<noteq> Panic"
  by (simp add: manager_new_def)

lemma ensure_current_no_panic: "ensure_current m v \<noteq> Panic"
  by (simp add: ensure_current_def)

text \<open>
  C38. Refreshing a manager keeps its invariant and never panics; when it succeeds, the manager is
  current for that vault account, keeps its vault, actor, delegate, main and share mints, and the
  result says whether the second leg changed. When it fails the manager is unchanged.
\<close>

theorem refresh_current:
  assumes "manager_ok pda m"
  shows "manager_ok pda (snd (refresh pda m v)) \<and> fst (refresh pda m v) \<noteq> Panic \<and>
    (\<forall>rolled. fst (refresh pda m v) = Ok rolled \<longrightarrow>
       ensure_current (snd (refresh pda m v)) v = Ok () \<and>
       rolled = (snd (refresh pda m v) \<noteq> m) \<and>
       mg_args (snd (refresh pda m v)) = mg_args m\<lparr>vm_second_mint := va_second_mint v,
         vm_second_token_program := va_second_token_program v,
         vm_second_leg_generation := va_second_leg_generation v\<rparr>) \<and>
    (\<forall>e. fst (refresh pda m v) = Err e \<longrightarrow> snd (refresh pda m v) = m)"
proof -
  let ?args = "mg_args m\<lparr>vm_second_mint := va_second_mint v,
    vm_second_token_program := va_second_token_program v, vm_second_leg_generation := va_second_leg_generation v\<rparr>"
  consider (current) "ensure_current m v = Ok ()" | (other) e where "ensure_current m v = Err e" "e \<noteq> VcSecondLegRolled"
    | (rolled) "ensure_current m v = Err VcSecondLegRolled"
    by (cases "ensure_current m v") (auto simp: ensure_current_no_panic)
  then show ?thesis
  proof cases
    case current
    then have "?args = mg_args m" by (auto simp: ensure_current_def split: if_splits)
    with current assms show ?thesis by (simp add: refresh_def)
  next
    case other
    then show ?thesis using assms by (cases e) (auto simp: refresh_def)
  next
    case rolled
    show ?thesis
    proof (cases "manager_new pda ?args")
      case (Ok m')
      then have m': "mg_args m' = ?args" "manager_ok pda m'" by (simp_all add: manager_new_iff)
      have "ensure_current m' v = Ok ()"
        using rolled by (auto simp: ensure_current_def m' split: if_splits)
      moreover have "m' \<noteq> m" using calculation rolled by auto
      ultimately show ?thesis using rolled Ok m' by (simp add: refresh_def)
    next
      case (Err e)
      then show ?thesis using rolled assms by (simp add: refresh_def)
    qed (simp add: manager_new_no_panic)
  qed
qed

definition sample_vault :: VaultAccount where
  "sample_vault = \<lparr>va_vault_id = replicate 32 1, va_phase = PhaseIdle, va_safety = SafetyNormal,
     va_equity_computed = False, va_accepting_deposits = True, va_governance_authority = replicate 32 2,
     va_primary_delegate = replicate 32 3, va_pending_governance_authority = replicate 32 0,
     va_fee_recipient = replicate 32 2, va_main_mint = replicate 32 4, va_second_mint = replicate 32 5,
     va_share_mint = replicate 32 6, va_main_token_program = TOKEN_PROGRAM_ID,
     va_second_token_program = TOKEN_2022_PROGRAM_ID, va_active_expiry = 0, va_open_positions = 0,
     va_total_shares = 0, va_pending_deposit_count = 0, va_pending_withdraw_count = 0,
     va_capital_fallback_delay_secs = 0, va_closing_started_at = 0, va_boundary_equity = 0,
     va_boundary_shares = 0, va_staging = \<lparr>sg_generation = 0, sg_open = None\<rparr>,
     va_second_leg_generation = 1\<rparr>"

definition sample_pda :: find_pda where
  "sample_pda seeds program = (take 32 (concat seeds @ program @ replicate 32 0), 255)"

definition sample_manager :: VaultManager where
  "sample_manager =
     (let args = \<lparr>vm_program_id = replicate 32 9, vm_vault_id = replicate 32 1, vm_actor = replicate 32 3,
        vm_delegate_authority = replicate 32 3, vm_main_mint = replicate 32 4, vm_second_mint = replicate 32 7,
        vm_share_mint = replicate 32 6, vm_main_token_program = TOKEN_PROGRAM_ID,
        vm_second_token_program = TOKEN_PROGRAM_ID, vm_second_leg_generation = 0\<rparr> in
      \<lparr>mg_args = args, mg_addresses = manager_addresses sample_pda args\<rparr>)"

lemma sample_manager_ok: "manager_ok sample_pda sample_manager"
  by (simp add: manager_ok_def sample_manager_def Let_def)

theorem refresh_current_witness:
  "fst (refresh sample_pda sample_manager sample_vault) = Ok True \<and>
   ensure_current (snd (refresh sample_pda sample_manager sample_vault)) sample_vault = Ok ()"
proof -
  have "fst (refresh sample_pda sample_manager sample_vault) = Ok True"
    by (simp add: refresh_def ensure_current_def sample_vault_def sample_manager_def manager_new_def Let_def)
  with refresh_current [OF sample_manager_ok, of sample_vault] show ?thesis by blast
qed

section \<open>Capital batches\<close>

lemma validate_batch_Ok: "validate_batch us (length us) = Ok () \<longleftrightarrow> us \<noteq> [] \<and> length us \<le> 3 \<and> distinct us"
proof -
  have "length (remdups us) = length us \<longleftrightarrow> distinct us"
    by (metis distinct_card distinct_remdups length_remdups_card_conv card_distinct)
  then show ?thesis by (auto simp: validate_batch_def VAULT_CAPITAL_BATCH_USERS_def)
qed

definition signers_of :: "AccountMeta list \<Rightarrow> key list" where
  "signers_of ms = map am_pubkey (filter am_is_signer ms)"



end
