(* ===== verification/VaultTrading.thy ===== *)
theory VaultTrading
  imports VaultManager
begin

text \<open>
  \<^verbatim>\<open>src/src/chain/vault/trading.rs\<close>, the position side: binding a market to the vault's two legs, the
  terms of a physical option and of a cash spread, their order ids, and the eight instructions that open
  a position with a vault on one or both sides, and the one that funds a held position.
\<close>

section \<open>Data\<close>

definition INSTRUCTIONS_SYSVAR_ID :: key where
  "INSTRUCTIONS_SYSVAR_ID = [
     6, 167, 213, 23, 24, 123, 209, 102, 53, 218, 212, 4, 85, 253, 194, 192,
     193, 36, 198, 143, 33, 86, 117, 165, 219, 186, 203, 95, 8, 0, 0, 0]"

record VaultTradeTerms =
  tt_underlying_mint :: key
  tt_quote_mint :: key
  tt_expiry_ts :: u64
  tt_is_put :: bool
  tt_side :: TakerSide
  tt_strike :: u64
  tt_quantity :: u64
  tt_price :: u64
  tt_valid_until :: u64
  tt_nonce :: u64

record VaultPositionAddresses =
  pa_market :: key
  pa_position :: key
  pa_collateral_mint :: key
  pa_collateral_token_program :: key
  pa_collateral_ata :: key
  pa_config :: key
  pa_protocol_fee_ata :: key

record VaultPositionRef =
  pr_underlying_mint :: key
  pr_quote_mint :: key
  pr_expiry_ts :: u64
  pr_is_put :: bool
  pr_order_id :: bytes

record VaultOpenPosition =
  op_order_id :: bytes
  op_addresses :: VaultPositionAddresses
  op_instruction :: Instruction

record Asset =
  as_mint :: key
  as_program :: key
  as_vault_ata :: key

record MarketLegs =
  ml_underlying :: Asset
  ml_quote :: Asset

record VaultSpreadTerms =
  vs_underlying_mint :: key
  vs_quote_mint :: key
  vs_expiry_ts :: u64
  vs_kind :: SpreadType
  vs_side :: TakerSide
  vs_lower_strike :: u64
  vs_upper_strike :: u64
  vs_quantity :: u64
  vs_price :: u64
  vs_valid_until :: u64
  vs_nonce :: u64

datatype VaultSaleTerms = Physical VaultTradeTerms | Spread VaultSpreadTerms

datatype WriterHolder = HolderMaker key | HolderWallet key

section \<open>Legs and terms\<close>

definition legs_bind :: "VaultManager \<Rightarrow> key \<Rightarrow> key \<Rightarrow> (VaultChainError, MarketLegs) res" where
  "legs_bind m underlying_mint quote_mint =
     (let main = \<lparr>as_mint = vm_main_mint (mg_args m), as_program = vm_main_token_program (mg_args m),
            as_vault_ata = ad_vault_main_ata (mg_addresses m)\<rparr>;
          second = \<lparr>as_mint = vm_second_mint (mg_args m), as_program = vm_second_token_program (mg_args m),
            as_vault_ata = ad_vault_second_ata (mg_addresses m)\<rparr> in
      if as_mint main = underlying_mint \<and> as_mint second = quote_mint
      then Ok \<lparr>ml_underlying = main, ml_quote = second\<rparr>
      else if as_mint main = quote_mint \<and> as_mint second = underlying_mint
      then Ok \<lparr>ml_underlying = second, ml_quote = main\<rparr>
      else Err (VcInvalidInput ''market mints must be the vault's main and second mints''))"

definition legs_collateral :: "MarketLegs \<Rightarrow> bool \<Rightarrow> Asset" where
  "legs_collateral legs is_put = (if is_put then ml_quote legs else ml_underlying legs)"

definition legs_settlement :: "MarketLegs \<Rightarrow> bool \<Rightarrow> Asset" where
  "legs_settlement legs is_put = (if is_put then ml_underlying legs else ml_quote legs)"

definition trade_validate :: "VaultTradeTerms \<Rightarrow> (VaultChainError, unit) res" where
  "trade_validate t =
     (if tt_expiry_ts t = 0 \<or> tt_strike t = 0 \<or> tt_quantity t = 0 \<or> tt_price t = 0 \<or> tt_valid_until t = 0
      then Err (VcInvalidInput ''vault trade terms require non-zero expiry and economic fields'')
      else if tt_expiry_ts t < tt_valid_until t
      then Err (VcInvalidInput ''vault trade quote cannot outlive its market'')
      else Ok ())"

definition trade_market :: "find_pda \<Rightarrow> VaultTradeTerms \<Rightarrow> key \<Rightarrow> key" where
  "trade_market pda t program_id =
     market_pda pda program_id (tt_underlying_mint t) (tt_quote_mint t) (tt_expiry_ts t) (tt_is_put t)"

definition trade_preimage_args :: "find_pda \<Rightarrow> VaultTradeTerms \<Rightarrow> key \<Rightarrow> key \<Rightarrow> key \<Rightarrow> OrderPreimageArgs" where
  "trade_preimage_args pda t program_id maker taker =
     \<lparr>oa_chain_id = 0, oa_program_id = program_id, oa_side = tt_side t,
      oa_position_type = (if tt_is_put t then CashSecuredPut else CoveredCall),
      oa_market = trade_market pda t program_id, oa_strike = tt_strike t, oa_quantity = tt_quantity t,
      oa_gross_price = tt_price t, oa_valid_until = tt_valid_until t, oa_maker = maker, oa_taker = taker,
      oa_nonce = tt_nonce t\<rparr>"

text \<open>The preimage of a physical order cannot fail in the source; the error branch is never taken.\<close>

definition trade_order_id ::
  "find_pda \<Rightarrow> crypto \<Rightarrow> VaultTradeTerms \<Rightarrow> key \<Rightarrow> key \<Rightarrow> key \<Rightarrow> (VaultChainError, bytes) res" where
  "trade_order_id pda cr t program_id maker taker =
     bind_res (map_err (\<lambda>_. VcInvalidInput '''')
       (build_physical_order_preimage (trade_preimage_args pda t program_id maker taker) (tt_is_put t)))
       (\<lambda>p. Ok (hash_order_preimage cr p))"

definition trade_args :: "VaultTradeTerms \<Rightarrow> bytes \<Rightarrow> bytes" where
  "trade_args t order_id =
     of_bool (tt_is_put t) #
     concat (map u64_le [tt_strike t, tt_quantity t, tt_price t, tt_valid_until t, tt_nonce t]) @ order_id"

definition spread_validate :: "VaultSpreadTerms \<Rightarrow> (VaultChainError, unit) res" where
  "spread_validate t =
     bind_res (map_err (\<lambda>_. VcInvalidInput ''vault spread requires ordered strikes, positive call lower strike, and 0 < price < width'')
       (validate_premium (vs_kind t) (vs_lower_strike t) (vs_upper_strike t) (vs_quantity t) (vs_price t))) (\<lambda>_.
     if vs_expiry_ts t = 0 \<or> vs_valid_until t = 0 \<or> vs_expiry_ts t < vs_valid_until t
     then Err (VcInvalidInput ''vault spread quote must be valid before its market expiry'')
     else Ok ())"

definition spread_market :: "find_pda \<Rightarrow> VaultSpreadTerms \<Rightarrow> key \<Rightarrow> key" where
  "spread_market pda t program_id =
     market_pda pda program_id (vs_underlying_mint t) (vs_quote_mint t) (vs_expiry_ts t) (vs_kind t = SPutSpread)"

definition vault_spread_preimage_args ::
  "find_pda \<Rightarrow> VaultSpreadTerms \<Rightarrow> key \<Rightarrow> key \<Rightarrow> key \<Rightarrow> SpreadOrderPreimageArgs" where
  "vault_spread_preimage_args pda t program_id maker taker =
     \<lparr>so_chain_id = 0, so_program_id = program_id, so_side = vs_side t, so_position_type = vs_kind t,
      so_market = spread_market pda t program_id, so_lower_strike = vs_lower_strike t,
      so_upper_strike = vs_upper_strike t, so_quantity = vs_quantity t, so_gross_price = vs_price t,
      so_valid_until = vs_valid_until t, so_maker = maker, so_taker = taker, so_nonce = vs_nonce t\<rparr>"

definition spread_order_id ::
  "find_pda \<Rightarrow> crypto \<Rightarrow> VaultSpreadTerms \<Rightarrow> key \<Rightarrow> key \<Rightarrow> key \<Rightarrow> (VaultChainError, bytes) res" where
  "spread_order_id pda cr t program_id maker taker =
     map_err (\<lambda>_. VcInvalidInput ''invalid vault spread order'')
       (compute_spread_order_id cr (vault_spread_preimage_args pda t program_id maker taker))"

definition spread_args :: "VaultSpreadTerms \<Rightarrow> bytes \<Rightarrow> bytes" where
  "spread_args t order_id =
     spread_type_u8 (vs_kind t) #
     concat (map u64_le [vs_lower_strike t, vs_quantity t, vs_price t, vs_valid_until t, vs_nonce t]) @
     order_id @ u64_le (vs_upper_strike t)"

definition require_side :: "TakerSide \<Rightarrow> TakerSide \<Rightarrow> (VaultChainError, unit) res" where
  "require_side side route =
     (if side = route then Ok ()
      else Err (VcInvalidInput (if is_taker_buy route then ''taker_sell_unsupported'' else ''taker_buy_unsupported'')))"

section \<open>Addresses\<close>

definition position_addresses ::
  "find_pda \<Rightarrow> VaultManager \<Rightarrow> MarketLegs \<Rightarrow> VaultTradeTerms \<Rightarrow> bytes \<Rightarrow> VaultPositionAddresses" where
  "position_addresses pda m legs t order_id =
     (let program_id = vm_program_id (mg_args m); position = fst (pda_position pda program_id order_id);
          config = fst (pda_premium_config pda program_id (as_mint (ml_quote legs)));
          collateral = legs_collateral legs (tt_is_put t) in
      \<lparr>pa_market = trade_market pda t program_id, pa_position = position,
       pa_collateral_mint = as_mint collateral, pa_collateral_token_program = as_program collateral,
       pa_collateral_ata = ata pda position (as_mint collateral) (as_program collateral), pa_config = config,
       pa_protocol_fee_ata = ata pda config (as_mint (ml_quote legs)) (as_program (ml_quote legs))\<rparr>)"

definition spread_addresses ::
  "find_pda \<Rightarrow> VaultManager \<Rightarrow> MarketLegs \<Rightarrow> VaultSpreadTerms \<Rightarrow> bytes \<Rightarrow> VaultPositionAddresses" where
  "spread_addresses pda m legs t order_id =
     (let program_id = vm_program_id (mg_args m); position = fst (pda_position pda program_id order_id);
          q = ml_quote legs; config = fst (pda_premium_config pda program_id (as_mint q)) in
      \<lparr>pa_market = spread_market pda t program_id, pa_position = position,
       pa_collateral_mint = as_mint q, pa_collateral_token_program = as_program q,
       pa_collateral_ata = ata pda position (as_mint q) (as_program q), pa_config = config,
       pa_protocol_fee_ata = ata pda config (as_mint q) (as_program q)\<rparr>)"

definition market_tail :: "VaultManager \<Rightarrow> MarketLegs \<Rightarrow> AccountMeta list" where
  "market_tail m legs =
     [meta_readonly INSTRUCTIONS_SYSVAR_ID False, meta_readonly (as_mint (ml_underlying legs)) False,
      meta_readonly (as_mint (ml_quote legs)) False, meta_readonly (as_program (ml_underlying legs)) False,
      meta_readonly (as_program (ml_quote legs)) False, meta_readonly SYSTEM_PROGRAM_ID False,
      meta_readonly (ad_global_config (mg_addresses m)) False]"

section \<open>Opening instructions\<close>

definition open_as_writer ::
  "find_pda \<Rightarrow> VaultManager \<Rightarrow> VaultIx \<Rightarrow> key \<Rightarrow> WriterHolder \<Rightarrow> MarketLegs \<Rightarrow> bytes \<Rightarrow>
   VaultPositionAddresses \<Rightarrow> bytes \<Rightarrow> VaultOpenPosition" where
  "open_as_writer pda m ix keeper holder legs order_id addresses args =
     (let (participant, counterparty, holder_kind) = (case holder of
              HolderMaker maker \<Rightarrow> (vm_actor (mg_args m), maker, 0)
            | HolderWallet wallet \<Rightarrow> (wallet, wallet, 1));
          a = mg_addresses m in
      \<lparr>op_order_id = order_id, op_addresses = addresses,
       op_instruction = vault_instruction m ix
         ([meta_new keeper True, meta_new participant True, meta_new (ad_vault a) False,
           meta_readonly (ad_policy a) False, meta_readonly (ad_delegate a) False,
           meta_new (ad_vault_main_ata a) False, meta_new (ad_vault_second_ata a) False,
           meta_readonly counterparty False,
           meta_new (ata pda counterparty (as_mint (ml_quote legs)) (as_program (ml_quote legs))) False,
           meta_new (pa_market addresses) False, meta_new (pa_position addresses) False,
           meta_new (pa_collateral_ata addresses) False, meta_readonly (pa_config addresses) False,
           meta_new (pa_protocol_fee_ata addresses) False] @ market_tail m legs @
          [meta_readonly (vm_share_mint (mg_args m)) False, meta_readonly (ad_manager_stake_ata a) False])
         (args @ [holder_kind])\<rparr>)"

definition open_as_holder ::
  "find_pda \<Rightarrow> VaultManager \<Rightarrow> VaultIx \<Rightarrow> key \<Rightarrow> key \<Rightarrow> MarketLegs \<Rightarrow> bytes \<Rightarrow>
   VaultPositionAddresses \<Rightarrow> bytes \<Rightarrow> VaultOpenPosition" where
  "open_as_holder pda m ix keeper taker legs order_id addresses args =
     (let a = mg_addresses m; u = ml_underlying legs; q = ml_quote legs in
      \<lparr>op_order_id = order_id, op_addresses = addresses,
       op_instruction = vault_instruction m ix
         ([meta_new keeper True, meta_new taker True, meta_new (ad_vault a) False,
           meta_readonly (ad_policy a) False, meta_readonly (ad_delegate a) False,
           meta_new (as_vault_ata q) False, meta_new (ata pda taker (as_mint u) (as_program u)) False,
           meta_new (ata pda taker (as_mint q) (as_program q)) False,
           meta_new (pa_market addresses) False, meta_new (pa_position addresses) False,
           meta_new (pa_collateral_ata addresses) False, meta_readonly (pa_config addresses) False,
           meta_new (pa_protocol_fee_ata addresses) False] @ market_tail m legs @
          [meta_readonly (vm_share_mint (mg_args m)) False, meta_readonly (ad_manager_stake_ata a) False])
         args\<rparr>)"

definition open_between_vaults ::
  "VaultManager \<Rightarrow> VaultIx \<Rightarrow> key \<Rightarrow> VaultManager \<Rightarrow> MarketLegs \<Rightarrow> MarketLegs \<Rightarrow> bytes \<Rightarrow>
   VaultPositionAddresses \<Rightarrow> bytes \<Rightarrow> VaultOpenPosition" where
  "open_between_vaults m ix keeper holder holder_legs legs order_id addresses args =
     (let w = mg_addresses m; h = mg_addresses holder in
      \<lparr>op_order_id = order_id, op_addresses = addresses,
       op_instruction = vault_instruction m ix
         ([meta_new keeper True, meta_new (vm_actor (mg_args m)) True, meta_new (ad_vault w) False,
           meta_readonly (ad_policy w) False, meta_readonly (ad_delegate w) False,
           meta_new (ad_vault_main_ata w) False, meta_new (ad_vault_second_ata w) False,
           meta_new (ad_vault h) False, meta_readonly (ad_policy h) False, meta_readonly (ad_delegate h) False,
           meta_new (as_vault_ata (ml_quote holder_legs)) False,
           meta_new (pa_market addresses) False, meta_new (pa_position addresses) False,
           meta_new (pa_collateral_ata addresses) False, meta_readonly (pa_config addresses) False,
           meta_new (pa_protocol_fee_ata addresses) False] @ market_tail m legs @
          [meta_readonly (vm_share_mint (mg_args m)) False, meta_readonly (ad_manager_stake_ata w) False,
           meta_readonly (vm_share_mint (mg_args holder)) False, meta_readonly (ad_manager_stake_ata h) False])
         args\<rparr>)"

section \<open>Physical opens\<close>

definition fund_holder_position ::
  "find_pda \<Rightarrow> VaultManager \<Rightarrow> VaultPositionRef \<Rightarrow> (VaultChainError, Instruction) res" where
  "fund_holder_position pda m p =
     (if pr_expiry_ts p = 0 \<or> pr_order_id p = replicate 32 0
      then Err (VcInvalidInput ''vault position requires a non-zero expiry and order id'')
      else
        bind_res (legs_bind m (pr_underlying_mint p) (pr_quote_mint p)) (\<lambda>legs.
        let funding = legs_settlement legs (pr_is_put p); program_id = vm_program_id (mg_args m);
            position_pda = fst (pda_position pda program_id (pr_order_id p));
            market = market_pda pda program_id (pr_underlying_mint p) (pr_quote_mint p) (pr_expiry_ts p) (pr_is_put p) in
        Ok (vault_instruction m FundPositionForVaultHolder
          [meta_readonly (vm_actor (mg_args m)) True, meta_readonly (ad_vault (mg_addresses m)) False,
           meta_readonly (ad_delegate (mg_addresses m)) False, meta_new position_pda False,
           meta_readonly market False, meta_new (as_vault_ata funding) False,
           meta_new (ata pda position_pda (as_mint funding) (as_program funding)) False,
           meta_readonly (as_mint funding) False, meta_readonly (as_program funding) False] [])))"

definition open_position_as_writer ::
  "find_pda \<Rightarrow> crypto \<Rightarrow> VaultManager \<Rightarrow> key \<Rightarrow> key \<Rightarrow> VaultTradeTerms \<Rightarrow> (VaultChainError, VaultOpenPosition) res" where
  "open_position_as_writer pda cr m keeper maker_owner t =
     bind_res (trade_validate t) (\<lambda>_.
     bind_res (require_side (tt_side t) Sell) (\<lambda>_.
     bind_res (legs_bind m (tt_underlying_mint t) (tt_quote_mint t)) (\<lambda>legs.
     bind_res (trade_order_id pda cr t (vm_program_id (mg_args m)) maker_owner (ad_vault (mg_addresses m))) (\<lambda>order_id.
     let addresses = position_addresses pda m legs t order_id;
         maker = fst (maker_pda pda (vm_program_id (mg_args m)) maker_owner) in
     Ok (open_as_writer pda m OpenPositionForVaultWriter keeper (HolderMaker maker) legs order_id addresses
       (trade_args t order_id))))))"

definition open_position_for_wallet_holder ::
  "find_pda \<Rightarrow> crypto \<Rightarrow> VaultManager \<Rightarrow> key \<Rightarrow> key \<Rightarrow> VaultTradeTerms \<Rightarrow> (VaultChainError, VaultOpenPosition) res" where
  "open_position_for_wallet_holder pda cr m keeper holder t =
     bind_res (trade_validate t) (\<lambda>_.
     bind_res (require_side (tt_side t) Buy) (\<lambda>_.
     bind_res (legs_bind m (tt_underlying_mint t) (tt_quote_mint t)) (\<lambda>legs.
     bind_res (trade_order_id pda cr t (vm_program_id (mg_args m)) (ad_vault (mg_addresses m)) holder) (\<lambda>order_id.
     let addresses = position_addresses pda m legs t order_id in
     Ok (open_as_writer pda m OpenPositionForVaultWriter keeper (HolderWallet holder) legs order_id addresses
       (trade_args t order_id))))))"

definition open_position_as_holder ::
  "find_pda \<Rightarrow> crypto \<Rightarrow> VaultManager \<Rightarrow> key \<Rightarrow> key \<Rightarrow> VaultTradeTerms \<Rightarrow> (VaultChainError, VaultOpenPosition) res" where
  "open_position_as_holder pda cr m keeper taker t =
     bind_res (trade_validate t) (\<lambda>_.
     bind_res (require_side (tt_side t) Sell) (\<lambda>_.
     bind_res (legs_bind m (tt_underlying_mint t) (tt_quote_mint t)) (\<lambda>legs.
     bind_res (trade_order_id pda cr t (vm_program_id (mg_args m)) (ad_vault (mg_addresses m)) taker) (\<lambda>order_id.
     let addresses = position_addresses pda m legs t order_id in
     Ok (open_as_holder pda m OpenPositionForVaultHolder keeper taker legs order_id addresses
       (trade_args t order_id))))))"

text \<open>The guard both vault-to-vault opens share.\<close>

definition require_vault_pair ::
  "VaultManager \<Rightarrow> VaultManager \<Rightarrow> MarketLegs \<Rightarrow> MarketLegs \<Rightarrow> (VaultChainError, unit) res" where
  "require_vault_pair m holder legs holder_legs =
     (if ad_vault (mg_addresses m) = ad_vault (mg_addresses holder) \<or>
         vm_program_id (mg_args m) \<noteq> vm_program_id (mg_args holder) \<or>
         as_program (ml_underlying holder_legs) \<noteq> as_program (ml_underlying legs) \<or>
         as_program (ml_quote holder_legs) \<noteq> as_program (ml_quote legs)
      then Err (VcInvalidInput ''vault-to-vault requires two distinct vaults on the same program and token pair'')
      else Ok ())"

definition open_position_with_vault_holder ::
  "find_pda \<Rightarrow> crypto \<Rightarrow> VaultManager \<Rightarrow> key \<Rightarrow> VaultManager \<Rightarrow> VaultTradeTerms \<Rightarrow>
   (VaultChainError, VaultOpenPosition) res" where
  "open_position_with_vault_holder pda cr m keeper holder t =
     bind_res (trade_validate t) (\<lambda>_.
     bind_res (require_side (tt_side t) Sell) (\<lambda>_.
     bind_res (legs_bind m (tt_underlying_mint t) (tt_quote_mint t)) (\<lambda>legs.
     bind_res (legs_bind holder (tt_underlying_mint t) (tt_quote_mint t)) (\<lambda>holder_legs.
     bind_res (require_vault_pair m holder legs holder_legs) (\<lambda>_.
     bind_res (trade_order_id pda cr t (vm_program_id (mg_args m)) (ad_vault (mg_addresses holder))
         (ad_vault (mg_addresses m))) (\<lambda>order_id.
     let addresses = position_addresses pda m legs t order_id in
     Ok (open_between_vaults m OpenPositionBetweenVaults keeper holder holder_legs legs order_id addresses
       (trade_args t order_id))))))))"

section \<open>Spread opens\<close>

definition open_spread_as_writer ::
  "find_pda \<Rightarrow> crypto \<Rightarrow> VaultManager \<Rightarrow> key \<Rightarrow> key \<Rightarrow> VaultSpreadTerms \<Rightarrow> (VaultChainError, VaultOpenPosition) res" where
  "open_spread_as_writer pda cr m keeper maker_owner t =
     bind_res (spread_validate t) (\<lambda>_.
     bind_res (require_side (vs_side t) Sell) (\<lambda>_.
     bind_res (legs_bind m (vs_underlying_mint t) (vs_quote_mint t)) (\<lambda>legs.
     bind_res (spread_order_id pda cr t (vm_program_id (mg_args m)) maker_owner (ad_vault (mg_addresses m))) (\<lambda>order_id.
     let addresses = spread_addresses pda m legs t order_id;
         maker = fst (maker_pda pda (vm_program_id (mg_args m)) maker_owner) in
     Ok (open_as_writer pda m OpenSpreadForVaultWriter keeper (HolderMaker maker) legs order_id addresses
       (spread_args t order_id))))))"

definition open_spread_for_wallet_holder ::
  "find_pda \<Rightarrow> crypto \<Rightarrow> VaultManager \<Rightarrow> key \<Rightarrow> key \<Rightarrow> VaultSpreadTerms \<Rightarrow> (VaultChainError, VaultOpenPosition) res" where
  "open_spread_for_wallet_holder pda cr m keeper holder t =
     bind_res (spread_validate t) (\<lambda>_.
     bind_res (require_side (vs_side t) Buy) (\<lambda>_.
     bind_res (legs_bind m (vs_underlying_mint t) (vs_quote_mint t)) (\<lambda>legs.
     bind_res (spread_order_id pda cr t (vm_program_id (mg_args m)) (ad_vault (mg_addresses m)) holder) (\<lambda>order_id.
     let addresses = spread_addresses pda m legs t order_id in
     Ok (open_as_writer pda m OpenSpreadForVaultWriter keeper (HolderWallet holder) legs order_id addresses
       (spread_args t order_id))))))"

definition open_spread_as_holder ::
  "find_pda \<Rightarrow> crypto \<Rightarrow> VaultManager \<Rightarrow> key \<Rightarrow> key \<Rightarrow> VaultSpreadTerms \<Rightarrow> (VaultChainError, VaultOpenPosition) res" where
  "open_spread_as_holder pda cr m keeper taker t =
     bind_res (spread_validate t) (\<lambda>_.
     bind_res (require_side (vs_side t) Sell) (\<lambda>_.
     bind_res (legs_bind m (vs_underlying_mint t) (vs_quote_mint t)) (\<lambda>legs.
     bind_res (spread_order_id pda cr t (vm_program_id (mg_args m)) (ad_vault (mg_addresses m)) taker) (\<lambda>order_id.
     let addresses = spread_addresses pda m legs t order_id in
     Ok (open_as_holder pda m OpenSpreadForVaultHolder keeper taker legs order_id addresses
       (spread_args t order_id))))))"

definition open_spread_with_vault_holder ::
  "find_pda \<Rightarrow> crypto \<Rightarrow> VaultManager \<Rightarrow> key \<Rightarrow> VaultManager \<Rightarrow> VaultSpreadTerms \<Rightarrow>
   (VaultChainError, VaultOpenPosition) res" where
  "open_spread_with_vault_holder pda cr m keeper holder t =
     bind_res (spread_validate t) (\<lambda>_.
     bind_res (require_side (vs_side t) Sell) (\<lambda>_.
     bind_res (legs_bind m (vs_underlying_mint t) (vs_quote_mint t)) (\<lambda>legs.
     bind_res (legs_bind holder (vs_underlying_mint t) (vs_quote_mint t)) (\<lambda>holder_legs.
     bind_res (require_vault_pair m holder legs holder_legs) (\<lambda>_.
     bind_res (spread_order_id pda cr t (vm_program_id (mg_args m)) (ad_vault (mg_addresses holder))
         (ad_vault (mg_addresses m))) (\<lambda>order_id.
     let addresses = spread_addresses pda m legs t order_id in
     Ok (open_between_vaults m OpenSpreadBetweenVaults keeper holder holder_legs legs order_id addresses
       (spread_args t order_id))))))))"

section \<open>What an open promises\<close>

text \<open>Both kinds of sale behind one set of names, as \<^verbatim>\<open>VaultSaleTerms\<close> has them.\<close>

fun sale_validate :: "VaultSaleTerms \<Rightarrow> (VaultChainError, unit) res" where
  "sale_validate (Physical t) = trade_validate t"
| "sale_validate (Spread t) = spread_validate t"

fun sale_side :: "VaultSaleTerms \<Rightarrow> TakerSide" where
  "sale_side (Physical t) = tt_side t"
| "sale_side (Spread t) = vs_side t"

fun sale_market :: "find_pda \<Rightarrow> VaultSaleTerms \<Rightarrow> key \<Rightarrow> key" where
  "sale_market pda (Physical t) program = trade_market pda t program"
| "sale_market pda (Spread t) program = spread_market pda t program"

fun sale_args :: "VaultSaleTerms \<Rightarrow> bytes \<Rightarrow> bytes" where
  "sale_args (Physical t) order_id = trade_args t order_id"
| "sale_args (Spread t) order_id = spread_args t order_id"

text \<open>The order that the parties of a sale sign.\<close>

fun sale_order ::
  "find_pda \<Rightarrow> VaultSaleTerms \<Rightarrow> key \<Rightarrow> key \<Rightarrow> key \<Rightarrow> OrderPreimageArgs + SpreadOrderPreimageArgs" where
  "sale_order pda (Physical t) program maker taker = Inl (trade_preimage_args pda t program maker taker)"
| "sale_order pda (Spread t) program maker taker = Inr (vault_spread_preimage_args pda t program maker taker)"

fun sale_order_id ::
  "find_pda \<Rightarrow> crypto \<Rightarrow> VaultSaleTerms \<Rightarrow> key \<Rightarrow> key \<Rightarrow> key \<Rightarrow> (VaultChainError, bytes) res" where
  "sale_order_id pda cr (Physical t) program maker taker = trade_order_id pda cr t program maker taker"
| "sale_order_id pda cr (Spread t) program maker taker = spread_order_id pda cr t program maker taker"

text \<open>
  \<open>opens\<close> is the contract of an opened position: valid terms on the side the route is for, the order
  id of exactly these terms and parties, addresses derived from it, an instruction that carries the
  terms and the order id, and two signers.
\<close>

definition opens ::
  "find_pda \<Rightarrow> crypto \<Rightarrow> VaultSaleTerms \<Rightarrow> TakerSide \<Rightarrow> key \<Rightarrow> key \<Rightarrow> key \<Rightarrow> key list \<Rightarrow> u8 \<Rightarrow> bytes \<Rightarrow>
   VaultOpenPosition \<Rightarrow> bool" where
  "opens pda cr sale side program maker taker signers tag suffix p \<longleftrightarrow>
     sale_validate sale = Ok () \<and> sale_side sale = side \<and>
     sale_order_id pda cr sale program maker taker = Ok (op_order_id p) \<and>
     pa_market (op_addresses p) = sale_market pda sale program \<and>
     pa_position (op_addresses p) = fst (pda_position pda program (op_order_id p)) \<and>
     pa_collateral_ata (op_addresses p) = ata pda (pa_position (op_addresses p))
       (pa_collateral_mint (op_addresses p)) (pa_collateral_token_program (op_addresses p)) \<and>
     ix_program_id (op_instruction p) = program \<and>
     ix_data (op_instruction p) = tag # sale_args sale (op_order_id p) @ suffix \<and>
     signers_of (ix_accounts (op_instruction p)) = signers"

lemma require_side_eq_Ok [res_simps]: "require_side s r = Ok u \<longleftrightarrow> s = r"
  by (cases u) (simp add: require_side_def)

lemma require_side_not_Panic [simp]: "require_side s r \<noteq> Panic"
  by (simp add: require_side_def)

lemma legs_bind_not_Panic [simp]: "legs_bind m u q \<noteq> Panic"
  by (simp add: legs_bind_def Let_def)

lemma signers_of_simps [simp]:
  "signers_of [] = []"
  "signers_of (meta_new k s # ms) = (if s then k # signers_of ms else signers_of ms)"
  "signers_of (meta_readonly k s # ms) = (if s then k # signers_of ms else signers_of ms)"
  "signers_of (ms @ ns) = signers_of ms @ signers_of ns"
  by (simp_all add: signers_of_def meta_new_def meta_readonly_def)

lemma market_tail_signers [simp]: "signers_of (market_tail m legs) = []"
  by (simp add: market_tail_def)

lemmas open_route_defs = open_position_as_writer_def open_position_for_wallet_holder_def
  open_position_as_holder_def open_position_with_vault_holder_def open_spread_as_writer_def
  open_spread_for_wallet_holder_def open_spread_as_holder_def open_spread_with_vault_holder_def

lemmas open_shape_defs = opens_def open_as_writer_def open_as_holder_def open_between_vaults_def
  position_addresses_def spread_addresses_def vault_instruction_def

lemma open_position_as_writer_opens:
  assumes "open_position_as_writer pda cr m keeper maker_owner t = Ok p"
  shows "opens pda cr (Physical t) Sell (vm_program_id (mg_args m)) maker_owner (ad_vault (mg_addresses m))
    [keeper, vm_actor (mg_args m)] 41 [0] p"
  using assms by (auto simp: open_route_defs open_shape_defs res_simps Let_def)

lemma open_position_for_wallet_holder_opens:
  assumes "open_position_for_wallet_holder pda cr m keeper holder t = Ok p"
  shows "opens pda cr (Physical t) Buy (vm_program_id (mg_args m)) (ad_vault (mg_addresses m)) holder
    [keeper, holder] 41 [1] p"
  using assms by (auto simp: open_route_defs open_shape_defs res_simps Let_def)

lemma open_position_as_holder_opens:
  assumes "open_position_as_holder pda cr m keeper taker t = Ok p"
  shows "opens pda cr (Physical t) Sell (vm_program_id (mg_args m)) (ad_vault (mg_addresses m)) taker
    [keeper, taker] 42 [] p"
  using assms by (auto simp: open_route_defs open_shape_defs res_simps Let_def)

lemma open_position_with_vault_holder_opens:
  assumes "open_position_with_vault_holder pda cr m keeper holder t = Ok p"
  shows "opens pda cr (Physical t) Sell (vm_program_id (mg_args m)) (ad_vault (mg_addresses holder))
    (ad_vault (mg_addresses m)) [keeper, vm_actor (mg_args m)] 61 [] p"
  using assms by (auto simp: open_route_defs open_shape_defs res_simps Let_def)

lemma open_spread_as_writer_opens:
  assumes "open_spread_as_writer pda cr m keeper maker_owner t = Ok p"
  shows "opens pda cr (Spread t) Sell (vm_program_id (mg_args m)) maker_owner (ad_vault (mg_addresses m))
    [keeper, vm_actor (mg_args m)] 78 [0] p"
  using assms by (auto simp: open_route_defs open_shape_defs res_simps Let_def)

lemma open_spread_for_wallet_holder_opens:
  assumes "open_spread_for_wallet_holder pda cr m keeper holder t = Ok p"
  shows "opens pda cr (Spread t) Buy (vm_program_id (mg_args m)) (ad_vault (mg_addresses m)) holder
    [keeper, holder] 78 [1] p"
  using assms by (auto simp: open_route_defs open_shape_defs res_simps Let_def)

lemma open_spread_as_holder_opens:
  assumes "open_spread_as_holder pda cr m keeper taker t = Ok p"
  shows "opens pda cr (Spread t) Sell (vm_program_id (mg_args m)) (ad_vault (mg_addresses m)) taker
    [keeper, taker] 79 [] p"
  using assms by (auto simp: open_route_defs open_shape_defs res_simps Let_def)

lemma open_spread_with_vault_holder_opens:
  assumes "open_spread_with_vault_holder pda cr m keeper holder t = Ok p"
  shows "opens pda cr (Spread t) Sell (vm_program_id (mg_args m)) (ad_vault (mg_addresses holder))
    (ad_vault (mg_addresses m)) [keeper, vm_actor (mg_args m)] 80 [] p"
  using assms by (auto simp: open_route_defs open_shape_defs res_simps Let_def)

lemmas opens_rules = open_position_as_writer_opens open_position_for_wallet_holder_opens
  open_position_as_holder_opens open_position_with_vault_holder_opens open_spread_as_writer_opens
  open_spread_for_wallet_holder_opens open_spread_as_holder_opens open_spread_with_vault_holder_opens

section \<open>Order ids\<close>

text \<open>\<^verbatim>\<open>find_program_address\<close> returns a 32-byte key.\<close>

definition pda_ok :: "find_pda \<Rightarrow> bool" where
  "pda_ok pda \<longleftrightarrow> (\<forall>seeds program. is_key (fst (pda seeds program)))"

lemma sale_order_wf:
  assumes "pda_ok pda" "is_key program" "is_key maker" "is_key taker"
  shows "wf_order (sale_order pda sale program maker taker)"
  using assms
  by (cases sale) (simp_all add: wf_order_args_def wf_spread_args_def trade_preimage_args_def
    vault_spread_preimage_args_def trade_market_def spread_market_def market_pda_def pda_ok_def)

lemma sale_order_id_hash:
  assumes "pda_ok pda" "is_key program" "is_key maker" "is_key taker"
  shows "sale_order_id pda cr sale program maker taker = Ok oid \<longleftrightarrow>
    (\<exists>m. signed_message (sale_order pda sale program maker taker) = Some m \<and> oid = hash_order_preimage cr m)"
proof (cases sale)
  case (Physical t)
  have "wf_order_args (trade_preimage_args pda t program maker taker)"
    using sale_order_wf [OF assms, of sale] Physical by simp
  then show ?thesis
    using Physical by (auto simp: trade_order_id_def build_physical_layout signed_message_physical
      trade_preimage_args_def simp del: signed_message.simps)
next
  case (Spread t)
  then show ?thesis
    by (auto simp: spread_order_id_def compute_spread_order_id_def hash_order_preimage_def res_simps split: res.splits)
qed

lemma sale_order_id_not_Panic:
  assumes "pda_ok pda" "is_key program" "is_key maker" "is_key taker"
  shows "sale_order_id pda cr sale program maker taker \<noteq> Panic"
proof -
  have w: "wf_order (sale_order pda sale program maker taker)" by (rule sale_order_wf [OF assms])
  show ?thesis
  proof (cases sale)
    case (Physical t)
    with w show ?thesis by (simp add: trade_order_id_def build_physical_layout)
  next
    case (Spread t)
    with w show ?thesis
      by (simp add: spread_order_id_def compute_spread_order_id_def build_spread_layout res_simps validate_premium_not_Panic)
  qed
qed

lemma sale_order_inject:
  assumes "sale_order pda s program maker taker = sale_order pda s' program' maker' taker'"
  shows "program = program' \<and> maker = maker' \<and> taker = taker' \<and> sale_side s = sale_side s' \<and>
    sale_market pda s program = sale_market pda s' program' \<and>
    (\<forall>oid. sale_args s oid = sale_args s' oid)"
  using assms
  by (cases s; cases s')
    (auto simp: trade_preimage_args_def vault_spread_preimage_args_def trade_args_def spread_args_def split: if_splits)

text \<open>
  C5. An order id names one sale. If two positions are opened, on any route, with physical or spread
  terms, and their ids are equal with no collision of the hash on the two signed messages, then the two
  sales are one order: program, maker, taker, side and market agree, the position is the same account,
  and the two instructions carry the same strike, quantity, price, validity and nonce. No order id opens
  a position on other terms or with other parties.
\<close>

theorem order_id_names_sale:
  assumes "pda_ok pda" and "list_all is_key [program, maker, taker, program', maker', taker']"
    and "opens pda cr s side program maker taker signers tag suffix p"
    and "opens pda cr s' side' program' maker' taker' signers' tag' suffix' p'"
    and "op_order_id p = op_order_id p'"
    and "\<And>m m'. signed_message (sale_order pda s program maker taker) = Some m \<Longrightarrow>
      signed_message (sale_order pda s' program' maker' taker') = Some m' \<Longrightarrow>
      hash_order_preimage cr m = hash_order_preimage cr m' \<Longrightarrow> m = m'"
  shows "program = program' \<and> maker = maker' \<and> taker = taker' \<and> side = side' \<and>
    pa_market (op_addresses p) = pa_market (op_addresses p') \<and>
    pa_position (op_addresses p) = pa_position (op_addresses p') \<and>
    (\<exists>args. ix_data (op_instruction p) = tag # args @ suffix \<and> ix_data (op_instruction p') = tag' # args @ suffix')"
proof -
  have k: "is_key program" "is_key maker" "is_key taker" "is_key program'" "is_key maker'" "is_key taker'"
    using assms(2) by simp_all
  have i: "sale_order_id pda cr s program maker taker = Ok (op_order_id p)"
    "sale_order_id pda cr s' program' maker' taker' = Ok (op_order_id p)"
    using assms(3-5) by (simp_all add: opens_def)
  obtain m where m: "signed_message (sale_order pda s program maker taker) = Some m"
      "op_order_id p = hash_order_preimage cr m"
    using i(1) sale_order_id_hash [OF assms(1) k(1-3)] by blast
  obtain m' where m': "signed_message (sale_order pda s' program' maker' taker') = Some m'"
      "op_order_id p = hash_order_preimage cr m'"
    using i(2) sale_order_id_hash [OF assms(1) k(4-6)] by blast
  have "m = m'" using assms(6) m m' by metis
  then have "sale_order pda s program maker taker = sale_order pda s' program' maker' taker'"
    using signed_message_inject sale_order_wf [OF assms(1)] k m m' by metis
  from sale_order_inject [OF this] show ?thesis
    using assms(3-5) by (auto simp: opens_def)
qed

definition sample_holder :: VaultManager where
  "sample_holder =
     (let args = (mg_args sample_manager)\<lparr>vm_vault_id := replicate 32 2, vm_actor := replicate 32 5,
        vm_delegate_authority := replicate 32 5, vm_share_mint := replicate 32 8\<rparr> in
      \<lparr>mg_args = args, mg_addresses = manager_addresses sample_pda args\<rparr>)"

definition sample_terms :: VaultTradeTerms where
  "sample_terms = \<lparr>tt_underlying_mint = replicate 32 4, tt_quote_mint = replicate 32 7, tt_expiry_ts = 1000,
     tt_is_put = False, tt_side = Sell, tt_strike = 50, tt_quantity = 3, tt_price = 2, tt_valid_until = 900,
     tt_nonce = 1\<rparr>"

lemma sample_pda_ok: "pda_ok sample_pda"
  by (simp add: pda_ok_def sample_pda_def min_def)

lemma sample_managers:
  "mg_args sample_manager = \<lparr>vm_program_id = replicate 32 9, vm_vault_id = replicate 32 1, vm_actor = replicate 32 3,
     vm_delegate_authority = replicate 32 3, vm_main_mint = replicate 32 4, vm_second_mint = replicate 32 7,
     vm_share_mint = replicate 32 6, vm_main_token_program = TOKEN_PROGRAM_ID,
     vm_second_token_program = TOKEN_PROGRAM_ID, vm_second_leg_generation = 0\<rparr>"
  "mg_args sample_holder = \<lparr>vm_program_id = replicate 32 9, vm_vault_id = replicate 32 2, vm_actor = replicate 32 5,
     vm_delegate_authority = replicate 32 5, vm_main_mint = replicate 32 4, vm_second_mint = replicate 32 7,
     vm_share_mint = replicate 32 8, vm_main_token_program = TOKEN_PROGRAM_ID,
     vm_second_token_program = TOKEN_PROGRAM_ID, vm_second_leg_generation = 0\<rparr>"
  "is_key (ad_vault (mg_addresses sample_manager))" "is_key (ad_vault (mg_addresses sample_holder))"
  "ad_vault (mg_addresses sample_manager) \<noteq> ad_vault (mg_addresses sample_holder)"
  by (simp_all add: sample_manager_def sample_holder_def Let_def manager_addresses_def pda_vault_def sample_pda_def)

lemma sample_legs: "\<exists>legs. legs_bind m (replicate 32 4) (replicate 32 7) = Ok legs"
  if "mg_args m = mg_args sample_manager \<or> mg_args m = mg_args sample_holder"
  using that by (auto simp: legs_bind_def Let_def sample_managers)

lemma sample_open_as_writer:
  assumes "is_key maker"
  shows "\<exists>p. open_position_as_writer sample_pda plain_crypto sample_manager keeper maker sample_terms = Ok p"
proof -
  have "\<exists>oid. sale_order_id sample_pda plain_crypto (Physical sample_terms) (replicate 32 9) maker
      (ad_vault (mg_addresses sample_manager)) = Ok oid"
    using sale_order_wf [OF sample_pda_ok, of "replicate 32 9" maker "ad_vault (mg_addresses sample_manager)" "Physical sample_terms"]
      assms sample_managers
    by (simp add: trade_order_id_def build_physical_layout)
  then show ?thesis
    using sample_legs [of sample_manager]
    by (auto simp: open_position_as_writer_def trade_validate_def sample_terms_def require_side_def sample_managers Let_def)
qed

lemma sample_open_with_vault_holder:
  "\<exists>p. open_position_with_vault_holder sample_pda plain_crypto sample_manager keeper sample_holder sample_terms = Ok p"
proof -
  have "\<exists>oid. sale_order_id sample_pda plain_crypto (Physical sample_terms) (replicate 32 9)
      (ad_vault (mg_addresses sample_holder)) (ad_vault (mg_addresses sample_manager)) = Ok oid"
    using sale_order_wf [OF sample_pda_ok, of "replicate 32 9" "ad_vault (mg_addresses sample_holder)"
        "ad_vault (mg_addresses sample_manager)" "Physical sample_terms"] sample_managers
    by (simp add: trade_order_id_def build_physical_layout)
  then show ?thesis
    by (auto simp: open_position_with_vault_holder_def trade_validate_def sample_terms_def require_side_def
      sample_managers Let_def legs_bind_def require_vault_pair_def)
qed

text \<open>
  The two routes on which one order can open: sold to a maker that is the other vault's address, and
  opened between the two vaults.
\<close>

theorem order_id_names_sale_witness:
  "\<exists>p p'. open_position_as_writer sample_pda plain_crypto sample_manager (replicate 32 8)
       (ad_vault (mg_addresses sample_holder)) sample_terms = Ok p \<and>
     open_position_with_vault_holder sample_pda plain_crypto sample_manager (replicate 32 8) sample_holder
       sample_terms = Ok p' \<and>
     pa_position (op_addresses p) = pa_position (op_addresses p')"
proof -
  let ?k = "replicate 32 8 :: key"
  obtain p where p: "open_position_as_writer sample_pda plain_crypto sample_manager ?k
      (ad_vault (mg_addresses sample_holder)) sample_terms = Ok p"
    using sample_open_as_writer sample_managers(4) by blast
  obtain p' where p': "open_position_with_vault_holder sample_pda plain_crypto sample_manager ?k sample_holder
      sample_terms = Ok p'"
    using sample_open_with_vault_holder by blast
  note o = open_position_as_writer_opens [OF p] open_position_with_vault_holder_opens [OF p']
  have "op_order_id p = op_order_id p'" using o by (simp add: opens_def)
  then have "pa_position (op_addresses p) = pa_position (op_addresses p')"
    using order_id_names_sale [OF sample_pda_ok _ o] sample_managers by simp
  with p p' show ?thesis by blast
qed

end
