(* ===== verification/ServedOpen.thy ===== *)
theory ServedOpen
  imports Served VaultTrading
begin

text \<open>
  \<^verbatim>\<open>src/src/chain/vault/served.rs\<close>, \<^verbatim>\<open>verify_vault_open\<close>: the transaction a venue serves for a vault open is
  rebuilt from what the signer agreed to and compared with what was served. Acceptance is shown to mean
  that the signer signs exactly the agreed open, and nothing else.
\<close>

section \<open>Intents\<close>

record SponsoredTxToSignData =
  st_order_id :: bytes
  st_tx_base64 :: string
  st_last_valid_block_height :: u64
  st_signature_deadline :: u64

datatype VaultOpenIntent =
  IntentSale key VaultManager key key VaultSaleTerms
| IntentBetweenVaults key VaultManager VaultManager VaultSaleTerms
| IntentFill key VaultManager key VaultSaleTerms
| IntentBuy key VaultManager key VaultSaleTerms

definition create_ata_idempotent :: "find_pda \<Rightarrow> key \<Rightarrow> key \<Rightarrow> key \<Rightarrow> key \<Rightarrow> Instruction" where
  "create_ata_idempotent pda payer owner mint token_program =
     \<lparr>ix_program_id = ASSOCIATED_TOKEN_PROGRAM_ID,
      ix_accounts = [meta_new payer True, meta_new (ata pda owner mint token_program) False,
        meta_readonly owner False, meta_readonly mint False, meta_readonly SYSTEM_PROGRAM_ID False,
        meta_readonly token_program False],
      ix_data = [1]\<rparr>"

text \<open>The keeper, the participant who signs, the key that signed the quote, and the rebuilt open.\<close>

definition intent_open ::
  "find_pda \<Rightarrow> crypto \<Rightarrow> VaultOpenIntent \<Rightarrow> (VaultIntentError, key \<times> key \<times> key \<times> VaultOpenPosition) res" where
  "intent_open pda cr intent =
     (case intent of
        IntentSale keeper writer maker_owner maker_quote_signer terms \<Rightarrow>
          bind_res (map_err ViIntent (case terms of
              Physical t \<Rightarrow> open_position_as_writer pda cr writer keeper maker_owner t
            | Spread t \<Rightarrow> open_spread_as_writer pda cr writer keeper maker_owner t))
            (\<lambda>p. Ok (keeper, vm_actor (mg_args writer), maker_quote_signer, p))
      | IntentBetweenVaults keeper writer holder terms \<Rightarrow>
          bind_res (map_err ViIntent (case terms of
              Physical t \<Rightarrow> open_position_with_vault_holder pda cr writer keeper holder t
            | Spread t \<Rightarrow> open_spread_with_vault_holder pda cr writer keeper holder t))
            (\<lambda>p. Ok (keeper, vm_actor (mg_args writer), vm_delegate_authority (mg_args holder), p))
      | IntentFill keeper holder taker terms \<Rightarrow>
          bind_res (map_err ViIntent (case terms of
              Physical t \<Rightarrow> open_position_as_holder pda cr holder keeper taker t
            | Spread t \<Rightarrow> open_spread_as_holder pda cr holder keeper taker t))
            (\<lambda>p. Ok (keeper, taker, vm_delegate_authority (mg_args holder), p))
      | IntentBuy keeper writer holder terms \<Rightarrow>
          bind_res (map_err ViIntent (case terms of
              Physical t \<Rightarrow> open_position_for_wallet_holder pda cr writer keeper holder t
            | Spread t \<Rightarrow> open_spread_for_wallet_holder pda cr writer keeper holder t))
            (\<lambda>p. Ok (keeper, holder, vm_delegate_authority (mg_args writer), p)))"

fun sale_quote_mint :: "VaultSaleTerms \<Rightarrow> key" where
  "sale_quote_mint (Physical t) = tt_quote_mint t"
| "sale_quote_mint (Spread t) = vs_quote_mint t"

text \<open>A fill also creates the taker's quote account.\<close>

definition fill_setup :: "find_pda \<Rightarrow> VaultOpenIntent \<Rightarrow> key \<Rightarrow> Instruction list" where
  "fill_setup pda intent keeper =
     (case intent of
        IntentFill _ holder taker terms \<Rightarrow>
          (let args = mg_args holder;
               (quote_mint, quote_program) =
                 (if vm_main_mint args = sale_quote_mint terms then (vm_main_mint args, vm_main_token_program args)
                  else (vm_second_mint args, vm_second_token_program args)) in
           [create_ata_idempotent pda keeper taker quote_mint quote_program])
      | _ \<Rightarrow> [])"

definition verify_vault_open ::
  "find_pda \<Rightarrow> crypto \<Rightarrow> base64 \<Rightarrow> SponsoredTxToSignData \<Rightarrow> VaultOpenIntent \<Rightarrow>
   AddressLookupTableAccount list \<Rightarrow> ComputeBudgetBounds \<Rightarrow> (VaultIntentError, VerifiedTransaction) res" where
  "verify_vault_open pda cr b64 to_sign intent tables bounds =
     bind_res (served_decode b64 (st_tx_base64 to_sign) tables) (\<lambda>served.
     bind_res (require_vault_open_wire_shape served) (\<lambda>_.
     bind_res (intent_open pda cr intent) (\<lambda>(keeper, participant, quote_signer, p).
     if op_order_id p \<noteq> st_order_id to_sign then Err ViOrderId
     else
       let collateral_ata = create_ata_idempotent pda keeper (pa_position (op_addresses p))
             (pa_collateral_mint (op_addresses p)) (pa_collateral_token_program (op_addresses p)) in
       bind_res (compute_budget served bounds) (\<lambda>budget.
       let setup = budget @ fill_setup pda intent keeper @ [collateral_ata] in
       bind_res (quote_signature cr served (length setup) quote_signer (op_order_id p)) (\<lambda>quote.
       let expected = setup @ [quote, op_instruction p];
           static_accounts = [keeper, participant, pa_position (op_addresses p), pa_collateral_ata (op_addresses p)] @
             map ix_program_id expected @
             map am_pubkey (filter am_is_signer (concat (map ix_accounts expected))) in
       bind_res (require_static_accounts served static_accounts) (\<lambda>_.
       served_matches served keeper expected))))))"

section \<open>What acceptance means\<close>

text \<open>The parties, signers, side and instruction of an intent, as its documentation has them.\<close>

fun intent_maker :: "VaultOpenIntent \<Rightarrow> key" where
  "intent_maker (IntentSale _ _ maker_owner _ _) = maker_owner"
| "intent_maker (IntentBetweenVaults _ _ holder _) = ad_vault (mg_addresses holder)"
| "intent_maker (IntentFill _ holder _ _) = ad_vault (mg_addresses holder)"
| "intent_maker (IntentBuy _ writer _ _) = ad_vault (mg_addresses writer)"

fun intent_taker :: "VaultOpenIntent \<Rightarrow> key" where
  "intent_taker (IntentSale _ writer _ _ _) = ad_vault (mg_addresses writer)"
| "intent_taker (IntentBetweenVaults _ writer _ _) = ad_vault (mg_addresses writer)"
| "intent_taker (IntentFill _ _ taker _) = taker"
| "intent_taker (IntentBuy _ _ holder _) = holder"

fun intent_terms :: "VaultOpenIntent \<Rightarrow> VaultSaleTerms" where
  "intent_terms (IntentSale _ _ _ _ terms) = terms"
| "intent_terms (IntentBetweenVaults _ _ _ terms) = terms"
| "intent_terms (IntentFill _ _ _ terms) = terms"
| "intent_terms (IntentBuy _ _ _ terms) = terms"

fun intent_manager :: "VaultOpenIntent \<Rightarrow> VaultManager" where
  "intent_manager (IntentSale _ writer _ _ _) = writer"
| "intent_manager (IntentBetweenVaults _ writer _ _) = writer"
| "intent_manager (IntentFill _ holder _ _) = holder"
| "intent_manager (IntentBuy _ writer _ _) = writer"

fun intent_keeper :: "VaultOpenIntent \<Rightarrow> key" where
  "intent_keeper (IntentSale keeper _ _ _ _) = keeper"
| "intent_keeper (IntentBetweenVaults keeper _ _ _) = keeper"
| "intent_keeper (IntentFill keeper _ _ _) = keeper"
| "intent_keeper (IntentBuy keeper _ _ _) = keeper"

fun intent_participant :: "VaultOpenIntent \<Rightarrow> key" where
  "intent_participant (IntentSale _ writer _ _ _) = vm_actor (mg_args writer)"
| "intent_participant (IntentBetweenVaults _ writer _ _) = vm_actor (mg_args writer)"
| "intent_participant (IntentFill _ _ taker _) = taker"
| "intent_participant (IntentBuy _ _ holder _) = holder"

fun intent_quote_signer :: "VaultOpenIntent \<Rightarrow> key" where
  "intent_quote_signer (IntentSale _ _ _ quote_signer _) = quote_signer"
| "intent_quote_signer (IntentBetweenVaults _ _ holder _) = vm_delegate_authority (mg_args holder)"
| "intent_quote_signer (IntentFill _ holder _ _) = vm_delegate_authority (mg_args holder)"
| "intent_quote_signer (IntentBuy _ writer _ _) = vm_delegate_authority (mg_args writer)"

fun intent_side :: "VaultOpenIntent \<Rightarrow> TakerSide" where
  "intent_side (IntentBuy _ _ _ _) = Buy"
| "intent_side _ = Sell"

fun intent_tag :: "VaultOpenIntent \<Rightarrow> u8" where
  "intent_tag (IntentSale _ _ _ _ (Physical _)) = 41"
| "intent_tag (IntentSale _ _ _ _ (Spread _)) = 78"
| "intent_tag (IntentBetweenVaults _ _ _ (Physical _)) = 61"
| "intent_tag (IntentBetweenVaults _ _ _ (Spread _)) = 80"
| "intent_tag (IntentFill _ _ _ (Physical _)) = 42"
| "intent_tag (IntentFill _ _ _ (Spread _)) = 79"
| "intent_tag (IntentBuy _ _ _ (Physical _)) = 41"
| "intent_tag (IntentBuy _ _ _ (Spread _)) = 78"

fun intent_holder_byte :: "VaultOpenIntent \<Rightarrow> bytes" where
  "intent_holder_byte (IntentSale _ _ _ _ _) = [0]"
| "intent_holder_byte (IntentBuy _ _ _ _) = [1]"
| "intent_holder_byte _ = []"

abbreviation intent_program :: "VaultOpenIntent \<Rightarrow> key" where
  "intent_program i \<equiv> vm_program_id (mg_args (intent_manager i))"

text \<open>The contract of \<open>opens\<close>, for an intent.\<close>

abbreviation intent_opens :: "find_pda \<Rightarrow> crypto \<Rightarrow> VaultOpenIntent \<Rightarrow> VaultOpenPosition \<Rightarrow> bool" where
  "intent_opens pda cr i p \<equiv> opens pda cr (intent_terms i) (intent_side i) (intent_program i) (intent_maker i)
     (intent_taker i) [intent_keeper i, intent_participant i] (intent_tag i) (intent_holder_byte i) p"

lemma intent_open_Ok:
  assumes "intent_open pda cr i = Ok (keeper, participant, quote_signer, p)"
  shows "keeper = intent_keeper i \<and> participant = intent_participant i \<and> quote_signer = intent_quote_signer i \<and>
    intent_opens pda cr i p"
proof (cases i)
  case (IntentSale k w mo q t)
  with assms show ?thesis by (cases t) (auto simp: intent_open_def res_simps dest: opens_rules)
next
  case (IntentBetweenVaults k w h t)
  with assms show ?thesis by (cases t) (auto simp: intent_open_def res_simps dest: opens_rules)
next
  case (IntentFill k h ta t)
  with assms show ?thesis by (cases t) (auto simp: intent_open_def res_simps dest: opens_rules)
next
  case (IntentBuy k w h t)
  with assms show ?thesis by (cases t) (auto simp: intent_open_def res_simps dest: opens_rules)
qed

lemma sale_validate_not_Panic [simp]: "trade_validate t \<noteq> Panic" "spread_validate u \<noteq> Panic"
  by (simp_all add: trade_validate_def spread_validate_def res_simps)

lemma require_vault_pair_not_Panic [simp]: "require_vault_pair m h l k \<noteq> Panic"
  by (simp add: require_vault_pair_def)

text \<open>The keys a route derives from are 32 bytes long.\<close>

definition intent_keys_ok :: "VaultOpenIntent \<Rightarrow> bool" where
  "intent_keys_ok i \<longleftrightarrow> list_all is_key [intent_program i, intent_maker i, intent_taker i]"

lemma order_ids_not_Panic:
  assumes "pda_ok pda" "is_key program" "is_key maker" "is_key taker"
  shows "trade_order_id pda cr t program maker taker \<noteq> Panic" "spread_order_id pda cr u program maker taker \<noteq> Panic"
  using sale_order_id_not_Panic [OF assms, of cr "Physical t"] sale_order_id_not_Panic [OF assms, of cr "Spread u"]
  by simp_all

lemma intent_open_no_panic:
  assumes "pda_ok pda" "intent_keys_ok i"
  shows "intent_open pda cr i \<noteq> Panic"
proof -
  have k: "is_key (intent_program i)" "is_key (intent_maker i)" "is_key (intent_taker i)"
    using assms(2) by (simp_all add: intent_keys_ok_def)
  note o = order_ids_not_Panic [OF assms(1) k]
  show ?thesis
  proof (cases i)
    case (IntentSale kp w mo q t)
    with o show ?thesis
      by (cases t) (auto simp: intent_open_def res_simps open_route_defs Let_def)
  next
    case (IntentBetweenVaults kp w h t)
    with o show ?thesis
      by (cases t) (auto simp: intent_open_def res_simps open_route_defs Let_def)
  next
    case (IntentFill kp h ta t)
    with o show ?thesis
      by (cases t) (auto simp: intent_open_def res_simps open_route_defs Let_def)
  next
    case (IntentBuy kp w h t)
    with o show ?thesis
      by (cases t) (auto simp: intent_open_def res_simps open_route_defs Let_def)
  qed
qed

text \<open>The transaction an intent stands for, up to the budget the server chose and the quote's signature.\<close>

definition quote_check :: "key \<Rightarrow> bytes \<Rightarrow> bytes \<Rightarrow> Instruction" where
  "quote_check signer signature order_id =
     \<lparr>ix_program_id = ED25519_PROGRAM_ID, ix_accounts = [], ix_data = ED25519_HEADER @ signer @ signature @ order_id\<rparr>"

definition agreed_open ::
  "find_pda \<Rightarrow> VaultOpenIntent \<Rightarrow> VaultOpenPosition \<Rightarrow> u32 \<Rightarrow> u64 \<Rightarrow> bytes \<Rightarrow> Instruction list" where
  "agreed_open pda i p limit price signature =
     [budget_instruction 2 (u32_le limit), budget_instruction 3 (u64_le price)] @
     fill_setup pda i (intent_keeper i) @
     [create_ata_idempotent pda (intent_keeper i) (pa_position (op_addresses p))
        (pa_collateral_mint (op_addresses p)) (pa_collateral_token_program (op_addresses p)),
      quote_check (intent_quote_signer i) signature (op_order_id p), op_instruction p]"

definition open_static_accounts :: "VaultOpenIntent \<Rightarrow> VaultOpenPosition \<Rightarrow> Instruction list \<Rightarrow> key list" where
  "open_static_accounts i p es =
     [intent_keeper i, intent_participant i, pa_position (op_addresses p), pa_collateral_ata (op_addresses p)] @
     map ix_program_id es @ signers_of (all_metas es)"

lemma require_static_accounts_Ok:
  "require_static_accounts s ks = Ok () \<longleftrightarrow> set ks \<subseteq> set (sv_static_keys s)"
  by (induction ks) (auto simp: require_static_accounts_def)

lemma wire_shape_Ok:
  "require_vault_open_wire_shape s = Ok () \<longleftrightarrow>
     sv_is_version_zero s \<and> sv_has_lookup_table s \<and> sv_wire_len s \<le> 1232"
  by (simp add: require_vault_open_wire_shape_def MAX_TRANSACTION_WIRE_BYTES_def not_less)

lemma same_instruction_bare:
  "ix_accounts w = [] \<Longrightarrow> same_instruction payer es s w \<longleftrightarrow> s = w"
  by (cases s; cases w) (auto simp: same_instruction_def)

lemma signers_of_set: "list_ex (\<lambda>m. am_pubkey m = k \<and> am_is_signer m) ms \<longleftrightarrow> k \<in> set (signers_of ms)"
  by (auto simp: signers_of_def list_ex_iff)

lemma fill_setup_signers: "set (signers_of (all_metas (fill_setup pda i keeper))) \<subseteq> {keeper}"
  by (auto simp: fill_setup_def all_metas_def create_ata_idempotent_def Let_def split: VaultOpenIntent.splits)

lemma all_metas_simps [simp]:
  "all_metas [] = []" "all_metas (x # xs) = ix_accounts x @ all_metas xs" "all_metas (xs @ ys) = all_metas xs @ all_metas ys"
  by (simp_all add: all_metas_def)

lemma agreed_open_signers:
  assumes "intent_opens pda cr i p"
  shows "must_sign (intent_keeper i) (agreed_open pda i p limit price signature) k \<longleftrightarrow>
    k \<in> {intent_keeper i, intent_participant i}"
  using assms fill_setup_signers [of pda i "intent_keeper i"]
  by (auto simp: must_sign_def signers_of_set agreed_open_def budget_instruction_def quote_check_def
    create_ata_idempotent_def opens_def)

lemma compute_budget_iff:
  "compute_budget s bounds = Ok ixs \<longleftrightarrow>
     (\<exists>limit price. ixs = take 2 (sv_instructions s) \<and>
        ixs = [budget_instruction 2 (u32_le limit), budget_instruction 3 (u64_le price)] \<and>
        0 < limit \<and> limit \<le> cb_max_unit_limit bounds \<and> limit \<le> 1400000 \<and>
        price \<le> cb_max_unit_price_micro_lamports bounds)" (is "?l = ?r")
proof
  assume ?l
  then show ?r by (rule compute_budget_Ok)
next
  assume ?r
  then obtain limit price where r: "ixs = take 2 (sv_instructions s)"
      "ixs = [budget_instruction 2 (u32_le limit), budget_instruction 3 (u64_le price)]"
      "0 < limit" "limit \<le> cb_max_unit_limit bounds" "limit \<le> 1400000" "price \<le> cb_max_unit_price_micro_lamports bounds"
    by blast
  then obtain rest where "sv_instructions s =
      budget_instruction 2 (u32_le limit) # budget_instruction 3 (u64_le price) # rest"
    by (metis append_Cons append_Nil append_take_drop_id)
  moreover have "limit \<noteq> 0" "\<not> min (cb_max_unit_limit bounds) 1400000 < limit"
      "\<not> cb_max_unit_price_micro_lamports bounds < price"
    using r(3-6) by (auto simp: not_less)
  ultimately show ?l
    by (simp add: r(2) Let_def compute_budget_def budget_payload_def get_opt_def budget_instruction_def
      SET_COMPUTE_UNIT_LIMIT_def SET_COMPUTE_UNIT_PRICE_def slice_res_def copy_exact_def MAX_COMPUTE_UNIT_LIMIT_def not_less)
qed

lemma quote_signature_iff:
  "quote_signature cr s n signer order_id = Ok ix \<longleftrightarrow>
     n < length (sv_instructions s) \<and> ix = sv_instructions s ! n \<and> is_key signer \<and> length order_id = 32 \<and>
     (\<exists>signature. length signature = 64 \<and> ix = quote_check signer signature order_id \<and>
        cr_valid_key cr signer \<and> cr_verify cr signer order_id signature)" (is "?l = ?r")
proof
  assume ?l
  from quote_signature_Ok [OF this] show ?r by (cases ix) (auto simp: quote_check_def)
next
  assume r: ?r
  then obtain signature where q: "length signature = 64" "ix = quote_check signer signature order_id"
      "cr_valid_key cr signer" "cr_verify cr signer order_id signature" by blast
  have l: "is_key signer" "length order_id = 32" using r by blast+
  have len: "length ED25519_HEADER = 16" by (simp add: ED25519_HEADER_def)
  have sl: "length (ix_data ix) = 144" "slice_res 0 16 (ix_data ix) = (Ok ED25519_HEADER :: (VaultIntentError, bytes) res)"
      "slice_res 16 48 (ix_data ix) = (Ok signer :: (VaultIntentError, bytes) res)"
      "slice_res 112 144 (ix_data ix) = (Ok order_id :: (VaultIntentError, bytes) res)"
      "slice_res 48 112 (ix_data ix) = (Ok signature :: (VaultIntentError, bytes) res)"
    using l q(1) by (simp_all add: q(2) quote_check_def slice_res_def len)
  have "get_opt n (sv_instructions s) = Some ix" using r by (simp add: get_opt_def)
  moreover have "ix_program_id ix = ED25519_PROGRAM_ID" "ix_accounts ix = []"
    unfolding q(2) by (simp_all add: quote_check_def)
  ultimately show ?l
    using sl q by (simp add: quote_signature_def ED25519_DATA_LEN_def copy_exact_def SIGNATURE_LEN_def
      verify_order_id_signature_bytes_def)
qed

lemma served_exactly_nth:
  assumes "served_exactly s payer es" "n < length es" "ix_accounts (es ! n) = []"
  shows "n < length (sv_instructions s) \<and> sv_instructions s ! n = es ! n"
proof -
  have "list_all2 (same_instruction payer es) (sv_instructions s) es" using assms(1) by (simp add: served_exactly_def)
  with assms(2,3) show ?thesis
    using list_all2_nthD2 [of "same_instruction payer es" "sv_instructions s" es n] list_all2_lengthD
    by (fastforce simp: same_instruction_bare)
qed

lemma agreed_open_served:
  assumes "served_exactly s payer (agreed_open pda i p limit price signature)"
  shows "take 2 (sv_instructions s) = [budget_instruction 2 (u32_le limit), budget_instruction 3 (u64_le price)]"
    "length (fill_setup pda i (intent_keeper i)) + 3 < length (sv_instructions s)"
    "sv_instructions s ! (length (fill_setup pda i (intent_keeper i)) + 3) =
       quote_check (intent_quote_signer i) signature (op_order_id p)"
proof -
  let ?es = "agreed_open pda i p limit price signature" and ?n = "length (fill_setup pda i (intent_keeper i)) + 3"
  have es: "?n < length ?es" "?es ! ?n = quote_check (intent_quote_signer i) signature (op_order_id p)"
      "?es ! 0 = budget_instruction 2 (u32_le limit)" "?es ! 1 = budget_instruction 3 (u64_le price)"
      "?es \<noteq> []"
    by (simp_all add: agreed_open_def nth_append)
  have n: "?n < length (sv_instructions s)" "sv_instructions s ! ?n = ?es ! ?n"
      "sv_instructions s ! 0 = ?es ! 0" "sv_instructions s ! 1 = ?es ! 1"
    using served_exactly_nth [OF assms, of ?n] served_exactly_nth [OF assms, of 0] served_exactly_nth [OF assms, of 1] es
    by (auto simp: quote_check_def budget_instruction_def)
  show "?n < length (sv_instructions s)"
    "sv_instructions s ! ?n = quote_check (intent_quote_signer i) signature (op_order_id p)"
    using n es by simp_all
  have "take 2 (sv_instructions s) = [sv_instructions s ! 0, sv_instructions s ! 1]"
    using n(1) by (cases "sv_instructions s"; cases "tl (sv_instructions s)") auto
  then show "take 2 (sv_instructions s) = [budget_instruction 2 (u32_le limit), budget_instruction 3 (u64_le price)]"
    using n es by simp
qed

text \<open>
  C1. \<open>verify_vault_open\<close> accepts a served transaction exactly when it is the agreed open: the venue's two budget
  instructions within the operator's limits, the fill's quote account, the position's collateral account, a quote
  check with a valid signature of the agreed quote signer over the order id, and the open rebuilt from
  the intent, whose order id is the one the transaction was served for and binds the agreed terms, maker
  and taker. No account, signer or write privilege is left over, and nobody signs but the keeper and the participant.
\<close>

theorem open_accepted_exactly:
  "verify_vault_open pda cr b64 to_sign i tables bounds = Ok tx \<longleftrightarrow>
   (\<exists>served p limit price signature.
      served_decode b64 (st_tx_base64 to_sign) tables = Ok served \<and> tx = sv_transaction served \<and>
      sv_is_version_zero served \<and> sv_has_lookup_table served \<and> sv_wire_len served \<le> 1232 \<and>
      intent_open pda cr i = Ok (intent_keeper i, intent_participant i, intent_quote_signer i, p) \<and>
      intent_opens pda cr i p \<and> op_order_id p = st_order_id to_sign \<and> length (op_order_id p) = 32 \<and>
      0 < limit \<and> limit \<le> cb_max_unit_limit bounds \<and> limit \<le> 1400000 \<and>
      price \<le> cb_max_unit_price_micro_lamports bounds \<and>
      length signature = 64 \<and> is_key (intent_quote_signer i) \<and> cr_valid_key cr (intent_quote_signer i) \<and>
      cr_verify cr (intent_quote_signer i) (op_order_id p) signature \<and>
      set (open_static_accounts i p (agreed_open pda i p limit price signature)) \<subseteq> set (sv_static_keys served) \<and>
      served_exactly served (intent_keeper i) (agreed_open pda i p limit price signature) \<and>
      {k. \<exists>w. (k, \<lparr>fl_signer = True, fl_writable = w\<rparr>) \<in> set (sv_keys served)} \<subseteq>
        {intent_keeper i, intent_participant i})" (is "?l = ?r")
proof
  assume ?l
  then obtain served keeper participant quote_signer p budget quote where
    v: "served_decode b64 (st_tx_base64 to_sign) tables = Ok served" "require_vault_open_wire_shape served = Ok ()"
      "intent_open pda cr i = Ok (keeper, participant, quote_signer, p)" "op_order_id p = st_order_id to_sign"
      "compute_budget served bounds = Ok budget"
    and q: "quote_signature cr served (length (budget @ fill_setup pda i keeper) + 1) quote_signer (op_order_id p) = Ok quote"
    and e: "let es = budget @ fill_setup pda i keeper @
        [create_ata_idempotent pda keeper (pa_position (op_addresses p)) (pa_collateral_mint (op_addresses p))
          (pa_collateral_token_program (op_addresses p)), quote, op_instruction p] in
      require_static_accounts served ([keeper, participant, pa_position (op_addresses p), pa_collateral_ata (op_addresses p)] @
        map ix_program_id es @ signers_of (all_metas es)) = Ok () \<and> served_matches served keeper es = Ok tx"
    unfolding verify_vault_open_def bind_res_eq_Ok if_Err_eq_Ok Let_def signers_of_def all_metas_def
    by (force simp: bind_res_eq_Ok if_Err_eq_Ok)
  note io = intent_open_Ok [OF v(3)]
  obtain limit price where b: "budget = [budget_instruction 2 (u32_le limit), budget_instruction 3 (u64_le price)]"
      "0 < limit" "limit \<le> cb_max_unit_limit bounds" "limit \<le> 1400000" "price \<le> cb_max_unit_price_micro_lamports bounds"
    using v(5) unfolding compute_budget_iff by blast
  obtain signature where s: "is_key quote_signer" "length (op_order_id p) = 32" "length signature = 64"
      "quote = quote_check quote_signer signature (op_order_id p)"
      "cr_valid_key cr quote_signer" "cr_verify cr quote_signer (op_order_id p) signature"
    using q unfolding quote_signature_iff by blast
  have es: "budget @ fill_setup pda i keeper @
      [create_ata_idempotent pda keeper (pa_position (op_addresses p)) (pa_collateral_mint (op_addresses p))
        (pa_collateral_token_program (op_addresses p)), quote, op_instruction p] = agreed_open pda i p limit price signature"
    using io by (simp add: agreed_open_def b(1) s(4))
  have m: "set (open_static_accounts i p (agreed_open pda i p limit price signature)) \<subseteq> set (sv_static_keys served)"
      "tx = sv_transaction served" "served_exactly served (intent_keeper i) (agreed_open pda i p limit price signature)"
    using e io unfolding es Let_def require_static_accounts_Ok served_matches_iff open_static_accounts_def by blast+
  have "{k. \<exists>w. (k, \<lparr>fl_signer = True, fl_writable = w\<rparr>) \<in> set (sv_keys served)} \<subseteq> {intent_keeper i, intent_participant i}"
    using m(3) agreed_open_signers [of pda cr i p limit price signature] io
    unfolding served_exactly_def list_all_iff by fastforce
  with v b s m io show ?r unfolding wire_shape_Ok by blast
next
  assume ?r
  then obtain served p limit price signature where r:
      "served_decode b64 (st_tx_base64 to_sign) tables = Ok served" "tx = sv_transaction served"
      "require_vault_open_wire_shape served = Ok ()"
      "intent_open pda cr i = Ok (intent_keeper i, intent_participant i, intent_quote_signer i, p)"
      "op_order_id p = st_order_id to_sign"
    and b: "0 < limit" "limit \<le> cb_max_unit_limit bounds" "limit \<le> 1400000" "price \<le> cb_max_unit_price_micro_lamports bounds"
    and q: "length signature = 64" "is_key (intent_quote_signer i)" "length (op_order_id p) = 32"
      "cr_valid_key cr (intent_quote_signer i)" "cr_verify cr (intent_quote_signer i) (op_order_id p) signature"
    and m: "set (open_static_accounts i p (agreed_open pda i p limit price signature)) \<subseteq> set (sv_static_keys served)"
      "served_exactly served (intent_keeper i) (agreed_open pda i p limit price signature)"
    unfolding wire_shape_Ok by blast
  note a = agreed_open_served [OF m(2)]
  have "compute_budget served bounds = Ok [budget_instruction 2 (u32_le limit), budget_instruction 3 (u64_le price)]"
    unfolding compute_budget_iff using a(1) b by metis
  moreover have "quote_signature cr served (length (fill_setup pda i (intent_keeper i)) + 3) (intent_quote_signer i)
      (op_order_id p) = Ok (quote_check (intent_quote_signer i) signature (op_order_id p))"
    unfolding quote_signature_iff using a(2,3) q by metis
  moreover have "require_static_accounts served (open_static_accounts i p (agreed_open pda i p limit price signature)) = Ok ()"
    "served_matches served (intent_keeper i) (agreed_open pda i p limit price signature) = Ok tx"
    using m r(2) by (simp_all add: require_static_accounts_Ok served_matches_iff)
  ultimately show ?l
    using r by (simp add: verify_vault_open_def agreed_open_def open_static_accounts_def signers_of_def all_metas_def
      eval_nat_numeral)
qed

section \<open>An accepted open\<close>

text \<open>
  A sale served as a version-zero transaction with one lookup table. The derivation maps every seed to
  one key, so the thirty or so accounts of the open share a few table entries.
\<close>

definition one_pda :: find_pda where
  "one_pda seeds program = (replicate 32 1, 255)"

definition sale_writer :: VaultManager where
  "sale_writer = \<lparr>mg_args = mg_args sample_manager, mg_addresses = manager_addresses one_pda (mg_args sample_manager)\<rparr>"

definition sale_intent :: VaultOpenIntent where
  "sale_intent = IntentSale (replicate 32 2) sale_writer (replicate 32 5) (replicate 32 5) (Physical sample_terms)"

definition sale_id :: bytes where
  "sale_id = hash_order_preimage plain_crypto
     (physical_layout (trade_preimage_args one_pda sample_terms (replicate 32 9) (replicate 32 5) (replicate 32 1)) False)"

definition sale_tables :: "AddressLookupTableAccount list" where
  "sale_tables = [\<lparr>lt_key = replicate 32 77, lt_addresses = [replicate 32 4, replicate 32 7, replicate 32 6,
     TOKEN_PROGRAM_ID, INSTRUCTIONS_SYSVAR_ID, SYSTEM_PROGRAM_ID]\<rparr>]"

definition sale_tx :: WireTx where
  "sale_tx = \<lparr>wt_signatures = [replicate 64 0, replicate 64 0], wt_version_zero = True, wt_readonly_signed = 0,
     wt_readonly_unsigned = 4,
     wt_keys = [replicate 32 2, replicate 32 3, replicate 32 1, COMPUTE_BUDGET_PROGRAM_ID,
       ASSOCIATED_TOKEN_PROGRAM_ID, ED25519_PROGRAM_ID, replicate 32 9],
     wt_blockhash = replicate 32 8,
     wt_instructions = [
       \<lparr>ci_program = 3, ci_accounts = [], ci_data = 2 # u32_le 200000\<rparr>,
       \<lparr>ci_program = 3, ci_accounts = [], ci_data = 3 # u64_le 5\<rparr>,
       \<lparr>ci_program = 4, ci_accounts = [0, 2, 2, 7, 12, 10], ci_data = [1]\<rparr>,
       \<lparr>ci_program = 5, ci_accounts = [],
         ci_data = ED25519_HEADER @ replicate 32 5 @ (replicate 32 5 @ sale_id) @ sale_id\<rparr>,
       \<lparr>ci_program = 6,
         ci_accounts = [0, 1, 2, 2, 2, 2, 2, 2, 2, 2, 2, 2, 2, 2, 11, 7, 8, 10, 10, 12, 2, 9, 2],
         ci_data = 41 # trade_args sample_terms sale_id @ [0]\<rparr>],
     wt_lookups = [\<lparr>lk_table = replicate 32 77, lk_writable = [], lk_readonly = [0, 1, 2, 3, 4, 5]\<rparr>]\<rparr>"

lemma length_sale_id [simp]: "length sale_id = 32"
  by (simp add: sale_id_def hash_order_preimage_def plain_crypto_def)

lemma sale_tx_ok: "wire_ok sale_tx"
  by (simp add: wire_ok_def sale_tx_def SIGNATURE_LEN_def instruction_ok_def vec_ok_def lookup_ok_def trade_args_def
    ED25519_HEADER_def COMPUTE_BUDGET_PROGRAM_ID_def ASSOCIATED_TOKEN_PROGRAM_ID_def ED25519_PROGRAM_ID_def)

lemma sale_keys_distinct:
  "distinct [replicate 32 2, replicate 32 3, replicate 32 1, COMPUTE_BUDGET_PROGRAM_ID,
     ASSOCIATED_TOKEN_PROGRAM_ID, ED25519_PROGRAM_ID, replicate 32 9, replicate 32 4, replicate 32 7, replicate 32 6,
     TOKEN_PROGRAM_ID, INSTRUCTIONS_SYSVAR_ID, SYSTEM_PROGRAM_ID :: key]" (is "distinct ?ks")
proof -
  have "distinct (map (\<lambda>k. (k ! 0, k ! 1)) ?ks)"
    by (simp add: COMPUTE_BUDGET_PROGRAM_ID_def ASSOCIATED_TOKEN_PROGRAM_ID_def ED25519_PROGRAM_ID_def
      TOKEN_PROGRAM_ID_def INSTRUCTIONS_SYSVAR_ID_def SYSTEM_PROGRAM_ID_def)
  then show ?thesis by (simp only: distinct_map)
qed

abbreviation ro :: "key \<Rightarrow> key \<times> Flags" where
  "ro k \<equiv> (k, \<lparr>fl_signer = False, fl_writable = False\<rparr>)"

definition sale_keys :: "(key \<times> Flags) list" where
  "sale_keys = [(replicate 32 2, \<lparr>fl_signer = True, fl_writable = True\<rparr>),
     (replicate 32 3, \<lparr>fl_signer = True, fl_writable = True\<rparr>),
     (replicate 32 1, \<lparr>fl_signer = False, fl_writable = True\<rparr>),
     ro COMPUTE_BUDGET_PROGRAM_ID, ro ASSOCIATED_TOKEN_PROGRAM_ID, ro ED25519_PROGRAM_ID, ro (replicate 32 9),
     ro (replicate 32 4), ro (replicate 32 7), ro (replicate 32 6), ro TOKEN_PROGRAM_ID, ro INSTRUCTIONS_SYSVAR_ID,
     ro SYSTEM_PROGRAM_ID]"

definition sale_served :: ServedMessage where
  "sale_served = (let u = \<lambda>k. \<lparr>am_pubkey = k, am_is_signer = False, am_is_writable = False\<rparr>;
       w = \<lparr>am_pubkey = replicate 32 1, am_is_signer = False, am_is_writable = True\<rparr>;
       k = \<lparr>am_pubkey = replicate 32 2, am_is_signer = True, am_is_writable = True\<rparr>;
       a = \<lparr>am_pubkey = replicate 32 3, am_is_signer = True, am_is_writable = True\<rparr> in
     \<lparr>sv_keys = sale_keys,
      sv_instructions = [budget_instruction 2 (u32_le 200000), budget_instruction 3 (u64_le 5),
        \<lparr>ix_program_id = ASSOCIATED_TOKEN_PROGRAM_ID,
         ix_accounts = [k, w, w, u (replicate 32 4), u SYSTEM_PROGRAM_ID, u TOKEN_PROGRAM_ID], ix_data = [1]\<rparr>,
        quote_check (replicate 32 5) (replicate 32 5 @ sale_id) sale_id,
        \<lparr>ix_program_id = replicate 32 9,
         ix_accounts = [k, a, w, w, w, w, w, w, w, w, w, w, w, w, u INSTRUCTIONS_SYSVAR_ID, u (replicate 32 4),
           u (replicate 32 7), u TOKEN_PROGRAM_ID, u TOKEN_PROGRAM_ID, u SYSTEM_PROGRAM_ID, w, u (replicate 32 6), w],
         ix_data = 41 # trade_args sample_terms sale_id @ [0]\<rparr>],
      sv_transaction = \<lparr>vt_bytes = tx_bytes sale_tx, vt_signatures_start = 1, vt_message_start = 129,
        vt_signers = [replicate 32 2, replicate 32 3]\<rparr>,
      sv_static_keys = wt_keys sale_tx, sv_is_version_zero = True, sv_has_lookup_table = True,
      sv_wire_len = length (tx_bytes sale_tx)\<rparr>)"

lemma sale_served_of_bytes: "served_of_bytes (tx_bytes sale_tx) sale_tables = Ok sale_served"
proof -
  have c: "compiled_of sale_tx = \<lparr>cm_signatures_start = 1, cm_message_start = 129, cm_required_signers = 2,
      cm_readonly_signed = 0, cm_readonly_unsigned = 4, cm_static_keys = wt_keys sale_tx,
      cm_instructions = wt_instructions sale_tx, cm_lookups = wt_lookups sale_tx, cm_is_version_zero = True\<rparr>"
    by (simp add: compiled_of_def sale_tx_def compact_bytes_def SIGNATURE_LEN_def)
  have wt: "wt_keys sale_tx = [replicate 32 2, replicate 32 3, replicate 32 1, COMPUTE_BUDGET_PROGRAM_ID,
       ASSOCIATED_TOKEN_PROGRAM_ID, ED25519_PROGRAM_ID, replicate 32 9]"
      "wt_lookups sale_tx = [\<lparr>lk_table = replicate 32 77, lk_writable = [], lk_readonly = [0, 1, 2, 3, 4, 5]\<rparr>]"
    by (simp_all add: sale_tx_def)
  have s: "collect_res (static_entry (compiled_of sale_tx)) (enumerate 0 (wt_keys sale_tx)) = Ok (take 7 sale_keys)"
    unfolding c by (simp add: wt static_entry_def usize_sub_def sale_keys_def)
  have l: "collect_res (lookup_keys sale_tables) (concat (map (\<lambda>w. map (\<lambda>l. (w, l)) (wt_lookups sale_tx)) [True, False])) =
      Ok [[], drop 7 sale_keys]"
    by (simp add: wt lookup_keys_def sale_tables_def get_opt_def sale_keys_def)
  have f: "all_fresh [] (map fst sale_keys)"
    using sale_keys_distinct by (simp add: all_fresh_distinct sale_keys_def)
  have r: "collect_res (resolve_instruction sale_keys) (wt_instructions sale_tx) = Ok (sv_instructions sale_served)"
    by (simp add: sale_tx_def resolve_instruction_def key_at_def get_opt_def sale_keys_def resolve_account_def
      sale_served_def Let_def budget_instruction_def quote_check_def)
  have k: "slice_res 0 2 (wt_keys sale_tx) = (Ok [replicate 32 2, replicate 32 3] :: (VaultIntentError, key list) res)"
    by (simp add: slice_res_def wt)
  have cs: "cm_static_keys (compiled_of sale_tx) = wt_keys sale_tx" "cm_lookups (compiled_of sale_tx) = wt_lookups sale_tx"
      "cm_instructions (compiled_of sale_tx) = wt_instructions sale_tx" "cm_required_signers (compiled_of sale_tx) = 2"
      "cm_signatures_start (compiled_of sale_tx) = 1" "cm_message_start (compiled_of sale_tx) = 129"
      "cm_is_version_zero (compiled_of sale_tx) = True"
    by (simp_all add: c)
  have keys: "take 7 sale_keys @ concat [[], drop 7 sale_keys] = sale_keys" by simp
  show ?thesis
    unfolding served_of_bytes_def decode_wire [OF sale_tx_ok] bind_res.simps Let_def cs s l keys
    using f by (simp add: r k) (simp add: sale_served_def Let_def wt(2))
qed

definition sale_open :: VaultOpenPosition where
  "sale_open = \<lparr>op_order_id = sale_id,
     op_addresses = \<lparr>pa_market = replicate 32 1, pa_position = replicate 32 1, pa_collateral_mint = replicate 32 4,
       pa_collateral_token_program = TOKEN_PROGRAM_ID, pa_collateral_ata = replicate 32 1, pa_config = replicate 32 1,
       pa_protocol_fee_ata = replicate 32 1\<rparr>,
     op_instruction = \<lparr>ix_program_id = replicate 32 9,
       ix_accounts = [meta_new (replicate 32 2) True, meta_new (replicate 32 3) True, meta_new (replicate 32 1) False,
         meta_readonly (replicate 32 1) False, meta_readonly (replicate 32 1) False, meta_new (replicate 32 1) False,
         meta_new (replicate 32 1) False, meta_readonly (replicate 32 1) False, meta_new (replicate 32 1) False,
         meta_new (replicate 32 1) False, meta_new (replicate 32 1) False, meta_new (replicate 32 1) False,
         meta_readonly (replicate 32 1) False, meta_new (replicate 32 1) False,
         meta_readonly INSTRUCTIONS_SYSVAR_ID False, meta_readonly (replicate 32 4) False,
         meta_readonly (replicate 32 7) False, meta_readonly TOKEN_PROGRAM_ID False, meta_readonly TOKEN_PROGRAM_ID False,
         meta_readonly SYSTEM_PROGRAM_ID False, meta_readonly (replicate 32 1) False, meta_readonly (replicate 32 6) False,
         meta_readonly (replicate 32 1) False],
       ix_data = 41 # trade_args sample_terms sale_id @ [0]\<rparr>\<rparr>"

lemma sale_intent_open:
  "intent_open one_pda plain_crypto sale_intent = Ok (replicate 32 2, replicate 32 3, replicate 32 5, sale_open)"
proof -
  note addr = manager_addresses_def ata_def ata_with_bump_def pda_vault_def pda_vault_policy_def pda_vault_delegate_def
    pda_global_config_def pda_swap_venues_def pda_price_route_def pda_manager_stake_def pda_position_def
    pda_premium_config_def maker_pda_def one_pda_def Let_def
  have m: "mg_args sale_writer = mg_args sample_manager" "ad_vault (mg_addresses sale_writer) = replicate 32 1"
      "ad_policy (mg_addresses sale_writer) = replicate 32 1" "ad_delegate (mg_addresses sale_writer) = replicate 32 1"
      "ad_global_config (mg_addresses sale_writer) = replicate 32 1"
      "ad_vault_main_ata (mg_addresses sale_writer) = replicate 32 1"
      "ad_vault_second_ata (mg_addresses sale_writer) = replicate 32 1"
      "ad_manager_stake_ata (mg_addresses sale_writer) = replicate 32 1"
    by (simp_all add: sale_writer_def addr)
  have wf: "wf_order_args (trade_preimage_args one_pda sample_terms (replicate 32 9) (replicate 32 5) (replicate 32 1))"
    by (simp add: wf_order_args_def trade_preimage_args_def trade_market_def market_pda_def one_pda_def)
  have id: "trade_order_id one_pda plain_crypto sample_terms (replicate 32 9) (replicate 32 5) (replicate 32 1) = Ok sale_id"
    by (simp add: trade_order_id_def build_physical_layout [OF wf] sale_id_def) (simp add: sample_terms_def)
  have st: "tt_underlying_mint sample_terms = replicate 32 4" "tt_quote_mint sample_terms = replicate 32 7"
      "tt_side sample_terms = Sell" "tt_is_put sample_terms = False" "trade_validate sample_terms = Ok ()"
    by (simp_all add: sample_terms_def trade_validate_def)
  show ?thesis
    by (simp add: intent_open_def sale_intent_def open_position_as_writer_def m st sample_managers id require_side_def
      legs_bind_def open_as_writer_def position_addresses_def legs_collateral_def trade_market_def market_pda_def
      vault_instruction_def market_tail_def pda_position_def pda_premium_config_def maker_pda_def ata_def ata_with_bump_def
      one_pda_def sale_open_def Let_def)
qed

lemma sale_agreed:
  "agreed_open one_pda sale_intent sale_open 200000 5 (replicate 32 5 @ sale_id) =
     [budget_instruction 2 (u32_le 200000), budget_instruction 3 (u64_le 5),
      \<lparr>ix_program_id = ASSOCIATED_TOKEN_PROGRAM_ID,
       ix_accounts = [meta_new (replicate 32 2) True, meta_new (replicate 32 1) False, meta_readonly (replicate 32 1) False,
         meta_readonly (replicate 32 4) False, meta_readonly SYSTEM_PROGRAM_ID False, meta_readonly TOKEN_PROGRAM_ID False],
       ix_data = [1]\<rparr>,
      quote_check (replicate 32 5) (replicate 32 5 @ sale_id) sale_id, op_instruction sale_open]"
  by (simp add: agreed_open_def sale_intent_def fill_setup_def create_ata_idempotent_def sale_open_def ata_def
    ata_with_bump_def one_pda_def)

lemma sale_served_exactly:
  "served_exactly sale_served (replicate 32 2) (agreed_open one_pda sale_intent sale_open 200000 5 (replicate 32 5 @ sale_id))"
proof -
  define es where "es = agreed_open one_pda sale_intent sale_open 200000 5 (replicate 32 5 @ sale_id)"
  note es = es_def [unfolded sale_agreed]
  let ?p = "replicate 32 2 :: key"
  have am: "set (all_metas es) = {meta_new (replicate 32 2) True, meta_new (replicate 32 3) True,
      meta_new (replicate 32 1) False, meta_readonly (replicate 32 1) False, meta_readonly (replicate 32 4) False,
      meta_readonly (replicate 32 7) False, meta_readonly (replicate 32 6) False, meta_readonly SYSTEM_PROGRAM_ID False,
      meta_readonly TOKEN_PROGRAM_ID False, meta_readonly INSTRUCTIONS_SYSVAR_ID False}"
    unfolding es by (simp add: sale_open_def budget_instruction_def quote_check_def insert_commute)
  have pg: "ix_program_id ` set es = {COMPUTE_BUDGET_PROGRAM_ID, ASSOCIATED_TOKEN_PROGRAM_ID, ED25519_PROGRAM_ID, replicate 32 9}"
    unfolding es by (simp add: sale_open_def budget_instruction_def quote_check_def)
  have sign: "must_sign ?p es k \<longleftrightarrow> k \<in> {replicate 32 2, replicate 32 3}" for k
    unfolding must_sign_def list_ex_iff am by (auto simp: meta_new_def meta_readonly_def)
  have wr: "may_write ?p es k \<longleftrightarrow> k \<in> {replicate 32 2, replicate 32 3, replicate 32 1}" for k
    unfolding may_write_def list_ex_iff am by (auto simp: meta_new_def meta_readonly_def)
  have ment: "mentioned ?p es k" if "k \<in> fst ` set sale_keys" for k
    using that unfolding mentioned_def am pg sale_keys_def by (auto simp: meta_new_def meta_readonly_def)
  have ne: "COMPUTE_BUDGET_PROGRAM_ID \<notin> {replicate 32 1, replicate 32 2, replicate 32 3}"
      "ASSOCIATED_TOKEN_PROGRAM_ID \<notin> {replicate 32 1, replicate 32 2, replicate 32 3}"
      "ED25519_PROGRAM_ID \<notin> {replicate 32 1, replicate 32 2, replicate 32 3}"
      "TOKEN_PROGRAM_ID \<notin> {replicate 32 1, replicate 32 2, replicate 32 3}"
      "INSTRUCTIONS_SYSVAR_ID \<notin> {replicate 32 1, replicate 32 2, replicate 32 3}"
      "SYSTEM_PROGRAM_ID \<notin> {replicate 32 1, replicate 32 2, replicate 32 3}"
    using sale_keys_distinct by auto
  have flags: "list_all (\<lambda>(k, f). f = \<lparr>fl_signer = must_sign ?p es k, fl_writable = may_write ?p es k\<rparr>) sale_keys"
    unfolding sign wr sale_keys_def using ne by simp
  have "list_all2 (same_instruction ?p es) (sv_instructions sale_served)
     [budget_instruction 2 (u32_le 200000), budget_instruction 3 (u64_le 5),
      \<lparr>ix_program_id = ASSOCIATED_TOKEN_PROGRAM_ID,
       ix_accounts = [meta_new (replicate 32 2) True, meta_new (replicate 32 1) False, meta_readonly (replicate 32 1) False,
         meta_readonly (replicate 32 4) False, meta_readonly SYSTEM_PROGRAM_ID False, meta_readonly TOKEN_PROGRAM_ID False],
       ix_data = [1]\<rparr>,
      quote_check (replicate 32 5) (replicate 32 5 @ sale_id) sale_id, op_instruction sale_open]"
    using ne by (simp add: sale_served_def Let_def same_instruction_def sign wr sale_open_def budget_instruction_def
      quote_check_def meta_new_def meta_readonly_def)
  then have ins: "list_all2 (same_instruction ?p es) (sv_instructions sale_served) es"
    by (subst (2) es)
  have "sv_keys sale_served = sale_keys" "fst (hd sale_keys) = ?p"
    by (simp_all add: sale_served_def Let_def sale_keys_def)
  with ins flags ment show ?thesis
    unfolding served_exactly_def es_def [symmetric] by (force simp: list_all_iff)
qed

lemma sale_decode:
  "served_decode \<lparr>b64_encode = cr_b58_encode plain_crypto, b64_decode = cr_b58_decode plain_crypto\<rparr>
      (cr_b58_encode plain_crypto (tx_bytes sale_tx)) sale_tables = Ok sale_served"
  using plain_crypto_laws(2) sale_served_of_bytes by (simp add: served_decode_def base58_roundtrip_def)

lemma sale_tx_len: "length (tx_bytes sale_tx) \<le> 1232"
  by (simp add: tx_bytes_def message_bytes_def body_bytes_def sale_tx_def compact_bytes_def instruction_bytes_def
    vec_bytes_def lookup_bytes_def trade_args_def ED25519_HEADER_def COMPUTE_BUDGET_PROGRAM_ID_def
    ASSOCIATED_TOKEN_PROGRAM_ID_def ED25519_PROGRAM_ID_def)

theorem open_accepted_exactly_witness:
  "verify_vault_open one_pda plain_crypto \<lparr>b64_encode = cr_b58_encode plain_crypto, b64_decode = cr_b58_decode plain_crypto\<rparr>
     \<lparr>st_order_id = sale_id, st_tx_base64 = cr_b58_encode plain_crypto (tx_bytes sale_tx),
      st_last_valid_block_height = 0, st_signature_deadline = 0\<rparr>
     sale_intent sale_tables \<lparr>cb_max_unit_limit = 300000, cb_max_unit_price_micro_lamports = 5\<rparr> =
   Ok (sv_transaction sale_served)"
proof -
  let ?e = "agreed_open one_pda sale_intent sale_open 200000 5 (replicate 32 5 @ sale_id)"
  have parts: "intent_keeper sale_intent = replicate 32 2" "intent_participant sale_intent = replicate 32 3"
      "intent_quote_signer sale_intent = replicate 32 5"
    by (simp_all add: sale_intent_def sale_writer_def sample_managers)
  have opens: "intent_opens one_pda plain_crypto sale_intent sale_open"
    using intent_open_Ok [OF sale_intent_open] by blast
  have static: "set (open_static_accounts sale_intent sale_open ?e) \<subseteq> set (sv_static_keys sale_served)"
    unfolding open_static_accounts_def sale_agreed parts
    by (simp add: sale_open_def budget_instruction_def quote_check_def sale_served_def Let_def sale_tx_def)
  have "{k. \<exists>w. (k, \<lparr>fl_signer = True, fl_writable = w\<rparr>) \<in> set (sv_keys sale_served)} \<subseteq> {replicate 32 2, replicate 32 3}"
    by (auto simp: sale_served_def Let_def sale_keys_def)
  moreover have "cr_valid_key plain_crypto k" "cr_verify plain_crypto (replicate 32 5) sale_id (replicate 32 5 @ sale_id)" for k
    by (simp_all add: plain_crypto_def)
  ultimately show ?thesis
    unfolding open_accepted_exactly parts
    using sale_decode sale_intent_open opens sale_tx_len static sale_served_exactly parts
    by (intro exI [of _ sale_served] exI [of _ sale_open] exI [of _ 200000] exI [of _ 5]
        exI [of _ "replicate 32 5 @ sale_id"])
      (simp add: sale_served_def sale_open_def Let_def)
qed

text \<open>
  Whatever a venue serves, the check of an open returns: a transaction or an error, never a panic. The
  only requirement is that keys have 32 bytes. A transaction served for another order id is refused with the
  order-id error as soon as it decodes and the open can be rebuilt.
\<close>

theorem open_check_returns:
  assumes "pda_ok pda" and "intent_keys_ok i"
  shows "verify_vault_open pda cr b64 to_sign i tables bounds \<noteq> Panic \<and>
    (\<forall>served k w q p. served_decode b64 (st_tx_base64 to_sign) tables = Ok served \<longrightarrow>
       require_vault_open_wire_shape served = Ok () \<longrightarrow> intent_open pda cr i = Ok (k, w, q, p) \<longrightarrow>
       op_order_id p \<noteq> st_order_id to_sign \<longrightarrow>
       verify_vault_open pda cr b64 to_sign i tables bounds = Err ViOrderId)"
proof
  have "served_decode b64 x tables \<noteq> Panic" for x
    by (simp add: served_decode_def res_simps served_of_bytes_no_panic)
  moreover have "require_vault_open_wire_shape s \<noteq> Panic" "require_static_accounts s ks \<noteq> Panic" for s ks
    by (auto simp: require_vault_open_wire_shape_def require_static_accounts_def split: option.splits)
  ultimately show "verify_vault_open pda cr b64 to_sign i tables bounds \<noteq> Panic"
    unfolding verify_vault_open_def Let_def split_def
    by (intro no_panic_intros intent_open_no_panic [OF assms] compute_budget_no_panic quote_signature_no_panic
      served_matches_no_panic) simp_all
qed (simp add: verify_vault_open_def)

theorem open_check_returns_witness:
  "verify_vault_open one_pda plain_crypto \<lparr>b64_encode = cr_b58_encode plain_crypto, b64_decode = cr_b58_decode plain_crypto\<rparr>
     \<lparr>st_order_id = [], st_tx_base64 = cr_b58_encode plain_crypto (tx_bytes sale_tx),
      st_last_valid_block_height = 0, st_signature_deadline = 0\<rparr>
     sale_intent sale_tables \<lparr>cb_max_unit_limit = 1, cb_max_unit_price_micro_lamports = 5\<rparr> = Err ViOrderId"
proof -
  have "pda_ok one_pda" by (simp add: pda_ok_def one_pda_def)
  moreover have "intent_keys_ok sale_intent"
    by (simp add: intent_keys_ok_def sale_intent_def sale_writer_def sample_managers manager_addresses_def Let_def
      pda_vault_def one_pda_def)
  moreover have "require_vault_open_wire_shape sale_served = Ok ()"
    using sale_tx_len by (simp add: wire_shape_Ok sale_served_def Let_def)
  moreover have "length (op_order_id sale_open) = 32" by (simp add: sale_open_def)
  then have "op_order_id sale_open \<noteq> []" by auto
  ultimately show ?thesis
    using open_check_returns [of one_pda sale_intent plain_crypto
        "\<lparr>b64_encode = cr_b58_encode plain_crypto, b64_decode = cr_b58_decode plain_crypto\<rparr>"
        "\<lparr>st_order_id = [], st_tx_base64 = cr_b58_encode plain_crypto (tx_bytes sale_tx),
          st_last_valid_block_height = 0, st_signature_deadline = 0\<rparr>" sale_tables]
      sale_decode sale_intent_open by simp
qed

end
