(* ===== verification/VaultSwap.thy ===== *)
theory VaultSwap
  imports VaultTrading
begin

text \<open>
  \<^verbatim>\<open>src/src/chain/vault/trading.rs\<close>, the swap side: the plan of a vault swap, its validation, and the
  instruction that carries it for a rebalance, a conversion to the main leg, a staging half or a
  staging half during recovery. The instruction layout is shown to be the one the header and account
  counts of the source announce, and a validated plan to be a chain from the input to the output leg.
\<close>

section \<open>Data\<close>

datatype VaultStagingStep = Stage | Unstage

definition MAX_VAULT_SWAP_ROUTE_ACCOUNTS :: nat where "MAX_VAULT_SWAP_ROUTE_ACCOUNTS = 64"
definition MAX_VAULT_SWAP_PATH_ACCOUNTS :: nat where "MAX_VAULT_SWAP_PATH_ACCOUNTS = 128"
definition MAX_VAULT_SWAP_ROUTE_DATA :: nat where "MAX_VAULT_SWAP_ROUTE_DATA = 1024"
definition MAX_VAULT_SWAP_HOPS :: nat where "MAX_VAULT_SWAP_HOPS = 4"
definition NO_AMOUNT_OFFSET :: u16 where "NO_AMOUNT_OFFSET = 65535"

record VaultSwapAmountOffset =
  ao_offset :: u16
  ao_num :: u64
  ao_den :: u64

record VaultSwapHop =
  hp_program :: key
  hp_source :: key
  hp_destination :: key
  hp_accounts :: "AccountMeta list"
  hp_data :: bytes
  hp_amount_offset :: "VaultSwapAmountOffset option"

record VaultSwapPlan =
  sp_price_section :: "AccountMeta list"
  sp_amount_in :: u64
  sp_minimum_out :: u64
  sp_valid_until :: u64
  sp_hops :: "VaultSwapHop list"

record VaultStagingAsset =
  sa_mint :: key
  sa_token_program :: key

datatype VaultSwapKind =
  SwapRebalance bool
| SwapRecovery
| SwapClosing
| SwapRecoveryStage VaultStagingAsset u64 "AccountMeta list"
| SwapStaging VaultStagingStep VaultLeg VaultStagingAsset u64

definition asset_vault_ata :: "find_pda \<Rightarrow> VaultStagingAsset \<Rightarrow> key \<Rightarrow> key" where
  "asset_vault_ata pda asset vault = ata pda vault (sa_mint asset) (sa_token_program asset)"

fun fixed_accounts :: "VaultSwapKind \<Rightarrow> nat" where
  "fixed_accounts (SwapRebalance _) = 14"
| "fixed_accounts (SwapStaging _ _ _ _) = 14"
| "fixed_accounts (SwapRecoveryStage _ _ _) = 14"
| "fixed_accounts SwapRecovery = 11"
| "fixed_accounts SwapClosing = 11"

fun header_len :: "VaultSwapKind \<Rightarrow> nat" where
  "header_len (SwapRebalance _) = 27"
| "header_len SwapRecovery = 26"
| "header_len SwapClosing = 26"
| "header_len (SwapStaging _ _ _ _) = 36"
| "header_len (SwapRecoveryStage _ _ _) = 36"

section \<open>Validation\<close>

definition staging_legs ::
  "find_pda \<Rightarrow> VaultManager \<Rightarrow> VaultStagingStep \<Rightarrow> VaultLeg \<Rightarrow> VaultStagingAsset \<Rightarrow> (VaultChainError, key \<times> key) res" where
  "staging_legs pda m step leg asset =
     (if sa_mint asset \<in> set [vm_main_mint (mg_args m), vm_second_mint (mg_args m), vm_share_mint (mg_args m)]
      then Err (VcInvalidInput ''the staging mint must not be a vault mint'')
      else if sa_token_program asset \<noteq> TOKEN_PROGRAM_ID \<and> sa_token_program asset \<noteq> TOKEN_2022_PROGRAM_ID
      then Err (VcInvalidInput ''staging token program is not SPL Token'')
      else
        (let leg_ata = (case leg of MainLeg \<Rightarrow> ad_vault_main_ata (mg_addresses m)
                                  | SecondLeg \<Rightarrow> ad_vault_second_ata (mg_addresses m));
             staging = asset_vault_ata pda asset (ad_vault (mg_addresses m)) in
         case step of Stage \<Rightarrow> Ok (leg_ata, staging) | Unstage \<Rightarrow> Ok (staging, leg_ata)))"

definition swap_legs :: "find_pda \<Rightarrow> VaultManager \<Rightarrow> VaultSwapKind \<Rightarrow> (VaultChainError, key \<times> key) res" where
  "swap_legs pda m kind =
     (let main = ad_vault_main_ata (mg_addresses m); second = ad_vault_second_ata (mg_addresses m) in
      case kind of
        SwapRecoveryStage asset _ _ \<Rightarrow> staging_legs pda m Stage SecondLeg asset
      | SwapStaging step leg asset _ \<Rightarrow> staging_legs pda m step leg asset
      | SwapRebalance second_to_main \<Rightarrow> Ok (if second_to_main then (second, main) else (main, second))
      | _ \<Rightarrow> Ok (second, main))"

definition contains_key :: "AccountMeta list \<Rightarrow> key \<Rightarrow> bool" where
  "contains_key metas k = list_ex (\<lambda>meta. am_pubkey meta = k) metas"

definition bad_amount :: "nat \<Rightarrow> VaultSwapHop \<Rightarrow> bool" where
  "bad_amount index hop = (case hp_amount_offset hop of
       None \<Rightarrow> False
     | Some amount \<Rightarrow> index = 0 \<or> ao_offset amount = NO_AMOUNT_OFFSET \<or>
         length (hp_data hop) < unat (ao_offset amount) + 8 \<or> ao_num amount = 0 \<or> ao_den amount = 0)"

fun validate_hops ::
  "key \<Rightarrow> key \<Rightarrow> key \<Rightarrow> key \<Rightarrow> nat \<Rightarrow> VaultSwapHop list \<Rightarrow> (VaultChainError, unit) res" where
  "validate_hops vault input output source index [] = Ok ()"
| "validate_hops vault input output source index (hop # rest) =
     (let last = (rest = []) in
      if hp_accounts hop = [] \<or> MAX_VAULT_SWAP_ROUTE_ACCOUNTS < length (hp_accounts hop)
      then Err (VcInvalidInput ''invalid vault swap hop account count'')
      else if hp_data hop = [] then Err (VcInvalidInput ''vault swap hop needs data'')
      else if bad_amount index hop
      then Err (VcInvalidInput ''amount_offset needs a transit source, 8 bytes inside the data and a nonzero scale'')
      else if hp_source hop \<noteq> source \<or> (last \<and> hp_destination hop \<noteq> output) \<or>
        (\<not> last \<and> (hp_destination hop = input \<or> hp_destination hop = output))
      then Err (VcInvalidInput ''vault swap hops must chain input leg, transit ATAs, output leg'')
      else if list_ex (\<lambda>meta. am_is_signer meta \<and> am_pubkey meta \<noteq> vault) (hp_accounts hop)
      then Err (VcInvalidInput ''only the vault PDA may sign a hop CPI'')
      else if list_ex (\<lambda>meta. (am_pubkey meta = input \<or> am_pubkey meta = output) \<and>
        am_pubkey meta \<noteq> hp_source hop \<and> am_pubkey meta \<noteq> hp_destination hop) (hp_accounts hop)
      then Err (VcInvalidInput ''a leg ATA may appear only as its hop's source or destination'')
      else if \<not> contains_key (hp_accounts hop) vault \<or> \<not> contains_key (hp_accounts hop) (hp_source hop) \<or>
        \<not> contains_key (hp_accounts hop) (hp_destination hop)
      then Err (VcInvalidInput ''hop must contain the vault, its source and its destination'')
      else validate_hops vault input output (hp_destination hop) (index + 1) rest)"

definition validate_swap ::
  "find_pda \<Rightarrow> VaultManager \<Rightarrow> VaultSwapKind \<Rightarrow> VaultSwapPlan \<Rightarrow> (VaultChainError, unit) res" where
  "validate_swap pda m kind plan =
     (let hops = sp_hops plan in
      if sp_amount_in plan = 0 \<or> sp_minimum_out plan = 0 \<or> sp_valid_until plan = 0
      then Err (VcInvalidInput ''swap amounts and validity must be non-zero'')
      else if hops = [] \<or> MAX_VAULT_SWAP_HOPS < length hops
      then Err (VcInvalidInput ''invalid vault swap hop count'')
      else if MAX_VAULT_SWAP_PATH_ACCOUNTS < sum_list (map (\<lambda>hop. length (hp_accounts hop) + 3) hops) \<or>
        MAX_VAULT_SWAP_ROUTE_DATA < sum_list (map (\<lambda>hop. length (hp_data hop)) hops)
      then Err (VcInvalidInput ''vault swap hops exceed the account or data cap'')
      else
        bind_res (swap_legs pda m kind) (\<lambda>(input, output).
        validate_hops (ad_vault (mg_addresses m)) input output input 0 hops))"

section \<open>The instruction\<close>

text \<open>The instruction tag, the bytes before the amounts and the accounts before the venue registry, per kind.\<close>

definition swap_prefix ::
  "find_pda \<Rightarrow> VaultManager \<Rightarrow> VaultSwapKind \<Rightarrow> (VaultChainError, VaultIx \<times> bytes \<times> AccountMeta list) res" where
  "swap_prefix pda m kind =
     (let a = mg_addresses m; args = mg_args m;
          head = [meta_readonly (vm_actor args) True, meta_new (ad_vault a) False, meta_readonly (ad_policy a) False];
          control = [meta_readonly (ad_delegate a) False, meta_readonly (ad_global_config a) False];
          custody = [meta_new (ad_vault_main_ata a) False, meta_new (ad_vault_second_ata a) False];
          pair = [meta_readonly (vm_main_mint args) False, meta_readonly (vm_second_mint args) False,
            meta_readonly (vm_main_token_program args) False, meta_readonly (vm_second_token_program args) False];
          stake = [meta_readonly (vm_share_mint args) False, meta_readonly (ad_manager_stake_ata a) False] in
      case kind of
        SwapRecoveryStage _ _ _ \<Rightarrow> Panic
      | SwapRebalance second_to_main \<Rightarrow>
          Ok (VaultSpotRebalance, [of_bool second_to_main], head @ control @ custody @ pair @ stake)
      | SwapRecovery \<Rightarrow>
          Ok (RecoveryConvertToMain, [], head @ custody @ pair @ [meta_readonly (vm_share_mint args) False])
      | SwapClosing \<Rightarrow>
          Ok (ClosingConvertToMain, [], head @ custody @ pair @ [meta_readonly (ad_global_config a) False])
      | SwapStaging step leg asset _ \<Rightarrow>
          (let (leg_ata, leg_mint, leg_program, leg_byte) = (case leg of
                 MainLeg \<Rightarrow> (ad_vault_main_ata a, vm_main_mint args, vm_main_token_program args, 0)
               | SecondLeg \<Rightarrow> (ad_vault_second_ata a, vm_second_mint args, vm_second_token_program args, 1));
               step_byte = (case step of Stage \<Rightarrow> 0 | Unstage \<Rightarrow> 1) in
           Ok (VaultStagingSwap, [step_byte, leg_byte],
             head @ control @
             [meta_new leg_ata False, meta_readonly leg_mint False, meta_readonly leg_program False,
              meta_new (asset_vault_ata pda asset (ad_vault a)) False, meta_readonly (sa_mint asset) False,
              meta_readonly (sa_token_program asset) False] @ stake)))"

fun amount_offset_bytes :: "VaultSwapAmountOffset option \<Rightarrow> bytes" where
  "amount_offset_bytes (Some amount) = u16_le (ao_offset amount) @ u64_le (ao_num amount) @ u64_le (ao_den amount)"
| "amount_offset_bytes None = u16_le NO_AMOUNT_OFFSET"

definition hop_bytes :: "VaultSwapHop \<Rightarrow> bytes" where
  "hop_bytes hop = of_nat (length (hp_accounts hop)) # u16_le (of_nat (length (hp_data hop))) @
     amount_offset_bytes (hp_amount_offset hop) @ hp_data hop"

definition unsigned_meta :: "AccountMeta \<Rightarrow> AccountMeta" where
  "unsigned_meta meta = meta\<lparr>am_is_signer := False\<rparr>"

definition hop_metas :: "VaultSwapHop \<Rightarrow> AccountMeta list" where
  "hop_metas hop = [meta_readonly (hp_program hop) False, meta_new (hp_source hop) False,
     meta_new (hp_destination hop) False] @ map unsigned_meta (hp_accounts hop)"

definition generation_bytes :: "VaultSwapKind \<Rightarrow> bytes" where
  "generation_bytes kind = (case kind of SwapStaging _ _ _ generation \<Rightarrow> u64_le generation | _ \<Rightarrow> [])"

text \<open>\<^verbatim>\<open>swap\<close> on every kind but a recovery stage.\<close>

definition swap_direct ::
  "find_pda \<Rightarrow> VaultManager \<Rightarrow> VaultSwapKind \<Rightarrow> VaultSwapPlan \<Rightarrow> (VaultChainError, Instruction) res" where
  "swap_direct pda m kind plan =
     bind_res (validate_swap pda m kind plan) (\<lambda>_.
     bind_res (swap_prefix pda m kind) (\<lambda>(ix, prefix, accounts).
     Ok (vault_instruction m ix
       (accounts @ [meta_readonly (ad_swap_venues (mg_addresses m)) False] @ sp_price_section plan @
        concat (map hop_metas (sp_hops plan)))
       (prefix @ concat (map u64_le [sp_amount_in plan, sp_minimum_out plan, sp_valid_until plan]) @
        generation_bytes kind @ [of_nat (length (sp_hops plan))] @ concat (map hop_bytes (sp_hops plan))))))"

text \<open>\<^verbatim>\<open>Vec::splice\<close> of an empty range at \<open>i\<close>, and an indexed store; both panic out of range.\<close>

definition splice_res :: "nat \<Rightarrow> 'a list \<Rightarrow> 'a list \<Rightarrow> ('e, 'a list) res" where
  "splice_res i new xs = (if i \<le> length xs then Ok (take i xs @ new @ drop i xs) else Panic)"

definition store_res :: "nat \<Rightarrow> 'a \<Rightarrow> 'a list \<Rightarrow> ('e, 'a list) res" where
  "store_res i x xs = (if i < length xs then Ok (xs[i := x]) else Panic)"

definition vault_swap ::
  "find_pda \<Rightarrow> VaultManager \<Rightarrow> VaultSwapKind \<Rightarrow> VaultSwapPlan \<Rightarrow> (VaultChainError, Instruction) res" where
  "vault_swap pda m kind plan =
     (case kind of
        SwapRecoveryStage asset generation main_price_section \<Rightarrow>
          bind_res (validate_swap pda m kind plan) (\<lambda>_.
          if main_price_section = [] \<or> list_ex (\<lambda>meta. am_is_writable meta \<or> am_is_signer meta) main_price_section
          then Err (VcInvalidInput ''recovery main price section must be nonempty and read-only'')
          else
            bind_res (swap_direct pda m (SwapStaging Stage SecondLeg asset generation) plan) (\<lambda>instruction.
            bind_res (store_res 1 2 (ix_data instruction)) (\<lambda>data.
            let tail = [meta_new (ad_vault_main_ata (mg_addresses m)) False,
              meta_readonly (vm_main_token_program (mg_args m)) False] in
            bind_res (splice_res (fixed_accounts kind + length (sp_price_section plan))
                (tail @ main_price_section) (ix_accounts instruction)) (\<lambda>accounts.
            Ok (instruction\<lparr>ix_accounts := accounts, ix_data := data\<rparr>)))))
      | _ \<Rightarrow> swap_direct pda m kind plan)"

section \<open>Layout\<close>

fun recovery_tail :: "VaultManager \<Rightarrow> VaultSwapKind \<Rightarrow> AccountMeta list" where
  "recovery_tail m (SwapRecoveryStage _ _ main_price_section) =
     [meta_new (ad_vault_main_ata (mg_addresses m)) False,
      meta_readonly (vm_main_token_program (mg_args m)) False] @ main_price_section"
| "recovery_tail m _ = []"

lemma signers_unsigned [simp]: "signers_of (map unsigned_meta ms) = []"
  by (induction ms) (simp_all add: signers_of_def unsigned_meta_def)

lemma signers_hop_metas [simp]: "signers_of (concat (map hop_metas hops)) = []"
  by (induction hops) (simp_all add: hop_metas_def)

lemma signers_none: "list_all (\<lambda>meta. \<not> am_is_signer meta) ms \<Longrightarrow> signers_of ms = []"
  by (induction ms) (simp_all add: signers_of_def)

lemma swap_prefix_Panic: "swap_prefix pda m kind = Panic \<longleftrightarrow> (\<exists>a g s. kind = SwapRecoveryStage a g s)"
  by (cases kind) (auto simp: swap_prefix_def Let_def split: VaultLeg.splits)

lemma swap_prefix_shape:
  assumes "swap_prefix pda m kind = Ok (ix, prefix, accounts)"
  shows "length accounts + 1 = fixed_accounts kind \<and> signers_of accounts = [vm_actor (mg_args m)] \<and>
    length prefix + 25 + length (generation_bytes kind) + 1 = header_len kind"
  using assms
  by (cases kind) (auto simp: swap_prefix_def Let_def generation_bytes_def split: VaultLeg.splits)

lemma swap_direct_shape:
  assumes "swap_direct pda m kind plan = Ok ix"
  shows "\<exists>front head. ix_accounts ix = front @ sp_price_section plan @ concat (map hop_metas (sp_hops plan)) \<and>
    length front = fixed_accounts kind \<and> signers_of front = [vm_actor (mg_args m)] \<and>
    ix_program_id ix = vm_program_id (mg_args m) \<and>
    ix_data ix = head @ of_nat (length (sp_hops plan)) # concat (map hop_bytes (sp_hops plan)) \<and>
    length head + 1 = header_len kind"
proof -
  obtain tag prefix accounts where p: "swap_prefix pda m kind = Ok (tag, prefix, accounts)"
    and ix: "ix = vault_instruction m tag
       (accounts @ [meta_readonly (ad_swap_venues (mg_addresses m)) False] @ sp_price_section plan @
        concat (map hop_metas (sp_hops plan)))
       (prefix @ concat (map u64_le [sp_amount_in plan, sp_minimum_out plan, sp_valid_until plan]) @
        generation_bytes kind @ [of_nat (length (sp_hops plan))] @ concat (map hop_bytes (sp_hops plan)))"
    using assms by (auto simp: swap_direct_def res_simps)
  let ?front = "accounts @ [meta_readonly (ad_swap_venues (mg_addresses m)) False]"
  let ?head = "vault_ix_u8 tag # prefix @ concat (map u64_le [sp_amount_in plan, sp_minimum_out plan, sp_valid_until plan]) @
    generation_bytes kind"
  have "length ?front = fixed_accounts kind" "signers_of ?front = [vm_actor (mg_args m)]"
    "length ?head + 1 = header_len kind"
    using swap_prefix_shape [OF p] by simp_all
  moreover have "ix_accounts ix = ?front @ sp_price_section plan @ concat (map hop_metas (sp_hops plan))"
    "ix_data ix = ?head @ of_nat (length (sp_hops plan)) # concat (map hop_bytes (sp_hops plan))"
    "ix_program_id ix = vm_program_id (mg_args m)"
    by (simp_all add: ix vault_instruction_def)
  ultimately show ?thesis by blast
qed

lemma vault_swap_shape:
  assumes "vault_swap pda m kind plan = Ok ix"
  shows "\<exists>front head. ix_accounts ix = front @ sp_price_section plan @ recovery_tail m kind @
      concat (map hop_metas (sp_hops plan)) \<and>
    length front = fixed_accounts kind \<and> signers_of front = [vm_actor (mg_args m)] \<and>
    signers_of (recovery_tail m kind) = [] \<and> ix_program_id ix = vm_program_id (mg_args m) \<and>
    ix_data ix = head @ of_nat (length (sp_hops plan)) # concat (map hop_bytes (sp_hops plan)) \<and>
    length head + 1 = header_len kind"
proof (cases "\<exists>a g s. kind = SwapRecoveryStage a g s")
  case True
  then obtain a g s where k: "kind = SwapRecoveryStage a g s" by blast
  from assms obtain base where b: "swap_direct pda m (SwapStaging Stage SecondLeg a g) plan = Ok base"
    and s: "\<not> list_ex (\<lambda>meta. am_is_writable meta \<or> am_is_signer meta) s"
    and d: "ix_data ix = (ix_data base)[1 := 2]" "ix_program_id ix = ix_program_id base"
    and acc: "ix_accounts ix = take (14 + length (sp_price_section plan)) (ix_accounts base) @ recovery_tail m kind @
      drop (14 + length (sp_price_section plan)) (ix_accounts base)"
    by (auto simp: vault_swap_def k res_simps Let_def store_res_def splice_res_def split: if_splits)
  obtain front head where h: "ix_accounts base = front @ sp_price_section plan @ concat (map hop_metas (sp_hops plan))"
      "length front = 14" "signers_of front = [vm_actor (mg_args m)]" "ix_program_id base = vm_program_id (mg_args m)"
      "ix_data base = head @ of_nat (length (sp_hops plan)) # concat (map hop_bytes (sp_hops plan))"
      "length head = 35"
    using swap_direct_shape [OF b] by auto
  have "ix_data ix = head[1 := 2] @ of_nat (length (sp_hops plan)) # concat (map hop_bytes (sp_hops plan))"
    using h by (simp add: d list_update_append)
  moreover have "ix_accounts ix = front @ sp_price_section plan @ recovery_tail m kind @ concat (map hop_metas (sp_hops plan))"
    using h by (simp add: acc)
  moreover have "signers_of s = []"
    using s by (intro signers_none) (auto simp: list_ex_iff list_all_iff)
  ultimately show ?thesis using h d k
    by (intro exI [of _ front] exI [of _ "head[1 := 2]"]) simp
next
  case False
  then have "vault_swap pda m kind plan = swap_direct pda m kind plan" "recovery_tail m kind = []"
    by (cases kind; simp add: vault_swap_def)+
  with swap_direct_shape [of pda m kind plan ix] assms show ?thesis by auto
qed

lemma validate_hops_not_Panic [simp]: "validate_hops v i out s n hops \<noteq> Panic"
  by (induction hops arbitrary: s n) (simp_all add: Let_def)

lemma swap_legs_not_Panic [simp]: "swap_legs pda m kind \<noteq> Panic"
  by (auto simp: swap_legs_def staging_legs_def Let_def split: VaultSwapKind.splits VaultStagingStep.splits)

lemma validate_swap_not_Panic [simp]: "validate_swap pda m kind plan \<noteq> Panic"
  unfolding validate_swap_def Let_def by (intro no_panic_intros) (auto split: prod.splits)

lemma swap_direct_not_Panic: "\<nexists>a g s. kind = SwapRecoveryStage a g s \<Longrightarrow> swap_direct pda m kind plan \<noteq> Panic"
  unfolding swap_direct_def by (intro no_panic_intros) (auto simp: swap_prefix_Panic split: prod.splits)

lemma vault_swap_not_Panic: "vault_swap pda m kind plan \<noteq> Panic"
proof (cases kind)
  case (SwapRecoveryStage a g s)
  have "store_res 1 2 (ix_data base) \<noteq> Panic \<and>
      splice_res (14 + length (sp_price_section plan)) new (ix_accounts base) \<noteq> Panic"
    if "swap_direct pda m (SwapStaging Stage SecondLeg a g) plan = Ok base" for base new
    using swap_direct_shape [OF that] by (auto simp: store_res_def splice_res_def)
  then show ?thesis
    unfolding vault_swap_def SwapRecoveryStage VaultSwapKind.case Let_def
    by (intro no_panic_intros) (auto simp: swap_direct_not_Panic)
qed (simp_all add: vault_swap_def swap_direct_not_Panic)

text \<open>
  The swap builder never panics, and what it builds has the layout the source announces: the number of fixed
  accounts and the header length of its kind, then the price section, the recovery tail of a recovery
  stage and the hops in order; the byte before the hops is their number and the hop bytes end the
  data. The actor is the only signer besides those of the given price section: no hop account and no
  recovery account signs.
\<close>

theorem swap_layout:
  "vault_swap pda m kind plan \<noteq> Panic \<and>
   (vault_swap pda m kind plan = Ok ix \<longrightarrow>
     ix_program_id ix = vm_program_id (mg_args m) \<and>
     drop (fixed_accounts kind) (ix_accounts ix) =
       sp_price_section plan @ recovery_tail m kind @ concat (map hop_metas (sp_hops plan)) \<and>
     signers_of (ix_accounts ix) = vm_actor (mg_args m) # signers_of (sp_price_section plan) \<and>
     header_len kind \<le> length (ix_data ix) \<and>
     ix_data ix ! (header_len kind - 1) = of_nat (length (sp_hops plan)) \<and>
     drop (header_len kind) (ix_data ix) = concat (map hop_bytes (sp_hops plan)))"
proof (intro conjI impI vault_swap_not_Panic)
  assume "vault_swap pda m kind plan = Ok ix"
  then obtain front head where h: "ix_accounts ix = front @ sp_price_section plan @ recovery_tail m kind @
      concat (map hop_metas (sp_hops plan))"
    "length front = fixed_accounts kind" "signers_of front = [vm_actor (mg_args m)]"
    "signers_of (recovery_tail m kind) = []" "ix_program_id ix = vm_program_id (mg_args m)"
    "ix_data ix = head @ of_nat (length (sp_hops plan)) # concat (map hop_bytes (sp_hops plan))"
    "length head + 1 = header_len kind"
    using vault_swap_shape by metis
  then show "ix_program_id ix = vm_program_id (mg_args m)"
    "drop (fixed_accounts kind) (ix_accounts ix) =
       sp_price_section plan @ recovery_tail m kind @ concat (map hop_metas (sp_hops plan))"
    "signers_of (ix_accounts ix) = vm_actor (mg_args m) # signers_of (sp_price_section plan)"
    "header_len kind \<le> length (ix_data ix)"
    "drop (header_len kind) (ix_data ix) = concat (map hop_bytes (sp_hops plan))"
    by (simp_all flip: h(2) h(7))
  have "header_len kind - 1 = length head" using h(7) by simp
  then show "ix_data ix ! (header_len kind - 1) = of_nat (length (sp_hops plan))" by (simp add: h(6) nth_append)
qed

section \<open>Chains\<close>

definition hop_ok :: "key \<Rightarrow> key \<Rightarrow> key \<Rightarrow> VaultSwapHop \<Rightarrow> bool" where
  "hop_ok vault input output h \<longleftrightarrow>
     hp_accounts h \<noteq> [] \<and> length (hp_accounts h) \<le> 64 \<and> hp_data h \<noteq> [] \<and>
     (\<forall>a. hp_amount_offset h = Some a \<longrightarrow> ao_offset a \<noteq> NO_AMOUNT_OFFSET \<and>
        unat (ao_offset a) + 8 \<le> length (hp_data h) \<and> ao_num a \<noteq> 0 \<and> ao_den a \<noteq> 0) \<and>
     {vault, hp_source h, hp_destination h} \<subseteq> set (map am_pubkey (hp_accounts h)) \<and>
     list_all (\<lambda>meta. (am_is_signer meta \<longrightarrow> am_pubkey meta = vault) \<and>
       (am_pubkey meta \<in> {input, output} \<longrightarrow> am_pubkey meta \<in> {hp_source h, hp_destination h})) (hp_accounts h)"

fun hop_chain :: "key \<Rightarrow> key \<Rightarrow> key \<Rightarrow> VaultSwapHop list \<Rightarrow> bool" where
  "hop_chain input output source [] \<longleftrightarrow> True"
| "hop_chain input output source [h] \<longleftrightarrow> hp_source h = source \<and> hp_destination h = output"
| "hop_chain input output source (h # hs) \<longleftrightarrow> hp_source h = source \<and> hp_destination h \<notin> {input, output} \<and>
     hop_chain input output (hp_destination h) hs"

lemma contains_key_iff: "contains_key metas k \<longleftrightarrow> k \<in> set (map am_pubkey metas)"
  by (auto simp: contains_key_def list_ex_iff)

lemma validate_hops_Ok:
  "validate_hops vault input output source n hops = Ok () \<Longrightarrow>
   list_all (hop_ok vault input output) hops \<and> hop_chain input output source hops \<and>
   (n = 0 \<longrightarrow> hops \<noteq> [] \<longrightarrow> hp_amount_offset (hd hops) = None)"
proof (induction hops arbitrary: source n)
  case (Cons h rest)
  note v = Cons.prems [simplified, unfolded Let_def if_Err_eq_Ok contains_key_iff, simplified]
  have "hop_ok vault input output h"
    using v by (auto simp: hop_ok_def bad_amount_def list_ex_iff list_all_iff MAX_VAULT_SWAP_ROUTE_ACCOUNTS_def
      split: option.splits)
  moreover have "hop_chain input output source (h # rest)"
    using v Cons.IH [of "hp_destination h" "Suc n"] by (cases rest) auto
  moreover have "n = 0 \<longrightarrow> hp_amount_offset h = None"
    using v by (auto simp: bad_amount_def split: option.splits)
  moreover have "list_all (hop_ok vault input output) rest"
    using v Cons.IH [of "hp_destination h" "Suc n"] by auto
  ultimately show ?case by simp
qed simp

lemma validate_swap_Ok:
  "validate_swap pda m kind plan = Ok () \<Longrightarrow>
   \<exists>input output. swap_legs pda m kind = Ok (input, output) \<and>
     sp_hops plan \<noteq> [] \<and> length (sp_hops plan) \<le> 4 \<and>
     sum_list (map (\<lambda>hop. length (hp_data hop)) (sp_hops plan)) \<le> 1024 \<and>
     list_all (hop_ok (ad_vault (mg_addresses m)) input output) (sp_hops plan) \<and>
     hop_chain input output input (sp_hops plan) \<and> hp_amount_offset (hd (sp_hops plan)) = None"
  using validate_hops_Ok
  by (fastforce simp: validate_swap_def Let_def res_simps MAX_VAULT_SWAP_HOPS_def MAX_VAULT_SWAP_ROUTE_DATA_def
    MAX_VAULT_SWAP_PATH_ACCOUNTS_def)

lemma hop_chain_source:
  "hop_chain input output source hops \<Longrightarrow> i < length hops \<Longrightarrow>
     hp_source (hops ! i) = (if i = 0 then source else hp_destination (hops ! (i - 1)))"
proof (induction input "output" source hops arbitrary: i rule: hop_chain.induct)
  case (3 inp outp source h h' hs)
  then show ?case by (cases i) (auto split: if_splits simp: nth_Cons split: nat.splits)
qed auto

lemma hop_chain_destination:
  "hop_chain input output source hops \<Longrightarrow> i < length hops \<Longrightarrow>
     (if i + 1 = length hops then hp_destination (hops ! i) = output else hp_destination (hops ! i) \<notin> {input, output})"
proof (induction input "output" source hops arbitrary: i rule: hop_chain.induct)
  case (3 inp outp source h h' hs)
  show ?case
  proof (cases i)
    case 0
    with 3 show ?thesis by simp
  next
    case (Suc n)
    with "3.IH" [of n] "3.prems" show ?thesis by (simp split: if_splits)
  qed
qed auto

lemma hop_chain_legs:
  assumes "hop_chain input output input hops" and "input \<noteq> output" and "i < length hops"
  shows "(hp_source (hops ! i) = input \<longleftrightarrow> i = 0) \<and> (hp_destination (hops ! i) = output \<longleftrightarrow> i + 1 = length hops) \<and>
    hp_source (hops ! i) \<noteq> output \<and> hp_destination (hops ! i) \<noteq> input"
  using hop_chain_source [OF assms(1,3)] hop_chain_destination [OF assms(1,3)]
    hop_chain_destination [OF assms(1), of "i - 1"] assms(2,3)
  by (auto split: if_splits)

text \<open>
  C33. A swap is built only for a plan of one to four hops that chains: the first hop spends the input leg,
  each later one spends what the hop before it filled, the last fills the output leg, and no other hop
  names a leg. Nobody but the vault signs inside a hop. The input leg's account appears in the first hop
  only and the output leg's in the last only, so no venue reached in between can touch either; the first hop
  spends a literal amount, and a computed amount lies inside its hop's data.
\<close>

theorem swap_chains:
  assumes "vault_swap pda m kind plan = Ok ix" and "swap_legs pda m kind = Ok (input, output)" and "input \<noteq> output"
  shows "0 < length (sp_hops plan) \<and> length (sp_hops plan) \<le> 4 \<and> hp_amount_offset (sp_hops plan ! 0) = None \<and>
    (\<forall>i < length (sp_hops plan). let h = sp_hops plan ! i in
       hp_source h = (if i = 0 then input else hp_destination (sp_hops plan ! (i - 1))) \<and>
       (hp_destination h = output \<longleftrightarrow> i + 1 = length (sp_hops plan)) \<and> hp_destination h \<noteq> input \<and>
       (\<forall>a. hp_amount_offset h = Some a \<longrightarrow> unat (ao_offset a) + 8 \<le> length (hp_data h)) \<and>
       (\<forall>meta \<in> set (hp_accounts h).
          (am_is_signer meta \<longrightarrow> am_pubkey meta = ad_vault (mg_addresses m)) \<and>
          (am_pubkey meta = input \<longrightarrow> i = 0) \<and> (am_pubkey meta = output \<longrightarrow> i + 1 = length (sp_hops plan))))"
proof -
  have "validate_swap pda m kind plan = Ok ()"
    using assms(1) by (cases kind) (auto simp: vault_swap_def swap_direct_def res_simps)
  then have v: "sp_hops plan \<noteq> []" "length (sp_hops plan) \<le> 4" "hp_amount_offset (hd (sp_hops plan)) = None"
      "list_all (hop_ok (ad_vault (mg_addresses m)) input output) (sp_hops plan)"
      "hop_chain input output input (sp_hops plan)"
    using validate_swap_Ok assms(2) by fastforce+
  have "hop_ok (ad_vault (mg_addresses m)) input output (sp_hops plan ! i)" if "i < length (sp_hops plan)" for i
    using v(4) that by (simp add: list_all_length)
  then show ?thesis
    using v(1-3) hop_chain_source [OF v(5)] hop_chain_legs [OF v(5) assms(3)]
    by (simp add: Let_def hop_ok_def list_all_iff hd_conv_nth) metis
qed

text \<open>A derivation that keeps the last seed apart, so that the two leg accounts differ.\<close>

definition last_seed_pda :: find_pda where
  "last_seed_pda seeds program = (take 32 (rev (concat seeds) @ replicate 32 0), 255)"

definition swap_manager :: VaultManager where
  "swap_manager = \<lparr>mg_args = mg_args sample_manager,
     mg_addresses = manager_addresses last_seed_pda (mg_args sample_manager)\<rparr>"

lemma swap_manager_addresses:
  "ad_vault (mg_addresses swap_manager) = replicate 32 1"
  "ad_vault_main_ata (mg_addresses swap_manager) = replicate 32 4"
  "ad_vault_second_ata (mg_addresses swap_manager) = replicate 32 7"
  by (simp_all add: swap_manager_def manager_addresses_def sample_managers Let_def pda_vault_def ata_def
    ata_with_bump_def last_seed_pda_def)

definition sample_hop :: VaultSwapHop where
  "sample_hop =
     \<lparr>hp_program = replicate 32 11, hp_source = replicate 32 4, hp_destination = replicate 32 7,
      hp_accounts = [meta_readonly (replicate 32 1) True, meta_new (replicate 32 4) False,
        meta_new (replicate 32 7) False], hp_data = [9, 9], hp_amount_offset = None\<rparr>"

definition sample_plan :: VaultSwapPlan where
  "sample_plan = \<lparr>sp_price_section = [meta_readonly (replicate 32 12) False], sp_amount_in = 100,
     sp_minimum_out = 90, sp_valid_until = 1000, sp_hops = [sample_hop]\<rparr>"

lemma sample_swap_legs:
  "swap_legs last_seed_pda swap_manager (SwapRebalance False) = Ok (replicate 32 4, replicate 32 7)"
  by (simp add: swap_legs_def swap_manager_addresses Let_def)

lemma sample_swap: "\<exists>ix. vault_swap last_seed_pda swap_manager (SwapRebalance False) sample_plan = Ok ix"
proof -
  have "validate_swap last_seed_pda swap_manager (SwapRebalance False) sample_plan = Ok ()"
    by (simp add: validate_swap_def sample_swap_legs swap_manager_addresses sample_plan_def sample_hop_def Let_def
      MAX_VAULT_SWAP_HOPS_def MAX_VAULT_SWAP_PATH_ACCOUNTS_def MAX_VAULT_SWAP_ROUTE_DATA_def
      MAX_VAULT_SWAP_ROUTE_ACCOUNTS_def bad_amount_def meta_new_def meta_readonly_def contains_key_def)
  then show ?thesis by (simp add: vault_swap_def swap_direct_def swap_prefix_def Let_def)
qed

theorem swap_layout_witness:
  "\<exists>ix. vault_swap last_seed_pda swap_manager (SwapRebalance False) sample_plan = Ok ix \<and>
     ix_data ix ! 26 = 1 \<and> signers_of (ix_accounts ix) = [replicate 32 3]"
proof -
  obtain ix where ix: "vault_swap last_seed_pda swap_manager (SwapRebalance False) sample_plan = Ok ix"
    using sample_swap by blast
  then have "signers_of (ix_accounts ix) = vm_actor (mg_args swap_manager) # signers_of (sp_price_section sample_plan)"
    "ix_data ix ! (header_len (SwapRebalance False) - 1) = of_nat (length (sp_hops sample_plan))"
    using swap_layout [of last_seed_pda swap_manager "SwapRebalance False" sample_plan ix] by blast+
  with ix show ?thesis by (simp add: sample_plan_def swap_manager_def sample_managers)
qed

theorem swap_chains_witness:
  "hp_source (sp_hops sample_plan ! 0) = replicate 32 4 \<and> hp_destination (sp_hops sample_plan ! 0) = replicate 32 7"
proof -
  obtain ix where ix: "vault_swap last_seed_pda swap_manager (SwapRebalance False) sample_plan = Ok ix"
    using sample_swap by blast
  have "(replicate 32 4 :: key) \<noteq> replicate 32 7" by simp
  from swap_chains [OF ix sample_swap_legs this] show ?thesis by (simp add: Let_def sample_plan_def)
qed

end
