(* ===== verification/SwapParts.thy ===== *)
theory SwapParts
  imports ServedOpen VaultSwap Domain
begin

text \<open>
  \<^verbatim>\<open>src/src/chain/vault/served.rs\<close>, the parts of \<^verbatim>\<open>verify_vault_swap\<close>: reading amounts, rebuilding the setup
  instructions a swap may carry, recognising a price section, and splitting the served hops back out of
  the instruction. Splitting is shown to invert the swap builder.
\<close>

section \<open>Amounts\<close>

text \<open>\<^verbatim>\<open>str::parse::<u64>\<close>: an optional plus sign, then at least one digit, without overflow.\<close>

fun parse_digits :: "u64 \<Rightarrow> rust_str \<Rightarrow> u64 option" where
  "parse_digits acc [] = Some acc"
| "parse_digits acc (c # cs) =
     (if 48 \<le> c \<and> c \<le> 57
      then (case checked_mul acc 10 of
              None \<Rightarrow> None
            | Some m \<Rightarrow> (case checked_add m (of_nat (c - 48)) of None \<Rightarrow> None | Some a \<Rightarrow> parse_digits a cs))
      else None)"

definition parse_u64 :: "rust_str \<Rightarrow> u64 option" where
  "parse_u64 s =
     (let digits = (case s of c # cs \<Rightarrow> if c = 43 \<and> cs \<noteq> [] then cs else s | [] \<Rightarrow> []) in
      if digits = [] then None else parse_digits 0 digits)"

definition parse_amount :: "rust_str \<Rightarrow> string \<Rightarrow> (VaultIntentError, u64) res" where
  "parse_amount value field = ok_or (ViTerms field) (parse_u64 (str_trim value))"

section \<open>Setup instructions\<close>

record PairPriceRoutes =
  pp_main :: PriceRoute
  pp_second :: PriceRoute
  pp_staging :: "PriceRoute list"
  pp_shards :: "u16 list"

definition STAKE_POOL_PROGRAM_IDS :: "key list" where
  "STAKE_POOL_PROGRAM_IDS = [
     [6, 129, 78, 212, 202, 246, 138, 23, 70, 114, 253, 172, 134, 3, 26, 99,
      232, 78, 161, 94, 250, 29, 68, 183, 34, 147, 246, 219, 219, 0, 22, 80],
     [6, 128, 202, 15, 153, 129, 125, 198, 134, 8, 196, 172, 91, 156, 165, 34,
      163, 58, 89, 41, 241, 107, 218, 130, 68, 164, 28, 3, 22, 185, 8, 237]]"

definition UPDATE_STAKE_POOL_BALANCE :: u8 where
  "UPDATE_STAKE_POOL_BALANCE = 7"

definition update_stake_pool_balance ::
  "find_pda \<Rightarrow> key \<Rightarrow> key \<Rightarrow> key \<Rightarrow> key \<Rightarrow> key \<Rightarrow> key \<Rightarrow> key \<Rightarrow> Instruction" where
  "update_stake_pool_balance pda program pool validators reserve fee mint token_program =
     (let authority = fst (pda [pool, [119, 105, 116, 104, 100, 114, 97, 119]] program) in
      \<lparr>ix_program_id = program,
       ix_accounts = [meta_new pool False, meta_readonly authority False, meta_new validators False,
         meta_readonly reserve False, meta_new fee False, meta_new mint False, meta_readonly token_program False],
       ix_data = [UPDATE_STAKE_POOL_BALANCE]\<rparr>)"

definition setup_key :: "Instruction \<Rightarrow> nat \<Rightarrow> (VaultIntentError, key) res" where
  "setup_key served position =
     ok_or (ViSetup ''instruction is truncated'') (map_option am_pubkey (get_opt position (ix_accounts served)))"

definition setup_token_program :: "Instruction \<Rightarrow> nat \<Rightarrow> (VaultIntentError, key) res" where
  "setup_token_program served position =
     bind_res (setup_key served position) (\<lambda>program.
     if program = TOKEN_PROGRAM_ID \<or> program = TOKEN_2022_PROGRAM_ID then Ok program
     else Err (ViSetup ''token program is not SPL Token''))"

definition pinned_pool :: "PairPriceRoutes \<Rightarrow> key \<Rightarrow> bool" where
  "pinned_pool routes pool =
     list_ex (\<lambda>ratio. ra_account ratio = pool)
       (concat (map account_ratios ([pp_main routes, pp_second routes] @ pp_staging routes)))"

definition swap_setup ::
  "find_pda \<Rightarrow> VaultManager \<Rightarrow> PairPriceRoutes \<Rightarrow> key \<Rightarrow> Instruction \<Rightarrow> (VaultIntentError, Instruction) res" where
  "swap_setup pda vault routes payer served =
     (if ix_program_id served = ASSOCIATED_TOKEN_PROGRAM_ID
      then
        bind_res (setup_key served 3) (\<lambda>mint.
        let args = mg_args vault in
        if mint \<in> set [vm_main_mint args, vm_second_mint args, vm_share_mint args]
        then Err (ViSetup ''creates an account for a vault leg or share mint'')
        else
          bind_res (setup_token_program served 5) (\<lambda>token_program.
          Ok (create_ata_idempotent pda payer (ad_vault (mg_addresses vault)) mint token_program)))
      else if ix_program_id served \<notin> set STAKE_POOL_PROGRAM_IDS
      then Err (ViSetup ''unexpected instruction before the swap'')
      else
        bind_res (setup_key served 0) (\<lambda>pool.
        if \<not> pinned_pool routes pool then Err (ViSetup ''updates a stake pool the vault's routes do not pin'')
        else
          bind_res (setup_key served 2) (\<lambda>validators.
          bind_res (setup_key served 3) (\<lambda>reserve.
          bind_res (setup_key served 4) (\<lambda>fee.
          bind_res (setup_key served 5) (\<lambda>mint.
          bind_res (setup_token_program served 6) (\<lambda>token_program.
          Ok (update_stake_pool_balance pda (ix_program_id served) pool validators reserve fee mint token_program))))))))"

text \<open>The loop over the instructions between the budget and the swap.\<close>

fun swap_setups ::
  "find_pda \<Rightarrow> VaultManager \<Rightarrow> PairPriceRoutes \<Rightarrow> key \<Rightarrow> Instruction list \<Rightarrow> (VaultIntentError, Instruction list) res" where
  "swap_setups pda vault routes payer [] = Ok []"
| "swap_setups pda vault routes payer (ix # ixs) =
     (if ix_program_id ix = vm_program_id (mg_args vault) then Ok []
      else
        bind_res (swap_setup pda vault routes payer ix) (\<lambda>e.
        bind_res (swap_setups pda vault routes payer ixs) (\<lambda>es. Ok (e # es))))"

fun route_atas :: "VaultSwapHop list \<Rightarrow> key list \<Rightarrow> Instruction list \<Rightarrow> (VaultIntentError, unit) res" where
  "route_atas hops created [] = Ok ()"
| "route_atas hops created (ix # ixs) =
     (if ix_program_id ix \<noteq> ASSOCIATED_TOKEN_PROGRAM_ID then route_atas hops created ixs
      else
        bind_res (index_res 1 (ix_accounts ix)) (\<lambda>meta.
        let ata = am_pubkey meta;
            routed = list_ex (\<lambda>hop. hp_destination hop = ata) (butlast hops) \<or>
              list_ex (\<lambda>hop. contains_key (hp_accounts hop) ata) hops in
        if \<not> routed then Err (ViSetup ''creates an account the route does not use'')
        else if ata \<in> set created then Err (ViSetup ''creates the same account twice'')
        else route_atas hops (created @ [ata]) ixs))"

definition require_route_atas :: "Instruction list \<Rightarrow> VaultSwapHop list \<Rightarrow> (VaultIntentError, unit) res" where
  "require_route_atas setup hops = route_atas hops [] setup"

section \<open>Price sections\<close>

definition section_matches :: "AccountMeta list \<Rightarrow> AccountMeta list \<Rightarrow> bool" where
  "section_matches rest expected \<longleftrightarrow>
     length expected \<le> length rest \<and>
     list_all (\<lambda>(s, e). am_pubkey s = am_pubkey e) (zip (take (length expected) rest) expected)"

fun price_legs ::
  "find_pda \<Rightarrow> u16 list \<Rightarrow> AccountMeta list \<Rightarrow> AccountMeta list \<Rightarrow> (string \<times> key \<times> PriceRoute) list \<Rightarrow>
   (VaultIntentError, AccountMeta list) res" where
  "price_legs pda shards served acc [] = Ok acc"
| "price_legs pda shards served acc ((leg, address, route) # legs) =
     bind_res (slice_res (length acc) (length served) served) (\<lambda>rest.
     bind_res (ok_or (ViPriceSection leg)
         (find (section_matches rest) (map (route_accounts pda route address) shards))) (\<lambda>found.
     price_legs pda shards served (acc @ found) legs))"

definition served_price_section ::
  "find_pda \<Rightarrow> (string \<times> key \<times> PriceRoute) list \<Rightarrow> u16 list \<Rightarrow> AccountMeta list \<Rightarrow>
   (VaultIntentError, AccountMeta list) res" where
  "served_price_section pda legs shards served = price_legs pda shards served [] legs"

section \<open>Hops\<close>

abbreviation hops_truncated :: VaultIntentError where
  "hops_truncated \<equiv> ViRoute ''swap hops are truncated''"

text \<open>The amount field of a hop: nothing, or an offset with its scale.\<close>

definition served_amount :: "u16 \<Rightarrow> bytes \<Rightarrow> (VaultIntentError, VaultSwapAmountOffset option \<times> bytes) res" where
  "served_amount offset rest =
     (if offset = NO_AMOUNT_OFFSET then Ok (None, rest)
      else if length rest < 8 then Err hops_truncated
      else if length (drop 8 rest) < 8 then Err hops_truncated
      else Ok (Some \<lparr>ao_offset = offset, ao_num = from_le (take 8 rest), ao_den = from_le (take 8 (drop 8 rest))\<rparr>,
             drop 16 rest))"

fun served_hop :: "bytes \<Rightarrow> AccountMeta list \<Rightarrow> (VaultIntentError, VaultSwapHop \<times> bytes \<times> AccountMeta list) res" where
  "served_hop (cnt # lo # hi # offset_lo # offset_hi # rest) accounts =
     bind_res (served_amount (from_le [offset_lo, offset_hi]) rest) (\<lambda>(amount_offset, rest).
     let data_len = unat (from_le [lo, hi] :: u16) in
     if length rest < data_len then Err hops_truncated
     else (case accounts of
        program # source # destination # tail \<Rightarrow>
          if length tail < unat cnt then Err hops_truncated
          else Ok (\<lparr>hp_program = am_pubkey program, hp_source = am_pubkey source,
                   hp_destination = am_pubkey destination, hp_accounts = take (unat cnt) tail,
                   hp_data = take data_len rest, hp_amount_offset = amount_offset\<rparr>,
                 drop data_len rest, drop (unat cnt) tail)
      | _ \<Rightarrow> Err hops_truncated))"
| "served_hop _ _ = Err hops_truncated"

fun served_hops_loop :: "nat \<Rightarrow> bytes \<Rightarrow> AccountMeta list \<Rightarrow> (VaultIntentError, VaultSwapHop list) res" where
  "served_hops_loop 0 data accounts = Ok []"
| "served_hops_loop (Suc n) data accounts =
     bind_res (served_hop data accounts) (\<lambda>(hop, data, accounts).
     bind_res (served_hops_loop n data accounts) (\<lambda>hops. Ok (hop # hops)))"

definition served_hops :: "u8 \<Rightarrow> bytes \<Rightarrow> AccountMeta list \<Rightarrow> (VaultIntentError, VaultSwapHop list) res" where
  "served_hops cnt data accounts = served_hops_loop (unat cnt) data accounts"

section \<open>Reading amounts\<close>

definition digits_value :: "nat \<Rightarrow> rust_str \<Rightarrow> nat" where
  "digits_value acc ds = foldl (\<lambda>a c. a * 10 + (c - 48)) acc ds"

lemma digits_value_mono: "acc \<le> digits_value acc ds"
proof (induction ds arbitrary: acc)
  case (Cons c ds)
  have "acc \<le> acc * 10 + (c - 48)" by simp
  also have "\<dots> \<le> digits_value (acc * 10 + (c - 48)) ds" by (rule Cons)
  finally show ?case by (simp add: digits_value_def)
qed (simp add: digits_value_def)

lemma parse_digits_exact:
  "parse_digits acc ds = Some n \<longleftrightarrow>
     list_all (\<lambda>c. 48 \<le> c \<and> c \<le> 57) ds \<and> digits_value (unat acc) ds = unat n"
proof (induction ds arbitrary: acc)
  case (Cons c ds)
  show ?case
  proof (cases "48 \<le> c \<and> c \<le> 57")
    case True
    let ?v = "unat acc * 10 + (c - 48)"
    have "c - 48 < 10" using True by linarith
    then have "c - 48 < 2 ^ LENGTH(64)" by (rule less_trans) simp
    then have d: "unat (of_nat (c - 48) :: u64) = c - 48"
      by (subst unat_of_nat) (rule mod_less)
    have big: "digits_value ?v ds \<noteq> unat n" if "2 ^ 64 \<le> ?v"
      using that digits_value_mono [of ?v ds] unat_bounded [of n] by simp
    show ?thesis
    proof (cases "?v < 2 ^ 64")
      case v: True
      then have m: "checked_mul acc 10 = Some (acc * 10)" "unat (acc * 10) = unat acc * 10"
        by (simp_all add: checked_mul_def unat_mul_small)
      then have a: "checked_add (acc * 10) (of_nat (c - 48)) = Some (acc * 10 + of_nat (c - 48))"
          "unat (acc * 10 + of_nat (c - 48)) = ?v"
        using v by (simp_all add: checked_add_def d unat_add_small)
      show ?thesis using True m(1) a Cons.IH by (simp add: digits_value_def)
    next
      case v: False
      have "parse_digits acc (c # ds) = None"
        using True v d unat_mul_small [of acc 10]
        by (auto simp: checked_mul_def checked_add_def split: option.splits)
      then show ?thesis using True v big by (simp add: digits_value_def)
    qed
  qed auto
qed (auto simp: digits_value_def word_eq_unat)

section \<open>Splitting what the builder packed\<close>

definition hop_wire_ok :: "VaultSwapHop \<Rightarrow> bool" where
  "hop_wire_ok h \<longleftrightarrow> length (hp_accounts h) < 256 \<and> length (hp_data h) < 65536 \<and>
     (\<forall>a. hp_amount_offset h = Some a \<longrightarrow> ao_offset a \<noteq> NO_AMOUNT_OFFSET)"

definition plain_hop :: "VaultSwapHop \<Rightarrow> VaultSwapHop" where
  "plain_hop h = h\<lparr>hp_accounts := map unsigned_meta (hp_accounts h)\<rparr>"

lemma u16_le_split: "\<exists>lo hi. u16_le w = [lo, hi] \<and> from_le [lo, hi] = w"
proof -
  have "u16_le w = [of_nat (unat w mod 256), of_nat (unat w div 256 mod 256)]"
    by (simp add: u16_le_def numeral_2_eq_2)
  with from_le_roundtrip(1) [of w] show ?thesis by auto
qed

lemma served_hop_roundtrip:
  assumes "hop_wire_ok h"
  shows "served_hop (hop_bytes h @ r) (hop_metas h @ t) = Ok (plain_hop h, r, t)"
proof -
  have n: "unat (of_nat (length (hp_accounts h)) :: u8) = length (hp_accounts h)"
      "unat (of_nat (length (hp_data h)) :: u16) = length (hp_data h)"
    using assms by (simp_all add: hop_wire_ok_def unat_of_nat take_bit_nat_eq_self)
  obtain lo hi where d: "u16_le (of_nat (length (hp_data h))) = [lo, hi]"
      "from_le [lo, hi] = (of_nat (length (hp_data h)) :: u16)"
    using u16_le_split by blast
  show ?thesis
  proof (cases "hp_amount_offset h")
    case None
    obtain a b where o: "u16_le NO_AMOUNT_OFFSET = [a, b]" "from_le [a, b] = NO_AMOUNT_OFFSET"
      using u16_le_split by blast
    then show ?thesis
      using n d None by (cases h)
        (simp add: hop_bytes_def hop_metas_def served_amount_def plain_hop_def Let_def meta_readonly_def meta_new_def)
  next
    case (Some am)
    obtain a b where o: "u16_le (ao_offset am) = [a, b]" "from_le [a, b] = ao_offset am"
      using u16_le_split by blast
    moreover have "ao_offset am \<noteq> NO_AMOUNT_OFFSET" using assms Some by (simp add: hop_wire_ok_def)
    ultimately show ?thesis
      using n d Some by (cases h; cases am)
        (simp add: hop_bytes_def hop_metas_def served_amount_def plain_hop_def Let_def meta_readonly_def meta_new_def)
  qed
qed

lemma served_hops_loop_roundtrip:
  "list_all hop_wire_ok hs \<Longrightarrow>
   served_hops_loop (length hs) (concat (map hop_bytes hs) @ r) (concat (map hop_metas hs) @ t) = Ok (map plain_hop hs)"
  by (induction hs) (simp_all add: served_hop_roundtrip)

lemma valid_hops_wire_ok:
  assumes "validate_swap pda m kind plan = Ok ()"
  shows "list_all hop_wire_ok (sp_hops plan) \<and> length (sp_hops plan) \<le> 4"
proof -
  obtain i out where v: "length (sp_hops plan) \<le> 4"
      "sum_list (map (\<lambda>hop. length (hp_data hop)) (sp_hops plan)) \<le> 1024"
      "list_all (hop_ok (ad_vault (mg_addresses m)) i out) (sp_hops plan)"
    using validate_swap_Ok [OF assms] by blast
  have "length (hp_data h) \<le> 1024" if "h \<in> set (sp_hops plan)" for h
    using v(2) member_le_sum_list [of "length (hp_data h)" "map (\<lambda>hop. length (hp_data hop)) (sp_hops plan)"] that
    by simp
  with v(1,3) show ?thesis
    by (fastforce simp: hop_wire_ok_def hop_ok_def list_all_iff)
qed

text \<open>
  What the venue quotes as an amount is read exactly: a string is accepted when, after trimming and an optional
  plus sign, it is a non-empty run of decimal digits whose value fits 64 bits, and that value is returned. A longer
  number is refused, never wrapped.
\<close>

theorem amounts_read_exactly:
  "parse_amount value field = Ok n \<longleftrightarrow>
     (\<exists>digits. (str_trim value = digits \<or> str_trim value = 43 # digits) \<and> digits \<noteq> [] \<and>
        list_all (\<lambda>c. 48 \<le> c \<and> c \<le> 57) digits \<and> digits_value 0 digits = unat n)"
proof (cases "str_trim value")
  case (Cons c cs)
  show ?thesis
  proof (cases "c = 43")
    case True
    have "parse_amount value field = Ok n \<longleftrightarrow> cs \<noteq> [] \<and> list_all (\<lambda>c. 48 \<le> c \<and> c \<le> 57) cs \<and> digits_value 0 cs = unat n"
      using Cons True by (auto simp: parse_amount_def parse_u64_def ok_or_eq_Ok parse_digits_exact Let_def)
    then show ?thesis using Cons True by auto
  next
    case False
    have "parse_amount value field = Ok n \<longleftrightarrow>
        list_all (\<lambda>c. 48 \<le> c \<and> c \<le> 57) (c # cs) \<and> digits_value 0 (c # cs) = unat n"
      using Cons False by (auto simp: parse_amount_def parse_u64_def ok_or_eq_Ok parse_digits_exact Let_def simp del: parse_digits.simps)
    then show ?thesis using Cons False by auto
  qed
qed (auto simp: parse_amount_def parse_u64_def ok_or_eq_Ok)

text \<open>
  C34. The hop reader of the verifier inverts the packing of the builder: from the data and accounts of any swap
  instruction that was built, at the offsets the verifier uses, it reads back the plan's hops with the
  signer flags the builder removes cleared.
\<close>

theorem swap_hops_roundtrip:
  assumes "vault_swap pda m kind plan = Ok ix"
  shows "served_hops (ix_data ix ! (header_len kind - 1)) (drop (header_len kind) (ix_data ix))
      (drop (fixed_accounts kind + length (sp_price_section plan) + length (recovery_tail m kind)) (ix_accounts ix)) =
    Ok (map plain_hop (sp_hops plan))"
proof -
  obtain front head where h: "ix_accounts ix = front @ sp_price_section plan @ recovery_tail m kind @
      concat (map hop_metas (sp_hops plan))" "length front = fixed_accounts kind"
    "ix_data ix = head @ of_nat (length (sp_hops plan)) # concat (map hop_bytes (sp_hops plan))"
    "length head + 1 = header_len kind"
    using vault_swap_shape [OF assms] by blast
  have "validate_swap pda m kind plan = Ok ()"
    using assms by (cases kind) (auto simp: vault_swap_def swap_direct_def res_simps)
  then have v: "list_all hop_wire_ok (sp_hops plan)" "length (sp_hops plan) \<le> 4" using valid_hops_wire_ok by blast+
  then have n: "unat (of_nat (length (sp_hops plan)) :: u8) = length (sp_hops plan)"
    by (simp add: unat_of_nat take_bit_nat_eq_self)
  have "header_len kind - 1 = length head" "header_len kind = Suc (length head)" using h(4) by simp_all
  then have "ix_data ix ! (header_len kind - 1) = of_nat (length (sp_hops plan))"
      "drop (header_len kind) (ix_data ix) = concat (map hop_bytes (sp_hops plan))"
    by (simp_all add: h(3))
  moreover have "drop (fixed_accounts kind + length (sp_price_section plan) + length (recovery_tail m kind)) (ix_accounts ix) =
      concat (map hop_metas (sp_hops plan))"
    by (simp add: h(1) flip: h(2))
  ultimately show ?thesis
    using served_hops_loop_roundtrip [OF v(1), of "[]" "[]"] by (simp add: served_hops_def n)
qed

theorem swap_hops_roundtrip_witness:
  "\<exists>ix. vault_swap last_seed_pda swap_manager (SwapRebalance False) sample_plan = Ok ix \<and>
     served_hops (ix_data ix ! 26) (drop 27 (ix_data ix)) (drop 15 (ix_accounts ix)) = Ok [plain_hop sample_hop]"
proof -
  obtain ix where ix: "vault_swap last_seed_pda swap_manager (SwapRebalance False) sample_plan = Ok ix"
    using sample_swap by blast
  from swap_hops_roundtrip [OF ix] ix show ?thesis by (simp add: sample_plan_def)
qed

end
