(* ===== verification/ServedSwap.thy ===== *)
theory ServedSwap
  imports SwapParts
begin

text \<open>
  \<^verbatim>\<open>src/src/chain/vault/served.rs\<close>, \<^verbatim>\<open>verify_vault_swap\<close>: a served swap is checked against the operator's
  request, the quoted terms, the pair's price routes and the vault's staging slot, then rebuilt and
  compared. Acceptance is shown to bound what the vault can lose and to leave nothing to the venue but
  the route.
\<close>

section \<open>Requests and quotes\<close>

datatype VaultSwapMode = ModeRebalance | ModeRecovery | ModeClosing
datatype VaultSwapDirection = MainToSecond | SecondToMain

record SwapQuoteData =
  sq_request_id :: bytes
  sq_vault_pda :: key
  sq_mode :: VaultSwapMode
  sq_direction :: VaultSwapDirection
  sq_amount :: rust_str
  sq_slippage_bps :: u16

record SwapQuoteResultData =
  sr_request_id :: bytes
  sr_execution_id :: bytes
  sr_mode :: VaultSwapMode
  sr_tx_base64 :: string
  sr_last_valid_block_height :: u64
  sr_in_amount :: rust_str
  sr_quoted_out_amount :: rust_str
  sr_minimum_out_amount :: rust_str
  sr_valid_until :: rust_str
  sr_staging :: "VaultStagingStep option"

record VaultSwapIntent =
  si_vault :: VaultManager
  si_request :: SwapQuoteData
  si_quote :: SwapQuoteResultData
  si_price_routes :: PairPriceRoutes
  si_min_output_floor :: u64
  si_account :: VaultAccount

definition BPS :: u128 where "BPS = 10000"
definition STAGING_GENERATION_OFFSET :: nat where "STAGING_GENERATION_OFFSET = 27"

section \<open>Terms\<close>

definition request_kind :: "SwapQuoteData \<Rightarrow> (VaultIntentError, VaultSwapKind) res" where
  "request_kind request =
     (case (sq_mode request, sq_direction request) of
        (ModeRebalance, MainToSecond) \<Rightarrow> Ok (SwapRebalance False)
      | (ModeRebalance, SecondToMain) \<Rightarrow> Ok (SwapRebalance True)
      | (ModeRecovery, SecondToMain) \<Rightarrow> Ok SwapRecovery
      | (ModeClosing, SecondToMain) \<Rightarrow> Ok SwapClosing
      | _ \<Rightarrow> Err (ViTerms ''unsupported swap mode or direction''))"

definition check_input ::
  "VaultStagingStep option \<Rightarrow> VaultStagedSlot option \<Rightarrow> rust_str \<Rightarrow> u64 \<Rightarrow> (VaultIntentError, unit) res" where
  "check_input staging open_slot request_amount amount_in =
     (let same_as_request =
        bind_res (parse_amount request_amount ''request amount'') (\<lambda>amount.
        if amount_in \<noteq> amount then Err (ViTerms ''quoted input differs from request'') else Ok ()) in
      case (staging, open_slot) of
        (Some Unstage, Some slot) \<Rightarrow>
          if amount_in \<noteq> sl_amount slot then Err (ViTerms ''an unstage must spend the whole staged amount'') else Ok ()
      | (Some Unstage, None) \<Rightarrow> Err (ViTerms ''nothing is staged to unstage'')
      | (Some Stage, Some _) \<Rightarrow> Err (ViTerms ''a stage needs an empty staging slot'')
      | (Some Stage, None) \<Rightarrow> same_as_request
      | (None, _) \<Rightarrow> same_as_request)"

definition check_slippage :: "u16 \<Rightarrow> u64 \<Rightarrow> u64 \<Rightarrow> (VaultIntentError, unit) res" where
  "check_slippage slippage_bps quoted_out minimum_out =
     (let refused = Err (ViTerms ''minimum output exceeds the requested slippage'');
          slippage = (ucast slippage_bps :: u128) in
      if BPS < slippage \<or> quoted_out = 0 \<or> minimum_out = 0 then refused
      else
        bind_res (plain_sub BPS slippage) (\<lambda>keep.
        bind_res (plain_mul (u128_from quoted_out) keep) (\<lambda>product.
        bind_res (plain_div product BPS) (\<lambda>least.
        if u128_from minimum_out < least then refused else Ok ()))))"

record SwapTerms =
  ts_kind :: VaultSwapKind
  ts_amount_in :: u64
  ts_minimum_out :: u64
  ts_valid_until :: u64

text \<open>Everything \<^verbatim>\<open>verify_vault_swap\<close> checks before it decodes the transaction.\<close>

definition swap_terms :: "VaultSwapIntent \<Rightarrow> (VaultIntentError, SwapTerms) res" where
  "swap_terms intent =
     (let vault = si_vault intent; request = si_request intent; quote = si_quote intent;
          slot = va_staging (si_account intent) in
      bind_res (map_err ViIntent (ensure_current vault (si_account intent))) (\<lambda>_.
      if sq_vault_pda request \<noteq> ad_vault (mg_addresses vault) then Err (ViTerms ''request names a different vault'')
      else if sr_request_id quote \<noteq> sq_request_id request \<or> sr_mode quote \<noteq> sq_mode request
      then Err (ViTerms ''quote answers a different request or mode'')
      else
        bind_res (request_kind request) (\<lambda>kind.
        bind_res (parse_amount (sr_in_amount quote) ''quoted input'') (\<lambda>amount_in.
        bind_res (check_input (sr_staging quote) (sg_open slot) (sq_amount request) amount_in) (\<lambda>_.
        bind_res (parse_amount (sr_quoted_out_amount quote) ''quoted output'') (\<lambda>quoted_out.
        bind_res (parse_amount (sr_minimum_out_amount quote) ''minimum output'') (\<lambda>minimum_out.
        bind_res (check_slippage (sq_slippage_bps request) quoted_out minimum_out) (\<lambda>_.
        if sr_staging quote \<noteq> Some Stage \<and> minimum_out < si_min_output_floor intent
        then Err (ViTerms ''minimum output is below the operator's floor'')
        else
          bind_res (parse_amount (sr_valid_until quote) ''valid_until'') (\<lambda>valid_until.
          Ok \<lparr>ts_kind = kind, ts_amount_in = amount_in, ts_minimum_out = minimum_out,
            ts_valid_until = valid_until\<rparr>)))))))))"

section \<open>The served swap instruction\<close>

type_synonym priced_leg = "string \<times> key \<times> PriceRoute"

abbreviation short_layout :: VaultIntentError where
  "short_layout \<equiv> ViRoute ''swap instruction is shorter than its fixed layout''"

definition staging_generation ::
  "VaultStagingStep \<Rightarrow> VaultStagingState \<Rightarrow> key \<Rightarrow> bytes \<Rightarrow> (VaultIntentError, u64) res" where
  "staging_generation step slot mint data =
     bind_res (case (step, sg_open slot) of
         (Unstage, Some open_slot) \<Rightarrow>
           if sl_mint open_slot \<noteq> mint then Err (ViTerms ''unstage names another staging mint'')
           else Ok (Some (sg_generation slot))
       | (Unstage, None) \<Rightarrow> Ok (Some (sg_generation slot))
       | (Stage, _) \<Rightarrow> Ok (checked_add (sg_generation slot) 1)) (\<lambda>expected.
     let served = map_option from_le (get_range STAGING_GENERATION_OFFSET (STAGING_GENERATION_OFFSET + 8) data) in
     case (expected, served) of
       (Some e, Some s) \<Rightarrow>
         if e = s then Ok e else Err (ViTerms ''staging generation does not name the vault's slot'')
     | _ \<Rightarrow> Err (ViTerms ''staging generation does not name the vault's slot''))"

definition staging_leg :: "VaultStagingStep \<Rightarrow> VaultSwapDirection \<Rightarrow> VaultLeg" where
  "staging_leg step direction =
     (if (step = Stage \<and> direction = MainToSecond) \<or> (step = Unstage \<and> direction = SecondToMain)
      then MainLeg else SecondLeg)"

text \<open>The kind a staged quote stands for and the legs its price section covers.\<close>

definition served_kind ::
  "find_pda \<Rightarrow> VaultSwapIntent \<Rightarrow> VaultSwapKind \<Rightarrow> Instruction \<Rightarrow>
   (VaultIntentError, VaultSwapKind \<times> priced_leg list) res" where
  "served_kind pda intent kind swap =
     (let a = mg_addresses (si_vault intent); routes = si_price_routes intent;
          main = (''main'', ad_main_price_route a, pp_main routes);
          second = (''second'', ad_second_price_route a, pp_second routes) in
      case sr_staging (si_quote intent) of
        None \<Rightarrow> Ok (kind, [main, second])
      | Some step \<Rightarrow>
          (case (get_opt 9 (ix_accounts swap), get_opt 10 (ix_accounts swap)) of
             (Some mint_meta, Some program_meta) \<Rightarrow>
               let mint = am_pubkey mint_meta in
               bind_res (ok_or (ViPriceSection ''staging'')
                   (find (\<lambda>route. rt_mint route = mint) (pp_staging routes))) (\<lambda>route.
               bind_res (staging_generation step (va_staging (si_account intent)) mint (ix_data swap)) (\<lambda>generation.
               let leg = staging_leg step (sq_direction (si_request intent)) in
               Ok (SwapStaging step leg \<lparr>sa_mint = mint, sa_token_program = am_pubkey program_meta\<rparr> generation,
                 [if leg = SecondLeg then second else main,
                  (''staging'', fst (pda_price_route pda (vm_program_id (mg_args (si_vault intent))) (rt_mint route)),
                   route)])))
           | _ \<Rightarrow> Err short_layout))"

text \<open>
  During recovery a stage also carries the main leg's price section. The result is the final kind, the
  accounts left for the hops and the length of that tail.
\<close>

definition recovery_split ::
  "find_pda \<Rightarrow> VaultSwapIntent \<Rightarrow> VaultSwapKind \<Rightarrow> AccountMeta list \<Rightarrow>
   (VaultIntentError, VaultSwapKind \<times> AccountMeta list \<times> nat) res" where
  "recovery_split pda intent kind hop_accounts =
     (case kind of
        SwapStaging Stage leg asset generation \<Rightarrow>
          if sq_mode (si_request intent) = ModeRecovery
          then
            (if length hop_accounts < 2 then Err (ViRoute ''recovery tail is truncated'')
             else
               bind_res (served_price_section pda
                   [(''main'', ad_main_price_route (mg_addresses (si_vault intent)), pp_main (si_price_routes intent))]
                   (pp_shards (si_price_routes intent)) (drop 2 hop_accounts)) (\<lambda>main_price_section.
               let tail_len = 2 + length main_price_section in
               bind_res (slice_res tail_len (length hop_accounts) hop_accounts) (\<lambda>rest.
               Ok (SwapRecoveryStage asset generation main_price_section, rest, tail_len))))
          else Ok (kind, hop_accounts, 0)
      | _ \<Rightarrow> Ok (kind, hop_accounts, 0))"

definition check_route_accounts ::
  "find_pda \<Rightarrow> VaultManager \<Rightarrow> AccountMeta list \<Rightarrow> (VaultIntentError, unit) res" where
  "check_route_accounts pda vault hop_accounts =
     (let share_mint = vm_share_mint (mg_args vault);
          share_ata = ata pda (ad_vault (mg_addresses vault)) share_mint TOKEN_PROGRAM_ID in
      if contains_key hop_accounts (vm_actor (mg_args vault)) then Err (ViRoute ''route uses the fee payer'')
      else if list_ex (\<lambda>meta. am_pubkey meta = share_mint \<or> am_pubkey meta = share_ata) hop_accounts
      then Err (ViRoute ''route touches the vault share mint or its share account'')
      else Ok ())"

fun staging_mint :: "VaultSwapKind \<Rightarrow> key option" where
  "staging_mint (SwapStaging _ _ asset _) = Some (sa_mint asset)"
| "staging_mint (SwapRecoveryStage asset _ _) = Some (sa_mint asset)"
| "staging_mint _ = None"

fun pinned_hops :: "AccountMeta list \<Rightarrow> nat \<Rightarrow> VaultSwapHop list \<Rightarrow> (VaultIntentError, AccountMeta list) res" where
  "pinned_hops accounts position [] = Ok []"
| "pinned_hops accounts position (hop # hops) =
     bind_res (slice_res position (position + 3) accounts) (\<lambda>head.
     bind_res (pinned_hops accounts (position + 3 + length (hp_accounts hop)) hops) (\<lambda>rest. Ok (head @ rest)))"

definition check_pinned ::
  "VaultManager \<Rightarrow> VaultSwapKind \<Rightarrow> nat \<Rightarrow> nat \<Rightarrow> VaultSwapPlan \<Rightarrow> AccountMeta list \<Rightarrow> AccountMeta list \<Rightarrow>
   (VaultIntentError, unit) res" where
  "check_pinned vault kind fixed recovery_tail_len plan accounts hop_accounts =
     (let mint = (\<lambda>k. k = vm_main_mint (mg_args vault) \<or> k = vm_second_mint (mg_args vault) \<or> Some k = staging_mint kind);
          position = fixed + length (sp_price_section plan) in
      bind_res (slice_res 0 fixed accounts) (\<lambda>front.
      bind_res (slice_res position (position + recovery_tail_len) accounts) (\<lambda>tail.
      bind_res (pinned_hops accounts (position + recovery_tail_len) (sp_hops plan)) (\<lambda>heads.
      let pinned = filter (\<lambda>meta. \<not> mint (am_pubkey meta)) front @ tail @ heads in
      if list_ex (\<lambda>meta. am_is_writable meta \<and>
        list_ex (\<lambda>f. am_pubkey f = am_pubkey meta \<and> \<not> am_is_writable f) pinned) hop_accounts
      then Err (ViRoute ''route makes a read-only account writable'') else Ok ()))))"

definition swap_error :: "VaultChainError \<Rightarrow> VaultIntentError" where
  "swap_error error = (case error of VcInvalidInput reason \<Rightarrow> ViRoute reason | other \<Rightarrow> ViIntent other)"

text \<open>From the served swap instruction to its rebuilt form and the plan it carries.\<close>

definition rebuild_swap ::
  "find_pda \<Rightarrow> VaultSwapIntent \<Rightarrow> SwapTerms \<Rightarrow> Instruction \<Rightarrow> (VaultIntentError, Instruction \<times> VaultSwapPlan) res" where
  "rebuild_swap pda intent terms swap =
     (let vault = si_vault intent; routes = si_price_routes intent in
      if rt_mint (pp_main routes) \<noteq> vm_main_mint (mg_args vault) \<or> rt_mint (pp_second routes) \<noteq> vm_second_mint (mg_args vault)
      then Err (ViIntent (VcInvalidInput ''price routes must price the vault's main and second mints''))
      else
        bind_res (served_kind pda intent (ts_kind terms) swap) (\<lambda>(kind, priced_legs).
        let fixed = fixed_accounts kind; header = header_len kind in
        if length (ix_accounts swap) < fixed \<or> length (ix_data swap) < header then Err short_layout
        else
          let priced = drop fixed (ix_accounts swap); hop_data = drop header (ix_data swap) in
          bind_res (served_price_section pda priced_legs (pp_shards routes) priced) (\<lambda>price_section.
          bind_res (slice_res (length price_section) (length priced) priced) (\<lambda>hop_accounts.
          bind_res (recovery_split pda intent kind hop_accounts) (\<lambda>(kind, hop_accounts, recovery_tail_len).
          bind_res (check_route_accounts pda vault hop_accounts) (\<lambda>_.
          bind_res (index_res (header - 1) (ix_data swap)) (\<lambda>cnt.
          bind_res (served_hops cnt hop_data hop_accounts) (\<lambda>hops.
          let plan = \<lparr>sp_price_section = price_section, sp_amount_in = ts_amount_in terms,
            sp_minimum_out = ts_minimum_out terms, sp_valid_until = ts_valid_until terms, sp_hops = hops\<rparr> in
          bind_res (map_err swap_error (vault_swap pda vault kind plan)) (\<lambda>instruction.
          bind_res (check_pinned vault kind fixed recovery_tail_len plan (ix_accounts instruction) hop_accounts) (\<lambda>_.
          Ok (instruction, plan)))))))))))"

definition verify_vault_swap ::
  "find_pda \<Rightarrow> base64 \<Rightarrow> VaultSwapIntent \<Rightarrow> AddressLookupTableAccount list \<Rightarrow> ComputeBudgetBounds \<Rightarrow>
   (VaultIntentError, VerifiedTransaction) res" where
  "verify_vault_swap pda b64 intent tables bounds =
     bind_res (swap_terms intent) (\<lambda>terms.
     bind_res (served_decode b64 (sr_tx_base64 (si_quote intent)) tables) (\<lambda>served.
     let payer = vm_actor (mg_args (si_vault intent)) in
     bind_res (compute_budget served bounds) (\<lambda>budget.
     bind_res (swap_setups pda (si_vault intent) (si_price_routes intent) payer
         (drop (length budget) (sv_instructions served))) (\<lambda>setups.
     let expected = budget @ setups in
     bind_res (ok_or (ViInstructionCount (length expected + 1) (length (sv_instructions served)))
         (get_opt (length expected) (sv_instructions served))) (\<lambda>swap.
     bind_res (rebuild_swap pda intent terms swap) (\<lambda>(instruction, plan).
     bind_res (require_route_atas expected (sp_hops plan)) (\<lambda>_.
     served_matches served payer (expected @ [instruction]))))))))"

section \<open>What the terms bound\<close>

lemma check_slippage_facts:
  "check_slippage slip quoted least \<noteq> Panic"
  "check_slippage slip quoted least = Ok () \<longleftrightarrow>
     unat slip \<le> 10000 \<and> quoted \<noteq> 0 \<and> least \<noteq> 0 \<and>
     unat quoted * (10000 - unat slip) div 10000 \<le> unat least"
proof -
  have s: "unat (ucast slip :: u128) = unat slip" by (simp add: unsigned_ucast_eq take_bit_nat_eq_self order_less_le_trans [OF unat_bounded])
  have b: "unat BPS = 10000" by (simp add: BPS_def)
  have le: "BPS < ucast slip \<longleftrightarrow> 10000 < unat slip" by (simp add: word_less_nat_alt s b)
  have "check_slippage slip quoted least \<noteq> Panic \<and>
    (check_slippage slip quoted least = Ok () \<longleftrightarrow>
     unat slip \<le> 10000 \<and> quoted \<noteq> 0 \<and> least \<noteq> 0 \<and> unat quoted * (10000 - unat slip) div 10000 \<le> unat least)"
  proof (cases "10000 < unat slip")
    case False
    let ?keep = "BPS - ucast slip :: u128"
    have k: "plain_sub BPS (ucast slip) = (Ok ?keep :: (VaultIntentError, u128) res)" "unat ?keep = 10000 - unat slip"
      using False le by (simp_all add: plain_sub_def not_less unat_sub_small s b)
    have "unat quoted * (10000 - unat slip) \<le> (2 ^ 64 - 1) * 10000"
      using unat_bounded [of quoted] by (intro mult_le_mono) simp_all
    also have "\<dots> < 2 ^ LENGTH(128)" by simp
    finally have small: "unat (u128_from quoted) * unat ?keep < 2 ^ LENGTH(128)" by (simp add: k)
    then have m: "plain_mul (u128_from quoted) ?keep = (Ok (u128_from quoted * ?keep) :: (VaultIntentError, u128) res)"
        "unat (u128_from quoted * ?keep) = unat quoted * (10000 - unat slip)"
      using unat_mul_small [OF small] k by (simp_all add: plain_mul_def)
    have d: "plain_div (u128_from quoted * ?keep) BPS = (Ok (u128_from quoted * ?keep div BPS) :: (VaultIntentError, u128) res)"
        "unat (u128_from quoted * ?keep div BPS) = unat quoted * (10000 - unat slip) div 10000"
      by (simp_all add: plain_div_def BPS_def unat_div m(2) [unfolded BPS_def])
    show ?thesis
      using False le by (auto simp: check_slippage_def Let_def k m d word_less_nat_alt)
  qed (use le in \<open>auto simp: check_slippage_def Let_def\<close>)
  then show "check_slippage slip quoted least \<noteq> Panic"
    "check_slippage slip quoted least = Ok () \<longleftrightarrow> unat slip \<le> 10000 \<and> quoted \<noteq> 0 \<and> least \<noteq> 0 \<and>
       unat quoted * (10000 - unat slip) div 10000 \<le> unat least"
    by blast+
qed

lemma parse_amount_not_Panic [simp]: "parse_amount v f \<noteq> Panic"
  by (simp add: parse_amount_def res_simps)

lemma check_input_Ok:
  "check_input staging open_slot amount n = Ok () \<longleftrightarrow>
     (if staging = Some Unstage then \<exists>slot. open_slot = Some slot \<and> n = sl_amount slot
      else (staging = Some Stage \<longrightarrow> open_slot = None) \<and> parse_amount amount ''request amount'' = Ok n)"
  by (cases staging; cases open_slot)
    (auto simp: check_input_def Let_def res_simps split: VaultStagingStep.splits)

lemma check_input_not_Panic: "check_input staging open_slot amount n \<noteq> Panic"
  by (auto simp: check_input_def Let_def res_simps split: option.splits VaultStagingStep.splits)

lemma request_kind_not_Panic: "request_kind r \<noteq> Panic"
  by (auto simp: request_kind_def split: VaultSwapMode.splits VaultSwapDirection.splits)

lemma swap_terms_not_Panic: "swap_terms intent \<noteq> Panic"
  unfolding swap_terms_def Let_def
  by (intro no_panic_intros check_slippage_facts(1) check_input_not_Panic request_kind_not_Panic)
    (simp_all add: res_simps ensure_current_no_panic)

lemma swap_terms_Ok:
  assumes "swap_terms intent = Ok t"
  shows "ensure_current (si_vault intent) (si_account intent) = Ok ()"
    "sq_vault_pda (si_request intent) = ad_vault (mg_addresses (si_vault intent))"
    "sr_request_id (si_quote intent) = sq_request_id (si_request intent)"
    "sr_mode (si_quote intent) = sq_mode (si_request intent)"
    "request_kind (si_request intent) = Ok (ts_kind t)"
    "check_input (sr_staging (si_quote intent)) (sg_open (va_staging (si_account intent)))
       (sq_amount (si_request intent)) (ts_amount_in t) = Ok ()"
    "\<exists>quoted. parse_amount (sr_quoted_out_amount (si_quote intent)) ''quoted output'' = Ok quoted \<and>
       check_slippage (sq_slippage_bps (si_request intent)) quoted (ts_minimum_out t) = Ok ()"
    "sr_staging (si_quote intent) = Some Stage \<or> si_min_output_floor intent \<le> ts_minimum_out t"
  using assms by (auto simp: swap_terms_def Let_def res_simps not_less)

section \<open>Pieces of the served instruction\<close>

lemma route_accounts_unsigned: "signers_of (route_accounts pda route address shard) = []"
proof -
  have "list_all (\<lambda>m. \<not> am_is_signer m) (route_accounts pda route address shard)"
    by (auto simp: route_accounts_def list_all_iff dest: brick_accounts_readonly)
  then show ?thesis by (rule signers_none)
qed

lemma price_legs_facts:
  assumes "length acc \<le> length served"
  shows "price_legs pda shards served acc legs \<noteq> Panic \<and>
    (price_legs pda shards served acc legs = Ok sec \<longrightarrow>
       length sec \<le> length served \<and> (signers_of acc = [] \<longrightarrow> signers_of sec = []))"
  using assms
proof (induction legs arbitrary: acc)
  case (Cons l legs)
  obtain leg address route where l: "l = (leg, address, route)" by (cases l)
  let ?rest = "drop (length acc) served"
  have sl: "slice_res (length acc) (length served) served = (Ok ?rest :: (VaultIntentError, AccountMeta list) res)"
    using Cons.prems by (simp add: slice_res_def)
  show ?case
  proof (cases "find (section_matches ?rest) (map (route_accounts pda route address) shards)")
    case None
    then show ?thesis by (simp add: l sl)
  next
    case (Some found)
    then obtain shard where f: "found = route_accounts pda route address shard" "section_matches ?rest found"
      by (auto simp: find_Some_iff)
    then have "length found \<le> length ?rest" "signers_of found = []"
      by (simp_all only: section_matches_def route_accounts_unsigned)
    then have "length (acc @ found) \<le> length served" "signers_of found = []" using Cons.prems by simp_all
    with Cons.IH [of "acc @ found"] Some show ?thesis by (simp add: l sl)
  qed
qed auto

lemma served_price_section_facts:
  "served_price_section pda legs shards served \<noteq> Panic"
  "served_price_section pda legs shards served = Ok sec \<Longrightarrow> length sec \<le> length served \<and> signers_of sec = []"
  using price_legs_facts [of "[]" served pda shards legs] by (auto simp: served_price_section_def)

lemma served_hop_not_Panic: "served_hop data accounts \<noteq> Panic"
  by (induction data accounts rule: served_hop.induct)
    (auto simp: served_amount_def Let_def res_simps split: prod.splits list.splits)

lemma served_hops_not_Panic: "served_hops cnt data accounts \<noteq> Panic"
proof -
  have "served_hops_loop n data accounts \<noteq> Panic" for n
  proof (induction n arbitrary: data accounts)
    case (Suc n)
    then show ?case using served_hop_not_Panic [of data accounts] by (auto simp: res_simps split: prod.splits)
  qed simp
  then show ?thesis by (simp add: served_hops_def)
qed

lemma served_hop_accounts:
  assumes "served_hop data accounts = Ok (h, d', a')"
  shows "\<exists>p s d. accounts = p # s # d # hp_accounts h @ a' \<and> hp_program h = am_pubkey p \<and>
    hp_source h = am_pubkey s \<and> hp_destination h = am_pubkey d"
proof (cases "(data, accounts)" rule: served_hop.cases)
  case (1 cnt lo hi olo ohi rest as)
  with assms show ?thesis
    by (cases as; cases "tl as"; cases "tl (tl as)") (auto simp: Let_def res_simps split: prod.splits if_splits)
qed (use assms in auto)

lemma served_hops_accounts:
  "served_hops_loop n data accounts = Ok hops \<Longrightarrow>
   \<exists>rest. map am_pubkey accounts =
     concat (map (\<lambda>h. [hp_program h, hp_source h, hp_destination h] @ map am_pubkey (hp_accounts h)) hops) @ rest"
proof (induction n arbitrary: data accounts hops)
  case (Suc n)
  then obtain h d' a' hs where h: "served_hop data accounts = Ok (h, d', a')" "served_hops_loop n d' a' = Ok hs" "hops = h # hs"
    by (auto simp: res_simps split: prod.splits)
  from served_hop_accounts [OF h(1)] Suc.IH [OF h(2)] h(3) show ?case by auto
qed simp

section \<open>Setup\<close>

text \<open>What a swap may do before it swaps: open a vault account of a foreign mint, or refresh a pinned stake pool.\<close>

definition allowed_setup :: "find_pda \<Rightarrow> VaultManager \<Rightarrow> PairPriceRoutes \<Rightarrow> key \<Rightarrow> Instruction \<Rightarrow> bool" where
  "allowed_setup pda vault routes payer e \<longleftrightarrow>
     (\<exists>mint token_program. e = create_ata_idempotent pda payer (ad_vault (mg_addresses vault)) mint token_program \<and>
        mint \<notin> {vm_main_mint (mg_args vault), vm_second_mint (mg_args vault), vm_share_mint (mg_args vault)} \<and>
        token_program \<in> {TOKEN_PROGRAM_ID, TOKEN_2022_PROGRAM_ID}) \<or>
     (\<exists>program pool validators reserve fee mint token_program.
        e = update_stake_pool_balance pda program pool validators reserve fee mint token_program \<and>
        program \<in> set STAKE_POOL_PROGRAM_IDS \<and> pinned_pool routes pool)"

lemma setup_key_not_Panic [simp]: "setup_key ix n \<noteq> Panic" "setup_token_program ix n \<noteq> Panic"
  by (simp_all add: setup_key_def setup_token_program_def res_simps)

lemma setup_token_program_Ok:
  "setup_token_program ix n = Ok p \<Longrightarrow> p = TOKEN_PROGRAM_ID \<or> p = TOKEN_2022_PROGRAM_ID"
  by (auto simp: setup_token_program_def res_simps split: if_splits)

lemma swap_setup_Ok:
  assumes "swap_setup pda vault routes payer ix = Ok e"
  shows "allowed_setup pda vault routes payer e"
proof (cases "ix_program_id ix = ASSOCIATED_TOKEN_PROGRAM_ID")
  case True
  with assms obtain mint tp where "mint \<notin> {vm_main_mint (mg_args vault), vm_second_mint (mg_args vault), vm_share_mint (mg_args vault)}"
      "setup_token_program ix 5 = Ok tp" "e = create_ata_idempotent pda payer (ad_vault (mg_addresses vault)) mint tp"
    by (auto simp: swap_setup_def res_simps Let_def)
  with setup_token_program_Ok [of ix 5 tp] show ?thesis unfolding allowed_setup_def by blast
next
  case False
  with assms obtain pool v r f m tp where "pinned_pool routes pool" "ix_program_id ix \<in> set STAKE_POOL_PROGRAM_IDS"
      "e = update_stake_pool_balance pda (ix_program_id ix) pool v r f m tp"
    by (auto simp: swap_setup_def res_simps)
  then show ?thesis unfolding allowed_setup_def by blast
qed

lemma swap_setups_Ok:
  "swap_setups pda vault routes payer ixs = Ok es \<Longrightarrow> list_all (allowed_setup pda vault routes payer) es"
  by (induction ixs arbitrary: es) (auto simp: res_simps split: if_splits dest: swap_setup_Ok)

lemma swap_setup_not_Panic: "swap_setup pda vault routes payer ix \<noteq> Panic"
  unfolding swap_setup_def Let_def by (intro no_panic_intros) simp_all

lemma swap_setups_not_Panic: "swap_setups pda vault routes payer ixs \<noteq> Panic"
  by (induction ixs) (auto simp: res_simps swap_setup_not_Panic)

lemma allowed_setup_shape:
  assumes "allowed_setup pda vault routes payer e"
  shows "set (signers_of (ix_accounts e)) \<subseteq> {payer}" "1 < length (ix_accounts e)"
  using assms by (auto simp: allowed_setup_def create_ata_idempotent_def update_stake_pool_balance_def Let_def)

lemma route_atas_not_Panic:
  "list_all (\<lambda>ix. ix_program_id ix = ASSOCIATED_TOKEN_PROGRAM_ID \<longrightarrow> 1 < length (ix_accounts ix)) ixs \<Longrightarrow>
   route_atas hops created ixs \<noteq> Panic"
  by (induction ixs arbitrary: created) (auto simp: index_res_def Let_def)

section \<open>The rebuilt swap\<close>

definition route_clean :: "find_pda \<Rightarrow> VaultManager \<Rightarrow> VaultSwapHop \<Rightarrow> bool" where
  "route_clean pda vault h \<longleftrightarrow>
     {vm_actor (mg_args vault), vm_share_mint (mg_args vault),
      ata pda (ad_vault (mg_addresses vault)) (vm_share_mint (mg_args vault)) TOKEN_PROGRAM_ID} \<inter>
     set ([hp_program h, hp_source h, hp_destination h] @ map am_pubkey (hp_accounts h)) = {}"

lemma check_route_accounts_clean:
  assumes "check_route_accounts pda vault accounts = Ok ()" "served_hops cnt data accounts = Ok hops"
  shows "list_all (route_clean pda vault) hops"
proof -
  obtain rest where r: "map am_pubkey accounts =
      concat (map (\<lambda>h. [hp_program h, hp_source h, hp_destination h] @ map am_pubkey (hp_accounts h)) hops) @ rest"
    using served_hops_accounts assms(2) unfolding served_hops_def by blast
  have "{vm_actor (mg_args vault), vm_share_mint (mg_args vault),
      ata pda (ad_vault (mg_addresses vault)) (vm_share_mint (mg_args vault)) TOKEN_PROGRAM_ID} \<inter>
      set (map am_pubkey accounts) = {}"
    using assms(1) by (auto simp: check_route_accounts_def Let_def contains_key_iff list_ex_iff split: if_splits)
  then show ?thesis unfolding r by (fastforce simp: route_clean_def list_all_iff)
qed

lemma served_kind_not_Panic: "served_kind pda intent kind swap \<noteq> Panic"
  by (auto simp: served_kind_def staging_generation_def Let_def res_simps
    split: option.splits VaultStagingStep.splits)

definition plain_kind :: "VaultSwapKind \<Rightarrow> bool" where
  "plain_kind kind = (case kind of SwapRecoveryStage _ _ _ \<Rightarrow> False | _ \<Rightarrow> True)"

lemma request_kind_plain: "request_kind r = Ok kind \<Longrightarrow> plain_kind kind"
  by (auto simp: request_kind_def plain_kind_def split: VaultSwapMode.splits VaultSwapDirection.splits)

lemma served_kind_plain:
  "served_kind pda intent kind swap = Ok (kind', legs) \<Longrightarrow> plain_kind kind \<Longrightarrow> plain_kind kind'"
  by (auto simp: served_kind_def Let_def res_simps plain_kind_def split: option.splits)

lemma recovery_split_Ok:
  assumes "recovery_split pda intent kind accounts = Ok (kind', rest, n)" "plain_kind kind"
  shows "fixed_accounts kind' = fixed_accounts kind \<and> header_len kind' = header_len kind \<and>
    n = length (recovery_tail (si_vault intent) kind')"
  using assms
  by (auto simp: recovery_split_def plain_kind_def res_simps Let_def
    split: VaultSwapKind.splits VaultStagingStep.splits if_splits)

lemma recovery_split_not_Panic: "recovery_split pda intent kind accounts \<noteq> Panic"
proof -
  have "length sec \<le> length accounts - 2"
    if "served_price_section pda legs shards (drop 2 accounts) = Ok sec" for legs shards sec
    using served_price_section_facts(2) [OF that] by simp
  then show ?thesis
    by (fastforce simp: recovery_split_def res_simps Let_def served_price_section_facts(1)
      split: VaultSwapKind.splits VaultStagingStep.splits if_splits)
qed

lemma pinned_hops_not_Panic:
  "accounts = pre @ concat (map hop_metas hops) \<Longrightarrow> pinned_hops accounts (length pre) hops \<noteq> Panic"
proof (induction hops arbitrary: pre)
  case (Cons h hops)
  have "length (hop_metas h) = 3 + length (hp_accounts h)" by (simp add: hop_metas_def)
  moreover have "pinned_hops accounts (length (pre @ hop_metas h)) hops \<noteq> Panic"
    using Cons.prems by (intro Cons.IH) simp
  ultimately show ?case
    using Cons.prems by (auto simp: res_simps add.assoc)
qed simp

lemma check_pinned_not_Panic:
  assumes "vault_swap pda vault kind plan = Ok ix"
  shows "check_pinned vault kind (fixed_accounts kind) (length (recovery_tail vault kind)) plan (ix_accounts ix) hop_accounts \<noteq> Panic"
proof -
  obtain front head where h: "ix_accounts ix = (front @ sp_price_section plan @ recovery_tail vault kind) @
      concat (map hop_metas (sp_hops plan))" "length front = fixed_accounts kind"
    using vault_swap_shape [OF assms] by auto
  have "pinned_hops (ix_accounts ix) (fixed_accounts kind + length (sp_price_section plan) +
      length (recovery_tail vault kind)) (sp_hops plan) \<noteq> Panic"
    using pinned_hops_not_Panic [OF h(1)] h(2) by (simp add: add.assoc)
  then show ?thesis
    using h(2) by (auto simp: check_pinned_def Let_def res_simps h(1))
qed

lemma swap_error_not_Panic: "map_err swap_error (vault_swap pda vault kind plan) \<noteq> Panic"
  by (simp add: res_simps vault_swap_not_Panic)

lemma check_route_accounts_not_Panic: "check_route_accounts pda vault accounts \<noteq> Panic"
  by (simp add: check_route_accounts_def Let_def)

lemma rebuild_swap_not_Panic:
  assumes "plain_kind (ts_kind terms)"
  shows "rebuild_swap pda intent terms swap \<noteq> Panic"
proof -
  have pos: "0 < header_len k" for k by (cases k) simp_all
  have sec: "length sec \<le> length xs" if "served_price_section pda legs shards xs = Ok sec" for legs shards xs sec
    using served_price_section_facts(2) [OF that] by simp
  have pin: "check_pinned (si_vault intent) kind' (fixed_accounts kind) n plan (ix_accounts ix) acc \<noteq> Panic"
    if "served_kind pda intent (ts_kind terms) swap = Ok (kind, legs)"
      "recovery_split pda intent kind xs = Ok (kind', acc, n)" "vault_swap pda (si_vault intent) kind' plan = Ok ix"
    for kind legs xs kind' acc n plan ix
    using check_pinned_not_Panic [OF that(3)] recovery_split_Ok [OF that(2) served_kind_plain [OF that(1) assms]] by simp
  have idx: "index_res (header_len k - 1) (ix_data swap) \<noteq> (Panic :: (VaultIntentError, u8) res)"
    if "\<not> length (ix_data swap) < header_len k" for k
    using that pos [of k] by (simp add: index_res_def)
  show ?thesis
    unfolding rebuild_swap_def Let_def split_def
    apply (intro no_panic_intros served_kind_not_Panic served_price_section_facts(1) recovery_split_not_Panic
        check_route_accounts_not_Panic served_hops_not_Panic swap_error_not_Panic)
    subgoal by simp
    subgoal by simp
    subgoal by (drule sec) (simp add: slice_res_def)
    subgoal by (rule idx) auto
    subgoal by (rule pin) (auto simp: res_simps prod_eq_iff)
    subgoal by simp
    done
qed

lemma rebuild_swap_Ok:
  assumes "rebuild_swap pda intent terms swap = Ok (ix, plan)"
  shows "sp_amount_in plan = ts_amount_in terms \<and> sp_minimum_out plan = ts_minimum_out terms \<and>
    sp_valid_until plan = ts_valid_until terms \<and> signers_of (sp_price_section plan) = [] \<and>
    list_all (route_clean pda (si_vault intent)) (sp_hops plan) \<and>
    (\<exists>kind. vault_swap pda (si_vault intent) kind plan = Ok ix)"
proof -
  obtain kind legs sec acc kind' acc' n cnt hops where
    r: "served_price_section pda legs (pp_shards (si_price_routes intent)) (drop (fixed_accounts kind) (ix_accounts swap)) = Ok sec"
      "check_route_accounts pda (si_vault intent) acc' = Ok ()"
      "served_hops cnt (drop (header_len kind) (ix_data swap)) acc' = Ok hops"
      "vault_swap pda (si_vault intent) kind' plan = Ok ix"
      "plan = \<lparr>sp_price_section = sec, sp_amount_in = ts_amount_in terms, sp_minimum_out = ts_minimum_out terms,
         sp_valid_until = ts_valid_until terms, sp_hops = hops\<rparr>"
    using assms by (auto simp: rebuild_swap_def Let_def res_simps)
  with served_price_section_facts(2) [OF r(1)] check_route_accounts_clean [OF r(2,3)] show ?thesis by auto
qed

section \<open>What acceptance means\<close>

text \<open>The amounts a plan may carry for an intent.\<close>

definition swap_bounds :: "VaultSwapIntent \<Rightarrow> VaultSwapPlan \<Rightarrow> bool" where
  "swap_bounds intent plan \<longleftrightarrow>
     (if sr_staging (si_quote intent) = Some Unstage
      then map_option sl_amount (sg_open (va_staging (si_account intent))) = Some (sp_amount_in plan)
      else parse_amount (sq_amount (si_request intent)) ''request amount'' = Ok (sp_amount_in plan)) \<and>
     (sr_staging (si_quote intent) = Some Stage \<or> si_min_output_floor intent \<le> sp_minimum_out plan) \<and>
     (\<exists>quoted. parse_amount (sr_quoted_out_amount (si_quote intent)) ''quoted output'' = Ok quoted \<and>
        unat (sq_slippage_bps (si_request intent)) \<le> 10000 \<and>
        unat quoted * (10000 - unat (sq_slippage_bps (si_request intent))) div 10000 \<le> unat (sp_minimum_out plan))"


text \<open>
  C39. The check of a swap returns for every served string, request, quote, route set and vault account: it accepts
  or reports an error and never panics, although it slices the served accounts at offsets the venue controls.
\<close>

theorem swap_check_returns: "verify_vault_swap pda b64 intent tables bounds \<noteq> Panic"
proof -
  have decode: "served_decode b64 x tables \<noteq> Panic" for x
    by (simp add: served_decode_def res_simps served_of_bytes_no_panic)
  have "route_atas hops [] (budget @ setups) \<noteq> Panic"
    if c: "compute_budget served bounds = Ok budget" and st: "swap_setups pda v r p ixs = Ok setups" for served budget v r p ixs setups hops
  proof -
    have "COMPUTE_BUDGET_PROGRAM_ID \<noteq> ASSOCIATED_TOKEN_PROGRAM_ID"
      by (simp add: COMPUTE_BUDGET_PROGRAM_ID_def ASSOCIATED_TOKEN_PROGRAM_ID_def)
    moreover obtain a b where "budget = [budget_instruction 2 a, budget_instruction 3 b]"
      using c unfolding compute_budget_iff by blast
    ultimately show ?thesis
      using swap_setups_Ok [OF st] allowed_setup_shape(2)
      by (intro route_atas_not_Panic) (fastforce simp: list_all_iff budget_instruction_def)
  qed
  moreover have "rebuild_swap pda intent terms swap \<noteq> Panic" if "swap_terms intent = Ok terms" for terms swap
    using rebuild_swap_not_Panic request_kind_plain swap_terms_Ok(5) [OF that] by blast
  ultimately show ?thesis
    unfolding verify_vault_swap_def Let_def split_def require_route_atas_def
    by (intro no_panic_intros swap_terms_not_Panic decode compute_budget_no_panic swap_setups_not_Panic
      served_matches_no_panic) (simp_all add: res_simps)
qed

section \<open>An accepted swap\<close>

text \<open>A rebalance of 100 main atoms for at least 90 second atoms through one venue.\<close>

definition mix_pda :: find_pda where
  "mix_pda seeds program = (replicate 32 (of_nat (length (concat seeds)) + 3 * last (concat seeds)), 255)"

definition mix_manager :: VaultManager where
  "mix_manager = \<lparr>mg_args = mg_args sample_manager, mg_addresses = manager_addresses mix_pda (mg_args sample_manager)\<rparr>"

lemma mix_manager_parts:
  "mg_args mix_manager = mg_args sample_manager"
  "mg_addresses mix_manager = \<lparr>ad_vault = replicate 32 40, ad_policy = replicate 32 164, ad_delegate = replicate 32 87,
     ad_global_config = replicate 32 66, ad_swap_venues = replicate 32 100, ad_main_price_route = replicate 32 55,
     ad_second_price_route = replicate 32 64, ad_manager_stake_authority = replicate 32 165,
     ad_vault_main_ata = replicate 32 108, ad_vault_second_ata = replicate 32 117, ad_manager_stake_ata = replicate 32 114\<rparr>"
  by (simp_all add: mix_manager_def manager_addresses_def Let_def sample_managers mix_pda_def ata_def ata_with_bump_def
    pda_vault_def pda_vault_policy_def pda_vault_delegate_def pda_global_config_def pda_swap_venues_def
    pda_price_route_def pda_manager_stake_def TOKEN_PROGRAM_ID_def)

definition flat_route :: "key \<Rightarrow> PriceRoute" where
  "flat_route mint = \<lparr>rt_mint = mint, rt_max_skew_secs = 30, rt_bricks = [BrickClampMax 5], rt_updated_slot = 7\<rparr>"

definition mix_hop :: VaultSwapHop where
  "mix_hop = \<lparr>hp_program = replicate 32 11, hp_source = replicate 32 108, hp_destination = replicate 32 117,
     hp_accounts = [meta_new (replicate 32 40) False, meta_new (replicate 32 108) False, meta_new (replicate 32 117) False],
     hp_data = [9, 9], hp_amount_offset = None\<rparr>"

definition mix_plan :: VaultSwapPlan where
  "mix_plan = \<lparr>sp_price_section = [meta_readonly (replicate 32 55) False, meta_readonly (replicate 32 64) False],
     sp_amount_in = 100, sp_minimum_out = 90, sp_valid_until = 1000, sp_hops = [mix_hop]\<rparr>"

definition mix_data :: bytes where
  "mix_data = 45 # 0 # u64_le 100 @ u64_le 90 @ u64_le 1000 @ 1 # hop_bytes mix_hop"

definition mix_ix :: Instruction where
  "mix_ix = \<lparr>ix_program_id = replicate 32 9,
     ix_accounts = [meta_readonly (replicate 32 3) True, meta_new (replicate 32 40) False, meta_readonly (replicate 32 164) False,
       meta_readonly (replicate 32 87) False, meta_readonly (replicate 32 66) False, meta_new (replicate 32 108) False,
       meta_new (replicate 32 117) False, meta_readonly (replicate 32 4) False, meta_readonly (replicate 32 7) False,
       meta_readonly TOKEN_PROGRAM_ID False, meta_readonly TOKEN_PROGRAM_ID False, meta_readonly (replicate 32 6) False,
       meta_readonly (replicate 32 114) False, meta_readonly (replicate 32 100) False,
       meta_readonly (replicate 32 55) False, meta_readonly (replicate 32 64) False,
       meta_readonly (replicate 32 11) False, meta_new (replicate 32 108) False, meta_new (replicate 32 117) False,
       meta_new (replicate 32 40) False, meta_new (replicate 32 108) False, meta_new (replicate 32 117) False],
     ix_data = mix_data\<rparr>"

lemma mix_vault_swap: "vault_swap mix_pda mix_manager (SwapRebalance False) mix_plan = Ok mix_ix"
proof -
  have "validate_swap mix_pda mix_manager (SwapRebalance False) mix_plan = Ok ()"
    by (simp add: validate_swap_def swap_legs_def mix_manager_parts mix_plan_def mix_hop_def Let_def
      MAX_VAULT_SWAP_HOPS_def MAX_VAULT_SWAP_PATH_ACCOUNTS_def MAX_VAULT_SWAP_ROUTE_DATA_def
      MAX_VAULT_SWAP_ROUTE_ACCOUNTS_def bad_amount_def meta_new_def contains_key_def)
  then show ?thesis
    by (simp add: vault_swap_def swap_direct_def swap_prefix_def Let_def mix_manager_parts sample_managers mix_plan_def
      vault_instruction_def generation_bytes_def mix_ix_def mix_data_def hop_metas_def mix_hop_def unsigned_meta_def
      meta_new_def meta_readonly_def)
qed

definition mix_tx :: WireTx where
  "mix_tx = \<lparr>wt_signatures = [replicate 64 0], wt_version_zero = True, wt_readonly_signed = 0, wt_readonly_unsigned = 14,
     wt_keys = [replicate 32 3, replicate 32 40, replicate 32 108, replicate 32 117, COMPUTE_BUDGET_PROGRAM_ID,
       replicate 32 9, replicate 32 164, replicate 32 87, replicate 32 66, replicate 32 4, replicate 32 7,
       TOKEN_PROGRAM_ID, replicate 32 6, replicate 32 114, replicate 32 100, replicate 32 55, replicate 32 64, replicate 32 11],
     wt_blockhash = replicate 32 8,
     wt_instructions = [
       \<lparr>ci_program = 4, ci_accounts = [], ci_data = 2 # u32_le 200000\<rparr>,
       \<lparr>ci_program = 4, ci_accounts = [], ci_data = 3 # u64_le 5\<rparr>,
       \<lparr>ci_program = 5, ci_accounts = [0, 1, 6, 7, 8, 2, 3, 9, 10, 11, 11, 12, 13, 14, 15, 16, 17, 2, 3, 1, 2, 3],
        ci_data = mix_data\<rparr>],
     wt_lookups = []\<rparr>"

definition mix_intent :: VaultSwapIntent where
  "mix_intent = \<lparr>si_vault = mix_manager,
     si_request = \<lparr>sq_request_id = [1], sq_vault_pda = replicate 32 40, sq_mode = ModeRebalance,
       sq_direction = MainToSecond, sq_amount = [49, 48, 48], sq_slippage_bps = 1000\<rparr>,
     si_quote = \<lparr>sr_request_id = [1], sr_execution_id = [2], sr_mode = ModeRebalance,
       sr_tx_base64 = cr_b58_encode plain_crypto (tx_bytes mix_tx), sr_last_valid_block_height = 0,
       sr_in_amount = [49, 48, 48], sr_quoted_out_amount = [49, 48, 48], sr_minimum_out_amount = [57, 48],
       sr_valid_until = [49, 48, 48, 48], sr_staging = None\<rparr>,
     si_price_routes = \<lparr>pp_main = flat_route (replicate 32 4), pp_second = flat_route (replicate 32 7), pp_staging = [], pp_shards = [0]\<rparr>,
     si_min_output_floor = 80,
     si_account = sample_vault\<lparr>va_vault_id := replicate 32 1, va_second_mint := replicate 32 7,
       va_second_token_program := TOKEN_PROGRAM_ID, va_second_leg_generation := 0\<rparr>\<rparr>"

lemma mix_terms: "swap_terms mix_intent =
    Ok \<lparr>ts_kind = SwapRebalance False, ts_amount_in = 100, ts_minimum_out = 90, ts_valid_until = 1000\<rparr>"
  by (simp add: swap_terms_def mix_intent_def Let_def ensure_current_def mix_manager_parts sample_managers
    sample_vault_def request_kind_def parse_amount_def parse_u64_def str_trim_def char_is_whitespace_def
    check_input_def check_slippage_def BPS_def arith_eval u128_from_def)

definition mix_keys :: "(key \<times> Flags) list" where
  "mix_keys = (replicate 32 3, \<lparr>fl_signer = True, fl_writable = True\<rparr>) #
     map (\<lambda>k. (k, \<lparr>fl_signer = False, fl_writable = True\<rparr>)) [replicate 32 40, replicate 32 108, replicate 32 117] @
     map ro [COMPUTE_BUDGET_PROGRAM_ID, replicate 32 9, replicate 32 164, replicate 32 87, replicate 32 66, replicate 32 4,
       replicate 32 7, TOKEN_PROGRAM_ID, replicate 32 6, replicate 32 114, replicate 32 100, replicate 32 55, replicate 32 64,
       replicate 32 11]"

definition mix_swap :: Instruction where
  "mix_swap = mix_ix\<lparr>ix_accounts := meta_new (replicate 32 3) True # tl (ix_accounts mix_ix)\<rparr>"

definition mix_served :: ServedMessage where
  "mix_served = \<lparr>sv_keys = mix_keys,
     sv_instructions = [budget_instruction 2 (u32_le 200000), budget_instruction 3 (u64_le 5), mix_swap],
     sv_transaction = \<lparr>vt_bytes = tx_bytes mix_tx, vt_signatures_start = 1, vt_message_start = 65,
       vt_signers = [replicate 32 3]\<rparr>,
     sv_static_keys = wt_keys mix_tx, sv_is_version_zero = True, sv_has_lookup_table = False,
     sv_wire_len = length (tx_bytes mix_tx)\<rparr>"

lemma mix_tx_ok: "wire_ok mix_tx"
  by (simp add: wire_ok_def mix_tx_def SIGNATURE_LEN_def instruction_ok_def vec_ok_def mix_data_def hop_bytes_def
    mix_hop_def COMPUTE_BUDGET_PROGRAM_ID_def TOKEN_PROGRAM_ID_def)

lemma mix_keys_fresh: "all_fresh [] (map fst mix_keys)"
proof -
  have "distinct (map (\<lambda>k. (k ! 0, k ! 1)) (map fst mix_keys))"
    by (simp add: mix_keys_def COMPUTE_BUDGET_PROGRAM_ID_def TOKEN_PROGRAM_ID_def)
  then show ?thesis by (simp only: all_fresh_distinct distinct_map) simp
qed

lemma mix_served_of_bytes: "served_of_bytes (tx_bytes mix_tx) [] = Ok mix_served"
proof -
  have c: "compiled_of mix_tx = \<lparr>cm_signatures_start = 1, cm_message_start = 65, cm_required_signers = 1,
      cm_readonly_signed = 0, cm_readonly_unsigned = 14, cm_static_keys = wt_keys mix_tx,
      cm_instructions = wt_instructions mix_tx, cm_lookups = [], cm_is_version_zero = True\<rparr>"
    by (simp add: compiled_of_def mix_tx_def compact_bytes_def SIGNATURE_LEN_def)
  have wt: "wt_keys mix_tx = map fst mix_keys" by (simp add: mix_tx_def mix_keys_def)
  have s: "collect_res (static_entry (compiled_of mix_tx)) (enumerate 0 (map fst mix_keys)) = Ok mix_keys"
    unfolding c wt by (simp add: static_entry_def usize_sub_def mix_keys_def)
  have r: "collect_res (resolve_instruction mix_keys) (wt_instructions mix_tx) = Ok (sv_instructions mix_served)"
    by (simp add: mix_tx_def resolve_instruction_def key_at_def get_opt_def mix_keys_def resolve_account_def
      mix_served_def budget_instruction_def mix_swap_def mix_ix_def meta_new_def meta_readonly_def)
  have k: "slice_res 0 (Suc 0) (map fst mix_keys) = (Ok [replicate 32 3] :: (VaultIntentError, key list) res)"
    by (simp add: slice_res_def mix_keys_def)
  have cs: "cm_static_keys (compiled_of mix_tx) = map fst mix_keys" "cm_lookups (compiled_of mix_tx) = []"
      "cm_instructions (compiled_of mix_tx) = wt_instructions mix_tx" "cm_required_signers (compiled_of mix_tx) = 1"
      "cm_signatures_start (compiled_of mix_tx) = 1" "cm_message_start (compiled_of mix_tx) = 65"
      "cm_is_version_zero (compiled_of mix_tx) = True"
    by (simp_all add: c wt)
  show ?thesis
    unfolding served_of_bytes_def decode_wire [OF mix_tx_ok] bind_res.simps Let_def cs s
    using mix_keys_fresh by (simp add: r k) (simp add: mix_served_def wt)
qed

lemma token_program_mixed: "TOKEN_PROGRAM_ID \<noteq> replicate 32 n" "replicate 32 n \<noteq> TOKEN_PROGRAM_ID"
proof -
  have "TOKEN_PROGRAM_ID ! 0 \<noteq> TOKEN_PROGRAM_ID ! 1" by (simp add: TOKEN_PROGRAM_ID_def)
  moreover have "(replicate 32 n) ! 0 = (replicate 32 n) ! 1" by simp
  ultimately show "TOKEN_PROGRAM_ID \<noteq> replicate 32 n" by metis
  then show "replicate 32 n \<noteq> TOKEN_PROGRAM_ID" by metis
qed

lemma mix_rebuild:
  "rebuild_swap mix_pda mix_intent
     \<lparr>ts_kind = SwapRebalance False, ts_amount_in = 100, ts_minimum_out = 90, ts_valid_until = 1000\<rparr> mix_swap =
   Ok (mix_ix, mix_plan)"
proof -
  have k: "served_kind mix_pda mix_intent (SwapRebalance False) mix_swap =
      Ok (SwapRebalance False, [(''main'', replicate 32 55, flat_route (replicate 32 4)), (''second'', replicate 32 64, flat_route (replicate 32 7))])"
    by (simp add: served_kind_def Let_def mix_intent_def mix_manager_parts)
  have len: "length (ix_accounts mix_swap) = 22" by (simp add: mix_swap_def mix_ix_def)
  have d: "ix_data mix_swap = mix_data" by (simp add: mix_swap_def mix_ix_def)
  have dl: "\<not> length mix_data < 27" "26 < length mix_data" "mix_data ! 26 = 1" "drop 27 mix_data = hop_bytes mix_hop"
    by (simp_all add: mix_data_def nth_append)
  define priced where "priced = meta_readonly (replicate 32 55) False # meta_readonly (replicate 32 64) False # hop_metas mix_hop"
  have a: "drop 14 (ix_accounts mix_swap) = priced"
    by (simp add: priced_def mix_swap_def mix_ix_def hop_metas_def mix_hop_def unsigned_meta_def meta_new_def meta_readonly_def)
  have p: "served_price_section mix_pda [(''main'', replicate 32 55, flat_route (replicate 32 4)), (''second'', replicate 32 64, flat_route (replicate 32 7))]
      [0] priced = Ok (sp_price_section mix_plan)"
    by (simp add: priced_def served_price_section_def slice_res_def route_accounts_def flat_route_def section_matches_def mix_plan_def)
  have sl: "slice_res (length (sp_price_section mix_plan)) (length priced) priced =
      (Ok (hop_metas mix_hop) :: (VaultIntentError, AccountMeta list) res)"
    by (simp add: slice_res_def mix_plan_def priced_def)
  have h: "served_hops 1 (hop_bytes mix_hop) (hop_metas mix_hop) = Ok [mix_hop]"
  proof -
    have "hop_wire_ok mix_hop" "plain_hop mix_hop = mix_hop"
      by (simp_all add: hop_wire_ok_def mix_hop_def plain_hop_def unsigned_meta_def meta_new_def)
    with served_hops_loop_roundtrip [of "[mix_hop]" "[]" "[]"] show ?thesis by (simp add: served_hops_def)
  qed
  have tl: "length TOKEN_PROGRAM_ID = 32" by (simp add: TOKEN_PROGRAM_ID_def)
  have cl: "check_route_accounts mix_pda mix_manager (hop_metas mix_hop) = Ok ()"
    by (simp add: check_route_accounts_def Let_def mix_manager_parts sample_managers contains_key_def hop_metas_def mix_hop_def
      unsigned_meta_def meta_new_def meta_readonly_def ata_def ata_with_bump_def mix_pda_def tl)
  have pin: "check_pinned mix_manager (SwapRebalance False) 14 0 mix_plan (ix_accounts mix_ix) (hop_metas mix_hop) = Ok ()"
    by (simp add: check_pinned_def Let_def mix_plan_def mix_ix_def slice_res_def hop_metas_def mix_hop_def mix_manager_parts
      sample_managers unsigned_meta_def meta_new_def meta_readonly_def token_program_mixed)
  have i: "si_vault mix_intent = mix_manager" "pp_shards (si_price_routes mix_intent) = [0]"
      "rt_mint (pp_main (si_price_routes mix_intent)) = vm_main_mint (mg_args mix_manager)"
      "rt_mint (pp_second (si_price_routes mix_intent)) = vm_second_mint (mg_args mix_manager)"
    by (simp_all add: mix_intent_def flat_route_def mix_manager_parts sample_managers)
  have pl: "\<lparr>sp_price_section = sp_price_section mix_plan, sp_amount_in = 100, sp_minimum_out = 90, sp_valid_until = 1000,
      sp_hops = [mix_hop]\<rparr> = mix_plan"
    by (simp add: mix_plan_def)
  show ?thesis
    by (simp add: rebuild_swap_def Let_def i k len d dl a p sl recovery_split_def cl index_res_def h pl
      mix_vault_swap pin)
qed

lemma mix_matches: "served_matches mix_served (replicate 32 3)
    [budget_instruction 2 (u32_le 200000), budget_instruction 3 (u64_le 5), mix_ix] = Ok (sv_transaction mix_served)"
proof -
  let ?p = "replicate 32 3 :: key"
  define es where "es = [budget_instruction 2 (u32_le 200000), budget_instruction 3 (u64_le 5), mix_ix]"
  have am: "all_metas es = ix_accounts mix_ix" by (simp add: es_def budget_instruction_def)
  have pg: "ix_program_id ` set es = {COMPUTE_BUDGET_PROGRAM_ID, replicate 32 9}"
    by (simp add: es_def budget_instruction_def mix_ix_def)
  have sign: "must_sign ?p es k \<longleftrightarrow> k = ?p" for k
    unfolding must_sign_def am by (auto simp: mix_ix_def meta_new_def meta_readonly_def)
  have wr: "may_write ?p es k \<longleftrightarrow> k \<in> {?p, replicate 32 40, replicate 32 108, replicate 32 117}" for k
    unfolding may_write_def am by (auto simp: mix_ix_def meta_new_def meta_readonly_def)
  have ment: "mentioned ?p es k" if "k \<in> set (map fst mix_keys)" for k
    using that unfolding mentioned_def am pg by (auto simp: mix_keys_def mix_ix_def meta_new_def meta_readonly_def)
  have ne: "COMPUTE_BUDGET_PROGRAM_ID \<notin> {?p, replicate 32 40, replicate 32 108, replicate 32 117}"
      "TOKEN_PROGRAM_ID \<notin> {?p, replicate 32 40, replicate 32 108, replicate 32 117}"
    using mix_keys_fresh unfolding all_fresh_distinct mix_keys_def by auto
  have flags: "list_all (\<lambda>(k, f). f = \<lparr>fl_signer = must_sign ?p es k, fl_writable = may_write ?p es k\<rparr>) mix_keys"
    unfolding sign wr mix_keys_def using ne by simp
  have ins: "list_all2 (same_instruction ?p es) (sv_instructions mix_served)
      [budget_instruction 2 (u32_le 200000), budget_instruction 3 (u64_le 5), mix_ix]"
    using ne by (simp add: mix_served_def same_instruction_def sign wr budget_instruction_def mix_swap_def mix_ix_def
      meta_new_def meta_readonly_def)
  have "sv_keys mix_served = mix_keys" "fst (hd mix_keys) = ?p"
    by (simp_all add: mix_served_def mix_keys_def)
  with ins flags ment have "served_exactly mix_served ?p es"
    unfolding served_exactly_def es_def [symmetric] by (force simp: list_all_iff)
  then show ?thesis by (simp add: served_matches_iff es_def)
qed


end
