(* ===== verification/Challenge.thy ===== *)
theory Challenge
  imports Orders
begin

text \<open>
  The authentication challenges of \<^verbatim>\<open>src/src/ws/auth.rs\<close>: what a maker, a wallet or a vault operator
  accepts to sign. A Rust \<^verbatim>\<open>&str\<close> is the \<open>string\<close> of its UTF-8 bytes, on which every operation used
  here (prefix, suffix, first occurrence, length) acts. The lemmas give the exact grammar of an
  accepted vault challenge and show that it fixes the operator and the vault, that no challenge is
  accepted in two roles, and that none has the length of an order id.
\<close>

section \<open>Operations on text\<close>

definition as_bytes :: "string \<Rightarrow> bytes" where
  "as_bytes s = map (\<lambda>c. of_nat (of_char c)) s"

definition strip_prefix :: "string \<Rightarrow> string \<Rightarrow> string option" where
  "strip_prefix p s = (if take (length p) s = p then Some (drop (length p) s) else None)"

definition strip_suffix :: "string \<Rightarrow> string \<Rightarrow> string option" where
  "strip_suffix p s = map_option rev (strip_prefix (rev p) (rev s))"

fun split_once :: "string \<Rightarrow> string \<Rightarrow> (string \<times> string) option" where
  "split_once p [] = (if p = [] then Some ([], []) else None)"
| "split_once p (c # s) =
     (case strip_prefix p (c # s) of
        Some r \<Rightarrow> Some ([], r)
      | None \<Rightarrow> map_option (\<lambda>(a, b). (c # a, b)) (split_once p s))"

definition LF :: char where "LF = CHR 0x0A"

section \<open>Validation\<close>

definition AUTH_PREFIX :: string where
  "AUTH_PREFIX = ''Acta RFQ Authentication'' @ [LF, LF] @
     ''Sign this message to authenticate your wallet.'' @ [LF, LF]"

definition is_ascii_digit :: "u8 \<Rightarrow> bool" where
  "is_ascii_digit b = (48 \<le> b \<and> b \<le> 57)"

definition utc_shape :: "nat \<times> u8 \<Rightarrow> bool" where
  "utc_shape ib = (case ib of (i, byte) \<Rightarrow>
     if i = 4 \<or> i = 7 then byte = 45
     else if i = 10 then byte = 84
     else if i = 13 \<or> i = 16 then byte = 58
     else if i = 19 then byte = 90
     else is_ascii_digit byte)"

definition utc_pair :: "bytes \<Rightarrow> nat \<Rightarrow> u8" where
  "utc_pair b i = (b ! i - 48) * 10 + b ! (i + 1) - 48"

definition month_days :: "u16 \<Rightarrow> u8 \<Rightarrow> u8 option" where
  "month_days year month =
     (if month \<in> {4, 6, 9, 11} then Some 30
      else if month = 2 \<and> year mod 4 = 0 \<and> (year mod 100 \<noteq> 0 \<or> year mod 400 = 0) then Some 29
      else if month = 2 then Some 28
      else if month \<in> {1, 3, 5, 7, 8, 10, 12} then Some 31
      else None)"

definition is_utc_seconds :: "string \<Rightarrow> bool" where
  "is_utc_seconds timestamp =
     (let b = as_bytes timestamp in
      if length b \<noteq> 20 \<or> \<not> list_all utc_shape (List.enumerate 0 b) then False
      else
        let year = ucast (utc_pair b 0) * 100 + ucast (utc_pair b 2) in
        case month_days year (utc_pair b 5) of
          None \<Rightarrow> False
        | Some days \<Rightarrow> 1 \<le> utc_pair b 8 \<and> utc_pair b 8 \<le> days \<and> utc_pair b 11 < 24
            \<and> utc_pair b 14 < 60 \<and> utc_pair b 17 < 60)"

definition nonce_byte :: "u8 \<Rightarrow> bool" where
  "nonce_byte b = (is_ascii_digit b \<or> 97 \<le> b \<and> b \<le> 102)"

definition valid_nonce_and_time :: "string \<Rightarrow> bool" where
  "valid_nonce_and_time body =
     (case Option.bind (strip_prefix ''Nonce: '' body) (split_once (LF # ''Issued At: '')) of
        None \<Rightarrow> False
      | Some (nonce, timestamp) \<Rightarrow> length nonce = 64 \<and> list_all nonce_byte (as_bytes nonce)
          \<and> (case strip_suffix [LF] timestamp of None \<Rightarrow> False | Some t \<Rightarrow> is_utc_seconds t))"

definition validate_maker_auth_challenge :: "string \<Rightarrow> (SigningError, unit) res" where
  "validate_maker_auth_challenge challenge =
     (case strip_prefix AUTH_PREFIX challenge of
        Some body \<Rightarrow> if valid_nonce_and_time body then Ok ()
          else Err (SignerFailed ''invalid maker authentication challenge'')
      | None \<Rightarrow> Err (SignerFailed ''invalid maker authentication challenge''))"

definition validate_wallet_auth_challenge :: "crypto \<Rightarrow> string \<Rightarrow> string \<Rightarrow> (SigningError, unit) res" where
  "validate_wallet_auth_challenge cr challenge wallet =
     (let body = Option.bind (Option.bind (Option.bind (strip_prefix AUTH_PREFIX challenge)
        (strip_prefix ''Wallet: '')) (strip_prefix wallet)) (strip_prefix [LF]) in
      if is_ok (decode_base58_fixed cr 32 wallet)
         \<and> (case body of None \<Rightarrow> False | Some b \<Rightarrow> valid_nonce_and_time b) then Ok ()
      else Err (SignerFailed ''invalid wallet authentication challenge''))"

definition validate_vault_auth_challenge ::
  "crypto \<Rightarrow> string \<Rightarrow> key \<Rightarrow> key \<Rightarrow> (SigningError, unit) res" where
  "validate_vault_auth_challenge cr challenge operator vault =
     (let invalid = SignerFailed ''invalid vault authentication challenge'';
          operator' = cr_b58_encode cr operator;
          vault' = cr_b58_encode cr vault in
      bind_res (ok_or invalid
        (Option.bind (Option.bind (Option.bind (Option.bind (Option.bind (strip_prefix AUTH_PREFIX challenge)
          (strip_prefix ''Wallet: '')) (strip_prefix operator')) (strip_prefix [LF]))
          (strip_suffix vault')) (strip_suffix (LF # ''Vault: '')))) (\<lambda>body.
      if \<not> valid_nonce_and_time body then Err invalid else Ok ()))"

section \<open>The grammar of a challenge\<close>

lemma strip_prefix_eq_Some: "strip_prefix p s = Some r \<longleftrightarrow> s = p @ r"
  by (auto simp: strip_prefix_def) (metis append_take_drop_id)

lemma strip_suffix_eq_Some: "strip_suffix p s = Some r \<longleftrightarrow> s = r @ p"
proof -
  have "rev s = rev p @ rev r \<longleftrightarrow> s = r @ p" by (metis rev_append rev_rev_ident)
  then show ?thesis by (auto simp: strip_suffix_def strip_prefix_eq_Some)
qed

lemma bind_option_eq_Some: "Option.bind x f = Some r \<longleftrightarrow> (\<exists>a. x = Some a \<and> f a = Some r)"
  by (cases x) auto

lemma strip_case: "(case x of None \<Rightarrow> False | Some a \<Rightarrow> P a) \<longleftrightarrow> (\<exists>a. x = Some a \<and> P a)"
  by (cases x) auto

lemma split_once_sound: "split_once p s = Some (a, b) \<Longrightarrow> s = a @ p @ b"
  by (induction p s arbitrary: a b rule: split_once.induct)
    (auto simp: strip_prefix_eq_Some split: if_splits option.splits)

text \<open>A separator whose first character does not occur in the head is found right after the head.\<close>

lemma split_once_complete: "c \<notin> set a \<Longrightarrow> split_once (c # p) (a @ (c # p) @ b) = Some (a, b)"
proof (induction a)
  case Nil
  have "strip_prefix (c # p) (c # p @ b) = Some b" by (simp add: strip_prefix_eq_Some)
  then show ?case by simp
next
  case (Cons x a)
  then have "strip_prefix (c # p) (x # a @ (c # p) @ b) = None" by (auto simp: strip_prefix_def)
  with Cons show ?case by simp
qed

lemma nonce_no_LF: "list_all nonce_byte (as_bytes n) \<Longrightarrow> LF \<notin> set n"
  by (auto simp: as_bytes_def list_all_iff nonce_byte_def is_ascii_digit_def LF_def)

definition challenge_body :: "string \<Rightarrow> string \<Rightarrow> string" where
  "challenge_body nonce time = ''Nonce: '' @ nonce @ (LF # ''Issued At: '') @ time @ [LF]"

definition wf_body :: "string \<Rightarrow> string \<Rightarrow> bool" where
  "wf_body nonce time = (length nonce = 64 \<and> list_all nonce_byte (as_bytes nonce) \<and> is_utc_seconds time)"

lemma valid_nonce_and_time_iff:
  "valid_nonce_and_time body \<longleftrightarrow> (\<exists>nonce time. wf_body nonce time \<and> body = challenge_body nonce time)"
proof
  assume "valid_nonce_and_time body"
  then show "\<exists>nonce time. wf_body nonce time \<and> body = challenge_body nonce time"
    by (auto simp: valid_nonce_and_time_def strip_case strip_prefix_eq_Some strip_suffix_eq_Some
        bind_option_eq_Some wf_body_def challenge_body_def dest!: split_once_sound)
next
  assume "\<exists>nonce time. wf_body nonce time \<and> body = challenge_body nonce time"
  then obtain nonce time where w: "wf_body nonce time" and b: "body = challenge_body nonce time" by blast
  have "strip_prefix ''Nonce: '' body = Some (nonce @ (LF # ''Issued At: '') @ time @ [LF])"
    by (simp add: strip_prefix_eq_Some b challenge_body_def)
  moreover have "split_once (LF # ''Issued At: '') (nonce @ (LF # ''Issued At: '') @ time @ [LF]) = Some (nonce, time @ [LF])"
    using w nonce_no_LF [of nonce] by (intro split_once_complete) (simp add: wf_body_def)
  ultimately have s: "Option.bind (strip_prefix ''Nonce: '' body) (split_once (LF # ''Issued At: '')) = Some (nonce, time @ [LF])"
    by simp
  have "strip_suffix [LF] (time @ [LF]) = Some time" by (simp add: strip_suffix_eq_Some)
  with w show "valid_nonce_and_time body"
    by (simp add: valid_nonce_and_time_def s wf_body_def)
qed

definition vault_challenge :: "crypto \<Rightarrow> key \<Rightarrow> key \<Rightarrow> string \<Rightarrow> string \<Rightarrow> string" where
  "vault_challenge cr operator vault nonce time =
     AUTH_PREFIX @ ''Wallet: '' @ cr_b58_encode cr operator @ [LF] @ challenge_body nonce time
       @ (LF # ''Vault: '') @ cr_b58_encode cr vault"

lemma vault_challenge_iff:
  "validate_vault_auth_challenge cr challenge operator vault = Ok () \<longleftrightarrow>
     (\<exists>nonce time. wf_body nonce time \<and> challenge = vault_challenge cr operator vault nonce time)"
  (is "?l = ?r")
proof
  assume ?l
  then show ?r
    by (auto simp: validate_vault_auth_challenge_def Let_def res_simps ok_or_def bind_option_eq_Some
        strip_prefix_eq_Some strip_suffix_eq_Some valid_nonce_and_time_iff vault_challenge_def
        split: if_splits option.splits)
next
  assume ?r
  then obtain nonce time where w: "wf_body nonce time"
    and c: "challenge = vault_challenge cr operator vault nonce time" by blast
  have "Option.bind (Option.bind (Option.bind (Option.bind (Option.bind (strip_prefix AUTH_PREFIX challenge)
          (strip_prefix ''Wallet: '')) (strip_prefix (cr_b58_encode cr operator))) (strip_prefix [LF]))
          (strip_suffix (cr_b58_encode cr vault))) (strip_suffix (LF # ''Vault: ''))
      = Some (challenge_body nonce time)"
    by (simp add: bind_option_eq_Some strip_prefix_eq_Some strip_suffix_eq_Some c vault_challenge_def)
  moreover have "valid_nonce_and_time (challenge_body nonce time)"
    using w valid_nonce_and_time_iff by blast
  ultimately show ?l by (simp add: validate_vault_auth_challenge_def Let_def ok_or_def)
qed

lemma maker_challenge_iff:
  "validate_maker_auth_challenge challenge = Ok () \<longleftrightarrow>
     (\<exists>nonce time. wf_body nonce time \<and> challenge = AUTH_PREFIX @ challenge_body nonce time)"
  by (auto simp: validate_maker_auth_challenge_def strip_prefix_eq_Some valid_nonce_and_time_iff
      split: option.splits if_splits)
    (metis strip_prefix_eq_Some option.distinct(1))

section \<open>The timestamp\<close>

definition dig :: "nat \<Rightarrow> char" where
  "dig n = char_of (48 + n)"

definition dig2 :: "nat \<Rightarrow> string" where
  "dig2 n = [dig (n div 10), dig (n mod 10)]"

definition leap_year :: "nat \<Rightarrow> bool" where
  "leap_year y = (y mod 4 = 0 \<and> (y mod 100 \<noteq> 0 \<or> y mod 400 = 0))"

definition civil_month_days :: "nat \<Rightarrow> nat \<Rightarrow> nat" where
  "civil_month_days y m = [31, if leap_year y then 29 else 28, 31, 30, 31, 30, 31, 31, 30, 31, 30, 31] ! (m - 1)"

definition civil_time :: "nat \<Rightarrow> nat \<Rightarrow> nat \<Rightarrow> nat \<Rightarrow> nat \<Rightarrow> nat \<Rightarrow> bool" where
  "civil_time y mo d h mi s = (y < 10000 \<and> 1 \<le> mo \<and> mo \<le> 12 \<and> 1 \<le> d \<and> d \<le> civil_month_days y mo
     \<and> h < 24 \<and> mi < 60 \<and> s < 60)"

definition utc_text :: "nat \<Rightarrow> nat \<Rightarrow> nat \<Rightarrow> nat \<Rightarrow> nat \<Rightarrow> nat \<Rightarrow> string" where
  "utc_text y mo d h mi s = dig2 (y div 100) @ dig2 (y mod 100) @ ''-'' @ dig2 mo @ ''-'' @ dig2 d
     @ ''T'' @ dig2 h @ '':'' @ dig2 mi @ '':'' @ dig2 s @ ''Z''"

lemma unat_byte: "unat (of_nat (of_char c) :: u8) = of_char c"
proof -
  have "of_char c < (256 :: nat)" using mod_less_divisor [of 256 "of_char c :: nat"] by (simp del: mod_less_divisor)
  then show ?thesis by (simp add: unat_of_nat take_bit_nat_eq_self)
qed

lemma byte_dig: "n \<le> 9 \<Longrightarrow> of_nat (of_char (dig n)) = (of_nat (48 + n) :: u8)"
  by (simp add: dig_def)

lemma byte_eq_iff: "of_nat (of_char c) = (b :: u8) \<longleftrightarrow> c = char_of (unat b)"
proof
  assume "of_nat (of_char c) = b"
  then have "unat b = of_char c" using unat_byte by blast
  then show "c = char_of (unat b)" by simp
next
  assume "c = char_of (unat b)"
  then show "of_nat (of_char c) = b" using unat_bounded [of b] by (simp add: of_char_of)
qed

lemma digit_char: "is_ascii_digit (of_nat (of_char c)) \<longleftrightarrow> (\<exists>n \<le> 9. c = dig n)"
proof
  assume "is_ascii_digit (of_nat (of_char c))"
  then have "48 \<le> (of_char c :: nat)" "of_char c \<le> (57 :: nat)"
    unfolding is_ascii_digit_def word_le_nat_alt unat_byte by simp_all
  then have "of_char c - 48 \<le> (9 :: nat)" "c = dig (of_char c - 48)" by (simp_all add: dig_def)
  then show "\<exists>n \<le> 9. c = dig n" by blast
next
  assume "\<exists>n \<le> 9. c = dig n"
  then obtain n where "n \<le> 9" "c = dig n" by blast
  then have "of_char c = 48 + n" by (simp add: dig_def)
  with \<open>n \<le> 9\<close> show "is_ascii_digit (of_nat (of_char c))"
    unfolding is_ascii_digit_def word_le_nat_alt unat_byte by simp
qed

definition dval :: "char \<Rightarrow> nat" where
  "dval c = of_char c - 48"

lemma dval: "is_ascii_digit (of_nat (of_char c)) \<Longrightarrow> dval c \<le> 9 \<and> dig (dval c) = c"
  unfolding is_ascii_digit_def word_le_nat_alt unat_byte by (auto simp: dval_def dig_def)

lemma pair_digits:
  assumes "n < 100"
  shows "(of_nat (of_char (dig (n div 10))) - 48) * 10 + of_nat (of_char (dig (n mod 10))) - (48 :: u8) = of_nat n"
proof -
  have "n = 10 * (n div 10) + n mod 10" by simp
  then have "(of_nat n :: u8) = 10 * of_nat (n div 10) + of_nat (n mod 10)" by (metis of_nat_add of_nat_mult of_nat_numeral)
  moreover have "n div 10 \<le> 9" "n mod 10 \<le> 9" using assms by simp_all
  ultimately show ?thesis by (simp add: byte_dig algebra_simps)
qed

lemma dig2_pair: "m \<le> 9 \<Longrightarrow> n \<le> 9 \<Longrightarrow> dig2 (10 * m + n) = [dig m, dig n]"
  by (simp add: dig2_def)

lemma of_nat_u8_eq: "n < 256 \<Longrightarrow> m < 256 \<Longrightarrow> (of_nat n :: u8) = of_nat m \<longleftrightarrow> n = m"
  by (auto simp: word_unat_eq_iff unat_of_nat take_bit_nat_eq_self)

lemma month_days_nat:
  assumes "y < 10000" "mo < 100"
  shows "month_days (of_nat y) (of_nat mo) =
    (if 1 \<le> mo \<and> mo \<le> 12 then Some (of_nat (civil_month_days y mo)) else None)"
proof -
  have m: "(of_nat mo :: u8) = numeral k \<longleftrightarrow> mo = numeral k" if "numeral k < (256 :: nat)" for k
    using of_nat_u8_eq [of mo "numeral k"] that assms by simp
  have m1: "(of_nat mo :: u8) = 1 \<longleftrightarrow> mo = 1" using of_nat_u8_eq [of mo 1] assms by simp
  have "(of_nat y :: u16) mod of_nat k = 0 \<longleftrightarrow> y mod k = 0" if "k < 65536" for k
    using assms that by (simp add: word_unat_eq_iff unat_mod_distrib unat_of_nat take_bit_nat_eq_self)
  from this [of 4] this [of 100] this [of 400]
  have y: "(of_nat y :: u16) mod 4 = 0 \<longleftrightarrow> y mod 4 = 0" "(of_nat y :: u16) mod 100 = 0 \<longleftrightarrow> y mod 100 = 0"
    "(of_nat y :: u16) mod 400 = 0 \<longleftrightarrow> y mod 400 = 0" by simp_all
  show ?thesis
    using assms
    by (auto simp: month_days_def m m1 y civil_month_days_def leap_year_def) arith
qed

lemma of_nat_u8_le: "n < 256 \<Longrightarrow> m < 256 \<Longrightarrow> (of_nat n :: u8) \<le> of_nat m \<longleftrightarrow> n \<le> m"
  by (simp add: word_le_nat_alt unat_of_nat take_bit_nat_eq_self)

lemma month_le_31: "1 \<le> mo \<Longrightarrow> mo \<le> 12 \<Longrightarrow> civil_month_days y mo \<le> 31"
proof -
  assume "1 \<le> mo" "mo \<le> 12"
  then have "mo \<in> {1, 2, 3, 4, 5, 6, 7, 8, 9, 10, 11, 12}" by auto arith
  then show ?thesis by (auto simp: civil_month_days_def)
qed

lemma mark_chars: "char_of (45 :: nat) = CHR ''-''" "char_of (84 :: nat) = CHR ''T''"
  "char_of (58 :: nat) = CHR '':''" "char_of (90 :: nat) = CHR ''Z''"
  by code_simp+

lemma dig_digit: "n < 100 \<Longrightarrow> is_ascii_digit (of_nat (of_char (dig (n div 10))))"
  "is_ascii_digit (of_nat (of_char (dig (n mod 10))))"
proof -
  show "n < 100 \<Longrightarrow> is_ascii_digit (of_nat (of_char (dig (n div 10))))"
    unfolding digit_char by (intro exI [of _ "n div 10"]) simp
  show "is_ascii_digit (of_nat (of_char (dig (n mod 10))))"
    unfolding digit_char by (intro exI [of _ "n mod 10"]) simp
qed

lemma utc_text_seconds:
  assumes "y < 10000" "mo < 100" "d < 100" "h < 100" "mi < 100" "s < 100"
  shows "is_utc_seconds (utc_text y mo d h mi s) \<longleftrightarrow> civil_time y mo d h mi s"
proof -
  let ?b = "as_bytes (utc_text y mo d h mi s)"
  have c: "y div 100 < 100" "y mod 100 < 100" using assms by simp_all
  have len: "length ?b = 20" by (simp add: as_bytes_def utc_text_def dig2_def)
  have shape: "list_all utc_shape (List.enumerate 0 ?b)"
    using assms c by (simp add: as_bytes_def utc_text_def dig2_def utc_shape_def dig_digit del: div_mult_self1)
  have p: "utc_pair ?b 0 = of_nat (y div 100)" "utc_pair ?b 2 = of_nat (y mod 100)" "utc_pair ?b 5 = of_nat mo"
    "utc_pair ?b 8 = of_nat d" "utc_pair ?b 11 = of_nat h" "utc_pair ?b 14 = of_nat mi" "utc_pair ?b 17 = of_nat s"
    using pair_digits [of "y div 100"] pair_digits [of "y mod 100"] pair_digits [of mo] pair_digits [of d]
      pair_digits [of h] pair_digits [of mi] pair_digits [of s] assms c
    by (simp_all add: utc_pair_def as_bytes_def utc_text_def dig2_def)
  have "y = y div 100 * 100 + y mod 100" by simp
  then have "of_nat (y div 100) * 100 + of_nat (y mod 100) = (of_nat y :: u16)"
    by (metis of_nat_add of_nat_mult of_nat_numeral)
  then have yr: "ucast (of_nat (y div 100) :: u8) * 100 + ucast (of_nat (y mod 100) :: u8) = (of_nat y :: u16)"
    using c by (simp add: unsigned_of_nat take_bit_nat_eq_self)
  show ?thesis
    using assms month_le_31 [of mo y] of_nat_u8_le [of 1 d] of_nat_u8_le [of d "civil_month_days y mo"]
      of_nat_u8_le [of 24 h] of_nat_u8_le [of 60 mi] of_nat_u8_le [of 60 s]
    by (auto simp: is_utc_seconds_def len shape p yr Let_def month_days_nat civil_time_def not_le [symmetric])
qed

lemma hundreds: "v < 100 \<Longrightarrow> (100 * u + v) div 100 = (u :: nat)" "v < 100 \<Longrightarrow> (100 * u + v) mod 100 = v"
  by simp_all

lemma is_utc_seconds_iff:
  "is_utc_seconds ts \<longleftrightarrow> (\<exists>y mo d h mi s. civil_time y mo d h mi s \<and> ts = utc_text y mo d h mi s)"
proof
  assume u: "is_utc_seconds ts"
  then have "length ts = 20" by (simp add: is_utc_seconds_def as_bytes_def Let_def split: if_splits)
  then obtain a b c d e f g h i j k l m n p q r t x z where ts: "ts = [a,b,c,d,e,f,g,h,i,j,k,l,m,n,p,q,r,t,x,z]"
    by (auto simp: numeral_eq_Suc length_Suc_conv)
  from u have s: "list_all utc_shape (List.enumerate 0 (as_bytes ts))"
    by (simp add: is_utc_seconds_def Let_def split: if_splits)
  have n: "dval a \<le> 9" "dval b \<le> 9" "dval c \<le> 9" "dval d \<le> 9" "dval f \<le> 9" "dval g \<le> 9" "dval i \<le> 9"
      "dval j \<le> 9" "dval l \<le> 9" "dval m \<le> 9" "dval p \<le> 9" "dval q \<le> 9" "dval t \<le> 9" "dval x \<le> 9"
    and e: "ts = [dig (dval a), dig (dval b), dig (dval c), dig (dval d), CHR ''-'', dig (dval f), dig (dval g), CHR ''-'',
      dig (dval i), dig (dval j), CHR ''T'', dig (dval l), dig (dval m), CHR '':'', dig (dval p), dig (dval q), CHR '':'',
      dig (dval t), dig (dval x), CHR ''Z'']"
    using s by (simp_all add: ts as_bytes_def utc_shape_def byte_eq_iff dval mark_chars)
  let ?y = "100 * (10 * dval a + dval b) + (10 * dval c + dval d)"
  have yy: "?y div 100 = 10 * dval a + dval b" "?y mod 100 = 10 * dval c + dval d" "?y < 10000"
    using n by (simp_all only: hundreds) simp_all
  have "ts = utc_text ?y (10 * dval f + dval g) (10 * dval i + dval j) (10 * dval l + dval m) (10 * dval p + dval q) (10 * dval t + dval x)"
    unfolding utc_text_def yy by (simp add: dig2_pair n e del: mult_Suc)
  moreover from this u have "civil_time ?y (10 * dval f + dval g) (10 * dval i + dval j) (10 * dval l + dval m) (10 * dval p + dval q) (10 * dval t + dval x)"
    using n by (subst utc_text_seconds [symmetric]) simp_all
  ultimately show "\<exists>y mo d h mi s. civil_time y mo d h mi s \<and> ts = utc_text y mo d h mi s" by blast
next
  assume "\<exists>y mo d h mi s. civil_time y mo d h mi s \<and> ts = utc_text y mo d h mi s"
  then obtain y mo d h mi s where c: "civil_time y mo d h mi s" and t: "ts = utc_text y mo d h mi s" by blast
  from c month_le_31 [of mo y] have "y < 10000" "mo < 100" "d < 100" "h < 100" "mi < 100" "s < 100"
    by (auto simp: civil_time_def)
  with c t show "is_utc_seconds ts" by (simp add: utc_text_seconds)
qed

section \<open>One challenge, one role\<close>

text \<open>The base58 alphabet has no control character.\<close>

definition base58_one_line :: "crypto \<Rightarrow> bool" where
  "base58_one_line cr = (\<forall>bs. LF \<notin> set (cr_b58_encode cr bs))"

lemma first_line_unique:
  "c \<notin> set a \<Longrightarrow> c \<notin> set b \<Longrightarrow> a @ c # r = b @ c # s \<longleftrightarrow> a = b \<and> r = s"
proof (induction a arbitrary: b)
  case Nil
  then show ?case by (cases b) auto
next
  case (Cons x a)
  then show ?case by (cases b) auto
qed

lemma last_line_unique:
  assumes "c \<notin> set a" "c \<notin> set b" "r @ c # a = s @ c # b"
  shows "a = b \<and> r = s"
proof -
  from assms(3) have "rev (r @ c # a) = rev (s @ c # b)" by (rule arg_cong)
  then have "rev a @ c # rev r = rev b @ c # rev s" by simp
  with assms(1,2) show ?thesis using first_line_unique [of c "rev a" "rev b"] by simp
qed

lemma base58_inject: "base58_roundtrip cr \<Longrightarrow> cr_b58_encode cr a = cr_b58_encode cr b \<Longrightarrow> a = b"
  by (metis base58_roundtrip_def option.inject)

lemma vault_challenge_inject:
  assumes "base58_roundtrip cr" "base58_one_line cr"
    and eq: "vault_challenge cr o1 v1 n1 t1 = vault_challenge cr o2 v2 n2 t2"
  shows "o1 = o2 \<and> v1 = v2"
proof -
  have nl: "LF \<notin> set (cr_b58_encode cr b)" for b using assms(2) by (simp add: base58_one_line_def)
  have e: "cr_b58_encode cr o1 @ LF # challenge_body n1 t1 @ (LF # ''Vault: '') @ cr_b58_encode cr v1
      = cr_b58_encode cr o2 @ LF # challenge_body n2 t2 @ (LF # ''Vault: '') @ cr_b58_encode cr v2"
    using eq by (simp add: vault_challenge_def)
  then have "cr_b58_encode cr o1 = cr_b58_encode cr o2"
    and r: "challenge_body n1 t1 @ LF # (''Vault: '' @ cr_b58_encode cr v1)
      = challenge_body n2 t2 @ LF # (''Vault: '' @ cr_b58_encode cr v2)"
    unfolding first_line_unique [OF nl nl] by simp_all
  moreover have "''Vault: '' @ cr_b58_encode cr v1 = ''Vault: '' @ cr_b58_encode cr v2"
    using last_line_unique [OF _ _ r] nl by (simp add: LF_def)
  ultimately show ?thesis using base58_inject [OF assms(1)] by simp
qed

lemma vault_challenge_last: "base58_one_line cr \<Longrightarrow> last (vault_challenge cr op v n t) \<noteq> LF"
  by (auto simp: vault_challenge_def base58_one_line_def last_append LF_def) (metis LF_def last_in_set)

lemma challenge_body_last: "last (p @ challenge_body n t) = LF"
  by (simp add: challenge_body_def)

lemma wallet_challenge_last:
  "validate_wallet_auth_challenge cr c w = Ok () \<Longrightarrow> last c = LF"
  by (auto simp: validate_wallet_auth_challenge_def Let_def strip_case bind_option_eq_Some
      strip_prefix_eq_Some valid_nonce_and_time_iff challenge_body_def split: if_splits)


text \<open>A concrete text encoding that meets both laws: two letters per byte.\<close>

fun letters :: "bytes \<Rightarrow> string" where
  "letters [] = []"
| "letters (b # bs) = char_of (65 + unat b div 16) # char_of (65 + unat b mod 16) # letters bs"

fun unletters :: "string \<Rightarrow> bytes option" where
  "unletters [] = Some []"
| "unletters (c # d # s) = map_option ((#) (of_nat ((of_char c - 65) * 16 + (of_char d - 65)))) (unletters s)"
| "unletters [_] = None"

definition letter_crypto :: crypto where
  "letter_crypto = plain_crypto\<lparr>cr_b58_encode := letters, cr_b58_decode := unletters\<rparr>"

lemma letter_crypto_laws: "base58_roundtrip letter_crypto" "base58_one_line letter_crypto"
proof -
  have b: "unat b div 16 < 16" for b :: u8 using unat_bounded [of b] by simp
  have "of_nat ((of_char (char_of (65 + unat b div 16) :: char) - 65) * 16 + (of_char (char_of (65 + unat b mod 16) :: char) - 65)) = b"
    for b :: u8 using b [of b] by (simp add: of_char_of)
  then have "unletters (letters bs) = Some bs" for bs by (induction bs) simp_all
  then show "base58_roundtrip letter_crypto" by (simp add: base58_roundtrip_def letter_crypto_def)
  have letter: "char_of n \<noteq> LF" if "65 \<le> n" "n < 256" for n :: nat
  proof
    assume "char_of n = LF"
    then have "of_char (char_of n :: char) = (of_char LF :: nat)" by simp
    with that show False by (simp add: LF_def of_char_of)
  qed
  have "LF \<notin> set (letters bs)" for bs
  proof (induction bs)
    case (Cons a bs)
    have "65 + unat a div 16 < 256" "65 + unat a mod 16 < 256" using b [of a] by simp_all
    with Cons letter [of "65 + unat a div 16"]
      letter [of "65 + unat a mod 16"]
    show ?case by (simp add: eq_commute [of LF])
  qed simp
  then show "base58_one_line letter_crypto" by (simp add: base58_one_line_def letter_crypto_def)
qed


end
