(* ===== verification/WsTypes.thy ===== *)
theory WsTypes
  imports Challenge "HOL-Library.List_Lexorder"
begin

text \<open>
  The messages of the managed WebSocket session (\<^verbatim>\<open>src/src/ws/types\<close>), reduced to the fields the
  session reads. Every variant of the source has its counterpart: one whose payload the session never
  inspects beyond its request id is a kind of \<open>Query\<close> or \<open>ReadyCommand\<close> (client) or of \<open>Reply\<close> (server);
  a server variant without a request id that the session passes through unread is a kind of \<open>Notice\<close>.
  The replies that continue over several pages are \<open>Page\<close>s. A oneshot channel is its number.
\<close>

type_synonym uuid = u128
type_synonym OrderId = bytes
type_synonym chan = nat

datatype WsChannel = Stats | Rfqs | Trades | ChainEvents | MarketsChannel | Vaults | TakerBuyRfqs

datatype Cursor = CursorStart | CursorAfter string

section \<open>Client messages\<close>

record SubscribeData =
  sd_products :: ProductSet
  sd_request_id :: uuid
  sd_channels :: "WsChannel list"
  sd_underlying_mints :: "key list"
  sd_quote_mints :: "key list"

record ChannelsData =
  cd_request_id :: uuid
  cd_channels :: "WsChannel list"

record MintsData =
  md_request_id :: uuid
  md_underlying_mints :: "key list"
  md_quote_mints :: "key list"

datatype SubscriptionChange =
    Subscribe SubscribeData
  | Unsubscribe ChannelsData
  | AddChannels ChannelsData
  | RemoveChannels ChannelsData
  | AddMints MintsData
  | RemoveMints MintsData

datatype PageKind =
    Positions | ActiveRfqs | MyActiveRfqs | MyQuotes | MakerPositions | MyCaps | MakerMarkets | Tokens | MmSummary

datatype ReadyKind =
    CancelQuote | CancelAllQuotes | AcceptQuote | SubmitSignedSponsoredTx | SwapQuote | SwapSubmit | GetSwapStatus
  | GetOrderStatus

datatype QueryKind =
    GetPositionSummary | GetMarkets | GetMarketDescriptors | GetExpiries | GetMyTrades | GetTokenCaps | CheckQuote
  | GetEarnSummary | GetTokenMarketsInfo | GetIndicativePrices | RedeemInvite | ClaimReferralCode | GetMyReferralInfo

datatype ClientMessage =
    Hello
  | StartAuth key
  | StartVaultAuth key key
  | ResumeAuth string
  | Logout
  | AuthChallenge string string key
  | Ping
  | QuoteMsg OrderId
  | ReplaceQuote OrderId
  | BatchQuotes "OrderId list"
  | IndicativePricesResponse
  | CancelRfq uuid
  | RfqRequest uuid TakerSide
  | Change SubscriptionChange
  | GetPage PageKind uuid Cursor
  | GetSubscriptions uuid Cursor
  | ReadyCommand ReadyKind uuid
  | Query QueryKind uuid

datatype Lane = Control | Data

fun change_request_id :: "SubscriptionChange \<Rightarrow> uuid" where
  "change_request_id (Subscribe d) = sd_request_id d"
| "change_request_id (Unsubscribe d) = cd_request_id d"
| "change_request_id (AddChannels d) = cd_request_id d"
| "change_request_id (RemoveChannels d) = cd_request_id d"
| "change_request_id (AddMints d) = md_request_id d"
| "change_request_id (RemoveMints d) = md_request_id d"

fun from_message :: "ClientMessage \<Rightarrow> SubscriptionChange option" where
  "from_message (Change c) = Some c"
| "from_message _ = None"

fun client_request_id :: "ClientMessage \<Rightarrow> uuid option" where
  "client_request_id (CancelRfq r) = Some r"
| "client_request_id (RfqRequest r _) = Some r"
| "client_request_id (Change c) = Some (change_request_id c)"
| "client_request_id (GetPage _ r _) = Some r"
| "client_request_id (GetSubscriptions r _) = Some r"
| "client_request_id (ReadyCommand _ r) = Some r"
| "client_request_id (Query _ r) = Some r"
| "client_request_id _ = None"

fun requires_ready :: "ClientMessage \<Rightarrow> bool" where
  "requires_ready (QuoteMsg _) = True"
| "requires_ready (BatchQuotes _) = True"
| "requires_ready (ReplaceQuote _) = True"
| "requires_ready IndicativePricesResponse = True"
| "requires_ready (RfqRequest _ _) = True"
| "requires_ready (CancelRfq _) = True"
| "requires_ready (Change _) = True"
| "requires_ready (ReadyCommand _ _) = True"
| "requires_ready _ = False"

fun lane :: "ClientMessage \<Rightarrow> Lane" where
  "lane Hello = Control"
| "lane (StartAuth _) = Control"
| "lane (StartVaultAuth _ _) = Control"
| "lane (ResumeAuth _) = Control"
| "lane (AuthChallenge _ _ _) = Control"
| "lane Logout = Control"
| "lane Ping = Control"
| "lane (CancelRfq _) = Control"
| "lane _ = Data"

section \<open>Server messages\<close>

text \<open>The error codes the session tells apart; every other code keeps its wire name.\<close>

datatype WsErrorCode =
    SessionReplaced | SessionExpired | Blacklisted | MakerUnregistered | MakerNotRegistered
  | InvalidSignature | OperatorMismatch | VaultOperatorUnauthorized | VaultSessionInvalidated
  | UnsupportedProtocolVersion | OtherCode string

fun code_str :: "WsErrorCode \<Rightarrow> string" where
  "code_str SessionReplaced = ''session_replaced''"
| "code_str SessionExpired = ''session_expired''"
| "code_str Blacklisted = ''blacklisted''"
| "code_str MakerUnregistered = ''maker_unregistered''"
| "code_str MakerNotRegistered = ''maker_not_registered''"
| "code_str InvalidSignature = ''invalid_signature''"
| "code_str OperatorMismatch = ''operator_mismatch''"
| "code_str VaultOperatorUnauthorized = ''vault_operator_unauthorized''"
| "code_str VaultSessionInvalidated = ''vault_session_invalidated''"
| "code_str UnsupportedProtocolVersion = ''unsupported_protocol_version''"
| "code_str (OtherCode s) = s"

datatype ServerError = Generic WsErrorCode string | ServerShuttingDown | OtherError string

record SubscriptionsMessage =
  sm_next_cursor :: "string option"
  sm_request_id :: uuid
  sm_channels :: "WsChannel list"
  sm_underlying_mints :: "key list"
  sm_quote_mints :: "key list"

record VaultAuthSuccessData =
  va_vault_pda :: key
  va_operator :: key
  va_permissions :: VaultDelegatePermissions

datatype QuoteFinalStatus = FinalExpired | FinalOutbid | FinalCancelled | FinalFilled

datatype RfqCloseReason = RfqExpired | RfqTakerCancelled | RfqFilled | RfqMarketExpired | RfqNoEligibleMakers

datatype QuoteCancelReason = CancelRequested | CancelRiskCheck | CancelRfqAccepted | CancelMakerDisconnected

datatype ReplyKind =
    CancelQuoteAck | CancelAllQuotesAck | PositionSummary | Markets | MarketDescriptors | Expiries | MyTrades
  | OrderStatus | IndicativePrices | TokenCaps | QuoteCheck | EarnSummary | TokenMarketsInfo | InviteRedeemed
  | ReferralCodeClaimed | MyReferralInfo | SwapQuoteResult | SwapSubmitResult | SwapStatus | CommandAccepted

datatype NoticeKind =
    LogoutSuccess | RfqCreated | RfqBroadcast | QuoteReceived | QuotesUpdate | QuoteRefreshRequested
  | IndicativePricesRequest | QuoteBestStatus | QuoteOutbid | RfqSkipped | OrderAccepted | SponsoredTxToSign
  | OrderSubmitted | OrderConfirmed | OrderFailed | MarketCreated | MarketFinalized | ChainEvent | Snapshot
  | TradeExecuted | PositionUpdated | MakerCapsUpdated | StatsUpdate | RequireInvite | VaultProjectionAdvanced
  | VaultCatalogChanged | ReferenceChanged | SwapSettled

datatype ServerMessage =
    Welcome
  | VersionMismatch string string string
  | AuthRequest string
  | AuthSuccess string
  | VaultAuthSuccess VaultAuthSuccessData
  | AuthError WsErrorCode string
  | QuoteAcknowledged uuid OrderId
  | QuoteRejected uuid OrderId string
  | QuoteSelected uuid OrderId
  | QuoteFilled uuid OrderId string
  | QuoteExpired uuid OrderId
  | QuoteCancelled uuid "OrderId list" QuoteCancelReason
  | RfqAvailableAgain uuid
  | RfqClosed uuid RfqCloseReason "(OrderId \<times> QuoteFinalStatus) option"
  | BatchQuotesAck "OrderId list"
  | Subscriptions SubscriptionsMessage
  | SubscribeAck uuid
  | UnsubscribeAck uuid
  | SubscriptionUpdated uuid
  | RequestError uuid ServerError
  | Pong
  | ErrorMsg ServerError
  | Page PageKind uuid "string option"
  | Reply ReplyKind uuid
  | Notice NoticeKind

fun server_request_id :: "ServerMessage \<Rightarrow> uuid option" where
  "server_request_id (Subscriptions m) = Some (sm_request_id m)"
| "server_request_id (SubscribeAck r) = Some r"
| "server_request_id (UnsubscribeAck r) = Some r"
| "server_request_id (SubscriptionUpdated r) = Some r"
| "server_request_id (RequestError r _) = Some r"
| "server_request_id (Page _ r _) = Some r"
| "server_request_id (Reply _ r) = Some r"
| "server_request_id _ = None"

section \<open>Errors and states of the managed connection\<close>

datatype OutboundMessageError =
    TakerBuyUnsupported | BatchTooLarge nat nat | MessageTooLarge nat nat | Serialization

datatype SendAwaitError =
    AwaitSubscriptionPending | AwaitNotReady | AwaitDisconnected | AwaitTimeout | UnreadableResponse
  | NoCorrelationKey | DuplicateInFlight | TooManyPending nat | AwaitQueueFull
  | AwaitInvalidMessage OutboundMessageError

datatype ManagedWsError =
    WsClosed | QueueFull | SubscriptionPending | NotReady | Disconnected | WriteTimeout | WriteFailed
  | InvalidMessage OutboundMessageError

datatype TerminationReason =
    Requested
  | ReconnectLimitReached u64
  | ReplacedSession
  | ProtocolVersionMismatch string string string
  | AuthenticationRejected string "string option"
  | SessionPanicked
  | UnsupportedVersion

datatype ManagedWsState =
    StConnecting
  | StConnected u64
  | StAuthenticated u64
  | StReconciled u64
  | StReady u64
  | StReconnecting u64 nat
  | StClosed TerminationReason

datatype FailureKind = Network | Auth | Readiness | Server

datatype ManagedWsEvent =
    EvConnected
  | EvAuthenticated
  | EvReconciled
  | EvReady
  | EvReconnecting u64 nat
  | EvDisconnected
  | EvError FailureKind
  | EvUnreadableFrame
  | EvTerminated TerminationReason

end
