(* ===== verification/Machines.thy ===== *)
theory Machines
  imports Prelude
begin

text \<open>
  Components driven by a sequence of operations. \<open>run_ok\<close> says that every operation of a sequence is
  made in a state that allows it; the interface \<open>machine\<close> turns an invariant of one allowed operation
  into one of every such sequence.
\<close>

fun run_ok :: "('ev \<Rightarrow> 's \<Rightarrow> bool) \<Rightarrow> ('ev \<Rightarrow> 's \<Rightarrow> 's) \<Rightarrow> 'ev list \<Rightarrow> 's \<Rightarrow> bool" where
  "run_ok allowed step [] s = True"
| "run_ok allowed step (e # es) s = (allowed e s \<and> run_ok allowed step es (step e s))"

lemma run_ok_append:
  "run_ok a st (es @ fs) s \<longleftrightarrow> run_ok a st es s \<and> run_ok a st fs (fold st es s)"
  by (induction es arbitrary: s) auto

locale machine =
  fixes allowed :: "'ev \<Rightarrow> 's \<Rightarrow> bool" and step :: "'ev \<Rightarrow> 's \<Rightarrow> 's" and inv :: "'s \<Rightarrow> bool"
  assumes inv_step: "inv s \<Longrightarrow> allowed e s \<Longrightarrow> inv (step e s)"
begin

lemma inv_run: "inv s \<Longrightarrow> run_ok allowed step es s \<Longrightarrow> inv (fold step es s)"
  by (induction es arbitrary: s) (simp_all add: inv_step)

text \<open>A property of the states kept by the operations of a subset is kept by every run of that subset.\<close>

lemma stable_run:
  assumes "\<And>s e. inv s \<Longrightarrow> P s \<Longrightarrow> allowed e s \<Longrightarrow> Q e \<Longrightarrow> P (step e s)"
  shows "inv s \<Longrightarrow> P s \<Longrightarrow> run_ok allowed step es s \<Longrightarrow> list_all Q es \<Longrightarrow> P (fold step es s)"
  by (induction es arbitrary: s) (simp_all add: inv_step assms)

end

end
