(* ===== verification/Tracker.thy ===== *)
theory Tracker
  imports WsTypes Machines "HOL-Library.AList"
begin

text \<open>
  The response tracker of \<^verbatim>\<open>src/src/ws/managed/tracker.rs\<close>: the awaited requests by id and the keys that
  correlate a server message with them. Its two hash maps are association lists with distinct keys;
  \<open>gone\<close> is the set of oneshot channels whose receiver has gone. The lemmas show that the two maps
  stay inverse to each other, that the tracker never holds more than its limit, and that a reply
  reaches the request it answers and nobody else.
\<close>

section \<open>Correlation keys\<close>

datatype CorrelationKey = KeyRequest uuid | KeyQuote OrderId | KeyBatch "OrderId list"

definition sorted_order_ids :: "OrderId list \<Rightarrow> OrderId list" where
  "sorted_order_ids ids = sort ids"

fun for_client :: "ClientMessage \<Rightarrow> CorrelationKey list option" where
  "for_client (QuoteMsg order_id) = Some [KeyQuote order_id]"
| "for_client (ReplaceQuote order_id) = Some [KeyQuote order_id]"
| "for_client (BatchQuotes ids) = Some [KeyBatch (sorted_order_ids ids)]"
| "for_client (CancelRfq _) = None"
| "for_client m = map_option (\<lambda>r. [KeyRequest r]) (client_request_id m)"

fun for_server :: "ServerMessage \<Rightarrow> CorrelationKey option" where
  "for_server (QuoteAcknowledged _ order_id) = Some (KeyQuote order_id)"
| "for_server (QuoteRejected _ order_id _) = Some (KeyQuote order_id)"
| "for_server (BatchQuotesAck ids) = Some (KeyBatch (sorted_order_ids ids))"
| "for_server m = map_option KeyRequest (server_request_id m)"

section \<open>The tracker\<close>

record PendingAwait =
  pa_keys :: "CorrelationKey list"
  pa_tx :: chan

record AwaitTracker =
  at_max_pending :: nat
  at_by_id :: "(u64 \<times> PendingAwait) list"
  at_by_key :: "(CorrelationKey \<times> u64) list"

definition tracker_new :: "nat \<Rightarrow> AwaitTracker" where
  "tracker_new max_pending = \<lparr>at_max_pending = max_pending, at_by_id = [], at_by_key = []\<rparr>"

definition prepare :: "ClientMessage \<Rightarrow> (SendAwaitError, CorrelationKey list) res" where
  "prepare m = ok_or NoCorrelationKey (for_client m)"

definition cancel :: "AwaitTracker \<Rightarrow> u64 \<Rightarrow> AwaitTracker \<times> chan option" where
  "cancel t await_id =
     (case map_of (at_by_id t) await_id of
        None \<Rightarrow> (t, None)
      | Some pending \<Rightarrow>
          (t\<lparr>at_by_id := AList.delete await_id (at_by_id t),
             at_by_key := fold AList.delete (pa_keys pending) (at_by_key t)\<rparr>, Some (pa_tx pending)))"

definition prune_closed :: "chan set \<Rightarrow> AwaitTracker \<Rightarrow> AwaitTracker" where
  "prune_closed gone t =
     (let closed_ids = map fst (filter (\<lambda>(_, pending). pa_tx pending \<in> gone) (at_by_id t)) in
      fold (\<lambda>await_id t. fst (cancel t await_id)) closed_ids t)"

definition any_registered :: "AwaitTracker \<Rightarrow> CorrelationKey list \<Rightarrow> bool" where
  "any_registered t keys = list_ex (\<lambda>k. map_of (at_by_key t) k \<noteq> None) keys"

definition register ::
  "chan set \<Rightarrow> AwaitTracker \<Rightarrow> u64 \<Rightarrow> CorrelationKey list \<Rightarrow> chan \<Rightarrow> AwaitTracker \<times> (SendAwaitError \<times> chan) option" where
  "register gone t0 await_id keys tx =
     (let t = (if at_max_pending t0 \<le> length (at_by_id t0) \<or> any_registered t0 keys
               then prune_closed gone t0 else t0) in
      if at_max_pending t \<le> length (at_by_id t) then (t, Some (TooManyPending (at_max_pending t), tx))
      else if any_registered t keys then (t, Some (DuplicateInFlight, tx))
      else (t\<lparr>at_by_key := fold (\<lambda>k m. AList.update k await_id m) keys (at_by_key t),
              at_by_id := AList.update await_id \<lparr>pa_keys = keys, pa_tx = tx\<rparr> (at_by_id t)\<rparr>, None))"

definition take_for_message :: "AwaitTracker \<Rightarrow> ServerMessage \<Rightarrow> AwaitTracker \<times> chan option" where
  "take_for_message t message =
     (case for_server message of
        None \<Rightarrow> (t, None)
      | Some key \<Rightarrow> (case map_of (at_by_key t) key of None \<Rightarrow> (t, None) | Some await_id \<Rightarrow> cancel t await_id))"

definition take_for_request :: "AwaitTracker \<Rightarrow> uuid \<Rightarrow> AwaitTracker \<times> chan option" where
  "take_for_request t request_id =
     (case map_of (at_by_key t) (KeyRequest request_id) of
        None \<Rightarrow> (t, None) | Some await_id \<Rightarrow> cancel t await_id)"

text \<open>The channels that are answered with a disconnect come back with the emptied tracker.\<close>

definition drain_all :: "AwaitTracker \<Rightarrow> AwaitTracker \<times> chan list" where
  "drain_all t = (t\<lparr>at_by_key := [], at_by_id := []\<rparr>, map (pa_tx \<circ> snd) (at_by_id t))"

section \<open>The invariant\<close>

definition keyed :: "AwaitTracker \<Rightarrow> CorrelationKey \<Rightarrow> u64 \<Rightarrow> bool" where
  "keyed t k i = (\<exists>p. map_of (at_by_id t) i = Some p \<and> k \<in> set (pa_keys p))"

definition wf_tracker :: "AwaitTracker \<Rightarrow> bool" where
  "wf_tracker t \<longleftrightarrow> distinct (map fst (at_by_id t)) \<and> length (at_by_id t) \<le> at_max_pending t
     \<and> (\<forall>k i. map_of (at_by_key t) k = Some i \<longleftrightarrow> keyed t k i)"

lemma wf_trackerD:
  assumes "wf_tracker t"
  shows "distinct (map fst (at_by_id t))" "length (at_by_id t) \<le> at_max_pending t"
    "map_of (at_by_key t) k = Some i \<longleftrightarrow> keyed t k i"
  using assms by (auto simp: wf_tracker_def)

lemma map_of_fold_delete:
  "map_of (fold AList.delete ks m) = (\<lambda>k. if k \<in> set ks then None else map_of m k)"
proof (induction ks arbitrary: m)
  case (Cons a ks)
  then show ?case by (auto simp: fun_eq_iff delete_conv')
qed simp

lemma map_of_fold_update:
  "map_of (fold (\<lambda>k m. AList.update k i m) ks m) = (\<lambda>k. if k \<in> set ks then Some i else map_of m k)"
proof (induction ks arbitrary: m)
  case (Cons a ks)
  then show ?case by (auto simp: fun_eq_iff update_conv')
qed simp

lemma new_wf: "wf_tracker (tracker_new n)"
  by (simp add: wf_tracker_def tracker_new_def keyed_def)

lemma cancel_max [simp]: "at_max_pending (fst (cancel t i)) = at_max_pending t"
  by (simp add: cancel_def split: option.split)

lemma cancel_by_id: "map_of (at_by_id (fst (cancel t i))) = (map_of (at_by_id t))(i := None)"
  by (auto simp: cancel_def delete_conv' fun_eq_iff split: option.split)

lemma cancel_keyed: "keyed (fst (cancel t i)) k j \<longleftrightarrow> j \<noteq> i \<and> keyed t k j"
  by (auto simp: keyed_def cancel_by_id)

lemma cancel_length: "length (at_by_id (fst (cancel t i))) \<le> length (at_by_id t)"
  by (simp add: cancel_def length_delete_le split: option.split)

lemma cancel_wf: "wf_tracker t \<Longrightarrow> wf_tracker (fst (cancel t i))"
proof -
  assume w: "wf_tracker t"
  have k: "map_of (at_by_key (fst (cancel t i))) k = Some j \<longleftrightarrow> j \<noteq> i \<and> keyed t k j" for k j
  proof (cases "map_of (at_by_id t) i")
    case None
    then have "\<not> keyed t k i" for k by (simp add: keyed_def)
    with None w show ?thesis by (auto simp: cancel_def wf_trackerD(3))
  next
    case (Some p)
    have "k \<in> set (pa_keys p) \<longleftrightarrow> map_of (at_by_key t) k = Some i"
      using w Some by (auto simp: wf_trackerD(3) keyed_def)
    with Some w show ?thesis by (auto simp: cancel_def map_of_fold_delete wf_trackerD(3) [OF w, symmetric])
  qed
  have "distinct (map fst (at_by_id (fst (cancel t i))))"
    using w by (simp add: cancel_def wf_tracker_def distinct_delete split: option.split)
  with w k cancel_length [of t i] show ?thesis by (simp add: wf_tracker_def cancel_keyed)
qed

lemma fold_cancel:
  assumes "wf_tracker t"
  shows "wf_tracker (fold (\<lambda>i t. fst (cancel t i)) is t)
    \<and> at_max_pending (fold (\<lambda>i t. fst (cancel t i)) is t) = at_max_pending t
    \<and> map_of (at_by_id (fold (\<lambda>i t. fst (cancel t i)) is t)) = (map_of (at_by_id t)) |` (- set is)"
  using assms
proof (induction "is" arbitrary: t)
  case (Cons a as)
  with cancel_wf [OF Cons.prems, of a] show ?case
    by (auto simp: cancel_by_id fun_eq_iff restrict_map_def)
qed (auto simp: restrict_map_def)

lemma prune_closed_wf: "wf_tracker t \<Longrightarrow> wf_tracker (prune_closed gone t)"
  and prune_closed_max: "wf_tracker t \<Longrightarrow> at_max_pending (prune_closed gone t) = at_max_pending t"
  by (simp_all add: prune_closed_def Let_def fold_cancel)

lemma prune_closed_by_id:
  assumes "wf_tracker t"
  shows "map_of (at_by_id (prune_closed gone t)) i =
    (case map_of (at_by_id t) i of None \<Rightarrow> None | Some p \<Rightarrow> if pa_tx p \<in> gone then None else Some p)"
proof -
  have "i \<in> fst ` {x \<in> set (at_by_id t). pa_tx (snd x) \<in> gone} \<longleftrightarrow>
      (\<exists>p. map_of (at_by_id t) i = Some p \<and> pa_tx p \<in> gone)"
    using map_of_eq_Some_iff [OF wf_trackerD(1) [OF assms]] by force
  then show ?thesis
    by (auto simp: prune_closed_def Let_def fold_cancel [OF assms] restrict_map_def case_prod_beta
        split: option.split)
qed

lemma update_fresh_length: "k \<notin> fst ` set al \<Longrightarrow> length (AList.update k v al) = Suc (length al)"
  by (induction al) auto

lemma insert_wf:
  assumes w: "wf_tracker t" and room: "length (at_by_id t) < at_max_pending t"
    and fresh: "map_of (at_by_id t) i = None" and free: "\<not> any_registered t keys"
  shows "wf_tracker (t\<lparr>at_by_key := fold (\<lambda>k m. AList.update k i m) keys (at_by_key t),
    at_by_id := AList.update i \<lparr>pa_keys = keys, pa_tx = tx\<rparr> (at_by_id t)\<rparr>)"
proof -
  have "length (AList.update i p (at_by_id t)) = Suc (length (at_by_id t))" for p
    using fresh by (simp add: map_of_eq_None_iff update_fresh_length)
  with w room free fresh show ?thesis
    by (auto simp: wf_tracker_def keyed_def update_conv' map_of_fold_update distinct_update
        any_registered_def list_ex_iff split: if_splits)
qed

lemma register_cases:
  obtains (rejected) t e where "register gone t0 i keys tx = (t, Some (e, tx))" "t = t0 \<or> t = prune_closed gone t0"
  | (accepted) t where "t = t0 \<or> t = prune_closed gone t0" "length (at_by_id t) < at_max_pending t"
      "\<not> any_registered t keys"
      "register gone t0 i keys tx = (t\<lparr>at_by_key := fold (\<lambda>k m. AList.update k i m) keys (at_by_key t),
         at_by_id := AList.update i \<lparr>pa_keys = keys, pa_tx = tx\<rparr> (at_by_id t)\<rparr>, None)"
proof -
  define t where "t = (if at_max_pending t0 \<le> length (at_by_id t0) \<or> any_registered t0 keys
    then prune_closed gone t0 else t0)"
  have t: "t = t0 \<or> t = prune_closed gone t0" by (simp add: t_def)
  have r: "register gone t0 i keys tx =
      (if at_max_pending t \<le> length (at_by_id t) then (t, Some (TooManyPending (at_max_pending t), tx))
       else if any_registered t keys then (t, Some (DuplicateInFlight, tx))
       else (t\<lparr>at_by_key := fold (\<lambda>k m. AList.update k i m) keys (at_by_key t),
               at_by_id := AList.update i \<lparr>pa_keys = keys, pa_tx = tx\<rparr> (at_by_id t)\<rparr>, None))"
    unfolding register_def Let_def t_def by (rule refl)
  show thesis
  proof (cases "at_max_pending t \<le> length (at_by_id t) \<or> any_registered t keys")
    case True
    let ?e = "if at_max_pending t \<le> length (at_by_id t) then TooManyPending (at_max_pending t) else DuplicateInFlight"
    have "register gone t0 i keys tx = (t, Some (?e, tx))" using True by (auto simp: r)
    then show thesis using t by (rule rejected)
  next
    case False
    then show thesis using t by (intro accepted [of t]) (simp_all add: r)
  qed
qed

lemma register_wf:
  assumes "wf_tracker t0" "map_of (at_by_id t0) i = None"
  shows "wf_tracker (fst (register gone t0 i keys tx))"
proof (cases rule: register_cases [of gone t0 i keys tx])
  case (rejected t e)
  then show ?thesis using assms(1) prune_closed_wf by auto
next
  case (accepted t)
  have "wf_tracker t" "map_of (at_by_id t) i = None"
    using accepted(1) assms prune_closed_wf prune_closed_by_id [OF assms(1)] by auto
  with accepted(2-4) show ?thesis by (simp add: insert_wf)
qed

lemma drain_wf: "wf_tracker (fst (drain_all t))"
  by (simp add: wf_tracker_def drain_all_def keyed_def)

lemma take_for_message_cancel:
  "fst (take_for_message t m) = t \<or> (\<exists>i. take_for_message t m = cancel t i)"
  by (auto simp: take_for_message_def split: option.split)

lemma take_for_request_cancel:
  "fst (take_for_request t r) = t \<or> (\<exists>i. take_for_request t r = cancel t i)"
  by (auto simp: take_for_request_def split: option.split)

section \<open>Sequences of operations\<close>

datatype tracker_op =
    OpRegister u64 "CorrelationKey list" chan "chan set"
  | OpCancel u64
  | OpTakeMessage ServerMessage
  | OpTakeRequest uuid
  | OpDrain

fun tracker_step :: "tracker_op \<Rightarrow> AwaitTracker \<Rightarrow> AwaitTracker" where
  "tracker_step (OpRegister i keys tx gone) t = fst (register gone t i keys tx)"
| "tracker_step (OpCancel i) t = fst (cancel t i)"
| "tracker_step (OpTakeMessage m) t = fst (take_for_message t m)"
| "tracker_step (OpTakeRequest r) t = fst (take_for_request t r)"
| "tracker_step OpDrain t = fst (drain_all t)"

text \<open>Await ids come from a counter that is increased at every use, so a new one is not in the map.\<close>

fun tracker_allowed :: "tracker_op \<Rightarrow> AwaitTracker \<Rightarrow> bool" where
  "tracker_allowed (OpRegister i _ _ _) t = (map_of (at_by_id t) i = None)"
| "tracker_allowed _ t = True"

lemma tracker_step_wf: "wf_tracker t \<Longrightarrow> tracker_allowed op t \<Longrightarrow> wf_tracker (tracker_step op t)"
proof (cases op)
  case (OpTakeMessage m)
  assume "wf_tracker t"
  with OpTakeMessage show ?thesis using take_for_message_cancel [of t m] cancel_wf [of t] by auto
next
  case (OpTakeRequest r)
  assume "wf_tracker t"
  with OpTakeRequest show ?thesis using take_for_request_cancel [of t r] cancel_wf [of t] by auto
qed (auto simp: register_wf cancel_wf drain_wf)

interpretation trk: machine tracker_allowed tracker_step wf_tracker
  by unfold_locales (rule tracker_step_wf)

section \<open>Delivery\<close>

text \<open>The operations that do not concern one given request: not its id, not its keys, not its channel.\<close>

fun spares :: "u64 \<Rightarrow> CorrelationKey list \<Rightarrow> chan \<Rightarrow> tracker_op \<Rightarrow> bool" where
  "spares i keys tx (OpRegister j _ _ gone) = (tx \<notin> gone)"
| "spares i keys tx (OpCancel j) = (j \<noteq> i)"
| "spares i keys tx (OpTakeMessage m) = (\<forall>k. for_server m = Some k \<longrightarrow> k \<notin> set keys)"
| "spares i keys tx (OpTakeRequest r) = (KeyRequest r \<notin> set keys)"
| "spares i keys tx OpDrain = False"

definition waiting :: "u64 \<Rightarrow> CorrelationKey list \<Rightarrow> chan \<Rightarrow> AwaitTracker \<Rightarrow> bool" where
  "waiting i keys tx t = (map_of (at_by_id t) i = Some \<lparr>pa_keys = keys, pa_tx = tx\<rparr>)"

lemma waiting_keyed: "waiting i keys tx t \<Longrightarrow> keyed t k i \<longleftrightarrow> k \<in> set keys"
  by (auto simp: waiting_def keyed_def)

lemma register_spares:
  assumes "wf_tracker t" "waiting i keys tx t" "map_of (at_by_id t) j = None" "tx \<notin> gone"
  shows "waiting i keys tx (fst (register gone t j ks c))"
proof (cases rule: register_cases [of gone t j ks c])
  case (rejected t' e)
  then show ?thesis using assms prune_closed_by_id [OF assms(1)] by (auto simp: waiting_def)
next
  case (accepted t')
  have "map_of (at_by_id t') i = Some \<lparr>pa_keys = keys, pa_tx = tx\<rparr>" "j \<noteq> i"
    using accepted(1) assms prune_closed_by_id [OF assms(1)] by (auto simp: waiting_def)
  with accepted(4) show ?thesis by (simp add: waiting_def update_conv')
qed

lemma spared_step:
  assumes w: "wf_tracker t" and p: "waiting i keys tx t" and "tracker_allowed op t" "spares i keys tx op"
  shows "waiting i keys tx (tracker_step op t)"
proof -
  have c: "waiting i keys tx (fst (cancel t j))" if "j \<noteq> i" for j
    using p that by (simp add: waiting_def cancel_by_id)
  have k: "j \<noteq> i" if "map_of (at_by_key t) k = Some j" "k \<notin> set keys" for j k
    using that w p by (auto simp: wf_trackerD(3) waiting_keyed)
  show ?thesis
    using assms c k
    by (cases op) (auto simp: register_spares take_for_message_def take_for_request_def split: option.split)
qed

lemma take_waiting:
  assumes w: "wf_tracker t" and p: "waiting i keys tx t" and "for_server m = Some k" "k \<in> set keys"
  shows "take_for_message t m = (fst (cancel t i), Some tx)"
proof -
  have "map_of (at_by_key t) k = Some i" using w p assms(4) by (simp add: wf_trackerD(3) waiting_keyed)
  with p assms(3) show ?thesis by (simp add: take_for_message_def cancel_def waiting_def)
qed

lemma take_gone:
  assumes w: "wf_tracker t" and "for_server m = Some k" "\<And>j. \<not> keyed t k j"
  shows "take_for_message t m = (t, None)"
proof -
  have "map_of (at_by_key t) k = None" using w assms(3) by (metis wf_trackerD(3) option.exhaust)
  with assms(2) show ?thesis by (simp add: take_for_message_def)
qed

lemma register_accepts:
  assumes "register gone t i keys tx = (t', None)"
  shows "waiting i keys tx t'"
  using assms by (cases rule: register_cases [of gone t i keys tx]) (auto simp: waiting_def update_conv')

text \<open>
  C22. The tracker built with a limit stays consistent under every sequence of operations that uses new
  await ids: the requests have distinct ids, a correlation key points to a request exactly when that
  request was registered under it, and there are never more requests than the limit.
\<close>

theorem tracker_consistent:
  assumes "run_ok tracker_allowed tracker_step ops (tracker_new limit)"
  shows "let t = fold tracker_step ops (tracker_new limit) in
    distinct (map fst (at_by_id t)) \<and> length (at_by_id t) \<le> at_max_pending t
    \<and> (\<forall>k i. map_of (at_by_key t) k = Some i \<longleftrightarrow> keyed t k i)"
  using trk.inv_run [OF new_wf assms] by (simp add: wf_tracker_def)

theorem tracker_consistent_witness:
  "length (at_by_id (fold tracker_step
     [OpRegister 1 [KeyRequest 7] 10 {}, OpRegister 2 [KeyQuote [1]] 11 {}, OpTakeRequest 7] (tracker_new 2))) \<le> 2"
proof -
  have "run_ok tracker_allowed tracker_step
      [OpRegister 1 [KeyRequest 7] 10 {}, OpRegister 2 [KeyQuote [1]] 11 {}, OpTakeRequest 7] (tracker_new 2)"
    by (simp add: register_def tracker_new_def any_registered_def Let_def)
  from tracker_consistent [OF this]
  show ?thesis by (simp add: Let_def register_def tracker_new_def any_registered_def take_for_request_def cancel_def)
qed

text \<open>
  C23. Once a request is registered, a reply that carries one of its keys is handed to that request's channel,
  whatever the tracker did in between, as long as nothing cancelled that request, answered it, drained
  the tracker or dropped its receiver; and the same reply arriving again is handed to nobody.
\<close>

theorem await_reply_delivered:
  assumes "wf_tracker t0" and "map_of (at_by_id t0) i = None"
    and "register gone t0 i keys tx = (t1, None)"
    and "run_ok tracker_allowed tracker_step ops t1" and "list_all (spares i keys tx) ops"
    and "for_server m = Some k" and "k \<in> set keys"
  shows "\<exists>t2. take_for_message (fold tracker_step ops t1) m = (t2, Some tx)
    \<and> map_of (at_by_id t2) i = None \<and> take_for_message t2 m = (t2, None)"
proof -
  have w1: "wf_tracker t1" using register_wf [OF assms(1,2)] assms(3) by (metis fst_conv)
  let ?t = "fold tracker_step ops t1"
  have w: "wf_tracker ?t" by (rule trk.inv_run [OF w1 assms(4)])
  have p: "waiting i keys tx ?t"
    using trk.stable_run [where P = "waiting i keys tx" and Q = "spares i keys tx", OF _ w1
        register_accepts [OF assms(3)] assms(4,5)] spared_step by blast
  have "\<not> keyed (fst (cancel ?t i)) k j" for j
    using wf_trackerD(3) [OF w, of k] waiting_keyed [OF p] assms(7)
    by (metis cancel_keyed option.inject)
  with take_waiting [OF w p assms(6,7)] take_gone [OF cancel_wf [OF w] assms(6)]
  show ?thesis by (auto simp: cancel_by_id)
qed

theorem await_reply_delivered_witness:
  "\<exists>t2. take_for_message (fold tracker_step [OpRegister 2 [KeyRequest 8] 11 {}, OpTakeRequest 8]
     (fst (register {} (tracker_new 4) 1 [KeyQuote [5]] 10))) (QuoteAcknowledged 3 [5]) = (t2, Some 10)
     \<and> map_of (at_by_id t2) 1 = None \<and> take_for_message t2 (QuoteAcknowledged 3 [5]) = (t2, None)"
proof -
  obtain t1 where t1: "register {} (tracker_new 4) 1 [KeyQuote [5]] 10 = (t1, None)"
    by (simp add: register_def tracker_new_def any_registered_def Let_def)
  have "run_ok tracker_allowed tracker_step [OpRegister 2 [KeyRequest 8] 11 {}, OpTakeRequest 8] t1"
    using t1 by (auto simp: register_def tracker_new_def any_registered_def Let_def)
  from await_reply_delivered [OF new_wf _ t1 this, of "QuoteAcknowledged 3 [5]" "KeyQuote [5]"]
  show ?thesis by (simp add: tracker_new_def t1 [unfolded tracker_new_def])
qed

end
