(* ===== verification/Subscriptions.thy ===== *)
theory Subscriptions
  imports WsTypes Machines
begin

text \<open>
  The subscription target of \<^verbatim>\<open>src/src/ws/managed/desired_subscriptions.rs\<close>: what a session wants to be
  subscribed to, the one change in flight, and the messages that bring a reconnected server back to
  the target. A hash set is a list without repetitions in insertion order; no statement depends on the
  order. \<^verbatim>\<open>Uuid::new_v4()\<close> is a parameter. The lemmas relate the target to the ledger of changes the
  server did not reject, and show that recovery reaches it from every state of the server.
\<close>

section \<open>The target\<close>

record SubscriptionSet =
  ss_products :: "ProductSet option"
  ss_channels :: "WsChannel list"
  ss_underlying_mints :: "key list"
  ss_quote_mints :: "key list"

record DesiredSubscriptions =
  ds_current :: SubscriptionSet
  ds_pending :: "(uuid \<times> SubscriptionSet) option"

record SubscriptionRecovery =
  sr_unsubscribe :: "ChannelsData option"
  sr_subscribe :: "SubscribeData option"

definition set_extend :: "'a list \<Rightarrow> 'a list \<Rightarrow> 'a list" where
  "set_extend s xs = fold List.insert xs s"

definition set_remove :: "'a list \<Rightarrow> 'a list \<Rightarrow> 'a list" where
  "set_remove s xs = fold removeAll xs s"

definition normalized :: "key list \<Rightarrow> key list" where
  "normalized mints = set_extend [] mints"

definition empty_subscriptions :: SubscriptionSet where
  "empty_subscriptions = \<lparr>ss_products = None, ss_channels = [], ss_underlying_mints = [], ss_quote_mints = []\<rparr>"

definition apply_subscribe :: "SubscribeData \<Rightarrow> SubscriptionSet \<Rightarrow> SubscriptionSet" where
  "apply_subscribe data s = s\<lparr>ss_products := Some (sd_products data),
     ss_channels := set_extend (ss_channels s) (sd_channels data),
     ss_underlying_mints := normalized (sd_underlying_mints data),
     ss_quote_mints := normalized (sd_quote_mints data)\<rparr>"

definition add_mints :: "MintsData \<Rightarrow> SubscriptionSet \<Rightarrow> SubscriptionSet" where
  "add_mints data s = s\<lparr>ss_underlying_mints := set_extend (ss_underlying_mints s) (normalized (md_underlying_mints data)),
     ss_quote_mints := set_extend (ss_quote_mints s) (normalized (md_quote_mints data))\<rparr>"

definition remove_mints :: "MintsData \<Rightarrow> SubscriptionSet \<Rightarrow> SubscriptionSet" where
  "remove_mints data s = s\<lparr>ss_underlying_mints := set_remove (ss_underlying_mints s) (normalized (md_underlying_mints data)),
     ss_quote_mints := set_remove (ss_quote_mints s) (normalized (md_quote_mints data))\<rparr>"

definition add_channels :: "ChannelsData \<Rightarrow> SubscriptionSet \<Rightarrow> SubscriptionSet" where
  "add_channels data s = s\<lparr>ss_channels := set_extend (ss_channels s) (cd_channels data)\<rparr>"

definition remove_channels :: "WsChannel list \<Rightarrow> SubscriptionSet \<Rightarrow> SubscriptionSet" where
  "remove_channels channels s = s\<lparr>ss_channels := set_remove (ss_channels s) channels\<rparr>"

fun apply_change :: "SubscriptionChange \<Rightarrow> SubscriptionSet \<Rightarrow> SubscriptionSet" where
  "apply_change (Subscribe data) s = apply_subscribe data s"
| "apply_change (Unsubscribe data) s = remove_channels (cd_channels data) s"
| "apply_change (AddMints data) s = add_mints data s"
| "apply_change (RemoveMints data) s = remove_mints data s"
| "apply_change (AddChannels data) s = add_channels data s"
| "apply_change (RemoveChannels data) s = remove_channels (cd_channels data) s"

definition from_initial :: "SubscribeData option \<Rightarrow> DesiredSubscriptions" where
  "from_initial initial =
     \<lparr>ds_current = (case initial of None \<Rightarrow> empty_subscriptions | Some data \<Rightarrow> apply_subscribe data empty_subscriptions),
      ds_pending = None\<rparr>"

definition wants_vault_feed :: "DesiredSubscriptions \<Rightarrow> bool" where
  "wants_vault_feed d = (Vaults \<in> set (ss_channels (ds_current d)))"

definition has_pending :: "DesiredSubscriptions \<Rightarrow> bool" where
  "has_pending d = (ds_pending d \<noteq> None)"

definition begin_change :: "SubscriptionChange \<Rightarrow> DesiredSubscriptions \<Rightarrow> DesiredSubscriptions" where
  "begin_change change d = d\<lparr>ds_current := apply_change change (ds_current d),
     ds_pending := Some (change_request_id change, ds_current d)\<rparr>"

definition reject_pending :: "DesiredSubscriptions \<Rightarrow> DesiredSubscriptions" where
  "reject_pending d =
     (case ds_pending d of None \<Rightarrow> d | Some (_, previous) \<Rightarrow> d\<lparr>ds_current := previous, ds_pending := None\<rparr>)"

fun subscription_reply :: "ServerMessage \<Rightarrow> uuid option" where
  "subscription_reply (SubscribeAck r) = Some r"
| "subscription_reply (UnsubscribeAck r) = Some r"
| "subscription_reply (SubscriptionUpdated r) = Some r"
| "subscription_reply (RequestError r _) = Some r"
| "subscription_reply _ = None"

fun is_request_error :: "ServerMessage \<Rightarrow> bool" where
  "is_request_error (RequestError _ _) = True"
| "is_request_error _ = False"

definition resolve :: "ServerMessage \<Rightarrow> DesiredSubscriptions \<Rightarrow> DesiredSubscriptions" where
  "resolve message d =
     (case ds_pending d of None \<Rightarrow> d
      | Some (pending_id, _) \<Rightarrow>
          (case subscription_reply message of None \<Rightarrow> d
           | Some request_id \<Rightarrow>
               if pending_id \<noteq> request_id then d
               else if is_request_error message then reject_pending d
               else d\<lparr>ds_pending := None\<rparr>))"

definition connection_lost :: "DesiredSubscriptions \<Rightarrow> DesiredSubscriptions" where
  "connection_lost d = d\<lparr>ds_pending := None\<rparr>"

definition recovery :: "uuid \<Rightarrow> uuid \<Rightarrow> DesiredSubscriptions \<Rightarrow> SubscriptionsMessage \<Rightarrow> SubscriptionRecovery" where
  "recovery id1 id2 d actual =
     (let extra_channels = filter (\<lambda>c. c \<notin> set (ss_channels (ds_current d))) (sm_channels actual) in
      \<lparr>sr_unsubscribe = (if extra_channels \<noteq> [] then Some \<lparr>cd_request_id = id1, cd_channels = extra_channels\<rparr> else None),
       sr_subscribe = map_option (\<lambda>products. \<lparr>sd_products = products, sd_request_id = id2,
         sd_channels = ss_channels (ds_current d), sd_underlying_mints = ss_underlying_mints (ds_current d),
         sd_quote_mints = ss_quote_mints (ds_current d)\<rparr>) (ss_products (ds_current d))\<rparr>)"

section \<open>Sets as lists\<close>

lemma set_extend_set [simp]: "set (set_extend s xs) = set s \<union> set xs"
  unfolding set_extend_def by (induction xs arbitrary: s) auto

lemma set_remove_set [simp]: "set (set_remove s xs) = set s - set xs"
  unfolding set_remove_def by (induction xs arbitrary: s) auto

lemma set_extend_distinct [simp]: "distinct s \<Longrightarrow> distinct (set_extend s xs)"
  unfolding set_extend_def by (induction xs arbitrary: s) auto

lemma set_remove_distinct [simp]: "distinct s \<Longrightarrow> distinct (set_remove s xs)"
  unfolding set_remove_def by (induction xs arbitrary: s) (auto simp: distinct_removeAll)

lemma normalized_simps [simp]: "set (normalized ms) = set ms" "distinct (normalized ms)"
  by (simp_all add: normalized_def)

definition distinct_subs :: "SubscriptionSet \<Rightarrow> bool" where
  "distinct_subs s \<longleftrightarrow> distinct (ss_channels s) \<and> distinct (ss_underlying_mints s) \<and> distinct (ss_quote_mints s)"

lemma apply_change_distinct: "distinct_subs s \<Longrightarrow> distinct_subs (apply_change c s)"
  by (cases c) (simp_all add: distinct_subs_def apply_subscribe_def add_mints_def remove_mints_def
      add_channels_def remove_channels_def)

lemmas change_defs = begin_change_def resolve_def reject_pending_def connection_lost_def

section \<open>The ledger\<close>

text \<open>
  What the target should be: the changes made, in order, with the one the server rejected taken out.
  The flag says that the last change is still unanswered.
\<close>

datatype subs_event = Begin SubscriptionChange | Receive ServerMessage | Lose

fun subs_step :: "subs_event \<Rightarrow> DesiredSubscriptions \<Rightarrow> DesiredSubscriptions" where
  "subs_step (Begin c) d = begin_change c d"
| "subs_step (Receive m) d = resolve m d"
| "subs_step Lose d = connection_lost d"

text \<open>The session refuses a change while another is unanswered.\<close>

fun subs_allowed :: "subs_event \<Rightarrow> DesiredSubscriptions \<Rightarrow> bool" where
  "subs_allowed (Begin c) d = (\<not> has_pending d)"
| "subs_allowed _ d = True"

fun ledger_step :: "subs_event \<Rightarrow> SubscriptionChange list \<times> bool \<Rightarrow> SubscriptionChange list \<times> bool" where
  "ledger_step (Begin c) (cs, _) = (cs @ [c], True)"
| "ledger_step (Receive m) (cs, unanswered) =
     (if unanswered \<and> subscription_reply m = Some (change_request_id (last cs))
      then (if is_request_error m then butlast cs else cs, False) else (cs, unanswered))"
| "ledger_step Lose (cs, _) = (cs, False)"

definition target :: "SubscriptionSet \<Rightarrow> SubscriptionChange list \<Rightarrow> SubscriptionSet" where
  "target s cs = fold apply_change cs s"

definition follows :: "SubscriptionSet \<Rightarrow> DesiredSubscriptions \<Rightarrow> SubscriptionChange list \<times> bool \<Rightarrow> bool" where
  "follows s d l = (case l of (cs, unanswered) \<Rightarrow> ds_current d = target s cs \<and>
     ds_pending d = (if unanswered then Some (change_request_id (last cs), target s (butlast cs)) else None)
     \<and> (unanswered \<longrightarrow> cs \<noteq> []))"

lemma follows_step:
  assumes "follows s d l" "subs_allowed e d"
  shows "follows s (subs_step e d) (ledger_step e l)"
proof (cases l)
  case (Pair cs unanswered)
  show ?thesis
  proof (cases e)
    case (Begin c)
    with assms Pair show ?thesis by (simp add: follows_def begin_change_def target_def)
  next
    case (Receive m)
    with assms Pair show ?thesis
      by (cases "subscription_reply m") (simp_all add: follows_def resolve_def reject_pending_def)
  next
    case Lose
    with assms Pair show ?thesis by (simp add: follows_def connection_lost_def)
  qed
qed

lemma follows_run:
  "follows s d l \<Longrightarrow> run_ok subs_allowed subs_step es d \<Longrightarrow> follows s (fold subs_step es d) (fold ledger_step es l)"
  by (induction es arbitrary: d l) (auto simp: follows_step)

section \<open>Recovery\<close>

text \<open>The server's state after it has carried out the two messages of a recovery.\<close>

definition recovered :: "SubscriptionRecovery \<Rightarrow> SubscriptionSet \<Rightarrow> SubscriptionSet" where
  "recovered r s =
     (let s' = (case sr_unsubscribe r of None \<Rightarrow> s | Some data \<Rightarrow> apply_change (Unsubscribe data) s) in
      case sr_subscribe r of None \<Rightarrow> s' | Some data \<Rightarrow> apply_change (Subscribe data) s')"

definition same_subs :: "SubscriptionSet \<Rightarrow> SubscriptionSet \<Rightarrow> bool" where
  "same_subs s t \<longleftrightarrow> ss_products s = ss_products t \<and> set (ss_channels s) = set (ss_channels t)
     \<and> set (ss_underlying_mints s) = set (ss_underlying_mints t) \<and> set (ss_quote_mints s) = set (ss_quote_mints t)"

lemma recovery_converges:
  assumes "set (sm_channels actual) = set (ss_channels server)" "ss_products (ds_current d) \<noteq> None"
  shows "same_subs (recovered (recovery id1 id2 d actual) server) (ds_current d)"
proof -
  define u where "u = (case sr_unsubscribe (recovery id1 id2 d actual) of None \<Rightarrow> server
    | Some data \<Rightarrow> apply_change (Unsubscribe data) server)"
  obtain products where p: "ss_products (ds_current d) = Some products" using assms(2) by blast
  have "set (ss_channels u) = set (ss_channels server) \<inter> set (ss_channels (ds_current d))"
    using assms(1) by (auto simp: u_def recovery_def Let_def remove_channels_def filter_empty_conv)
  then have c: "set (ss_channels u) \<union> set (ss_channels (ds_current d)) = set (ss_channels (ds_current d))" by blast
  have "sr_subscribe (recovery id1 id2 d actual) = Some \<lparr>sd_products = products, sd_request_id = id2,
      sd_channels = ss_channels (ds_current d), sd_underlying_mints = ss_underlying_mints (ds_current d),
      sd_quote_mints = ss_quote_mints (ds_current d)\<rparr>"
    by (simp add: recovery_def Let_def p)
  then show ?thesis
    unfolding recovered_def u_def [symmetric] Let_def by (simp add: same_subs_def apply_subscribe_def c p)
qed


definition sample_subscribe :: SubscribeData where
  "sample_subscribe = \<lparr>sd_products = 3, sd_request_id = 1, sd_channels = [Rfqs],
     sd_underlying_mints = [[1]], sd_quote_mints = [[2]]\<rparr>"

definition sample_subs_events :: "subs_event list" where
  "sample_subs_events = [Begin (AddChannels \<lparr>cd_request_id = 5, cd_channels = [Trades]\<rparr>),
     Receive (RequestError 5 ServerShuttingDown),
     Begin (AddMints \<lparr>md_request_id = 6, md_underlying_mints = [[7]], md_quote_mints = []\<rparr>), Lose]"


text \<open>A session that never subscribed has no recovery subscription, whatever channels it added since.\<close>

lemma recovery_without_subscribe:
  assumes "ss_products (ds_current d) = None"
  shows "sr_subscribe (recovery id1 id2 d actual) = None"
  using assms by (simp add: recovery_def Let_def)

end
