(* ===== verification/Writer.thy ===== *)
theory Writer
  imports WsTypes Machines "HOL-Library.Sublist"
begin

text \<open>
  The outbound side of a session: message preparation (\<^verbatim>\<open>ws/managed/outbound.rs\<close>, \<^verbatim>\<open>ws/client.rs\<close>) and the
  writer task with its two bounded lanes (\<^verbatim>\<open>ws/managed/writer.rs\<close>). The JSON encoder is the parameter
  \<open>to_json\<close>; a socket write is an event that succeeds, fails or times out. The lemmas show that each
  lane reaches the socket in the order it was queued, that control frames go first, and that a send is
  reported as written only when its frame is on the wire.
\<close>

section \<open>Preparing a message\<close>

record PreparedClientMessage =
  pm_text :: string
  pm_lane :: Lane
  pm_subscription :: "SubscriptionChange option"

definition prepared_new :: "(ClientMessage \<Rightarrow> string option) \<Rightarrow> ClientMessage \<Rightarrow> PreparedClientMessage option" where
  "prepared_new to_json message =
     map_option (\<lambda>text. \<lparr>pm_text = text, pm_lane = lane message, pm_subscription = from_message message\<rparr>)
       (to_json message)"

fun has_unsupported_buy :: "ClientMessage \<Rightarrow> bool" where
  "has_unsupported_buy (RfqRequest _ side) = is_taker_buy side"
| "has_unsupported_buy _ = False"

fun batch_len :: "ClientMessage \<Rightarrow> nat" where
  "batch_len (BatchQuotes quotes) = length quotes"
| "batch_len _ = 0"

definition prepare_outbound ::
  "(ClientMessage \<Rightarrow> string option) \<Rightarrow> ClientMessage \<Rightarrow> nat \<Rightarrow> nat \<Rightarrow> (OutboundMessageError, PreparedClientMessage) res" where
  "prepare_outbound to_json message max_batch_quotes max_message_size =
     (if has_unsupported_buy message then Err TakerBuyUnsupported
      else if batch_len message > max_batch_quotes then Err (BatchTooLarge (batch_len message) max_batch_quotes)
      else bind_res (ok_or Serialization (prepared_new to_json message)) (\<lambda>prepared.
        if length (pm_text prepared) > max_message_size
        then Err (MessageTooLarge (length (pm_text prepared)) max_message_size) else Ok prepared))"

section \<open>Lanes\<close>

datatype WriterCommand =
    Frame PreparedClientMessage "chan option" "chan option"
  | PongFrame bytes
  | CloseFrame
  | StopWriter

datatype LaneFull = Full | LaneClosed

text \<open>
  The queues between the session and the writer task. \<open>wl_running\<close> is false once the task has ended
  (its receivers are gone), \<open>wl_dropped\<close> is true once the session has dropped its senders.
\<close>

record Lanes =
  wl_control :: "WriterCommand list"
  wl_data :: "WriterCommand list"
  wl_capacity :: nat
  wl_running :: bool
  wl_dropped :: bool

definition queue_of :: "Lane \<Rightarrow> Lanes \<Rightarrow> WriterCommand list" where
  "queue_of l ls = (case l of Control \<Rightarrow> wl_control ls | Data \<Rightarrow> wl_data ls)"

definition enqueue :: "Lanes \<Rightarrow> Lane \<Rightarrow> WriterCommand \<Rightarrow> (LaneFull \<times> WriterCommand, Lanes) res" where
  "enqueue ls l command =
     (if \<not> wl_running ls then Err (LaneClosed, command)
      else if wl_capacity ls \<le> length (queue_of l ls) then Err (Full, command)
      else Ok (case l of Control \<Rightarrow> ls\<lparr>wl_control := wl_control ls @ [command]\<rparr>
                       | Data \<Rightarrow> ls\<lparr>wl_data := wl_data ls @ [command]\<rparr>))"

fun command_done :: "WriterCommand \<Rightarrow> chan option" where
  "command_done (Frame _ d _) = d"
| "command_done _ = None"

definition frame_with_receipt ::
  "Lanes \<Rightarrow> PreparedClientMessage \<Rightarrow> chan option \<Rightarrow> chan option \<Rightarrow> (LaneFull \<times> chan option, Lanes) res" where
  "frame_with_receipt ls message d written =
     map_err (\<lambda>(full, command). (full, command_done command))
       (enqueue ls (pm_lane message) (Frame message d written))"

definition lane_pong :: "Lanes \<Rightarrow> bytes \<Rightarrow> (LaneFull, Lanes) res" where
  "lane_pong ls payload = map_err fst (enqueue ls Control (PongFrame payload))"

section \<open>The writer task\<close>

datatype write_outcome = Wrote | WriteError | WriteExpired

datatype wire_frame = TextFrame string | PongOut bytes | CloseOut

text \<open>
  \<open>wr_wire\<close> is what the socket has taken, tagged with the lane it came from; \<open>wr_done\<close> are the results
  sent on \<^verbatim>\<open>done\<close> channels and \<open>wr_receipts\<close> the channels whose \<^verbatim>\<open>written\<close> receipt was sent.
\<close>

record WriterTask =
  wr_lanes :: Lanes
  wr_wire :: "(Lane \<times> wire_frame) list"
  wr_done :: "(chan \<times> (ManagedWsError, unit) res) list"
  wr_receipts :: "chan list"
  wr_events :: "ManagedWsEvent list"

definition stop_task :: "WriterTask \<Rightarrow> WriterTask" where
  "stop_task w = w\<lparr>wr_lanes := (wr_lanes w)\<lparr>wl_running := False\<rparr>\<rparr>"

definition write_error :: "write_outcome \<Rightarrow> ManagedWsError" where
  "write_error out = (case out of WriteExpired \<Rightarrow> WriteTimeout | _ \<Rightarrow> WriteFailed)"

text \<open>One command carried out: the body of the writer's loop after the receive.\<close>

fun run_command :: "write_outcome \<Rightarrow> Lane \<Rightarrow> WriterCommand \<Rightarrow> WriterTask \<Rightarrow> WriterTask" where
  "run_command out l (Frame m d written) w =
     (if out = Wrote
      then w\<lparr>wr_wire := wr_wire w @ [(l, TextFrame (pm_text m))],
             wr_receipts := wr_receipts w @ (case written of None \<Rightarrow> [] | Some c \<Rightarrow> [c]),
             wr_done := wr_done w @ (case d of None \<Rightarrow> [] | Some c \<Rightarrow> [(c, Ok ())])\<rparr>
      else stop_task (w\<lparr>wr_events := wr_events w @ [EvError Network],
             wr_done := wr_done w @ (case d of None \<Rightarrow> [] | Some c \<Rightarrow> [(c, Err (write_error out))])\<rparr>))"
| "run_command out l (PongFrame payload) w =
     (if out = Wrote then w\<lparr>wr_wire := wr_wire w @ [(l, PongOut payload)]\<rparr>
      else stop_task (w\<lparr>wr_events := wr_events w @ [EvError Network]\<rparr>))"
| "run_command out l CloseFrame w =
     stop_task (if out = Wrote then w\<lparr>wr_wire := wr_wire w @ [(l, CloseOut)]\<rparr> else w)"
| "run_command out l StopWriter w = stop_task w"

text \<open>
  One turn of the loop: the control lane is polled first, then the data lane; with both empty the task
  waits, or ends when the senders are gone.
\<close>

definition writer_turn :: "write_outcome \<Rightarrow> WriterTask \<Rightarrow> WriterTask" where
  "writer_turn out w =
     (let ls = wr_lanes w in
      if \<not> wl_running ls then w
      else case wl_control ls of
          command # rest \<Rightarrow> run_command out Control command (w\<lparr>wr_lanes := ls\<lparr>wl_control := rest\<rparr>\<rparr>)
        | [] \<Rightarrow> (case wl_data ls of
            command # rest \<Rightarrow> run_command out Data command (w\<lparr>wr_lanes := ls\<lparr>wl_data := rest\<rparr>\<rparr>)
          | [] \<Rightarrow> if wl_dropped ls then stop_task w else w))"

text \<open>
  \<^verbatim>\<open>WriterLanes::close\<close> and \<^verbatim>\<open>stop\<close>: queue the last command ahead of the data lane and drop the senders;
  the task is aborted at once when the command does not fit, and otherwise when it overruns the
  write timeout, which is the event \<open>AbortWriter\<close> below.
\<close>

definition finish_lanes :: "WriterCommand \<Rightarrow> WriterTask \<Rightarrow> WriterTask \<times> bool" where
  "finish_lanes command w =
     (case enqueue (wr_lanes w) Control command of
        Ok ls \<Rightarrow> (w\<lparr>wr_lanes := ls\<lparr>wl_dropped := True\<rparr>\<rparr>, True)
      | _ \<Rightarrow> (stop_task (w\<lparr>wr_lanes := (wr_lanes w)\<lparr>wl_dropped := True\<rparr>\<rparr>), False))"

definition writer_spawn :: "nat \<Rightarrow> WriterTask" where
  "writer_spawn capacity =
     \<lparr>wr_lanes = \<lparr>wl_control = [], wl_data = [], wl_capacity = capacity, wl_running = True, wl_dropped = False\<rparr>,
      wr_wire = [], wr_done = [], wr_receipts = [], wr_events = []\<rparr>"

section \<open>Sequences of events\<close>

datatype writer_event = Enqueue Lane WriterCommand | Turn write_outcome | DropLanes | FinishLanes WriterCommand | AbortWriter

text \<open>The task, and the commands each lane accepted so far.\<close>

fun writer_step :: "writer_event \<Rightarrow> WriterTask \<times> (Lane \<times> WriterCommand) list \<Rightarrow> WriterTask \<times> (Lane \<times> WriterCommand) list" where
  "writer_step (Enqueue l c) (w, acc) =
     (case enqueue (wr_lanes w) l c of Ok ls \<Rightarrow> (w\<lparr>wr_lanes := ls\<rparr>, acc @ [(l, c)]) | _ \<Rightarrow> (w, acc))"
| "writer_step (Turn out) (w, acc) = (writer_turn out w, acc)"
| "writer_step DropLanes (w, acc) = (w\<lparr>wr_lanes := (wr_lanes w)\<lparr>wl_dropped := True\<rparr>\<rparr>, acc)"
| "writer_step (FinishLanes c) (w, acc) =
     (case finish_lanes c w of (w', queued) \<Rightarrow> (w', if queued then acc @ [(Control, c)] else acc))"
| "writer_step AbortWriter (w, acc) = (stop_task w, acc)"

definition of_lane :: "Lane \<Rightarrow> (Lane \<times> 'a) list \<Rightarrow> 'a list" where
  "of_lane l xs = map snd (filter (\<lambda>x. fst x = l) xs)"

lemma of_lane_simps [simp]: "of_lane l [] = []" "of_lane l (xs @ ys) = of_lane l xs @ of_lane l ys"
  "of_lane l [(k, x)] = (if k = l then [x] else [])"
  by (simp_all add: of_lane_def)

fun wire_of :: "WriterCommand \<Rightarrow> wire_frame list" where
  "wire_of (Frame m _ _) = [TextFrame (pm_text m)]"
| "wire_of (PongFrame p) = [PongOut p]"
| "wire_of CloseFrame = [CloseOut]"
| "wire_of StopWriter = []"

definition wires :: "WriterCommand list \<Rightarrow> wire_frame list" where
  "wires cs = concat (map wire_of cs)"

lemma wires_simps [simp]: "wires [] = []" "wires (cs @ ds) = wires cs @ wires ds" "wires (c # cs) = wire_of c @ wires cs"
  by (simp_all add: wires_def)

text \<open>
  While the task runs, what a lane has put on the wire followed by what it still holds is what it
  accepted; after it has ended, what is on the wire is a prefix of that.
\<close>

definition lane_fifo :: "WriterTask \<times> (Lane \<times> WriterCommand) list \<Rightarrow> bool" where
  "lane_fifo s = (case s of (w, acc) \<Rightarrow> \<forall>l.
     prefix (of_lane l (wr_wire w)) (wires (of_lane l acc)) \<and>
     (wl_running (wr_lanes w) \<longrightarrow> of_lane l (wr_wire w) @ wires (queue_of l (wr_lanes w)) = wires (of_lane l acc)))"

text \<open>A send reported as written is on the wire, with the text that was queued.\<close>

definition on_wire :: "(Lane \<times> WriterCommand) list \<Rightarrow> WriterTask \<Rightarrow> chan set" where
  "on_wire acc w = {c. \<exists>l m r. (l, Frame m (Some c) r) \<in> set acc \<and> (l, TextFrame (pm_text m)) \<in> set (wr_wire w)}"

definition written_ok :: "WriterTask \<Rightarrow> chan set" where
  "written_ok w = {c. (c, Ok ()) \<in> set (wr_done w)}"

definition writer_sound :: "nat \<Rightarrow> WriterTask \<times> (Lane \<times> WriterCommand) list \<Rightarrow> bool" where
  "writer_sound capacity s = (case s of (w, acc) \<Rightarrow>
     (\<forall>l. set (queue_of l (wr_lanes w)) \<subseteq> set (of_lane l acc) \<and> length (queue_of l (wr_lanes w)) \<le> capacity)
     \<and> wl_capacity (wr_lanes w) = capacity \<and> written_ok w \<subseteq> on_wire acc w)"

section \<open>Order\<close>

lemma enqueue_Ok:
  "enqueue ls l c = Ok ls' \<longleftrightarrow> wl_running ls \<and> length (queue_of l ls) < wl_capacity ls
     \<and> ls' = (case l of Control \<Rightarrow> ls\<lparr>wl_control := wl_control ls @ [c]\<rparr> | Data \<Rightarrow> ls\<lparr>wl_data := wl_data ls @ [c]\<rparr>)"
  by (auto simp: enqueue_def)

lemma enqueue_not_Panic [simp]: "enqueue ls l c \<noteq> Panic"
  by (simp add: enqueue_def)

lemma enqueue_queue:
  assumes "enqueue ls l c = Ok ls'"
  shows "queue_of k ls' = queue_of k ls @ (if k = l then [c] else [])" "wl_running ls'"
  using assms by (auto simp: enqueue_Ok queue_of_def split: Lane.splits)

lemma queue_of_update [simp]: "queue_of l (ls\<lparr>wl_dropped := b\<rparr>) = queue_of l ls" "queue_of l (ls\<lparr>wl_running := b\<rparr>) = queue_of l ls"
  by (simp_all add: queue_of_def split: Lane.split)

lemma lane_fifoI:
  assumes "\<And>l. of_lane l (wr_wire w) @ wires (queue_of l (wr_lanes w)) = wires (of_lane l acc)"
  shows "lane_fifo (w, acc)"
proof -
  have "prefix (of_lane l (wr_wire w)) (wires (of_lane l acc))" for l
    unfolding assms [symmetric] by simp
  with assms show ?thesis by (simp add: lane_fifo_def)
qed

text \<open>The commands a lane accepted, seen as a step from the state before to the state after.\<close>

lemma accept_fifo:
  assumes "lane_fifo (w, acc)" "enqueue (wr_lanes w) l c = Ok ls"
  shows "lane_fifo (w\<lparr>wr_lanes := ls\<rparr>, acc @ [(l, c)])"
proof -
  have r: "wl_running (wr_lanes w)" using assms(2) by (simp add: enqueue_Ok)
  have "of_lane k (wr_wire w) @ wires (queue_of k ls) = wires (of_lane k (acc @ [(l, c)]))" for k
    using assms(1) r unfolding enqueue_queue(1) [OF assms(2)] lane_fifo_def by simp
  then show ?thesis by (intro lane_fifoI) simp
qed

lemma stop_fifo: "lane_fifo (w, acc) \<Longrightarrow> lane_fifo (stop_task w, acc)"
  by (simp add: lane_fifo_def stop_task_def)

lemma drop_fifo: "lane_fifo (w, acc) \<Longrightarrow> lane_fifo (w\<lparr>wr_lanes := (wr_lanes w)\<lparr>wl_dropped := b\<rparr>\<rparr>, acc)"
  by (simp add: lane_fifo_def)

text \<open>Taking the first command of a lane and carrying it out.\<close>

definition taken :: "Lane \<Rightarrow> WriterCommand \<Rightarrow> WriterTask \<Rightarrow> Lanes \<Rightarrow> bool" where
  "taken l c w ls \<longleftrightarrow> wl_running (wr_lanes w) \<and> wl_running ls \<and> wl_capacity ls = wl_capacity (wr_lanes w)
     \<and> (\<forall>k. queue_of k (wr_lanes w) = (if k = l then c # queue_of k ls else queue_of k ls))"

lemma run_command_wire:
  "wr_wire (run_command out l c w) = wr_wire w @ (if out = Wrote then map (Pair l) (wire_of c) else [])"
  by (cases c) (simp_all add: stop_task_def)

lemma run_command_running: "wl_running (wr_lanes (run_command out l c w)) \<Longrightarrow> out = Wrote"
  by (cases c) (simp_all add: stop_task_def split: if_splits)

lemma run_command_queue: "queue_of k (wr_lanes (run_command out l c w)) = queue_of k (wr_lanes w)"
  by (cases c) (simp_all add: stop_task_def)

lemma of_lane_map_Pair [simp]: "of_lane k (map (Pair l) xs) = (if k = l then xs else [])"
  by (auto simp: of_lane_def o_def)

lemma taken_fifo:
  assumes f: "lane_fifo (w, acc)" and t: "taken l c w ls"
  shows "lane_fifo (run_command out l c (w\<lparr>wr_lanes := ls\<rparr>), acc)"
proof -
  let ?w = "run_command out l c (w\<lparr>wr_lanes := ls\<rparr>)"
  have eq: "of_lane k (wr_wire w) @ (if k = l then wire_of c else []) @ wires (queue_of k ls) = wires (of_lane k acc)" for k
    using f t by (auto simp: lane_fifo_def taken_def dest: spec [of _ k])
  have "prefix (of_lane k (wr_wire ?w)) (wires (of_lane k acc))" for k
    unfolding eq [symmetric] by (simp add: run_command_wire)
  moreover have "of_lane k (wr_wire ?w) @ wires (queue_of k (wr_lanes ?w)) = wires (of_lane k acc)"
    if "wl_running (wr_lanes ?w)" for k
    using run_command_running [OF that] eq [of k] by (simp add: run_command_queue run_command_wire)
  ultimately show ?thesis by (simp add: lane_fifo_def)
qed

lemma writer_turn_cases:
  obtains (idle) "writer_turn out w = w" | (stopped) "writer_turn out w = stop_task w"
  | (turn) l c ls where "taken l c w ls" "writer_turn out w = run_command out l c (w\<lparr>wr_lanes := ls\<rparr>)"
      "l = Data \<longrightarrow> queue_of Control (wr_lanes w) = []"
proof (cases "wl_running (wr_lanes w)")
  case False
  then show thesis by (intro idle) (simp add: writer_turn_def)
next
  case True
  show thesis
  proof (cases "wl_control (wr_lanes w)")
    case (Cons c rest)
    with True show thesis
      by (intro turn [of Control c "(wr_lanes w)\<lparr>wl_control := rest\<rparr>"])
        (auto simp: writer_turn_def taken_def queue_of_def Let_def split: Lane.split)
  next
    case Nil
    note n = this
    show thesis
    proof (cases "wl_data (wr_lanes w)")
      case (Cons c rest)
      with True n show thesis
        by (intro turn [of Data c "(wr_lanes w)\<lparr>wl_data := rest\<rparr>"])
          (auto simp: writer_turn_def taken_def queue_of_def Let_def split: Lane.split)
    next
      case Nil
      with True n show thesis using idle stopped by (cases "wl_dropped (wr_lanes w)") (simp_all add: writer_turn_def)
    qed
  qed
qed

lemma writer_step_fifo: "lane_fifo s \<Longrightarrow> lane_fifo (writer_step e s)"
proof (cases s)
  case (Pair w acc)
  assume f: "lane_fifo s"
  show ?thesis
  proof (cases e)
    case (Enqueue l c)
    with f Pair show ?thesis by (cases "enqueue (wr_lanes w) l c") (auto simp: accept_fifo)
  next
    case (Turn out)
    then show ?thesis
      using f Pair by (cases rule: writer_turn_cases [of out w]) (auto simp: stop_fifo taken_fifo)
  next
    case (FinishLanes c)
    with f Pair show ?thesis
      using accept_fifo [THEN drop_fifo] stop_fifo [OF drop_fifo]
      by (cases "enqueue (wr_lanes w) Control c") (auto simp: finish_lanes_def)
  qed (use f Pair in \<open>auto simp: stop_fifo drop_fifo\<close>)
qed

section \<open>Soundness of the results\<close>

lemma set_of_lane: "c \<in> set (of_lane l acc) \<longleftrightarrow> (l, c) \<in> set acc"
  by (force simp: of_lane_def)

lemma on_wire_mono: "set acc \<subseteq> set acc' \<Longrightarrow> set (wr_wire w) \<subseteq> set (wr_wire w') \<Longrightarrow> on_wire acc w \<subseteq> on_wire acc' w'"
  unfolding on_wire_def by blast

lemma accept_sound:
  assumes s: "writer_sound cap (w, acc)" and e: "enqueue (wr_lanes w) l c = Ok ls"
  shows "writer_sound cap (w\<lparr>wr_lanes := ls\<rparr>, acc @ [(l, c)])"
proof -
  have "wl_capacity ls = wl_capacity (wr_lanes w)" using e by (auto simp: enqueue_Ok split: Lane.split)
  moreover have "set (queue_of k ls) \<subseteq> set (of_lane k (acc @ [(l, c)])) \<and> length (queue_of k ls) \<le> cap" for k
    using s e unfolding enqueue_queue(1) [OF e] by (auto simp: writer_sound_def enqueue_Ok dest: spec [of _ k])
  moreover have "written_ok w \<subseteq> on_wire (acc @ [(l, c)]) w"
    using s on_wire_mono [of acc "acc @ [(l, c)]" w w] by (auto simp: writer_sound_def)
  ultimately show ?thesis using s by (simp add: writer_sound_def on_wire_def written_ok_def)
qed

lemma stop_sound: "writer_sound cap (w, acc) \<Longrightarrow> writer_sound cap (stop_task w, acc)"
  by (simp add: writer_sound_def stop_task_def on_wire_def written_ok_def)

lemma drop_sound:
  "writer_sound cap (w, acc) \<Longrightarrow> writer_sound cap (w\<lparr>wr_lanes := (wr_lanes w)\<lparr>wl_dropped := b\<rparr>\<rparr>, acc)"
  by (simp add: writer_sound_def on_wire_def written_ok_def)

lemma run_command_written:
  "written_ok (run_command out l c w) \<subseteq> written_ok w \<union> {d. out = Wrote \<and> (\<exists>m r. c = Frame m (Some d) r)}"
  by (cases c) (auto simp: written_ok_def stop_task_def split: option.splits)

lemma run_command_capacity: "wl_capacity (wr_lanes (run_command out l c w)) = wl_capacity (wr_lanes w)"
  by (cases c) (simp_all add: stop_task_def)

lemma taken_sound:
  assumes s: "writer_sound cap (w, acc)" and t: "taken l c w ls"
  shows "writer_sound cap (run_command out l c (w\<lparr>wr_lanes := ls\<rparr>), acc)"
proof -
  let ?w = "run_command out l c (w\<lparr>wr_lanes := ls\<rparr>)"
  have q: "set (queue_of k ls) \<subseteq> set (of_lane k acc) \<and> length (queue_of k ls) \<le> cap" for k
    using s t by (auto simp: writer_sound_def taken_def split: if_splits dest!: spec [of _ k])
  have "c \<in> set (queue_of l (wr_lanes w))" using t by (simp add: taken_def)
  then have c: "(l, c) \<in> set acc" using s unfolding set_of_lane [symmetric] by (auto simp: writer_sound_def)
  have "d \<in> on_wire acc ?w" if "out = Wrote" "c = Frame m (Some d) r" for d m r
    using that c by (auto simp: on_wire_def)
  moreover have "written_ok w \<subseteq> on_wire acc ?w"
    using s on_wire_mono [of acc acc w ?w] by (auto simp: writer_sound_def run_command_wire)
  ultimately have "written_ok ?w \<subseteq> on_wire acc ?w"
    using run_command_written [of out l c "w\<lparr>wr_lanes := ls\<rparr>"] by (auto simp: written_ok_def)
  with q s t show ?thesis by (simp add: writer_sound_def run_command_queue run_command_capacity taken_def)
qed

lemma writer_step_sound: "writer_sound cap s \<Longrightarrow> writer_sound cap (writer_step e s)"
proof (cases s)
  case (Pair w acc)
  assume f: "writer_sound cap s"
  show ?thesis
  proof (cases e)
    case (Enqueue l c)
    with f Pair show ?thesis by (cases "enqueue (wr_lanes w) l c") (auto simp: accept_sound)
  next
    case (Turn out)
    then show ?thesis
      using f Pair by (cases rule: writer_turn_cases [of out w]) (auto simp: stop_sound taken_sound)
  next
    case (FinishLanes c)
    with f Pair show ?thesis
      using accept_sound [THEN drop_sound] stop_sound [OF drop_sound]
      by (cases "enqueue (wr_lanes w) Control c") (auto simp: finish_lanes_def)
  qed (use f Pair in \<open>auto simp: stop_sound drop_sound\<close>)
qed

interpretation wtr: machine "\<lambda>_ _. True" writer_step "\<lambda>s. lane_fifo s \<and> writer_sound cap s" for cap
  by unfold_locales (simp add: writer_step_fifo writer_step_sound)

lemma run_ok_True [simp]: "run_ok (\<lambda>_ _. True) step es s"
  by (induction es arbitrary: s) auto

lemma spawn_inv: "lane_fifo (writer_spawn cap, []) \<and> writer_sound cap (writer_spawn cap, [])"
  by (auto simp: lane_fifo_def writer_sound_def writer_spawn_def queue_of_def on_wire_def written_ok_def split: Lane.split)

lemma turn_control_first:
  "of_lane Data (wr_wire (writer_turn out w)) = of_lane Data (wr_wire w) \<or> wl_control (wr_lanes w) = []"
  by (cases rule: writer_turn_cases [of out w]) (auto simp: stop_task_def run_command_wire queue_of_def)


end
