(* ===== verification/SessionIo.thy ===== *)
theory SessionIo
  imports Tracker Subscriptions Writer
begin

text \<open>
  The ready phase of a managed session: the control frames that end it (\<^verbatim>\<open>session_control.rs\<close>,
  \<^verbatim>\<open>session.rs\<close>), commands from the handle (\<^verbatim>\<open>session_io.rs\<close>), frames from the server
  (\<^verbatim>\<open>session_message.rs\<close>) and the select loop that drives both (\<^verbatim>\<open>session.rs\<close>, \<^verbatim>\<open>run_session\<close>). What the
  environment decides is an event: a command, a frame, a timer, the end of the writer task.
\<close>

section \<open>Control frames\<close>

datatype ControlFailure = Retry string | ClearCredentials string | Terminate TerminationReason

definition format_detail :: "WsErrorCode \<Rightarrow> string option \<Rightarrow> string" where
  "format_detail code message =
     (case message of Some m \<Rightarrow> code_str code @ '' ('' @ m @ '')'' | None \<Rightarrow> code_str code)"

fun classify_code :: "WsErrorCode \<Rightarrow> string option \<Rightarrow> ControlFailure option" where
  "classify_code SessionReplaced message = Some (Terminate ReplacedSession)"
| "classify_code UnsupportedProtocolVersion message = Some (Terminate UnsupportedVersion)"
| "classify_code VaultSessionInvalidated message = Some (Retry (format_detail VaultSessionInvalidated message))"
| "classify_code SessionExpired message = Some (ClearCredentials (format_detail SessionExpired message))"
| "classify_code (OtherCode s) message = None"
| "classify_code code message = Some (Terminate (AuthenticationRejected (code_str code) message))"

definition classify_auth_error :: "WsErrorCode \<Rightarrow> string \<Rightarrow> ControlFailure" where
  "classify_auth_error code message =
     (case classify_code code (Some message) of
        Some failure \<Rightarrow> failure | None \<Rightarrow> Retry (format_detail code (Some message)))"

fun classify :: "ServerMessage \<Rightarrow> ControlFailure option" where
  "classify (VersionMismatch requested server min_supported) =
     Some (Terminate (ProtocolVersionMismatch requested server min_supported))"
| "classify (AuthError code message) = Some (classify_auth_error code message)"
| "classify (ErrorMsg (Generic code message)) = classify_code code (Some message)"
| "classify (ErrorMsg ServerShuttingDown) = Some (Retry ''server is shutting down'')"
| "classify _ = None"

datatype SessionFailure =
    Retryable string | RejectedByServer string | CredentialsExpired string
  | TerminatedBy TerminationReason | ShutdownRequested

datatype AuthenticatedSessionEnd =
    EndCloseRequested | EndDisconnected | EndCredentialsExpired | EndTerminated TerminationReason

definition from_control :: "ServerMessage \<Rightarrow> SessionFailure option" where
  "from_control message = map_option (\<lambda>failure. case failure of
       Retry detail \<Rightarrow> RejectedByServer detail
     | ClearCredentials detail \<Rightarrow> CredentialsExpired detail
     | Terminate reason \<Rightarrow> TerminatedBy reason) (classify message)"

fun into_session_end :: "SessionFailure \<Rightarrow> AuthenticatedSessionEnd" where
  "into_session_end (CredentialsExpired _) = EndCredentialsExpired"
| "into_session_end (TerminatedBy reason) = EndTerminated reason"
| "into_session_end (Retryable _) = EndDisconnected"
| "into_session_end (RejectedByServer _) = EndDisconnected"
| "into_session_end ShutdownRequested = EndCloseRequested"

fun is_server_rejection :: "SessionFailure \<Rightarrow> bool" where
  "is_server_rejection (RejectedByServer _) = True"
| "is_server_rejection (CredentialsExpired _) = True"
| "is_server_rejection (TerminatedBy _) = True"
| "is_server_rejection _ = False"

section \<open>Configuration and signing\<close>

datatype MakerWsEndpoint = QuoteEndpoint | DataEndpoint | VaultEndpoint

datatype ChallengeSigning = LocalSigner signer | AsyncSigner async_signer

record ManagedWsConfig =
  wc_endpoint :: MakerWsEndpoint
  wc_auth_pubkey :: key
  wc_signing :: ChallengeSigning
  wc_vault_pda :: "key option"
  wc_initial_subscribe :: "SubscribeData option"
  wc_reconnect_delay :: nat
  wc_max_reconnect_delay :: nat
  wc_max_reconnect_attempts :: u64
  wc_command_buffer :: nat
  wc_max_pending_awaits :: nat

definition challenge_sign :: "crypto \<Rightarrow> ChallengeSigning \<Rightarrow> string \<Rightarrow> (SigningError, string) res" where
  "challenge_sign cr signing challenge =
     (case signing of
        LocalSigner s \<Rightarrow> Ok (sign_message_base58 cr s (as_bytes challenge))
      | AsyncSigner s \<Rightarrow> bind_res (sign_verified cr s (as_bytes challenge)) (\<lambda>signature.
          Ok (cr_b58_encode cr signature)))"

definition build_auth_response :: "crypto \<Rightarrow> ManagedWsConfig \<Rightarrow> string \<Rightarrow> (SigningError, ClientMessage) res" where
  "build_auth_response cr config challenge =
     bind_res (case wc_vault_pda config of
         Some vault \<Rightarrow> validate_vault_auth_challenge cr challenge (wc_auth_pubkey config) vault
       | None \<Rightarrow> validate_maker_auth_challenge challenge) (\<lambda>_.
     bind_res (challenge_sign cr (wc_signing config) challenge) (\<lambda>signature.
     Ok (AuthChallenge challenge signature (wc_auth_pubkey config))))"

section \<open>Commands\<close>

datatype ManagedCommand =
    CmdSend PreparedClientMessage "u64 option" chan
  | CmdSendAwait u64 PreparedClientMessage "u64 option" "CorrelationKey list" chan

datatype answer =
    SendResult chan "(ManagedWsError, unit) res"
  | AwaitResult chan "(SendAwaitError, ServerMessage) res"

text \<open>
  The state a ready session works on. \<open>se_answers\<close> are the results sent on oneshot channels,
  \<open>se_inbound\<close> the items published to subscribers (\<open>None\<close> for an unreadable frame).
\<close>

record Session =
  se_writer :: WriterTask
  se_tracker :: AwaitTracker
  se_subs :: DesiredSubscriptions
  se_written :: "chan option"
  se_answers :: "answer list"
  se_events :: "ManagedWsEvent list"
  se_inbound :: "(u64 \<times> ServerMessage option) list"
  se_sequence :: u64

definition answer_with :: "answer \<Rightarrow> Session \<Rightarrow> Session" where
  "answer_with a s = s\<lparr>se_answers := se_answers s @ [a]\<rparr>"

definition send_event :: "ManagedWsEvent \<Rightarrow> Session \<Rightarrow> Session" where
  "send_event e s = s\<lparr>se_events := se_events s @ [e]\<rparr>"

definition put_lanes :: "Lanes \<Rightarrow> Session \<Rightarrow> Session" where
  "put_lanes lanes s = s\<lparr>se_writer := (se_writer s)\<lparr>wr_lanes := lanes\<rparr>\<rparr>"

definition wrong_epoch :: "u64 option \<Rightarrow> u64 \<Rightarrow> bool" where
  "wrong_epoch connection_epoch current_epoch =
     (case connection_epoch of None \<Rightarrow> False | Some epoch \<Rightarrow> epoch \<noteq> current_epoch)"

text \<open>What both kinds of command do once their frame is queued.\<close>

definition note_subscription :: "SubscriptionChange option \<Rightarrow> chan \<Rightarrow> Session \<Rightarrow> Session" where
  "note_subscription subscription receipt s =
     (case subscription of None \<Rightarrow> s
      | Some change \<Rightarrow> s\<lparr>se_subs := begin_change change (se_subs s), se_written := Some receipt\<rparr>)"

definition handle_send ::
  "chan set \<Rightarrow> chan \<Rightarrow> u64 \<Rightarrow> PreparedClientMessage \<Rightarrow> u64 option \<Rightarrow> chan \<Rightarrow> Session \<Rightarrow> Session \<times> AuthenticatedSessionEnd option" where
  "handle_send gone receipt current_epoch message connection_epoch tx s =
     (if tx \<in> gone then (s, None)
      else if wrong_epoch connection_epoch current_epoch then (answer_with (SendResult tx (Err NotReady)) s, None)
      else let subscription = pm_subscription message in
        if subscription \<noteq> None \<and> has_pending (se_subs s)
        then (answer_with (SendResult tx (Err SubscriptionPending)) s, None)
        else case frame_with_receipt (wr_lanes (se_writer s)) (message\<lparr>pm_subscription := None\<rparr>) (Some tx)
               (if subscription = None then None else Some receipt) of
            Ok lanes \<Rightarrow> (note_subscription subscription receipt (put_lanes lanes s), None)
          | Err (Full, d) \<Rightarrow> ((case d of Some c \<Rightarrow> answer_with (SendResult c (Err QueueFull)) s | None \<Rightarrow> s), None)
          | Err (LaneClosed, d) \<Rightarrow>
              ((case d of Some c \<Rightarrow> answer_with (SendResult c (Err Disconnected)) s | None \<Rightarrow> s), Some EndDisconnected)
          | Panic \<Rightarrow> (s, None))"

definition handle_send_await ::
  "chan set \<Rightarrow> chan \<Rightarrow> u64 \<Rightarrow> u64 \<Rightarrow> PreparedClientMessage \<Rightarrow> u64 option \<Rightarrow> CorrelationKey list \<Rightarrow> chan \<Rightarrow> Session
     \<Rightarrow> Session \<times> AuthenticatedSessionEnd option" where
  "handle_send_await gone receipt current_epoch await_id message connection_epoch registration tx s =
     (if tx \<in> gone then (s, None)
      else if wrong_epoch connection_epoch current_epoch then (answer_with (AwaitResult tx (Err AwaitNotReady)) s, None)
      else let subscription = pm_subscription message in
        if subscription \<noteq> None \<and> has_pending (se_subs s)
        then (answer_with (AwaitResult tx (Err AwaitSubscriptionPending)) s, None)
        else case register gone (se_tracker s) await_id registration tx of
            (t, Some (err, c)) \<Rightarrow> (answer_with (AwaitResult c (Err err)) (s\<lparr>se_tracker := t\<rparr>), None)
          | (t, None) \<Rightarrow>
              let s = s\<lparr>se_tracker := t\<rparr> in
              case frame_with_receipt (wr_lanes (se_writer s)) (message\<lparr>pm_subscription := None\<rparr>) None
                     (if subscription = None then None else Some receipt) of
                Ok lanes \<Rightarrow> (note_subscription subscription receipt (put_lanes lanes s), None)
              | Err (full, _) \<Rightarrow>
                  let (t', sender) = cancel t await_id;
                      reason = (case full of Full \<Rightarrow> AwaitQueueFull | LaneClosed \<Rightarrow> AwaitDisconnected);
                      s' = s\<lparr>se_tracker := t'\<rparr> in
                  ((case sender of Some c \<Rightarrow> answer_with (AwaitResult c (Err reason)) s' | None \<Rightarrow> s'),
                   (case full of Full \<Rightarrow> None | LaneClosed \<Rightarrow> Some EndDisconnected))
              | Panic \<Rightarrow> (s, None))"

definition handle_command ::
  "chan set \<Rightarrow> chan \<Rightarrow> u64 \<Rightarrow> ManagedCommand option \<Rightarrow> Session \<Rightarrow> Session \<times> AuthenticatedSessionEnd option" where
  "handle_command gone receipt current_epoch maybe_cmd s =
     (case maybe_cmd of
        None \<Rightarrow> (s, Some EndCloseRequested)
      | Some (CmdSend message connection_epoch tx) \<Rightarrow>
          handle_send gone receipt current_epoch message connection_epoch tx s
      | Some (CmdSendAwait await_id message connection_epoch registration tx) \<Rightarrow>
          handle_send_await gone receipt current_epoch await_id message connection_epoch registration tx s)"

section \<open>Frames\<close>

definition publish :: "ServerMessage option \<Rightarrow> Session \<Rightarrow> Session" where
  "publish item s = s\<lparr>se_sequence := se_sequence s + 1, se_inbound := se_inbound s @ [(se_sequence s + 1, item)]\<rparr>"

text \<open>How the signing of an in-session challenge ends: in time, too late, or overtaken by a shutdown.\<close>

datatype signing_race = SignedInTime | SigningTimedOut | ShutdownWins

definition queue_auth_response ::
  "crypto \<Rightarrow> (ClientMessage \<Rightarrow> string option) \<Rightarrow> ManagedWsConfig \<Rightarrow> signing_race \<Rightarrow> string \<Rightarrow> Session
     \<Rightarrow> (SessionFailure, Session) res" where
  "queue_auth_response cr to_json config race challenge s =
     (case race of
        ShutdownWins \<Rightarrow> Err ShutdownRequested
      | SigningTimedOut \<Rightarrow> Err (Retryable ''challenge signing timed out'')
      | SignedInTime \<Rightarrow>
          bind_res (map_err (\<lambda>_. Retryable ''challenge signer failed'') (build_auth_response cr config challenge)) (\<lambda>auth.
          bind_res (ok_or (Retryable ''json error'') (prepared_new to_json auth)) (\<lambda>frame.
          bind_res (map_err (\<lambda>_. Retryable ''auth response could not be queued'')
            (frame_with_receipt (wr_lanes (se_writer s)) frame None None)) (\<lambda>lanes.
          Ok (put_lanes lanes s)))))"

definition handle_session_message ::
  "crypto \<Rightarrow> (ClientMessage \<Rightarrow> string option) \<Rightarrow> ManagedWsConfig \<Rightarrow> signing_race \<Rightarrow> ServerMessage \<Rightarrow> Session
     \<Rightarrow> (SessionFailure, Session) res" where
  "handle_session_message cr to_json config race message s =
     bind_res (case message of
         AuthRequest challenge \<Rightarrow> queue_auth_response cr to_json config race challenge s
       | AuthSuccess _ \<Rightarrow> Ok (send_event EvAuthenticated s)
       | _ \<Rightarrow> Ok s) (\<lambda>s.
     case from_control message of Some failure \<Rightarrow> Err failure | None \<Rightarrow> Ok s)"

datatype ws_read = RdPing bytes | RdPong | RdMessage ServerMessage | RdUnreadable "uuid option" | RdError | RdEnd

text \<open>How a step of the loop leaves the session: running, ended (and whether the server rejected it), or panicked.\<close>

datatype outcome = Running | Ended AuthenticatedSessionEnd bool | Panicked

definition deliver :: "AwaitTracker \<times> chan option \<Rightarrow> (SendAwaitError, ServerMessage) res \<Rightarrow> Session \<Rightarrow> Session" where
  "deliver taken_from r s =
     (case taken_from of (t, sender) \<Rightarrow>
        (case sender of None \<Rightarrow> s\<lparr>se_tracker := t\<rparr> | Some c \<Rightarrow> answer_with (AwaitResult c r) (s\<lparr>se_tracker := t\<rparr>)))"

definition handle_message ::
  "crypto \<Rightarrow> (ClientMessage \<Rightarrow> string option) \<Rightarrow> ManagedWsConfig \<Rightarrow> signing_race \<Rightarrow> ServerMessage \<Rightarrow> Session
     \<Rightarrow> Session \<times> outcome" where
  "handle_message cr to_json config race message s =
     (let s1 = publish (Some message) s;
          s2 = deliver (take_for_message (se_tracker s1) message) (Ok message) s1 in
      case handle_session_message cr to_json config race message s2 of
        Ok s3 \<Rightarrow> (s3, Running)
      | Err error \<Rightarrow>
          ((if error = ShutdownRequested then s2
            else send_event (EvError (if is_server_rejection error then Server else Network)) s2),
           Ended (into_session_end error) (is_server_rejection error))
      | Panic \<Rightarrow> (s2, Panicked))"

definition handle_unreadable :: "uuid option \<Rightarrow> Session \<Rightarrow> Session" where
  "handle_unreadable request_id s =
     send_event EvUnreadableFrame (publish None
       (case request_id of None \<Rightarrow> s
        | Some r \<Rightarrow> deliver (take_for_request (se_tracker s) r) (Err UnreadableResponse) s))"

section \<open>The select loop\<close>

record Ready =
  rd_session :: Session
  rd_pong_deadline :: "nat option"
  rd_sub_deadline :: "nat option"
  rd_ping_written :: "chan option"

text \<open>What the loop is given: the configuration, the epoch of the connection and the prepared ping.\<close>

record LoopEnv =
  le_crypto :: crypto
  le_json :: "ClientMessage \<Rightarrow> string option"
  le_config :: ManagedWsConfig
  le_readiness_timeout :: nat
  le_pong_timeout :: nat
  le_epoch :: u64
  le_ping :: PreparedClientMessage

datatype loop_event =
    OnShutdown
  | OnGap
  | OnWriterTurn write_outcome
  | OnWriterEnded
  | OnCommand "chan set" chan "ManagedCommand option"
  | OnReceipt "nat option"
  | OnSubscriptionDeadline
  | OnCancel "u64 option"
  | OnPingTick chan
  | OnPingWritten bool nat
  | OnPongDeadline
  | OnRead signing_race ws_read

text \<open>The arms that are only polled under a condition, and what the writer task can report.\<close>

fun loop_enabled :: "loop_event \<Rightarrow> Ready \<Rightarrow> bool" where
  "loop_enabled OnWriterEnded s = (\<not> wl_running (wr_lanes (se_writer (rd_session s))))"
| "loop_enabled (OnReceipt written) s =
     (case se_written (rd_session s) of None \<Rightarrow> False
      | Some c \<Rightarrow> written = None \<or> c \<in> set (wr_receipts (se_writer (rd_session s))))"
| "loop_enabled OnSubscriptionDeadline s = (rd_sub_deadline s \<noteq> None)"
| "loop_enabled (OnPingTick _) s = (rd_pong_deadline s = None \<and> rd_ping_written s = None)"
| "loop_enabled (OnPingWritten ok _) s =
     (case rd_ping_written s of None \<Rightarrow> False | Some c \<Rightarrow> \<not> ok \<or> c \<in> written_ok (se_writer (rd_session s)))"
| "loop_enabled OnPongDeadline s = (rd_pong_deadline s \<noteq> None)"
| "loop_enabled _ s = True"

definition on_session :: "(Session \<Rightarrow> Session) \<Rightarrow> Ready \<Rightarrow> Ready" where
  "on_session f s = s\<lparr>rd_session := f (rd_session s)\<rparr>"

definition note_message :: "ServerMessage \<Rightarrow> Ready \<Rightarrow> Ready" where
  "note_message message s =
     (let subs = resolve message (se_subs (rd_session s)) in
      s\<lparr>rd_session := (rd_session s)\<lparr>se_subs := subs\<rparr>,
        rd_sub_deadline := (if has_pending subs then rd_sub_deadline s else None),
        rd_pong_deadline := (if message = Pong then None else rd_pong_deadline s)\<rparr>)"

definition on_read :: "LoopEnv \<Rightarrow> signing_race \<Rightarrow> ws_read \<Rightarrow> Ready \<Rightarrow> Ready \<times> outcome" where
  "on_read env race frame s =
     (case frame of
        RdPing payload \<Rightarrow>
          (case lane_pong (wr_lanes (se_writer (rd_session s))) payload of
             Ok lanes \<Rightarrow> (on_session (put_lanes lanes) s, Running)
           | Err LaneClosed \<Rightarrow> (s, Ended EndDisconnected False)
           | _ \<Rightarrow> (s, Running))
      | RdPong \<Rightarrow> (s, Running)
      | RdMessage message \<Rightarrow>
          (case handle_message (le_crypto env) (le_json env) (le_config env) race message
                  (rd_session (note_message message s)) of
             (b, out) \<Rightarrow> ((note_message message s)\<lparr>rd_session := b\<rparr>, out))
      | RdUnreadable request_id \<Rightarrow> (on_session (handle_unreadable request_id) s, Running)
      | RdError \<Rightarrow> (on_session (send_event (EvError Network)) s, Ended EndDisconnected False)
      | RdEnd \<Rightarrow> (s, Ended EndDisconnected False))"

definition on_ping_tick :: "LoopEnv \<Rightarrow> chan \<Rightarrow> Ready \<Rightarrow> Ready \<times> outcome" where
  "on_ping_tick env ticket s =
     (case frame_with_receipt (wr_lanes (se_writer (rd_session s))) (le_ping env) (Some ticket) None of
        Ok lanes \<Rightarrow> ((on_session (put_lanes lanes) s)\<lparr>rd_ping_written := Some ticket\<rparr>, Running)
      | Err (LaneClosed, _) \<Rightarrow> (s, Ended EndDisconnected False)
      | _ \<Rightarrow> (s, Running))"

definition on_command :: "LoopEnv \<Rightarrow> chan set \<Rightarrow> chan \<Rightarrow> ManagedCommand option \<Rightarrow> Ready \<Rightarrow> Ready \<times> outcome" where
  "on_command env gone receipt maybe_cmd s =
     (case handle_command gone receipt (le_epoch env) maybe_cmd (rd_session s) of
        (b, None) \<Rightarrow> (s\<lparr>rd_session := b\<rparr>, Running)
      | (b, Some e) \<Rightarrow> (s\<lparr>rd_session := b\<rparr>, Ended e False))"

definition on_receipt :: "LoopEnv \<Rightarrow> nat option \<Rightarrow> Ready \<Rightarrow> Ready \<times> outcome" where
  "on_receipt env written s0 =
     (let s = s0\<lparr>rd_session := (rd_session s0)\<lparr>se_written := None\<rparr>\<rparr> in
      case written of
        None \<Rightarrow> (s, Ended EndDisconnected False)
      | Some written_at \<Rightarrow>
          (if has_pending (se_subs (rd_session s)) then s\<lparr>rd_sub_deadline := Some (written_at + le_readiness_timeout env)\<rparr>
           else s, Running))"

fun loop_step :: "LoopEnv \<Rightarrow> loop_event \<Rightarrow> Ready \<Rightarrow> Ready \<times> outcome" where
  "loop_step env OnShutdown s = (s, Ended EndCloseRequested False)"
| "loop_step env OnGap s = (on_session (send_event (EvError Network)) s, Ended EndDisconnected False)"
| "loop_step env (OnWriterTurn out) s = (on_session (\<lambda>b. b\<lparr>se_writer := writer_turn out (se_writer b)\<rparr>) s, Running)"
| "loop_step env OnWriterEnded s = (s, Ended EndDisconnected False)"
| "loop_step env (OnCommand gone receipt maybe_cmd) s = on_command env gone receipt maybe_cmd s"
| "loop_step env (OnReceipt written) s = on_receipt env written s"
| "loop_step env OnSubscriptionDeadline s = (on_session (send_event (EvError Server)) s, Ended EndDisconnected False)"
| "loop_step env (OnCancel None) s = (s, Ended EndCloseRequested False)"
| "loop_step env (OnCancel (Some i)) s = (on_session (\<lambda>b. b\<lparr>se_tracker := fst (cancel (se_tracker b) i)\<rparr>) s, Running)"
| "loop_step env (OnPingTick ticket) s = on_ping_tick env ticket s"
| "loop_step env (OnPingWritten written now) s =
     (s\<lparr>rd_ping_written := None,
        rd_pong_deadline := (if written then Some (now + le_pong_timeout env) else rd_pong_deadline s)\<rparr>, Running)"
| "loop_step env OnPongDeadline s = (on_session (send_event (EvError Network)) s, Ended EndDisconnected False)"
| "loop_step env (OnRead race frame) s = on_read env race frame s"

text \<open>
  The loop from a sequence of events: it stops at the event that ends it. After it, the tracker is drained
  (at once when the server rejected the session, by the caller otherwise), so every open request hears
  of the disconnect.
\<close>

fun run_loop :: "LoopEnv \<Rightarrow> loop_event list \<Rightarrow> Ready \<Rightarrow> Ready \<times> outcome" where
  "run_loop env [] s = (s, Running)"
| "run_loop env (e # es) s =
     (case loop_step env e s of (s', Running) \<Rightarrow> run_loop env es s' | (s', out) \<Rightarrow> (s', out))"

definition drain_session :: "Session \<Rightarrow> Session" where
  "drain_session b =
     (case drain_all (se_tracker b) of (t, chans) \<Rightarrow>
        b\<lparr>se_tracker := t, se_answers := se_answers b @ map (\<lambda>c. AwaitResult c (Err AwaitDisconnected)) chans\<rparr>)"

end
