(* ===== verification/Managed.thy ===== *)
theory Managed
  imports SessionIo
begin

text \<open>
  The outer loop of a managed connection: the reconnect back-off (\<^verbatim>\<open>ws/reconnect.rs\<close>), the window between
  two attempts (\<^verbatim>\<open>reconnect_window.rs\<close>), the phases of one session and the loop around them
  (\<^verbatim>\<open>session.rs\<close>, \<^verbatim>\<open>run_session\<close> and \<^verbatim>\<open>run_managed_ws\<close>). What the network and the server do to an
  attempt is its script; durations are nanoseconds and the random jitter is a parameter. The lemmas
  bound the back-off, show that the loop ends when a reconnect limit is set, and fix the shape of the
  lifecycle events.
\<close>

section \<open>Back-off\<close>

text \<open>The largest \<^verbatim>\<open>std::time::Duration\<close>, where \<^verbatim>\<open>saturating_mul\<close> stops.\<close>

definition DURATION_MAX :: nat where
  "DURATION_MAX = (2 ^ 64 - 1) * 10 ^ 9 + 999999999"

record ReconnectBackoff =
  bo_initial :: nat
  bo_current :: nat
  bo_maximum :: nat
  bo_attempts :: u64

definition backoff_new :: "nat \<Rightarrow> nat \<Rightarrow> ReconnectBackoff" where
  "backoff_new initial maximum = \<lparr>bo_initial = initial, bo_current = initial, bo_maximum = maximum, bo_attempts = 0\<rparr>"

definition limit_reached :: "ReconnectBackoff \<Rightarrow> u64 \<Rightarrow> bool" where
  "limit_reached b maximum_attempts \<longleftrightarrow> maximum_attempts > 0 \<and> bo_attempts b \<ge> maximum_attempts"

definition next_reconnect_delay :: "nat \<Rightarrow> nat \<Rightarrow> nat" where
  "next_reconnect_delay current maximum =
     (let doubled = min (current * 2) DURATION_MAX in if doubled > maximum then maximum else doubled)"

definition next_attempt :: "ReconnectBackoff \<Rightarrow> ReconnectBackoff \<times> u64 \<times> nat" where
  "next_attempt b =
     (let attempts = (if bo_attempts b = - 1 then - 1 else bo_attempts b + 1);
          delay = bo_current b in
      (b\<lparr>bo_attempts := attempts, bo_current := next_reconnect_delay (bo_current b) (bo_maximum b)\<rparr>, attempts, delay))"

definition backoff_reset :: "ReconnectBackoff \<Rightarrow> ReconnectBackoff" where
  "backoff_reset b = b\<lparr>bo_current := bo_initial b, bo_attempts := 0\<rparr>"

definition reset_after_stable_session :: "nat \<Rightarrow> ReconnectBackoff \<Rightarrow> ReconnectBackoff" where
  "reset_after_stable_session authenticated_for b =
     (if authenticated_for < bo_maximum b then b else backoff_reset b)"

section \<open>The reconnect window\<close>

datatype window_event =
    WinShutdown | WinElapsed | WinCancel "u64 option" | WinCommand "ManagedCommand option"

fun disconnected_answer :: "ManagedCommand \<Rightarrow> answer" where
  "disconnected_answer (CmdSend _ _ tx) = SendResult tx (Err Disconnected)"
| "disconnected_answer (CmdSendAwait _ _ _ _ tx) = AwaitResult tx (Err AwaitDisconnected)"

text \<open>
  The answers given while waiting, and how the window ends: \<open>Some True\<close> for a shutdown or a dropped
  handle, \<open>Some False\<close> when the delay has passed, \<open>None\<close> while it is still open.
\<close>

fun wait_reconnect_window :: "window_event list \<Rightarrow> answer list \<times> bool option" where
  "wait_reconnect_window [] = ([], None)"
| "wait_reconnect_window (WinShutdown # _) = ([], Some True)"
| "wait_reconnect_window (WinElapsed # _) = ([], Some False)"
| "wait_reconnect_window (WinCancel None # _) = ([], Some True)"
| "wait_reconnect_window (WinCancel (Some _) # es) = wait_reconnect_window es"
| "wait_reconnect_window (WinCommand None # _) = ([], Some True)"
| "wait_reconnect_window (WinCommand (Some cmd) # es) =
     (case wait_reconnect_window es of (as, r) \<Rightarrow> (disconnected_answer cmd # as, r))"

section \<open>One session\<close>

datatype SessionEnd =
    SeCloseRequested
  | SeAuthenticationFailed
  | SeTerminated TerminationReason
  | SeDisconnected nat bool

fun finish :: "AuthenticatedSessionEnd \<Rightarrow> nat \<Rightarrow> SessionEnd" where
  "finish EndCloseRequested elapsed = SeCloseRequested"
| "finish EndDisconnected elapsed = SeDisconnected elapsed False"
| "finish EndCredentialsExpired elapsed = SeDisconnected elapsed True"
| "finish (EndTerminated reason) elapsed = SeTerminated reason"

datatype AuthenticationError =
    Transport | AuthRejected string | AuthTerminated TerminationReason | SignerError SigningError

fun termination_reason :: "AuthenticationError \<Rightarrow> TerminationReason option" where
  "termination_reason (AuthTerminated reason) = Some reason"
| "termination_reason _ = None"

datatype 'a Phase = PhaseShutdown | PhaseTimedOut | PhaseDone 'a

text \<open>
  How the phases of one session go: authentication (with the resume id it leaves), readiness and, once
  ready, the events of the select loop together with the time since authentication.
\<close>

record SessionScript =
  sc_auth :: "(AuthenticationError, VaultAuthSuccessData option) res Phase"
  sc_resume :: "string option"
  sc_ready :: "(SessionFailure, unit) res Phase"
  sc_loop :: "loop_event list"
  sc_elapsed :: nat

record ManagedEnv =
  me_crypto :: crypto
  me_json :: "ClientMessage \<Rightarrow> string option"
  me_config :: ManagedWsConfig
  me_readiness_timeout :: nat
  me_pong_timeout :: nat
  me_jitter :: "nat \<Rightarrow> nat"

text \<open>
  The state of the outer loop. \<open>me_jitter\<close> gives the milliseconds actually waited for a base delay.
\<close>

record Managed =
  mg_backoff :: ReconnectBackoff
  mg_epoch :: u64
  mg_resume :: "string option"
  mg_strikes :: u32
  mg_rejection :: "TerminationReason option"
  mg_open :: bool
  mg_grant :: "VaultAuthSuccessData option"
  mg_state :: ManagedWsState
  mg_events :: "ManagedWsEvent list"
  mg_tracker :: AwaitTracker
  mg_subs :: DesiredSubscriptions
  mg_answers :: "answer list"

definition transition_state :: "ManagedWsState \<Rightarrow> ManagedWsEvent \<Rightarrow> Managed \<Rightarrow> Managed" where
  "transition_state st e m = m\<lparr>mg_state := st, mg_events := mg_events m @ [e]\<rparr>"

definition emit :: "ManagedWsEvent \<Rightarrow> Managed \<Rightarrow> Managed" where
  "emit e m = m\<lparr>mg_events := mg_events m @ [e]\<rparr>"

definition terminate :: "TerminationReason \<Rightarrow> Managed \<Rightarrow> Managed" where
  "terminate reason m = transition_state (StClosed reason) (EvTerminated reason) m"

definition connection_ended :: "Managed \<Rightarrow> Managed" where
  "connection_ended m = (if \<not> mg_open m then m else emit EvDisconnected (m\<lparr>mg_open := False\<rparr>))"

text \<open>
  The ready phase: the writer task is started, the loop runs over its events, and what it changed comes
  back. A session that is still running has no end yet. A panic is caught by the task around the loop,
  which reports it as the termination reason \<open>SessionPanicked\<close>.
\<close>

definition ready_phase :: "ManagedEnv \<Rightarrow> SessionScript \<Rightarrow> Managed \<Rightarrow> Managed \<times> SessionEnd option" where
  "ready_phase env sc m =
     (case prepared_new (me_json env) Ping of
        None \<Rightarrow> (emit (EvError Server) m, Some (finish EndDisconnected (sc_elapsed sc)))
      | Some ping \<Rightarrow>
          (let lenv = \<lparr>le_crypto = me_crypto env, le_json = me_json env, le_config = me_config env,
                 le_readiness_timeout = me_readiness_timeout env, le_pong_timeout = me_pong_timeout env,
                 le_epoch = mg_epoch m, le_ping = ping\<rparr>;
               s = \<lparr>rd_session = \<lparr>se_writer = writer_spawn (wc_command_buffer (me_config env)), se_tracker = mg_tracker m,
                      se_subs = mg_subs m, se_written = None, se_answers = [], se_events = [], se_inbound = [],
                      se_sequence = 0\<rparr>,
                    rd_pong_deadline = None, rd_sub_deadline = None, rd_ping_written = None\<rparr> in
           case run_loop lenv (sc_loop sc) s of (s', out) \<Rightarrow>
             let b = rd_session s';
                 m1 = m\<lparr>mg_tracker := se_tracker b, mg_subs := se_subs b, mg_answers := mg_answers m @ se_answers b,
                        mg_events := mg_events m @ se_events b\<rparr> in
             (case out of
                Running \<Rightarrow> (m1, None)
              | Ended e rejected \<Rightarrow>
                  (m1\<lparr>mg_state := StConnected (mg_epoch m), mg_grant := None\<rparr>, Some (finish e (sc_elapsed sc)))
              | Panicked \<Rightarrow> (m1, Some (SeTerminated SessionPanicked)))))"

definition readiness_phase :: "ManagedEnv \<Rightarrow> SessionScript \<Rightarrow> Managed \<Rightarrow> Managed \<times> SessionEnd option" where
  "readiness_phase env sc m =
     (case sc_ready sc of
        PhaseShutdown \<Rightarrow> (m, Some SeCloseRequested)
      | PhaseTimedOut \<Rightarrow> (emit (EvError Readiness) m, Some (finish EndDisconnected (sc_elapsed sc)))
      | PhaseDone (Err err) \<Rightarrow> (emit (EvError Readiness) m, Some (finish (into_session_end err) (sc_elapsed sc)))
      | PhaseDone Panic \<Rightarrow> (m, Some (SeTerminated SessionPanicked))
      | PhaseDone (Ok _) \<Rightarrow>
          ready_phase env sc (transition_state (StReady (mg_epoch m)) EvReady
            (transition_state (StReconciled (mg_epoch m)) EvReconciled m)))"

definition run_session :: "ManagedEnv \<Rightarrow> SessionScript \<Rightarrow> Managed \<Rightarrow> Managed \<times> SessionEnd option" where
  "run_session env sc m0 =
     (let m = m0\<lparr>mg_resume := sc_resume sc\<rparr> in
      case sc_auth sc of
        PhaseShutdown \<Rightarrow> (m, Some SeCloseRequested)
      | PhaseTimedOut \<Rightarrow> (emit (EvError Auth) m, Some SeAuthenticationFailed)
      | PhaseDone (Err err) \<Rightarrow>
          (emit (EvError Auth) m,
           Some (case termination_reason err of Some reason \<Rightarrow> SeTerminated reason | None \<Rightarrow> SeAuthenticationFailed))
      | PhaseDone Panic \<Rightarrow> (m, Some (SeTerminated SessionPanicked))
      | PhaseDone (Ok vault) \<Rightarrow>
          readiness_phase env sc (transition_state (StAuthenticated (mg_epoch m)) EvAuthenticated
            (if vault \<noteq> None then m\<lparr>mg_grant := vault\<rparr> else m)))"

section \<open>The outer loop\<close>

definition INVALID_SIGNATURE_STRIKE_LIMIT :: u32 where
  "INVALID_SIGNATURE_STRIKE_LIMIT = 3"

datatype attempt = ConnectShutdown | ConnectFailed | ConnectOk SessionScript

fun is_strike :: "TerminationReason \<Rightarrow> bool" where
  "is_strike (AuthenticationRejected reason _) = (reason = ''invalid_signature'')"
| "is_strike _ = False"

text \<open>What happens to the shared state when a session has ended, before its end is looked at.\<close>

definition after_session :: "Managed \<Rightarrow> Managed" where
  "after_session m =
     (case drain_all (mg_tracker m) of (t, chans) \<Rightarrow>
        connection_ended (m\<lparr>mg_grant := None, mg_tracker := t,
          mg_answers := mg_answers m @ map (\<lambda>c. AwaitResult c (Err AwaitDisconnected)) chans,
          mg_subs := connection_lost (mg_subs m)\<rparr>))"

text \<open>The match on the end of a session; true when the loop goes on to reconnect.\<close>

definition settle_end :: "SessionEnd \<Rightarrow> Managed \<Rightarrow> Managed \<times> bool" where
  "settle_end e m =
     (case e of
        SeCloseRequested \<Rightarrow> (terminate Requested m, False)
      | SeAuthenticationFailed \<Rightarrow> (m, True)
      | SeTerminated reason \<Rightarrow>
          (let m1 = (if is_strike reason then m\<lparr>mg_strikes := mg_strikes m + 1\<rparr> else m) in
           if is_strike reason \<and> mg_strikes m1 < INVALID_SIGNATURE_STRIKE_LIMIT
           then (emit (EvError Auth) (m1\<lparr>mg_rejection := Some reason\<rparr>), True)
           else (terminate reason m1, False))
      | SeDisconnected authenticated_for clear_resume \<Rightarrow>
          (m\<lparr>mg_strikes := 0, mg_rejection := None,
             mg_resume := (if clear_resume then None else mg_resume m),
             mg_backoff := reset_after_stable_session authenticated_for (mg_backoff m)\<rparr>, True))"

text \<open>One connection attempt; \<open>None\<close> while the session of this attempt is still running.\<close>

definition run_attempt :: "ManagedEnv \<Rightarrow> attempt \<Rightarrow> Managed \<Rightarrow> Managed \<times> bool option" where
  "run_attempt env a m =
     (case a of
        ConnectShutdown \<Rightarrow> (terminate Requested m, Some False)
      | ConnectFailed \<Rightarrow> (emit (EvError Network) m, Some True)
      | ConnectOk sc \<Rightarrow>
          (let m1 = m\<lparr>mg_epoch := mg_epoch m + 1\<rparr>;
               m2 = (transition_state (StConnected (mg_epoch m1)) EvConnected m1)\<lparr>mg_open := True\<rparr> in
           case run_session env sc m2 of
             (m3, None) \<Rightarrow> (m3, None)
           | (m3, Some e) \<Rightarrow> (case settle_end e (after_session m3) of (m4, go) \<Rightarrow> (m4, Some go))))"

text \<open>The reconnect limit, checked after every attempt that goes on.\<close>

definition check_limit :: "ManagedEnv \<Rightarrow> Managed \<Rightarrow> Managed \<times> bool" where
  "check_limit env m =
     (if limit_reached (mg_backoff m) (wc_max_reconnect_attempts (me_config env))
      then (let m1 = emit (EvError Network) m;
                reason = (case mg_rejection m1 of Some rejection \<Rightarrow> rejection
                          | None \<Rightarrow> ReconnectLimitReached (wc_max_reconnect_attempts (me_config env))) in
            (terminate reason (m1\<lparr>mg_rejection := None\<rparr>), False))
      else (m, True))"

definition open_window :: "ManagedEnv \<Rightarrow> window_event list \<Rightarrow> Managed \<Rightarrow> Managed \<times> bool option" where
  "open_window env es m =
     (case next_attempt (mg_backoff m) of (b, n, base_delay) \<Rightarrow>
        let delay = me_jitter env base_delay;
            m1 = transition_state (StReconnecting n delay) (EvReconnecting n delay) (m\<lparr>mg_backoff := b\<rparr>) in
        case wait_reconnect_window es of (as, r) \<Rightarrow>
          (m1\<lparr>mg_answers := mg_answers m1 @ as\<rparr>, r))"

text \<open>
  The loop over a script of attempts, each with the window that follows it: the task has returned, it is
  still in a session or in a window, or it goes on and the script has no more attempts.
\<close>

datatype loop_status = Returned | InSession | InWindow | Exhausted

fun run_managed_ws :: "ManagedEnv \<Rightarrow> (attempt \<times> window_event list) list \<Rightarrow> Managed \<Rightarrow> Managed \<times> loop_status" where
  "run_managed_ws env [] m = (m, Exhausted)"
| "run_managed_ws env ((a, es) # rest) m =
     (case run_attempt env a m of
        (m1, None) \<Rightarrow> (m1, InSession)
      | (m1, Some False) \<Rightarrow> (m1, Returned)
      | (m1, Some True) \<Rightarrow>
          (case check_limit env m1 of
             (m2, False) \<Rightarrow> (m2, Returned)
           | (m2, True) \<Rightarrow>
               (case open_window env es m2 of
                  (m3, None) \<Rightarrow> (m3, InWindow)
                | (m3, Some True) \<Rightarrow> (terminate Requested m3, Returned)
                | (m3, Some False) \<Rightarrow> run_managed_ws env rest m3)))"

definition managed_new :: "ManagedEnv \<Rightarrow> Managed" where
  "managed_new env =
     (let c = me_config env in
      \<lparr>mg_backoff = backoff_new (wc_reconnect_delay c) (wc_max_reconnect_delay c), mg_epoch = 0, mg_resume = None,
       mg_strikes = 0, mg_rejection = None, mg_open = False, mg_grant = None, mg_state = StConnecting, mg_events = [],
       mg_tracker = tracker_new (wc_max_pending_awaits c), mg_subs = from_initial (wc_initial_subscribe c),
       mg_answers = []\<rparr>)"

end
