(* ===== verification/SessionAnswers.thy ===== *)
theory SessionAnswers
  imports SessionIo
begin

text \<open>
  What a ready session owes its callers: every awaited request whose caller is still there and has not
  given up is answered exactly once by the end of the session, whatever commands, frames, timers and
  writer results came in between.
\<close>

section \<open>Every awaited request is answered once\<close>

definition waiters :: "chan \<Rightarrow> AwaitTracker \<Rightarrow> u64 set" where
  "waiters c t = {i. \<exists>p. map_of (at_by_id t) i = Some p \<and> pa_tx p = c}"

fun answers :: "chan \<Rightarrow> answer \<Rightarrow> bool" where
  "answers c (AwaitResult d _) = (d = c)"
| "answers c (SendResult _ _) = False"

definition answers_to :: "chan \<Rightarrow> Session \<Rightarrow> nat" where
  "answers_to c b = length (filter (answers c) (se_answers b))"

text \<open>The answers a channel has had or is still going to have from the tracker.\<close>

definition owed :: "chan \<Rightarrow> Session \<Rightarrow> nat" where
  "owed c b = answers_to c b + card (waiters c (se_tracker b))"

lemma finite_waiters [simp]: "finite (waiters c t)"
proof (rule finite_subset)
  show "waiters c t \<subseteq> dom (map_of (at_by_id t))" by (auto simp: waiters_def)
qed (simp add: finite_dom_map_of)

lemma waiters_cancel: "waiters c (fst (cancel t i)) = waiters c t - {i}"
  by (auto simp: waiters_def cancel_by_id)

lemma waiters_prune: "wf_tracker t \<Longrightarrow> c \<notin> gone \<Longrightarrow> waiters c (prune_closed gone t) = waiters c t"
  by (auto simp: waiters_def prune_closed_by_id split: option.splits if_splits)

lemma cancel_cases:
  obtains (absent) "cancel t i = (t, None)" "\<And>c. i \<notin> waiters c t"
  | (present) p :: PendingAwait where "cancel t i = (fst (cancel t i), Some (pa_tx p))" "\<And>c. i \<in> waiters c t \<longleftrightarrow> c = pa_tx p"
proof (cases "map_of (at_by_id t) i")
  case None
  then show thesis by (intro absent) (simp_all add: cancel_def waiters_def)
next
  case (Some p)
  then show thesis by (intro present [of p]) (auto simp: cancel_def waiters_def)
qed

lemma deliver_cancel_owed: "owed c (deliver (cancel (se_tracker b) i) r b) = owed c b"
proof (cases rule: cancel_cases [of "se_tracker b" i])
  case absent
  then show ?thesis by (simp add: deliver_def owed_def answers_to_def)
next
  case (present p)
  have "card (waiters c (se_tracker b)) = (if c = pa_tx p then Suc else id) (card (waiters c (se_tracker b) - {i}))"
    using present(2) [of c] card.remove [OF finite_waiters, of i c "se_tracker b"] by (cases "c = pa_tx p") simp_all
  then show ?thesis
    by (subst present(1)) (auto simp: deliver_def owed_def answers_to_def answer_with_def waiters_cancel)
qed

lemma deliver_same: "deliver (se_tracker b, None) r b = b"
  by (simp add: deliver_def)

lemma deliver_message_owed: "owed c (deliver (take_for_message (se_tracker b) m) r b) = owed c b"
  by (auto simp: take_for_message_def deliver_same deliver_cancel_owed split: option.split)

lemma deliver_request_owed: "owed c (deliver (take_for_request (se_tracker b) q) r b) = owed c b"
  by (auto simp: take_for_request_def deliver_same deliver_cancel_owed split: option.split)

lemma owed_frame:
  assumes "se_tracker b' = se_tracker b" "se_answers b' = se_answers b"
  shows "owed c b' = owed c b"
  using assms by (simp add: owed_def answers_to_def)

lemma deliver_tracker: "se_tracker (deliver x r b) = fst x"
  by (auto simp: deliver_def answer_with_def split: prod.split option.split)

lemma session_message_frame:
  assumes "handle_session_message cr js cfg race m b = Ok b'"
  shows "se_tracker b' = se_tracker b" "se_answers b' = se_answers b"
  using assms
  by (auto simp: handle_session_message_def queue_auth_response_def send_event_def put_lanes_def res_simps
      split: ServerMessage.splits option.splits signing_race.splits)

lemma handle_message_frame:
  "\<exists>b2. b2 = deliver (take_for_message (se_tracker b) m) (Ok m) (publish (Some m) b)
     \<and> se_tracker (fst (handle_message cr js cfg race m b)) = se_tracker b2
     \<and> se_answers (fst (handle_message cr js cfg race m b)) = se_answers b2"
proof -
  let ?b2 = "deliver (take_for_message (se_tracker b) m) (Ok m) (publish (Some m) b)"
  have p: "se_tracker (publish (Some m) b) = se_tracker b" by (simp add: publish_def)
  show ?thesis
    using session_message_frame [of cr js cfg race m ?b2]
    by (cases "handle_session_message cr js cfg race m ?b2")
      (auto simp: handle_message_def Let_def p send_event_def)
qed

lemma handle_message_owed: "owed c (fst (handle_message cr js cfg race m b)) = owed c b"
proof -
  have "owed c (publish (Some m) b) = owed c b" by (rule owed_frame) (simp_all add: publish_def)
  moreover have "se_tracker (publish (Some m) b) = se_tracker b" by (simp add: publish_def)
  ultimately show ?thesis
    using handle_message_frame [of b m cr js cfg race] deliver_message_owed [of c "publish (Some m) b" m "Ok m"]
    by (metis owed_frame)
qed

lemma take_message_wf: "wf_tracker t \<Longrightarrow> wf_tracker (fst (take_for_message t m))"
  using tracker_step_wf [of t "OpTakeMessage m"] by simp

lemma take_request_wf: "wf_tracker t \<Longrightarrow> wf_tracker (fst (take_for_request t r))"
  using tracker_step_wf [of t "OpTakeRequest r"] by simp

lemma handle_message_wf:
  "wf_tracker (se_tracker b) \<Longrightarrow> wf_tracker (se_tracker (fst (handle_message cr js cfg race m b)))"
  using handle_message_frame [of b m cr js cfg race] by (auto simp: deliver_tracker take_message_wf)

lemma handle_unreadable_owed: "owed c (handle_unreadable q b) = owed c b"
proof -
  let ?b = "case q of None \<Rightarrow> b | Some r \<Rightarrow> deliver (take_for_request (se_tracker b) r) (Err UnreadableResponse) b"
  have "owed c (handle_unreadable q b) = owed c ?b"
    by (rule owed_frame) (simp_all add: handle_unreadable_def send_event_def publish_def)
  then show ?thesis by (simp add: deliver_request_owed split: option.split)
qed

lemma handle_unreadable_wf: "wf_tracker (se_tracker b) \<Longrightarrow> wf_tracker (se_tracker (handle_unreadable q b))"
  by (auto simp: handle_unreadable_def send_event_def publish_def deliver_tracker take_request_wf split: option.split)

lemma register_owed:
  assumes w: "wf_tracker t" and fresh: "map_of (at_by_id t) i = None" and "c \<notin> gone"
  shows "waiters c (fst (register gone t i keys tx)) =
    waiters c t \<union> (if c = tx \<and> snd (register gone t i keys tx) = None then {i} else {})"
    "snd (register gone t i keys tx) = None \<or> (\<exists>e. snd (register gone t i keys tx) = Some (e, tx))"
    "snd (register gone t i keys tx) = None \<Longrightarrow> map_of (at_by_id (fst (register gone t i keys tx))) i = Some \<lparr>pa_keys = keys, pa_tx = tx\<rparr>"
proof -
  have p: "waiters c t' = waiters c t \<and> map_of (at_by_id t') i = None" if "t' = t \<or> t' = prune_closed gone t" for t'
    using that waiters_prune [OF w assms(3)] prune_closed_by_id [OF w] fresh by auto
  show "waiters c (fst (register gone t i keys tx)) =
      waiters c t \<union> (if c = tx \<and> snd (register gone t i keys tx) = None then {i} else {})"
  proof (cases rule: register_cases [of gone t i keys tx])
    case (rejected t' e)
    with p [of t'] show ?thesis by simp
  next
    case (accepted t')
    have "i \<notin> waiters c t" using fresh by (simp add: waiters_def)
    moreover have "waiters c (t'\<lparr>at_by_key := k, at_by_id := AList.update i \<lparr>pa_keys = keys, pa_tx = tx\<rparr> (at_by_id t')\<rparr>)
        = (waiters c t' - {i}) \<union> (if c = tx then {i} else {})" for k
      by (auto simp: waiters_def update_conv')
    ultimately show ?thesis using accepted(4) p [OF accepted(1)] by simp
  qed
  show "snd (register gone t i keys tx) = None \<or> (\<exists>e. snd (register gone t i keys tx) = Some (e, tx))"
    by (cases rule: register_cases [of gone t i keys tx]) auto
  show "map_of (at_by_id (fst (register gone t i keys tx))) i = Some \<lparr>pa_keys = keys, pa_tx = tx\<rparr>"
    if "snd (register gone t i keys tx) = None"
    using that by (cases rule: register_cases [of gone t i keys tx]) (auto simp: update_conv')
qed

lemma note_subscription_frame:
  "se_tracker (note_subscription sub r b) = se_tracker b" "se_answers (note_subscription sub r b) = se_answers b"
  by (simp_all add: note_subscription_def split: option.split)

lemma owed_answer: "owed c (answer_with (AwaitResult d r) b) = owed c b + (if d = c then 1 else 0)"
  by (simp add: owed_def answers_to_def answer_with_def)

lemma owed_answer_send: "owed c (answer_with (SendResult d r) b) = owed c b"
  by (simp add: owed_def answers_to_def answer_with_def)

lemma frame_with_receipt_not_Panic [simp]: "frame_with_receipt ls m d r \<noteq> Panic"
  by (auto simp: frame_with_receipt_def enqueue_def)

lemma handle_send_await_registered:
  assumes reg: "register gone (se_tracker b) i keys tx = (t, None)" and w: "wf_tracker (se_tracker b)"
    and fresh: "map_of (at_by_id (se_tracker b)) i = None" and c: "c \<notin> gone"
    and frame: "frame_with_receipt (wr_lanes (se_writer b)) m None r = Err (full, d)"
  shows "owed c (case cancel t i of (t', sender) \<Rightarrow>
    (case sender of Some e \<Rightarrow> answer_with (AwaitResult e (Err q)) (b\<lparr>se_tracker := t'\<rparr>) | None \<Rightarrow> b\<lparr>se_tracker := t'\<rparr>))
    = owed c b + (if c = tx then 1 else 0)"
proof -
  have "map_of (at_by_id t) i = Some \<lparr>pa_keys = keys, pa_tx = tx\<rparr>"
    using register_owed(3) [OF w fresh c, of keys tx] reg by simp
  then obtain t' where k: "cancel t i = (t', Some tx)" by (simp add: cancel_def)
  have "i \<notin> waiters c (se_tracker b)" using fresh by (simp add: waiters_def)
  with register_owed(1) [OF w fresh c, of keys tx] reg waiters_cancel [of c t i] k
  have "waiters c t' = waiters c (se_tracker b)" by auto
  with k show ?thesis by (simp add: owed_def answers_to_def answer_with_def)
qed

lemma handle_send_await_owed:
  assumes w: "wf_tracker (se_tracker b)" and fresh: "map_of (at_by_id (se_tracker b)) i = None" and c: "c \<notin> gone"
  shows "owed c (fst (handle_send_await gone receipt ep i m cep keys tx b)) = owed c b + (if tx = c then 1 else 0)"
proof (cases "tx \<in> gone \<or> wrong_epoch cep ep \<or> pm_subscription m \<noteq> None \<and> has_pending (se_subs b)")
  case True
  with c show ?thesis by (auto simp: handle_send_await_def Let_def owed_answer)
next
  case False
  note early = this
  obtain t r where reg: "register gone (se_tracker b) i keys tx = (t, r)" by (rule prod.exhaust)
  have reg': "waiters c t = waiters c (se_tracker b) \<union> (if c = tx \<and> r = None then {i} else {})"
    using register_owed(1) [OF w fresh c, of keys tx] by (simp add: reg)
  have i: "i \<notin> waiters c (se_tracker b)" using fresh by (simp add: waiters_def)
  show ?thesis
  proof (cases r)
    case (Some et)
    then obtain e where "et = (e, tx)" using register_owed(2) [OF w fresh c, of keys tx] reg by auto
    with early reg Some have "fst (handle_send_await gone receipt ep i m cep keys tx b)
        = answer_with (AwaitResult tx (Err e)) (b\<lparr>se_tracker := t\<rparr>)"
      unfolding handle_send_await_def Let_def by (simp only: if_False simp_thms) auto
    with reg' Some show ?thesis by (simp only: owed_answer) (simp add: owed_def answers_to_def)
  next
    case None
    let ?m = "m\<lparr>pm_subscription := None\<rparr>"
    let ?r = "if pm_subscription m = None then None else Some receipt"
    show ?thesis
    proof (cases "frame_with_receipt (wr_lanes (se_writer b)) ?m None ?r")
      case (Ok lanes)
      with early reg reg' None i show ?thesis
        by (auto simp: handle_send_await_def Let_def owed_def answers_to_def note_subscription_frame put_lanes_def)
    next
      case (Err fd)
      obtain full d where fd: "fd = (full, d)" by (rule prod.exhaust)
      let ?e = "case full of Full \<Rightarrow> AwaitQueueFull | LaneClosed \<Rightarrow> AwaitDisconnected"
      have "fst (handle_send_await gone receipt ep i m cep keys tx b) = (case cancel t i of (t', sender) \<Rightarrow>
          (case sender of Some e \<Rightarrow> answer_with (AwaitResult e (Err ?e)) (b\<lparr>se_tracker := t'\<rparr>) | None \<Rightarrow> b\<lparr>se_tracker := t'\<rparr>))"
        unfolding handle_send_await_def Let_def using early reg None Err fd by (auto split: prod.split option.split)
      with handle_send_await_registered [OF reg [unfolded None] w fresh c Err [unfolded fd], of ?e]
      show ?thesis by (simp only: eq_commute [of c])
    qed simp
  qed
qed

lemma handle_send_cases:
  obtains "fst (handle_send gone receipt ep m cep tx b) = b"
  | r d where "fst (handle_send gone receipt ep m cep tx b) = answer_with (SendResult d r) b"
  | sub ls where "fst (handle_send gone receipt ep m cep tx b) = note_subscription sub receipt (put_lanes ls b)"
proof (cases "tx \<in> gone \<or> wrong_epoch cep ep \<or> pm_subscription m \<noteq> None \<and> has_pending (se_subs b)")
  case True
  then have "fst (handle_send gone receipt ep m cep tx b) = b
      \<or> (\<exists>d r. fst (handle_send gone receipt ep m cep tx b) = answer_with (SendResult d r) b)"
    by (auto simp: handle_send_def Let_def)
  with that show thesis by blast
next
  case False
  let ?f = "frame_with_receipt (wr_lanes (se_writer b)) (m\<lparr>pm_subscription := None\<rparr>) (Some tx)
    (if pm_subscription m = None then None else Some receipt)"
  from False have h: "handle_send gone receipt ep m cep tx b = (case ?f of
        Ok lanes \<Rightarrow> (note_subscription (pm_subscription m) receipt (put_lanes lanes b), None)
      | Err (Full, d) \<Rightarrow> ((case d of Some c \<Rightarrow> answer_with (SendResult c (Err QueueFull)) b | None \<Rightarrow> b), None)
      | Err (LaneClosed, d) \<Rightarrow>
          ((case d of Some c \<Rightarrow> answer_with (SendResult c (Err Disconnected)) b | None \<Rightarrow> b), Some EndDisconnected)
      | Panic \<Rightarrow> (b, None))"
    unfolding handle_send_def Let_def by (simp only: de_Morgan_disj if_False)
  show thesis
  proof (cases ?f)
    case (Ok ls)
    then show thesis using that h by simp
  next
    case (Err fd)
    obtain f d where "fd = (f, d)" by (rule prod.exhaust)
    with Err h that show thesis by (cases f; cases d) simp_all
  qed simp
qed

lemma handle_send_frame:
  "se_tracker (fst (handle_send gone receipt ep m cep tx b)) = se_tracker b"
  "filter (answers c) (se_answers (fst (handle_send gone receipt ep m cep tx b))) = filter (answers c) (se_answers b)"
  by (rule handle_send_cases [of gone receipt ep m cep tx b];
      simp add: put_lanes_def note_subscription_frame answer_with_def)+

lemma handle_send_owed: "owed c (fst (handle_send gone receipt ep m cep tx b)) = owed c b"
  by (simp add: owed_def answers_to_def handle_send_frame)

lemma handle_send_await_wf:
  assumes w: "wf_tracker (se_tracker b)" and fresh: "map_of (at_by_id (se_tracker b)) i = None"
  shows "wf_tracker (se_tracker (fst (handle_send_await gone receipt ep i m cep keys tx b)))"
proof -
  obtain t r where reg: "register gone (se_tracker b) i keys tx = (t, r)" by (rule prod.exhaust)
  have t: "wf_tracker t" using register_wf [OF w fresh, of gone keys tx] reg by simp
  have c: "wf_tracker t'" if "cancel t i = (t', s)" for t' s using cancel_wf [OF t, of i] that by simp
  show ?thesis
    using w t c
    by (auto simp: handle_send_await_def Let_def reg answer_with_def put_lanes_def note_subscription_frame
        split: res.split option.split prod.split)
qed

section \<open>Through the loop\<close>

text \<open>What is asked of the events that concern other requests: they do not give up on this channel.\<close>

fun keeps :: "chan \<Rightarrow> loop_event \<Rightarrow> Ready \<Rightarrow> bool" where
  "keeps c (OnCommand gone _ (Some (CmdSendAwait i _ _ _ _))) s =
     (c \<notin> gone \<and> map_of (at_by_id (se_tracker (rd_session s))) i = None)"
| "keeps c (OnCancel (Some i)) s = (i \<notin> waiters c (se_tracker (rd_session s)))"
| "keeps c _ s = True"

fun submits :: "chan \<Rightarrow> loop_event \<Rightarrow> bool" where
  "submits c (OnCommand _ _ (Some (CmdSendAwait _ _ _ _ tx))) = (tx = c)"
| "submits c _ = False"

lemma on_session_owed:
  "owed c (rd_session (on_session f s)) = owed c (f (rd_session s))"
  "se_tracker (rd_session (on_session f s)) = se_tracker (f (rd_session s))"
  by (simp_all add: on_session_def)

lemma plain_owed: "owed c (send_event e b) = owed c b" "owed c (put_lanes ls b) = owed c b"
  "se_tracker (send_event e b) = se_tracker b" "se_tracker (put_lanes ls b) = se_tracker b"
  by (simp_all add: owed_def answers_to_def send_event_def put_lanes_def)

lemma note_message_frame:
  "se_tracker (rd_session (note_message m s)) = se_tracker (rd_session s)"
  "owed c (rd_session (note_message m s)) = owed c (rd_session s)"
  by (simp_all add: note_message_def Let_def owed_def answers_to_def)

lemma on_read_owed: "owed c (rd_session (fst (on_read env race f s))) = owed c (rd_session s)"
  using handle_message_owed [of c "le_crypto env" "le_json env" "le_config env" race]
  by (cases f) (auto simp: on_read_def on_session_owed plain_owed handle_unreadable_owed case_prod_beta note_message_frame
      split: res.split LaneFull.split)

lemma on_read_wf:
  "wf_tracker (se_tracker (rd_session s)) \<Longrightarrow> wf_tracker (se_tracker (rd_session (fst (on_read env race f s))))"
  using handle_message_wf [of _ "le_crypto env" "le_json env" "le_config env" race]
  by (cases f) (auto simp: on_read_def on_session_owed plain_owed handle_unreadable_wf case_prod_beta note_message_frame
      split: res.split LaneFull.split)

lemma on_ping_tick_frame:
  "se_tracker (rd_session (fst (on_ping_tick env ticket s))) = se_tracker (rd_session s)"
  "owed c (rd_session (fst (on_ping_tick env ticket s))) = owed c (rd_session s)"
  by (auto simp: on_ping_tick_def on_session_owed plain_owed split: res.split LaneFull.split)

lemma on_command_session:
  "rd_session (fst (on_command env gone receipt cmd s)) = fst (handle_command gone receipt (le_epoch env) cmd (rd_session s))"
  by (simp add: on_command_def case_prod_beta split: option.split)

lemma on_command_owed:
  assumes "wf_tracker (se_tracker (rd_session s))" "keeps c (OnCommand gone receipt cmd) s"
  shows "owed c (rd_session (fst (on_command env gone receipt cmd s))) =
      owed c (rd_session s) + (if submits c (OnCommand gone receipt cmd) then 1 else 0)"
    "wf_tracker (se_tracker (rd_session (fst (on_command env gone receipt cmd s))))"
  using assms unfolding on_command_session
  by (cases cmd rule: option.exhaust; simp add: handle_command_def split: ManagedCommand.split;
      auto simp: handle_send_owed handle_send_frame handle_send_await_owed handle_send_await_wf)+

lemma on_receipt_frame:
  "se_tracker (rd_session (fst (on_receipt env w s))) = se_tracker (rd_session s)"
  "owed c (rd_session (fst (on_receipt env w s))) = owed c (rd_session s)"
  by (simp_all add: on_receipt_def Let_def owed_def answers_to_def split: option.split)

lemma loop_step_owed:
  assumes w: "wf_tracker (se_tracker (rd_session s))" and k: "keeps c e s"
  shows "owed c (rd_session (fst (loop_step env e s))) = owed c (rd_session s) + (if submits c e then 1 else 0)"
    and "wf_tracker (se_tracker (rd_session (fst (loop_step env e s))))"
proof -
  have "owed c (rd_session (fst (loop_step env e s))) = owed c (rd_session s) + (if submits c e then 1 else 0)
      \<and> wf_tracker (se_tracker (rd_session (fst (loop_step env e s))))"
  proof (cases e)
    case (OnCommand gone receipt cmd)
    with on_command_owed [OF w k [unfolded OnCommand], of env] show ?thesis by simp
  next
    case (OnCancel i)
    with w k show ?thesis
      by (cases i) (auto simp: on_session_def owed_def answers_to_def waiters_cancel cancel_wf)
  next
    case (OnWriterTurn out)
    with w show ?thesis by (simp add: on_session_def owed_def answers_to_def)
  qed (use w in \<open>auto simp: on_session_owed plain_owed on_read_owed on_read_wf on_ping_tick_frame on_receipt_frame\<close>)
  then show "owed c (rd_session (fst (loop_step env e s))) = owed c (rd_session s) + (if submits c e then 1 else 0)"
    "wf_tracker (se_tracker (rd_session (fst (loop_step env e s))))" by blast+
qed

text \<open>The events a run consumes, and what is asked of all of them.\<close>

fun consumed :: "LoopEnv \<Rightarrow> loop_event list \<Rightarrow> Ready \<Rightarrow> loop_event list" where
  "consumed env [] s = []"
| "consumed env (e # es) s =
     (case loop_step env e s of (s', Running) \<Rightarrow> e # consumed env es s' | _ \<Rightarrow> [e])"

fun keeps_run :: "chan \<Rightarrow> LoopEnv \<Rightarrow> loop_event list \<Rightarrow> Ready \<Rightarrow> bool" where
  "keeps_run c env [] s = True"
| "keeps_run c env (e # es) s =
     (keeps c e s \<and> (case loop_step env e s of (s', Running) \<Rightarrow> keeps_run c env es s' | _ \<Rightarrow> True))"

lemma run_loop_owed:
  "wf_tracker (se_tracker (rd_session s)) \<Longrightarrow> keeps_run c env es s \<Longrightarrow>
     owed c (rd_session (fst (run_loop env es s))) =
       owed c (rd_session s) + length (filter (submits c) (consumed env es s))
     \<and> wf_tracker (se_tracker (rd_session (fst (run_loop env es s))))"
proof (induction es arbitrary: s)
  case (Cons e es)
  obtain s' out where st: "loop_step env e s = (s', out)" by (rule prod.exhaust)
  have "keeps c e s" using Cons.prems(2) by simp
  from loop_step_owed [OF Cons.prems(1) this, of env] st
  have o: "owed c (rd_session s') = owed c (rd_session s) + (if submits c e then 1 else 0)"
    and w: "wf_tracker (se_tracker (rd_session s'))" by simp_all
  show ?case using Cons.IH [OF w] Cons.prems(2) o w st by (cases out) auto
qed simp

lemma count_disconnected:
  "length (filter (answers c) (map (\<lambda>c. AwaitResult c r) (map (pa_tx \<circ> snd) al))) =
     length (filter (\<lambda>x. pa_tx (snd x) = c) al)"
  by (induction al) auto

lemma count_waiters:
  fixes al :: "(u64 \<times> PendingAwait) list"
  assumes d: "distinct (map fst al)"
  shows "length (filter (\<lambda>x. pa_tx (snd x) = c) al) = card {i. \<exists>p. map_of al i = Some p \<and> pa_tx p = c}"
proof -
  have "fst ` {x \<in> set al. pa_tx (snd x) = c} = {i. \<exists>p. (i, p) \<in> set al \<and> pa_tx p = c}" by force
  then have s: "set (map fst (filter (\<lambda>x. pa_tx (snd x) = c) al)) = {i. \<exists>p. map_of al i = Some p \<and> pa_tx p = c}"
    unfolding map_of_eq_Some_iff [OF d] by simp
  have "distinct (map fst (filter (\<lambda>x. pa_tx (snd x) = c) al))" using d by (rule distinct_map_filter)
  from distinct_card [OF this] show ?thesis unfolding s by simp
qed

lemma drain_answers:
  assumes "wf_tracker (se_tracker b)"
  shows "answers_to c (drain_session b) = owed c b"
proof -
  have "se_answers (drain_session b) = se_answers b @
      map (\<lambda>c. AwaitResult c (Err AwaitDisconnected)) (map (pa_tx \<circ> snd) (at_by_id (se_tracker b)))"
    by (simp add: drain_session_def drain_all_def)
  then show ?thesis
    unfolding answers_to_def owed_def waiters_def count_waiters [OF wf_trackerD(1) [OF assms], symmetric]
    by (simp only: filter_append length_append count_disconnected)
qed

text \<open>
  C3. Run the ready loop on any events (commands, server frames, unreadable frames, timers, writer
  results, cancellations of other requests), up to the event that ends it, and then drain the tracker
  as the session does: a channel has received exactly as many answers as awaited requests were
  submitted on it, provided its receiver stays, its request is not cancelled by its owner and await ids
  are not reused. In particular a request is never answered twice and never forgotten.
\<close>

theorem await_answered_once:
  assumes "wf_tracker (se_tracker (rd_session s))" and "owed c (rd_session s) = 0"
    and "keeps_run c env es s"
  shows "answers_to c (drain_session (rd_session (fst (run_loop env es s)))) =
    length (filter (submits c) (consumed env es s))"
  using run_loop_owed [OF assms(1,3)] assms(2) drain_answers by simp

text \<open>A concrete session: one request, its reply, a second request that is still open at the shutdown.\<close>

definition sample_config :: ManagedWsConfig where
  "sample_config = \<lparr>wc_endpoint = QuoteEndpoint, wc_auth_pubkey = replicate 32 1,
     wc_signing = LocalSigner \<lparr>sg_pubkey = replicate 32 1, sg_sign = (\<lambda>m. m)\<rparr>, wc_vault_pda = None,
     wc_initial_subscribe = None, wc_reconnect_delay = 250, wc_max_reconnect_delay = 5000,
     wc_max_reconnect_attempts = 3, wc_command_buffer = 4, wc_max_pending_awaits = 4\<rparr>"

definition sample_env :: LoopEnv where
  "sample_env = \<lparr>le_crypto = plain_crypto, le_json = (\<lambda>_. Some ''frame''), le_config = sample_config,
     le_readiness_timeout = 15000, le_pong_timeout = 10000, le_epoch = 1,
     le_ping = \<lparr>pm_text = ''ping'', pm_lane = Control, pm_subscription = None\<rparr>\<rparr>"

definition sample_ready :: Ready where
  "sample_ready = \<lparr>rd_session = \<lparr>se_writer = writer_spawn 4, se_tracker = tracker_new 4,
     se_subs = from_initial None, se_written = None, se_answers = [], se_events = [], se_inbound = [], se_sequence = 0\<rparr>,
     rd_pong_deadline = None, rd_sub_deadline = None, rd_ping_written = None\<rparr>"

definition sample_query :: PreparedClientMessage where
  "sample_query = \<lparr>pm_text = ''query'', pm_lane = Data, pm_subscription = None\<rparr>"

definition sample_loop :: "loop_event list" where
  "sample_loop = [OnCommand {} 90 (Some (CmdSendAwait 1 sample_query (Some 1) [KeyRequest 7] 10)),
     OnRead SignedInTime (RdMessage (Reply Markets 7)),
     OnCommand {} 91 (Some (CmdSendAwait 2 sample_query None [KeyRequest 8] 11)), OnShutdown]"

lemmas sample_loop_defs = sample_loop_def sample_ready_def sample_env_def sample_query_def writer_spawn_def
  tracker_new_def on_command_def handle_command_def handle_send_await_def wrong_epoch_def register_def
  any_registered_def frame_with_receipt_def enqueue_def queue_of_def note_subscription_def put_lanes_def
  on_read_def note_message_def handle_message_def publish_def deliver_def take_for_message_def cancel_def
  answer_with_def handle_session_message_def from_control_def resolve_def from_initial_def has_pending_def

theorem await_answered_once_witness:
  "answers_to 11 (drain_session (rd_session (fst (run_loop sample_env sample_loop sample_ready)))) = 1"
proof -
  have "wf_tracker (se_tracker (rd_session sample_ready))" by (simp add: sample_ready_def new_wf)
  moreover have "owed 11 (rd_session sample_ready) = 0"
    by (simp add: owed_def answers_to_def waiters_def sample_ready_def tracker_new_def)
  moreover have "keeps_run 11 sample_env sample_loop sample_ready"
    by (simp add: sample_loop_defs Let_def)
  moreover have "length (filter (submits 11) (consumed sample_env sample_loop sample_ready)) = 1"
    by (simp add: sample_loop_defs Let_def)
  ultimately show ?thesis using await_answered_once [of sample_ready 11 sample_env sample_loop] by simp
qed

end
