(* ===== verification/Reconnect.thy ===== *)
theory Reconnect
  imports Managed SessionAnswers
begin

text \<open>
  What the outer loop of a managed connection guarantees: the delays double up to the maximum, a set
  reconnect limit ends the loop, and the lifecycle events alternate.
\<close>

section \<open>Delays\<close>

lemma next_reconnect_delay_min:
  "maximum \<le> DURATION_MAX \<Longrightarrow> next_reconnect_delay current maximum = min (2 * current) maximum"
  by (auto simp: next_reconnect_delay_def Let_def min_def)

fun delays :: "nat \<Rightarrow> ReconnectBackoff \<Rightarrow> (u64 \<times> nat) list" where
  "delays 0 b = []"
| "delays (Suc n) b = (case next_attempt b of (b', a, d) \<Rightarrow> (a, d) # delays n b')"

lemma delays_closed_form:
  assumes "bo_maximum b \<le> DURATION_MAX" "bo_current b = min (i * 2 ^ k) (bo_maximum b)" "bo_attempts b = of_nat k"
    "k + n < 2 ^ 64"
  shows "delays n b = map (\<lambda>j. (of_nat (Suc j), min (i * 2 ^ j) (bo_maximum b))) [k..<k + n]"
  using assms
proof (induction n arbitrary: b k)
  case (Suc n)
  have "unat (of_nat (Suc k) :: u64) = Suc k"
    using Suc.prems(4) by (subst unat_of_nat) (simp add: take_bit_nat_eq_self)
  then have "(of_nat (Suc k) :: u64) \<noteq> 0" by (metis Zero_not_Suc unsigned_0)
  then have "(of_nat k :: u64) \<noteq> - 1" by (metis add.left_inverse of_nat_Suc add.commute)
  then obtain b' where b': "next_attempt b = (b', of_nat (Suc k), min (i * 2 ^ k) (bo_maximum b))"
      "bo_maximum b' = bo_maximum b" "bo_current b' = min (i * 2 ^ Suc k) (bo_maximum b')" "bo_attempts b' = of_nat (Suc k)"
    using Suc.prems by (auto simp: next_attempt_def Let_def next_reconnect_delay_min algebra_simps)
  with Suc.IH [of b' "Suc k"] Suc.prems show ?case by (simp add: upt_conv_Cons del: upt_Suc)
qed simp

text \<open>
  Starting from a back-off with a positive delay no longer than its maximum, the \<open>j\<close>-th reconnect waits
  (before jitter) the initial delay doubled \<open>j\<close> times, cut off at the maximum, and is numbered \<open>j + 1\<close>.
\<close>

theorem backoff_doubles:
  assumes "initial \<le> maximum" and "maximum \<le> DURATION_MAX" and "n < 2 ^ 64"
  shows "delays n (backoff_new initial maximum) =
    map (\<lambda>j. (of_nat (Suc j), min (initial * 2 ^ j) maximum)) [0..<n]"
  using delays_closed_form [of "backoff_new initial maximum" initial 0 n] assms by (simp add: backoff_new_def min_def)

theorem backoff_doubles_witness:
  "delays 4 (backoff_new 250 1500) = [(1, 250), (2, 500), (3, 1000), (4, 1500)]"
proof -
  have "[0..<4 :: nat] = [0, 1, 2, 3]" by (simp add: upt_rec)
  with backoff_doubles [of 250 1500 4] show ?thesis by (simp add: DURATION_MAX_def)
qed

section \<open>Frames\<close>

lemma emit_frame [simp]:
  "mg_backoff (emit e m) = mg_backoff m" "mg_open (emit e m) = mg_open m" "mg_events (emit e m) = mg_events m @ [e]"
  "mg_epoch (emit e m) = mg_epoch m"
  by (simp_all add: emit_def)

lemma transition_frame [simp]:
  "mg_backoff (transition_state st e m) = mg_backoff m" "mg_open (transition_state st e m) = mg_open m"
  "mg_events (transition_state st e m) = mg_events m @ [e]" "mg_state (transition_state st e m) = st"
  by (simp_all add: transition_state_def)

lemma terminate_frame [simp]:
  "mg_backoff (terminate r m) = mg_backoff m" "mg_open (terminate r m) = mg_open m"
  "mg_events (terminate r m) = mg_events m @ [EvTerminated r]" "mg_state (terminate r m) = StClosed r"
  by (simp_all add: terminate_def)

text \<open>The lifecycle events that say where a connection stands; a session on its own emits none of them.\<close>

fun marks :: "ManagedWsEvent \<Rightarrow> bool" where
  "marks EvConnected = True"
| "marks EvDisconnected = True"
| "marks (EvTerminated _) = True"
| "marks _ = False"

definition unmarked :: "ManagedWsEvent list \<Rightarrow> bool" where
  "unmarked es = list_all (\<lambda>e. \<not> marks e) es"

lemma unmarked_simps [simp]: "unmarked []" "unmarked (es @ fs) \<longleftrightarrow> unmarked es \<and> unmarked fs"
  "unmarked (e # es) \<longleftrightarrow> \<not> marks e \<and> unmarked es"
  by (simp_all add: unmarked_def)

text \<open>The events of a ready session.\<close>

lemma handle_message_unmarked:
  assumes "unmarked (se_events b)"
  shows "unmarked (se_events (fst (handle_message cr js cfg race m b)))"
proof -
  let ?b2 = "deliver (take_for_message (se_tracker (publish (Some m) b)) m) (Ok m) (publish (Some m) b)"
  have e: "se_events ?b2 = se_events b"
    by (simp add: deliver_def publish_def answer_with_def split: prod.split option.split)
  have "unmarked (se_events b')" if "handle_session_message cr js cfg race m ?b2 = Ok b'" for b'
    using that assms e
    by (auto simp: handle_session_message_def queue_auth_response_def send_event_def put_lanes_def res_simps
        split: ServerMessage.splits option.splits signing_race.splits)
  with e assms show ?thesis
    by (cases "handle_session_message cr js cfg race m ?b2") (auto simp: handle_message_def Let_def send_event_def)
qed

lemma answer_with_events: "se_events (answer_with a b) = se_events b"
  by (simp add: answer_with_def)

lemma note_subscription_events: "se_events (note_subscription sub r b) = se_events b"
  by (simp add: note_subscription_def split: option.split)

lemma handle_send_events: "se_events (fst (handle_send gone receipt ep m cep tx b)) = se_events b"
  by (rule handle_send_cases [of gone receipt ep m cep tx b])
    (simp_all add: answer_with_events note_subscription_events put_lanes_def)

lemma handle_send_await_events: "se_events (fst (handle_send_await gone receipt ep i m cep keys tx b)) = se_events b"
proof (cases "tx \<in> gone \<or> wrong_epoch cep ep \<or> pm_subscription m \<noteq> None \<and> has_pending (se_subs b)")
  case True
  then show ?thesis by (auto simp: handle_send_await_def Let_def answer_with_events)
next
  case False
  obtain t r where reg: "register gone (se_tracker b) i keys tx = (t, r)" by (rule prod.exhaust)
  let ?f = "frame_with_receipt (wr_lanes (se_writer b)) (m\<lparr>pm_subscription := None\<rparr>) None
    (if pm_subscription m = None then None else Some receipt)"
  show ?thesis
  proof (cases r)
    case (Some et)
    with False reg show ?thesis
      by (cases et) (simp add: handle_send_await_def Let_def answer_with_events)
  next
    case None
    with False reg show ?thesis
      by (cases ?f) (auto simp: handle_send_await_def Let_def answer_with_events note_subscription_events put_lanes_def
          split: prod.split option.split)
  qed
qed

lemma handle_command_events: "se_events (fst (handle_command gone receipt ep cmd b)) = se_events b"
  by (simp add: handle_command_def handle_send_events handle_send_await_events split: option.split ManagedCommand.split)

lemma loop_step_unmarked:
  assumes u: "unmarked (se_events (rd_session s))"
  shows "unmarked (se_events (rd_session (fst (loop_step env e s))))"
proof (cases e)
  case (OnCommand gone receipt cmd)
  with u show ?thesis by (simp add: on_command_session handle_command_events)
next
  case (OnRead race f)
  have "unmarked (se_events (rd_session (note_message m s)))" for m
    using u by (simp add: note_message_def Let_def)
  note h = handle_message_unmarked [OF this]
  have "se_events (deliver x r b) = se_events b" for x r b
    by (simp add: deliver_def answer_with_def split: prod.split option.split)
  with OnRead u h show ?thesis
    by (cases f) (auto simp: on_read_def on_session_def send_event_def put_lanes_def handle_unreadable_def publish_def
        case_prod_beta split: res.split LaneFull.split option.split)
next
  case (OnCancel i)
  with u show ?thesis by (cases i) (simp_all add: on_session_def)
qed (use u in \<open>auto simp: on_session_def send_event_def on_receipt_def on_ping_tick_def put_lanes_def Let_def
      split: option.split res.split LaneFull.split\<close>)

lemma run_loop_unmarked:
  "unmarked (se_events (rd_session s)) \<Longrightarrow> unmarked (se_events (rd_session (fst (run_loop env es s))))"
proof (induction es arbitrary: s)
  case (Cons e es)
  obtain s' out where st: "loop_step env e s = (s', out)" by (rule prod.exhaust)
  from loop_step_unmarked [OF Cons.prems, of env e] st Cons.IH [of s'] show ?case by (cases out) auto
qed simp

section \<open>What a session changes\<close>

text \<open>A session leaves the back-off and the open flag alone and emits no lifecycle mark of its own.\<close>

definition within_session :: "SessionScript \<Rightarrow> Managed \<Rightarrow> Managed \<times> SessionEnd option \<Rightarrow> bool" where
  "within_session sc m r \<longleftrightarrow> mg_backoff (fst r) = mg_backoff m \<and> mg_open (fst r) = mg_open m
     \<and> (\<exists>es. unmarked es \<and> mg_events (fst r) = mg_events m @ es)
     \<and> (\<forall>el c. snd r = Some (SeDisconnected el c) \<longrightarrow> el = sc_elapsed sc)"

lemma finish_elapsed: "finish e el = SeDisconnected el' c \<Longrightarrow> el' = el"
  by (cases e) simp_all

lemma within_sessionI:
  "mg_backoff (fst r) = mg_backoff m \<Longrightarrow> mg_open (fst r) = mg_open m \<Longrightarrow> unmarked es
    \<Longrightarrow> mg_events (fst r) = mg_events m @ es \<Longrightarrow> (\<And>el c. snd r = Some (SeDisconnected el c) \<Longrightarrow> el = sc_elapsed sc)
    \<Longrightarrow> within_session sc m r"
  unfolding within_session_def by blast

lemma within_session_trans:
  assumes "within_session sc m' r" "mg_backoff m' = mg_backoff m" "mg_open m' = mg_open m"
    "mg_events m' = mg_events m @ es" "unmarked es"
  shows "within_session sc m r"
  using assms unfolding within_session_def by (metis append_assoc unmarked_simps(2))

lemma ready_phase_within: "within_session sc m (ready_phase env sc m)"
proof (cases "prepared_new (me_json env) Ping")
  case None
  then show ?thesis
    by (intro within_sessionI [where es = "[EvError Server]"]) (auto simp: ready_phase_def)
next
  case (Some ping)
  define lenv where "lenv = \<lparr>le_crypto = me_crypto env, le_json = me_json env, le_config = me_config env,
     le_readiness_timeout = me_readiness_timeout env, le_pong_timeout = me_pong_timeout env,
     le_epoch = mg_epoch m, le_ping = ping\<rparr>"
  define s where "s = \<lparr>rd_session = \<lparr>se_writer = writer_spawn (wc_command_buffer (me_config env)), se_tracker = mg_tracker m,
     se_subs = mg_subs m, se_written = None, se_answers = [], se_events = [], se_inbound = [], se_sequence = 0\<rparr>,
     rd_pong_deadline = None, rd_sub_deadline = None, rd_ping_written = None\<rparr>"
  obtain s' out where r: "run_loop lenv (sc_loop sc) s = (s', out)" by (rule prod.exhaust)
  have u: "unmarked (se_events (rd_session s'))"
    using run_loop_unmarked [of s lenv "sc_loop sc"] r by (simp add: s_def)
  have f: "ready_phase env sc m = (let b = rd_session s';
      m1 = m\<lparr>mg_tracker := se_tracker b, mg_subs := se_subs b, mg_answers := mg_answers m @ se_answers b,
             mg_events := mg_events m @ se_events b\<rparr> in
     (case out of Running \<Rightarrow> (m1, None)
      | Ended e rejected \<Rightarrow> (m1\<lparr>mg_state := StConnected (mg_epoch m), mg_grant := None\<rparr>, Some (finish e (sc_elapsed sc)))
      | Panicked \<Rightarrow> (m1, Some (SeTerminated SessionPanicked))))"
    using r unfolding ready_phase_def Some lenv_def s_def by (simp add: Let_def)
  show ?thesis
    unfolding f Let_def using u
    by (intro within_sessionI [where es = "se_events (rd_session s')"])
      (cases out; auto dest: finish_elapsed)+
qed

lemma readiness_phase_within: "within_session sc m (readiness_phase env sc m)"
proof (cases "\<exists>u. sc_ready sc = PhaseDone (Ok u)")
  case True
  then show ?thesis
    by (auto simp: readiness_phase_def
        intro!: within_session_trans [OF ready_phase_within, where es = "[EvReconciled, EvReady]"])
next
  case False
  then show ?thesis
    unfolding readiness_phase_def
    by (intro within_sessionI [where es = "case sc_ready sc of PhaseTimedOut \<Rightarrow> [EvError Readiness]
          | PhaseDone (Err _) \<Rightarrow> [EvError Readiness] | _ \<Rightarrow> []"])
      (auto dest: finish_elapsed split: Phase.splits res.splits)
qed

lemma run_session_within: "within_session sc m (run_session env sc m)"
proof (cases "\<exists>v. sc_auth sc = PhaseDone (Ok v)")
  case True
  then show ?thesis
    by (auto simp: run_session_def Let_def
        intro!: within_session_trans [OF readiness_phase_within, where es = "[EvAuthenticated]"])
next
  case False
  then show ?thesis
    unfolding run_session_def Let_def
    by (intro within_sessionI [where es = "case sc_auth sc of PhaseTimedOut \<Rightarrow> [EvError Auth]
          | PhaseDone (Err _) \<Rightarrow> [EvError Auth] | _ \<Rightarrow> []"])
      (auto split: Phase.splits res.splits option.splits)
qed

section \<open>The lifecycle\<close>

datatype life = Idle | Up | Over | Broken

fun life_step :: "ManagedWsEvent \<Rightarrow> life \<Rightarrow> life" where
  "life_step EvConnected Idle = Up"
| "life_step EvConnected _ = Broken"
| "life_step EvDisconnected Up = Idle"
| "life_step EvDisconnected _ = Broken"
| "life_step (EvTerminated _) Idle = Over"
| "life_step (EvTerminated _) _ = Broken"
| "life_step _ Over = Broken"
| "life_step _ l = l"

definition life :: "Managed \<Rightarrow> life" where
  "life m = fold life_step (mg_events m) Idle"

lemma life_step_unmarked: "\<not> marks e \<Longrightarrow> l \<noteq> Over \<Longrightarrow> life_step e l = l"
  by (cases e; cases l) simp_all

lemma life_unmarked: "unmarked es \<Longrightarrow> l \<noteq> Over \<Longrightarrow> fold life_step es l = l"
  by (induction es) (simp_all add: life_step_unmarked)

lemma life_emit: "\<not> marks e \<Longrightarrow> life m \<noteq> Over \<Longrightarrow> life (emit e m) = life m"
  by (simp add: life_def life_step_unmarked)

definition between :: "Managed \<Rightarrow> bool" where
  "between m \<longleftrightarrow> life m = Idle \<and> \<not> mg_open m"

definition closed_by :: "Managed \<Rightarrow> bool" where
  "closed_by m \<longleftrightarrow> life m = Over \<and> (\<exists>r. mg_state m = StClosed r \<and> last (mg_events m) = EvTerminated r)"

lemma between_terminate: "between m \<Longrightarrow> closed_by (terminate r m)"
  by (simp add: between_def closed_by_def life_def)

lemma after_session_between:
  "life m = Up \<Longrightarrow> mg_open m \<Longrightarrow> between (after_session m)" "mg_backoff (after_session m) = mg_backoff m"
  by (simp_all add: after_session_def drain_all_def between_def life_def connection_ended_def)

lemma between_frame: "mg_events m' = mg_events m \<Longrightarrow> mg_open m' = mg_open m \<Longrightarrow> between m' = between m"
  by (simp add: between_def life_def)

lemma settle_end_between:
  assumes "between m"
  shows "case settle_end e m of (m', True) \<Rightarrow> between m' | (m', False) \<Rightarrow> closed_by m'"
proof -
  have b: "between (m\<lparr>mg_strikes := a\<rparr>)" for a
    using assms by (simp add: between_def life_def)
  have "between (emit (EvError Auth) (m\<lparr>mg_strikes := a, mg_rejection := b\<rparr>))" for a b
    using assms by (simp add: between_def life_def life_step_unmarked)
  with assms b show ?thesis
    by (cases e) (auto simp: settle_end_def Let_def between_terminate intro: between_frame [THEN iffD2])
qed

lemma run_attempt_life:
  assumes "between m"
  shows "case run_attempt env a m of
      (m', None) \<Rightarrow> life m' = Up | (m', Some True) \<Rightarrow> between m' | (m', Some False) \<Rightarrow> closed_by m'"
proof (cases a)
  case (ConnectOk sc)
  define m2 where "m2 = (transition_state (StConnected (mg_epoch m + 1)) EvConnected (m\<lparr>mg_epoch := mg_epoch m + 1\<rparr>))\<lparr>mg_open := True\<rparr>"
  obtain m3 e where r: "run_session env sc m2 = (m3, e)" by (rule prod.exhaust)
  have "life m2 = Up" "mg_open m2" using assms by (simp_all add: m2_def life_def between_def transition_state_def)
  moreover obtain es where "unmarked es" "mg_events m3 = mg_events m2 @ es" "mg_open m3 = mg_open m2"
    using run_session_within [of sc m2 env] r by (auto simp: within_session_def)
  ultimately have u: "life m3 = Up" "mg_open m3" by (simp_all add: life_def life_unmarked)
  have "run_attempt env a m = (case e of None \<Rightarrow> (m3, None)
      | Some e \<Rightarrow> (case settle_end e (after_session m3) of (m4, go) \<Rightarrow> (m4, Some go)))"
    using r by (simp add: run_attempt_def ConnectOk Let_def m2_def split: option.split)
  with u settle_end_between [OF after_session_between(1) [OF u], of "the e"] show ?thesis
    by (auto split: option.split prod.splits bool.splits)
qed (use assms in \<open>auto simp: run_attempt_def between_terminate\<close>, simp add: between_def life_emit)

lemma check_limit_life:
  assumes "between m"
  shows "case check_limit env m of (m', True) \<Rightarrow> m' = m | (m', False) \<Rightarrow> closed_by m'"
proof -
  have "between ((emit (EvError Network) m)\<lparr>mg_rejection := None\<rparr>)"
    using assms by (simp add: between_def life_def life_step_unmarked)
  then show ?thesis by (simp add: check_limit_def Let_def between_terminate)
qed

lemma open_window_life: "between m \<Longrightarrow> between (fst (open_window env es m))"
  by (simp add: open_window_def case_prod_beta Let_def between_def life_def life_step_unmarked)


section \<open>The reconnect limit\<close>

definition unstable :: "ManagedEnv \<Rightarrow> attempt \<times> window_event list \<Rightarrow> bool" where
  "unstable env x = (case fst x of ConnectOk sc \<Rightarrow> sc_elapsed sc < wc_max_reconnect_delay (me_config env) | _ \<Rightarrow> True)"

lemma settle_end_backoff:
  assumes "\<And>el c. e = SeDisconnected el c \<Longrightarrow> el < bo_maximum (mg_backoff m)"
  shows "mg_backoff (fst (settle_end e m)) = mg_backoff m"
  using assms by (cases e) (auto simp: settle_end_def Let_def reset_after_stable_session_def)

lemma run_attempt_backoff:
  assumes "unstable env (a, es)" "bo_maximum (mg_backoff m) = wc_max_reconnect_delay (me_config env)"
  shows "mg_backoff (fst (run_attempt env a m)) = mg_backoff m"
proof (cases a)
  case (ConnectOk sc)
  define m2 where "m2 = (transition_state (StConnected (mg_epoch m + 1)) EvConnected (m\<lparr>mg_epoch := mg_epoch m + 1\<rparr>))\<lparr>mg_open := True\<rparr>"
  obtain m3 e where r: "run_session env sc m2 = (m3, e)" by (rule prod.exhaust)
  have b: "mg_backoff m3 = mg_backoff m" and el: "\<And>el c. e = Some (SeDisconnected el c) \<Longrightarrow> el = sc_elapsed sc"
    using run_session_within [of sc m2 env] r by (auto simp: within_session_def m2_def)
  have "mg_backoff (fst (settle_end e' (after_session m3))) = mg_backoff m" if "e = Some e'" for e'
    using settle_end_backoff [of e' "after_session m3"] el that assms b ConnectOk
    by (auto simp: after_session_between(2) unstable_def)
  moreover have "run_attempt env a m = (case e of None \<Rightarrow> (m3, None)
      | Some e \<Rightarrow> (case settle_end e (after_session m3) of (m4, go) \<Rightarrow> (m4, Some go)))"
    using r by (simp add: run_attempt_def ConnectOk Let_def m2_def split: option.split)
  ultimately show ?thesis using b by (cases e) (simp_all add: case_prod_beta)
qed (simp_all add: run_attempt_def)

lemma open_window_backoff:
  "mg_backoff (fst (open_window env es m)) = fst (next_attempt (mg_backoff m))"
  by (simp add: open_window_def case_prod_beta Let_def)

lemma next_attempt_count:
  "bo_maximum (fst (next_attempt b)) = bo_maximum b"
  "bo_attempts b < n \<Longrightarrow> unat (bo_attempts (fst (next_attempt b))) = Suc (unat (bo_attempts b))"
proof -
  show "bo_maximum (fst (next_attempt b)) = bo_maximum b" by (simp add: next_attempt_def Let_def)
  assume "bo_attempts b < n"
  then have "bo_attempts b \<noteq> - 1" by (metis word_order.extremum_strict)
  moreover from this have "unat (bo_attempts b + 1) = Suc (unat (bo_attempts b))"
    using unatSuc [of "bo_attempts b"] by (metis add.commute add_eq_0_iff)
  ultimately show "unat (bo_attempts (fst (next_attempt b))) = Suc (unat (bo_attempts b))"
    by (simp add: next_attempt_def Let_def)
qed

lemma limited_run:
  assumes "bo_maximum (mg_backoff m) = wc_max_reconnect_delay (me_config env)" "0 < wc_max_reconnect_attempts (me_config env)"
    "list_all (unstable env) script"
    "unat (wc_max_reconnect_attempts (me_config env)) < unat (bo_attempts (mg_backoff m)) + length script"
  shows "script \<noteq> [] \<Longrightarrow> snd (run_managed_ws env script m) \<noteq> Exhausted"
  using assms
proof (induction script arbitrary: m)
  case (Cons x rest)
  let ?n = "wc_max_reconnect_attempts (me_config env)"
  obtain a es where x: "x = (a, es)" by (rule prod.exhaust)
  obtain m1 go where a: "run_attempt env a m = (m1, go)" by (rule prod.exhaust)
  have b1: "mg_backoff m1 = mg_backoff m" using run_attempt_backoff [of env a es m] Cons.prems x a by simp
  obtain m2 ok where c: "check_limit env m1 = (m2, ok)" by (rule prod.exhaust)
  obtain m3 r where w: "open_window env es m2 = (m3, r)" by (rule prod.exhaust)
  show ?case
  proof (cases "go = Some True \<and> ok \<and> r = Some False")
    case False
    with x a c w show ?thesis by (auto split: option.split bool.split)
  next
    case True
    then have m2: "m2 = m1" and lim: "bo_attempts (mg_backoff m) < ?n"
      using c b1 Cons.prems(3) by (auto simp: check_limit_def Let_def limit_reached_def not_le split: if_splits)
    have b3: "mg_backoff m3 = fst (next_attempt (mg_backoff m))"
      using open_window_backoff [of env es m2] w m2 b1 by simp
    note n = next_attempt_count(1) [of "mg_backoff m"] next_attempt_count(2) [OF lim]
    have "rest \<noteq> []" using Cons.prems(5) lim by (auto simp: word_less_nat_alt)
    moreover have "unat ?n < unat (bo_attempts (mg_backoff m3)) + length rest" using Cons.prems(5) b3 n by simp
    ultimately have "snd (run_managed_ws env rest m3) \<noteq> Exhausted"
      using Cons.IH [of m3] Cons.prems b3 n by simp
    with True x a c w show ?thesis by simp
  qed
qed simp


definition sample_managed :: ManagedEnv where
  "sample_managed = \<lparr>me_crypto = plain_crypto, me_json = (\<lambda>_. Some ''frame''), me_config = sample_config,
     me_readiness_timeout = 15000, me_pong_timeout = 10000, me_jitter = (\<lambda>d. d)\<rparr>"


end
