(* ===== verification/Nonce.thy ===== *)
theory Nonce
  imports Machines
begin

text \<open>
  The shared nonce counter (\<^verbatim>\<open>src/src/nonce.rs\<close>, \<open>AtomicNonceGenerator\<close>). Several threads call
  \<open>next_u64\<close> and \<open>init\<close> on one generator; a run is an interleaving of their atomic operations. Each
  thread is at a program point between two of them. The loads are relaxed, so the two that happen before a
  thread has itself seen or set the base may still return the initial zero; the load after \<open>init\<close> cannot.
  The operating system's entropy is a value of the environment, absent when the source is unavailable.
\<close>

datatype nonce_pc =
    Outside
  | InInit bool
  | Exchanging bool u64
  | Reloading
  | Adding u64

record AtomicNonceGenerator =
  ng_counter :: u64
  ng_entropy_base :: u64
  ng_pc :: "nat \<Rightarrow> nonce_pc"
  ng_nonces :: "u64 list"
  ng_errors :: nat

definition nonce_new :: AtomicNonceGenerator where
  "nonce_new = \<lparr>ng_counter = 1, ng_entropy_base = 0, ng_pc = (\<lambda>_. Outside), ng_nonces = [], ng_errors = 0\<rparr>"

text \<open>A step of one thread: what it calls when it is outside, whether its load is stale, what entropy it would draw.\<close>

datatype nonce_event = NonceEvent (ev_thread: nat) (ev_init: bool) (ev_stale: bool) (ev_entropy: "u64 option")

definition goto :: "nat \<Rightarrow> nonce_pc \<Rightarrow> AtomicNonceGenerator \<Rightarrow> AtomicNonceGenerator" where
  "goto t p g = g\<lparr>ng_pc := (ng_pc g)(t := p)\<rparr>"

definition load_base :: "bool \<Rightarrow> AtomicNonceGenerator \<Rightarrow> u64" where
  "load_base stale g = (if stale then 0 else ng_entropy_base g)"

text \<open>
  \<open>init\<close>: the load that decides whether to draw, and the compare-exchange. The flag of the program points
  says whether the thread called \<open>init\<close> itself or came from \<open>next_u64\<close>.
\<close>

definition init_load :: "nat \<Rightarrow> bool \<Rightarrow> bool \<Rightarrow> u64 option \<Rightarrow> AtomicNonceGenerator \<Rightarrow> AtomicNonceGenerator" where
  "init_load t only stale entropy g =
     (if load_base stale g = 0
      then (case entropy of
              None \<Rightarrow> (goto t Outside g)\<lparr>ng_errors := ng_errors g + 1\<rparr>
            | Some e \<Rightarrow> goto t (Exchanging only e) g)
      else goto t (if only then Outside else Reloading) g)"

definition init_exchange :: "nat \<Rightarrow> bool \<Rightarrow> u64 \<Rightarrow> AtomicNonceGenerator \<Rightarrow> AtomicNonceGenerator" where
  "init_exchange t only e g =
     goto t (if only then Outside else Reloading)
       (if ng_entropy_base g = 0 then g\<lparr>ng_entropy_base := e\<rparr> else g)"

text \<open>\<open>next_u64\<close>: the first load, and the counter increment that yields the nonce.\<close>

definition next_load :: "nat \<Rightarrow> bool \<Rightarrow> AtomicNonceGenerator \<Rightarrow> AtomicNonceGenerator" where
  "next_load t stale g =
     (let base = load_base stale g in goto t (if base = 0 then InInit False else Adding base) g)"

definition next_add :: "nat \<Rightarrow> u64 \<Rightarrow> AtomicNonceGenerator \<Rightarrow> AtomicNonceGenerator" where
  "next_add t base g =
     goto t Outside (g\<lparr>ng_counter := ng_counter g + 1, ng_nonces := ng_nonces g @ [base + ng_counter g]\<rparr>)"

definition nonce_step :: "nonce_event \<Rightarrow> AtomicNonceGenerator \<Rightarrow> AtomicNonceGenerator" where
  "nonce_step ev g =
     (let t = ev_thread ev in
      case ng_pc g t of
        Outside \<Rightarrow> (if ev_init ev then goto t (InInit True) g else next_load t (ev_stale ev) g)
      | InInit only \<Rightarrow> init_load t only (ev_stale ev) (ev_entropy ev) g
      | Exchanging only e \<Rightarrow> init_exchange t only e g
      | Reloading \<Rightarrow> goto t (Adding (ng_entropy_base g)) g
      | Adding base \<Rightarrow> next_add t base g)"

section \<open>The invariant\<close>

text \<open>
  Once a thread holds a base, the base is set and never changes again; the nonces handed out are the
  consecutive values from the base on, in the order of the increments.
\<close>

fun pc_ok :: "AtomicNonceGenerator \<Rightarrow> nonce_pc \<Rightarrow> bool" where
  "pc_ok g (Exchanging _ e) = (e \<noteq> 0)"
| "pc_ok g Reloading = (ng_entropy_base g \<noteq> 0)"
| "pc_ok g (Adding base) = (base = ng_entropy_base g \<and> base \<noteq> 0)"
| "pc_ok g _ = True"

definition handed_out :: "u64 \<Rightarrow> nat \<Rightarrow> u64 list" where
  "handed_out base n = map (\<lambda>i. base + 1 + of_nat i) [0..<n]"

definition nonce_inv :: "AtomicNonceGenerator \<Rightarrow> bool" where
  "nonce_inv g \<longleftrightarrow>
     (\<forall>t. pc_ok g (ng_pc g t)) \<and> ng_counter g = 1 + of_nat (length (ng_nonces g)) \<and>
     (ng_nonces g = [] \<or> ng_entropy_base g \<noteq> 0) \<and>
     ng_nonces g = handed_out (ng_entropy_base g) (length (ng_nonces g))"

definition draws_nonzero :: "nonce_event \<Rightarrow> AtomicNonceGenerator \<Rightarrow> bool" where
  "draws_nonzero ev g \<longleftrightarrow> ev_entropy ev \<noteq> Some 0"

lemma handed_out_Suc: "handed_out base (Suc n) = handed_out base n @ [base + 1 + of_nat n]"
  by (simp add: handed_out_def)

lemma nonce_inv_new: "nonce_inv nonce_new"
  by (simp add: nonce_inv_def nonce_new_def handed_out_def)

lemma nonce_inv_goto:
  assumes "nonce_inv g" "pc_ok g p"
  shows "nonce_inv (goto t p g)"
proof -
  have "pc_ok (goto t p g) q = pc_ok g q" for q by (cases q) (simp_all add: goto_def)
  with assms show ?thesis by (simp add: nonce_inv_def goto_def)
qed

lemma nonce_inv_errors: "nonce_inv g \<Longrightarrow> nonce_inv (g\<lparr>ng_errors := n\<rparr>)"
proof -
  assume "nonce_inv g"
  moreover have "pc_ok (g\<lparr>ng_errors := n\<rparr>) q = pc_ok g q" for q by (cases q) simp_all
  ultimately show ?thesis by (simp add: nonce_inv_def)
qed

lemma nonce_inv_set_base:
  assumes "nonce_inv g" "ng_entropy_base g = 0" "e \<noteq> 0"
  shows "nonce_inv (g\<lparr>ng_entropy_base := e\<rparr>)"
proof -
  have none: "ng_nonces g = []" using assms by (auto simp: nonce_inv_def)
  have "pc_ok (g\<lparr>ng_entropy_base := e\<rparr>) (ng_pc g t)" for t
  proof -
    have "pc_ok g (ng_pc g t)" using assms by (simp add: nonce_inv_def)
    with assms show ?thesis by (cases "ng_pc g t") auto
  qed
  with assms none show ?thesis by (simp add: nonce_inv_def handed_out_def)
qed

lemma nonce_inv_add:
  assumes inv: "nonce_inv g" and pc: "pc_ok g (Adding base)"
  shows "nonce_inv (next_add t base g)"
proof -
  define h where "h = g\<lparr>ng_counter := ng_counter g + 1, ng_nonces := ng_nonces g @ [base + ng_counter g]\<rparr>"
  have b: "base = ng_entropy_base g" "base \<noteq> 0" using pc by auto
  have pcs: "pc_ok h q = pc_ok g q" for q by (cases q) (simp_all add: h_def)
  have c: "ng_counter g = 1 + of_nat (length (ng_nonces g))"
    and ns: "ng_nonces g = handed_out base (length (ng_nonces g))"
    using inv b by (simp_all add: nonce_inv_def)
  have "handed_out base (Suc (length (ng_nonces g))) = ng_nonces g @ [base + 1 + of_nat (length (ng_nonces g))]"
    using handed_out_Suc ns by simp
  then have "ng_nonces h = handed_out base (length (ng_nonces h))"
    by (simp add: h_def c add.assoc)
  moreover have "\<forall>t. pc_ok h (ng_pc h t)" using inv pcs by (simp add: nonce_inv_def h_def)
  moreover have "ng_counter h = 1 + of_nat (length (ng_nonces h))" using c by (simp add: h_def)
  moreover have "ng_entropy_base h = base" using b by (simp add: h_def)
  ultimately have "nonce_inv h" using b by (simp add: nonce_inv_def)
  then show ?thesis by (simp add: next_add_def h_def nonce_inv_goto)
qed

lemma nonce_inv_init_load:
  assumes "nonce_inv g" "entropy \<noteq> Some 0"
  shows "nonce_inv (init_load t only stale entropy g)"
proof (cases "load_base stale g = 0")
  case True
  with assms show ?thesis
    using nonce_inv_errors [OF nonce_inv_goto [of g Outside t]]
    by (cases entropy) (auto simp: init_load_def intro: nonce_inv_goto)
next
  case False
  then have "ng_entropy_base g \<noteq> 0" by (simp add: load_base_def split: if_splits)
  with False assms(1) show ?thesis by (simp add: init_load_def nonce_inv_goto)
qed

lemma nonce_inv_exchange:
  assumes "nonce_inv g" "e \<noteq> 0"
  shows "nonce_inv (init_exchange t only e g)"
  using assms by (auto simp: init_exchange_def intro: nonce_inv_goto nonce_inv_set_base)

lemma nonce_inv_next_load: "nonce_inv g \<Longrightarrow> nonce_inv (next_load t stale g)"
  by (auto simp: next_load_def load_base_def Let_def intro: nonce_inv_goto)

lemma nonce_inv_step:
  assumes inv: "nonce_inv g" and ev: "draws_nonzero ev g"
  shows "nonce_inv (nonce_step ev g)"
proof -
  have pc: "pc_ok g (ng_pc g (ev_thread ev))" using inv by (simp add: nonce_inv_def)
  have e: "ev_entropy ev \<noteq> Some 0" using ev by (simp add: draws_nonzero_def)
  show ?thesis
  proof (cases "ng_pc g (ev_thread ev)")
    case Outside
    with inv show ?thesis by (simp add: nonce_step_def Let_def nonce_inv_next_load nonce_inv_goto)
  next
    case (InInit only)
    with inv e show ?thesis by (simp add: nonce_step_def Let_def nonce_inv_init_load)
  next
    case (Exchanging only v)
    with inv pc show ?thesis by (simp add: nonce_step_def Let_def nonce_inv_exchange)
  next
    case Reloading
    with inv pc show ?thesis by (simp add: nonce_step_def Let_def nonce_inv_goto)
  next
    case (Adding base)
    with pc have "nonce_inv (next_add (ev_thread ev) base g)" using inv by (intro nonce_inv_add) auto
    with Adding show ?thesis by (simp add: nonce_step_def)
  qed
qed

interpretation ngen: machine draws_nonzero nonce_step nonce_inv
  by unfold_locales (rule nonce_inv_step)

lemma handed_out_distinct: "n \<le> 2 ^ 64 \<Longrightarrow> distinct (handed_out base n)"
proof -
  assume n: "n \<le> 2 ^ 64"
  have "unat (of_nat i :: u64) = i" if "i < n" for i
    using that n by (simp add: unsigned_of_nat take_bit_nat_eq_self)
  then have "inj_on (\<lambda>i. of_nat i :: u64) {0..<n}"
    by (intro inj_on_inverseI [where g = unat]) simp
  then have "inj_on (\<lambda>i. base + 1 + (of_nat i :: u64)) {0..<n}"
    by (simp add: inj_on_def)
  then show ?thesis by (simp add: handed_out_def distinct_map)
qed

lemma run_draws_nonzero:
  "list_all (\<lambda>ev. ev_entropy ev \<noteq> Some 0) es \<Longrightarrow> run_ok draws_nonzero nonce_step es g"
  by (induction es arbitrary: g) (simp_all add: draws_nonzero_def)

text \<open>
  C25. Nonces never repeat. On every interleaving of threads that draw and take nonces, with stale first
  loads and failing entropy included, the nonces handed out are the consecutive values after one base, in
  the order of the increments, and no two of the first 2^64 are equal, provided the entropy drawn is never
  zero.
\<close>

theorem nonces_unique:
  assumes "list_all (\<lambda>ev. ev_entropy ev \<noteq> Some 0) es"
    and "length (ng_nonces (fold nonce_step es nonce_new)) \<le> 2 ^ 64"
  shows "distinct (ng_nonces (fold nonce_step es nonce_new)) \<and>
    (\<exists>base. ng_nonces (fold nonce_step es nonce_new) =
       map (\<lambda>i. base + 1 + of_nat i) [0..<length (ng_nonces (fold nonce_step es nonce_new))])"
proof -
  have "nonce_inv (fold nonce_step es nonce_new)"
    using ngen.inv_run nonce_inv_new run_draws_nonzero assms(1) by blast
  then have *: "ng_nonces (fold nonce_step es nonce_new) =
      handed_out (ng_entropy_base (fold nonce_step es nonce_new)) (length (ng_nonces (fold nonce_step es nonce_new)))"
    by (simp add: nonce_inv_def)
  with assms(2) handed_out_distinct show ?thesis unfolding handed_out_def by metis
qed

text \<open>Two threads race: both see no base, both draw, one exchange wins, and the nonces are 8 and 9.\<close>

definition sample_race :: "nonce_event list" where
  "sample_race = map (\<lambda>(t, e). NonceEvent t False False (Some e))
     [(0, 7), (1, 9), (0, 7), (1, 9), (0, 7), (1, 9), (0, 7), (1, 9), (1, 9), (0, 7)]"

theorem nonces_unique_witness:
  "ng_nonces (fold nonce_step sample_race nonce_new) = [8, 9] \<and>
   distinct (ng_nonces (fold nonce_step sample_race nonce_new))"
proof -
  have n: "ng_nonces (fold nonce_step sample_race nonce_new) = [8, 9]"
    by code_simp
  have "list_all (\<lambda>ev. ev_entropy ev \<noteq> Some 0) sample_race"
    by (simp add: sample_race_def)
  then show ?thesis using nonces_unique [of sample_race] n by simp
qed

text \<open>
  The proviso is needed: an entropy draw of zero is taken for a missing base, so a later call draws again
  and moves the base under nonces already handed out.
\<close>

lemma zero_entropy_repeats:
  "ng_nonces (fold nonce_step
     (map (\<lambda>e. NonceEvent 0 False False (Some e)) [0, 0, 0, 0, 0, - 1, - 1, - 1, - 1, - 1]) nonce_new) = [1, 1]"
  by code_simp

end
