(* ===== verification/Outcome.thy ===== *)
theory Outcome
  imports WsTypes Machines
begin

text \<open>
  The outcome of one sent quote (\<^verbatim>\<open>src/src/ws/maker/outcome.rs\<close>): \<open>QuoteOutcomeTracker\<close> follows the messages of
  one connection epoch and settles on the first decisive one. Instants are natural numbers; the payload of
  a fill and the reason of a rejection are the values the messages carry.
\<close>

datatype QuoteLossReason = LostRfqClosed RfqCloseReason | LostRfqAccepted

datatype QuoteUnknownReason = EpochChanged | TimedOut | StreamGap | StreamClosed

datatype QuoteOutcome =
    Pending | Acked | Selected | Rejected string | Filled string | Expired | Cancelled
  | Lost QuoteLossReason | Unknown QuoteUnknownReason

fun is_terminal :: "QuoteOutcome \<Rightarrow> bool" where
  "is_terminal Pending = False"
| "is_terminal Acked = False"
| "is_terminal Selected = False"
| "is_terminal _ = True"

record QuoteOutcomeTracker =
  qt_rfq_id :: uuid
  qt_order_id :: OrderId
  qt_connection_epoch :: u64
  qt_deadline :: nat
  qt_outcome :: QuoteOutcome

definition outcome_new :: "uuid \<Rightarrow> OrderId \<Rightarrow> u64 \<Rightarrow> nat \<Rightarrow> QuoteOutcomeTracker" where
  "outcome_new rfq_id order_id connection_epoch deadline =
     \<lparr>qt_rfq_id = rfq_id, qt_order_id = order_id, qt_connection_epoch = connection_epoch,
      qt_deadline = deadline, qt_outcome = Pending\<rparr>"

definition mark_unknown :: "QuoteUnknownReason \<Rightarrow> QuoteOutcomeTracker \<Rightarrow> QuoteOutcomeTracker" where
  "mark_unknown reason t = (if \<not> is_terminal (qt_outcome t) then t\<lparr>qt_outcome := Unknown reason\<rparr> else t)"

definition outcome_check :: "u64 \<Rightarrow> nat \<Rightarrow> QuoteOutcomeTracker \<Rightarrow> QuoteOutcomeTracker" where
  "outcome_check connection_epoch now t =
     (if connection_epoch \<noteq> qt_connection_epoch t then mark_unknown EpochChanged t
      else if now \<ge> qt_deadline t then mark_unknown TimedOut t else t)"

text \<open>The match on an \<open>RfqClosed\<close> of the tracked request: none keeps the outcome.\<close>

definition closed_outcome ::
  "QuoteOutcomeTracker \<Rightarrow> RfqCloseReason \<Rightarrow> (OrderId \<times> QuoteFinalStatus) option \<Rightarrow> QuoteOutcome option" where
  "closed_outcome t reason your_quote =
     (case (case your_quote of Some (order_id, status) \<Rightarrow> if order_id = qt_order_id t then Some status else None
            | None \<Rightarrow> None) of
        Some FinalExpired \<Rightarrow> Some Expired
      | Some FinalCancelled \<Rightarrow> Some Cancelled
      | Some FinalOutbid \<Rightarrow> Some (Lost (LostRfqClosed reason))
      | Some FinalFilled \<Rightarrow> None
      | None \<Rightarrow>
          (if reason = RfqFilled \<and> qt_outcome t = Acked then Some (Lost (LostRfqClosed reason))
           else if reason = RfqFilled then None
           else Some (Lost (LostRfqClosed reason))))"

text \<open>\<open>apply\<close>: the outcome a message leads to, none when the tracker returns without a change.\<close>

definition apply_message :: "QuoteOutcomeTracker \<Rightarrow> ServerMessage \<Rightarrow> QuoteOutcome option" where
  "apply_message t message =
     (let mine = (\<lambda>rfq order_id. order_id = qt_order_id t \<and> rfq = qt_rfq_id t) in
      case message of
        QuoteAcknowledged rfq order_id \<Rightarrow>
          (if mine rfq order_id \<and> qt_outcome t \<noteq> Selected then Some Acked else None)
      | QuoteRejected rfq order_id reason \<Rightarrow> (if mine rfq order_id then Some (Rejected reason) else None)
      | QuoteSelected rfq order_id \<Rightarrow> (if mine rfq order_id then Some Selected else None)
      | QuoteFilled rfq order_id fill \<Rightarrow> (if mine rfq order_id then Some (Filled fill) else None)
      | QuoteExpired rfq order_id \<Rightarrow> (if mine rfq order_id then Some Expired else None)
      | QuoteCancelled rfq order_ids reason \<Rightarrow>
          (if rfq = qt_rfq_id t \<and> qt_order_id t \<in> set order_ids
           then Some (if reason = CancelRfqAccepted then Lost LostRfqAccepted else Cancelled) else None)
      | RfqAvailableAgain rfq \<Rightarrow> (if rfq = qt_rfq_id t \<and> qt_outcome t = Selected then Some Acked else None)
      | RfqClosed rfq reason your_quote \<Rightarrow> (if rfq = qt_rfq_id t then closed_outcome t reason your_quote else None)
      | _ \<Rightarrow> None)"

definition observe_message :: "u64 \<Rightarrow> nat \<Rightarrow> ServerMessage \<Rightarrow> QuoteOutcomeTracker \<Rightarrow> QuoteOutcomeTracker" where
  "observe_message epoch received_at message t =
     (if epoch < qt_connection_epoch t then t
      else let t' = outcome_check epoch received_at t in
        if is_terminal (qt_outcome t') then t'
        else case apply_message t' message of None \<Rightarrow> t' | Some next \<Rightarrow> t'\<lparr>qt_outcome := next\<rparr>)"

section \<open>Runs\<close>

datatype outcome_event =
    Observe u64 nat ServerMessage
  | CheckAt u64 nat
  | MarkUnknown QuoteUnknownReason

fun outcome_step :: "outcome_event \<Rightarrow> QuoteOutcomeTracker \<Rightarrow> QuoteOutcomeTracker" where
  "outcome_step (Observe epoch received message) t = observe_message epoch received message t"
| "outcome_step (CheckAt epoch now) t = outcome_check epoch now t"
| "outcome_step (MarkUnknown reason) t = mark_unknown reason t"

definition same_quote :: "QuoteOutcomeTracker \<Rightarrow> QuoteOutcomeTracker \<Rightarrow> bool" where
  "same_quote t u \<longleftrightarrow> qt_rfq_id u = qt_rfq_id t \<and> qt_order_id u = qt_order_id t \<and>
     qt_connection_epoch u = qt_connection_epoch t \<and> qt_deadline u = qt_deadline t"

text \<open>
  What may settle the quote, read off the event alone: which terminal outcomes a message of the tracked
  quote is evidence for, and when the tracker may give up.
\<close>

fun evidence :: "QuoteOutcomeTracker \<Rightarrow> ServerMessage \<Rightarrow> QuoteOutcome \<Rightarrow> bool" where
  "evidence t m (Rejected reason) = (m = QuoteRejected (qt_rfq_id t) (qt_order_id t) reason)"
| "evidence t m (Filled fill) = (m = QuoteFilled (qt_rfq_id t) (qt_order_id t) fill)"
| "evidence t m Expired =
     (m = QuoteExpired (qt_rfq_id t) (qt_order_id t) \<or>
      (\<exists>r. m = RfqClosed (qt_rfq_id t) r (Some (qt_order_id t, FinalExpired))))"
| "evidence t m Cancelled =
     ((\<exists>ids r. m = QuoteCancelled (qt_rfq_id t) ids r \<and> qt_order_id t \<in> set ids \<and> r \<noteq> CancelRfqAccepted) \<or>
      (\<exists>r. m = RfqClosed (qt_rfq_id t) r (Some (qt_order_id t, FinalCancelled))))"
| "evidence t m (Lost LostRfqAccepted) =
     (\<exists>ids. m = QuoteCancelled (qt_rfq_id t) ids CancelRfqAccepted \<and> qt_order_id t \<in> set ids)"
| "evidence t m (Lost (LostRfqClosed r)) =
     (\<exists>q. m = RfqClosed (qt_rfq_id t) r q \<and> (\<forall>s. q = Some (qt_order_id t, s) \<longrightarrow> s = FinalOutbid))"
| "evidence t m _ = False"

fun gives_up :: "QuoteOutcomeTracker \<Rightarrow> outcome_event \<Rightarrow> QuoteUnknownReason \<Rightarrow> bool" where
  "gives_up t (Observe epoch received _) r =
     ((r = EpochChanged \<and> qt_connection_epoch t < epoch) \<or>
      (r = TimedOut \<and> epoch = qt_connection_epoch t \<and> qt_deadline t \<le> received))"
| "gives_up t (CheckAt epoch now) r =
     ((r = EpochChanged \<and> epoch \<noteq> qt_connection_epoch t) \<or>
      (r = TimedOut \<and> epoch = qt_connection_epoch t \<and> qt_deadline t \<le> now))"
| "gives_up t (MarkUnknown r') r = (r = r')"

definition settles :: "QuoteOutcomeTracker \<Rightarrow> outcome_event \<Rightarrow> QuoteOutcome \<Rightarrow> bool" where
  "settles t e out \<longleftrightarrow>
     (\<exists>r. out = Unknown r \<and> gives_up t e r) \<or>
     (\<exists>received m. e = Observe (qt_connection_epoch t) received m \<and> received < qt_deadline t \<and> evidence t m out)"

lemma mark_unknown_same [simp]: "same_quote t (mark_unknown r t)"
  by (simp add: same_quote_def mark_unknown_def)

lemma check_same [simp]: "same_quote t (outcome_check e n t)"
  by (simp add: outcome_check_def) (simp add: same_quote_def)

lemma observe_same: "same_quote t (observe_message e n m t)"
  using check_same [of t e n]
  by (auto simp: observe_message_def Let_def same_quote_def split: option.splits)

lemma step_same: "same_quote t (outcome_step e t)"
  by (cases e) (simp_all add: observe_same)

lemma run_same: "same_quote t (fold outcome_step es t)"
proof (induction es arbitrary: t)
  case (Cons e es)
  from Cons [of "outcome_step e t"] step_same [of t e] show ?case by (simp add: same_quote_def)
qed (simp add: same_quote_def)

lemma terminal_stays:
  assumes "is_terminal (qt_outcome t)" shows "outcome_step e t = t"
  using assms
  by (cases e) (auto simp: observe_message_def outcome_check_def mark_unknown_def Let_def)

lemma terminal_run: "is_terminal (qt_outcome t) \<Longrightarrow> fold outcome_step es t = t"
  by (induction es) (simp_all add: terminal_stays)

lemma closed_evidence:
  assumes "closed_outcome t r q = Some out"
  shows "evidence t (RfqClosed (qt_rfq_id t) r q) out"
  using assms
  by (auto simp: closed_outcome_def split: option.splits if_splits prod.splits QuoteFinalStatus.splits)

lemma apply_evidence:
  assumes "apply_message t m = Some out" "is_terminal out"
  shows "evidence t m out"
  using assms closed_evidence [of t _ _ out]
  by (auto simp: apply_message_def Let_def split: ServerMessage.splits if_splits)

lemma evidence_same: "same_quote t u \<Longrightarrow> evidence u m out = evidence t m out"
  by (induction t m out rule: evidence.induct) (auto simp: same_quote_def)

lemma check_settles:
  assumes "\<not> is_terminal (qt_outcome t)" "is_terminal (qt_outcome (outcome_check e n t))"
  obtains r where "qt_outcome (outcome_check e n t) = Unknown r"
    and "(r = EpochChanged \<and> e \<noteq> qt_connection_epoch t) \<or>
      (r = TimedOut \<and> e = qt_connection_epoch t \<and> qt_deadline t \<le> n)"
  using assms by (auto simp: outcome_check_def mark_unknown_def split: if_splits)

lemma check_live:
  assumes "\<not> is_terminal (qt_outcome (outcome_check e n t))"
  shows "outcome_check e n t = t \<and> e = qt_connection_epoch t \<and> n < qt_deadline t"
  using assms by (auto simp: outcome_check_def mark_unknown_def split: if_splits)

lemma observe_settles:
  assumes live: "\<not> is_terminal (qt_outcome t)" and out: "is_terminal (qt_outcome (observe_message e n m t))"
  shows "settles t (Observe e n m) (qt_outcome (observe_message e n m t))"
proof -
  have e: "\<not> e < qt_connection_epoch t" using assms by (auto simp: observe_message_def)
  show ?thesis
  proof (cases "is_terminal (qt_outcome (outcome_check e n t))")
    case True
    then have eq: "observe_message e n m t = outcome_check e n t" using e by (simp add: observe_message_def Let_def)
    from check_settles [OF live True] obtain r where r: "qt_outcome (outcome_check e n t) = Unknown r"
      "(r = EpochChanged \<and> e \<noteq> qt_connection_epoch t) \<or> (r = TimedOut \<and> e = qt_connection_epoch t \<and> qt_deadline t \<le> n)"
      by blast
    with e show ?thesis by (auto simp: settles_def eq)
  next
    case False
    have c: "outcome_check e n t = t" "e = qt_connection_epoch t" "n < qt_deadline t"
      using check_live [OF False] by blast+
    with e have eq: "observe_message e n m t =
        (case apply_message t m of None \<Rightarrow> t | Some next \<Rightarrow> t\<lparr>qt_outcome := next\<rparr>)"
      using live by (simp only: observe_message_def Let_def c(1) if_False)
    with out live obtain out where "apply_message t m = Some out" "is_terminal out"
      by (cases "apply_message t m") auto
    with eq c apply_evidence show ?thesis by (auto simp: settles_def)
  qed
qed

lemma step_settles:
  assumes "\<not> is_terminal (qt_outcome t)" "is_terminal (qt_outcome (outcome_step e t))"
  shows "settles t e (qt_outcome (outcome_step e t))"
proof (cases e)
  case (Observe ep received m)
  then show ?thesis using observe_settles assms by simp
next
  case (CheckAt ep now)
  with assms check_settles [of t ep now] show ?thesis by (auto simp: settles_def)
next
  case (MarkUnknown r)
  with assms show ?thesis by (auto simp: settles_def mark_unknown_def)
qed

lemma settles_same: "same_quote t u \<Longrightarrow> settles u e out = settles t e out"
proof -
  assume s: "same_quote t u"
  then have "gives_up u e r = gives_up t e r" for r by (cases e) (simp_all add: same_quote_def)
  with s evidence_same [OF s] show ?thesis by (auto simp: settles_def same_quote_def)
qed

lemma first_terminal:
  assumes "\<not> is_terminal (qt_outcome t)" "is_terminal (qt_outcome (fold outcome_step es t))"
  shows "\<exists>pre e post. es = pre @ e # post \<and> \<not> is_terminal (qt_outcome (fold outcome_step pre t)) \<and>
     fold outcome_step es t = outcome_step e (fold outcome_step pre t)"
  using assms
proof (induction es arbitrary: t)
  case (Cons e es)
  show ?case
  proof (cases "is_terminal (qt_outcome (outcome_step e t))")
    case True
    with Cons.prems show ?thesis
      by (intro exI [of _ "[]"] exI [of _ e] exI [of _ es]) (simp add: terminal_run)
  next
    case False
    with Cons obtain pre e' post where *: "es = pre @ e' # post"
      "\<not> is_terminal (qt_outcome (fold outcome_step pre (outcome_step e t)))"
      "fold outcome_step es (outcome_step e t) = outcome_step e' (fold outcome_step pre (outcome_step e t))"
      by force
    then show ?thesis
      by (intro exI [of _ "e # pre"] exI [of _ e'] exI [of _ post]) simp
  qed
qed simp


definition sample_fill :: "outcome_event list" where
  "sample_fill = [Observe 4 10 (QuoteAcknowledged 1 [7]), Observe 4 11 (QuoteFilled 1 [8] ''other''),
     Observe 4 12 (QuoteSelected 1 [7]), Observe 4 13 (QuoteFilled 1 [7] ''fill''), CheckAt 5 99]"


end
