(* ===== verification/Handshake.thy ===== *)
theory Handshake
  imports Managed
begin

text \<open>
  Authentication before a session is ready (\<^verbatim>\<open>src/src/ws/managed/session_auth.rs\<close>). The socket is not split
  yet: requests are written on it directly and frames are read from it one by one. What the server will
  send is a list of reads, what becomes of each write a list of outcomes; running out of reads means that
  the client is still waiting, which is the result \<open>None\<close>.
\<close>

section \<open>The unsplit socket\<close>

datatype wire_read = ReadMessage ServerMessage | ReadFailed | ReadClosed

record Wire =
  wi_writes :: "bool list"
  wi_sent :: "ClientMessage list"
  wi_seen :: "ServerMessage list"
  wi_resume :: "string option"
  wi_challenge :: "string option"
  wi_uuid :: "nat \<Rightarrow> uuid"
  wi_uuids :: nat

text \<open>A write that fails or times out sends nothing that counts; when the outcomes run out, writes succeed.\<close>

definition write_message :: "'e \<Rightarrow> ClientMessage \<Rightarrow> Wire \<Rightarrow> ('e, unit) res \<times> Wire" where
  "write_message err m w =
     (case wi_writes w of
        False # rest \<Rightarrow> (Err err, w\<lparr>wi_writes := rest\<rparr>)
      | ok \<Rightarrow> (Ok (), w\<lparr>wi_writes := tl ok, wi_sent := wi_sent w @ [m]\<rparr>))"

definition see :: "ServerMessage \<Rightarrow> Wire \<Rightarrow> Wire" where
  "see m w = w\<lparr>wi_seen := wi_seen w @ [m]\<rparr>"

text \<open>
  The shape of every loop of this phase: read a frame, publish it, act on it; the action says whether the
  loop goes on (\<open>Ok None\<close>), is left with a value, or fails.
\<close>

type_synonym ('e, 'a) action = "ServerMessage \<Rightarrow> Wire \<Rightarrow> ('e, 'a option) res \<times> Wire"
type_synonym ('e, 'a) answered = "('e, 'a) res option \<times> wire_read list \<times> Wire"

fun serve :: "'e \<Rightarrow> 'e \<Rightarrow> ('e, 'a) action \<Rightarrow> wire_read list \<Rightarrow> Wire \<Rightarrow> ('e, 'a) answered" where
  "serve failed shut act [] w = (None, [], w)"
| "serve failed shut act (ReadFailed # rs) w = (Some (Err failed), rs, w)"
| "serve failed shut act (ReadClosed # rs) w = (Some (Err shut), rs, w)"
| "serve failed shut act (ReadMessage m # rs) w =
     (case act m (see m w) of
        (Ok None, w') \<Rightarrow> serve failed shut act rs w'
      | (Ok (Some a), w') \<Rightarrow> (Some (Ok a), rs, w')
      | (Err e, w') \<Rightarrow> (Some (Err e), rs, w')
      | (Panic, w') \<Rightarrow> (Some Panic, rs, w'))"

definition and_then :: "('e, 'a) answered \<Rightarrow> ('a \<Rightarrow> wire_read list \<Rightarrow> Wire \<Rightarrow> ('e, 'b) answered) \<Rightarrow> ('e, 'b) answered" where
  "and_then r f =
     (case r of
        (Some (Ok a), rs, w) \<Rightarrow> f a rs w
      | (Some (Err e), rs, w) \<Rightarrow> (Some (Err e), rs, w)
      | (Some Panic, rs, w) \<Rightarrow> (Some Panic, rs, w)
      | (None, rs, w) \<Rightarrow> (None, rs, w))"

definition written :: "('e, unit) res \<times> Wire \<Rightarrow> wire_read list \<Rightarrow> ('e, unit) answered" where
  "written r rs = (Some (fst r), rs, snd r)"

section \<open>Authentication\<close>

definition control_error :: "ControlFailure \<Rightarrow> Wire \<Rightarrow> (AuthenticationError, 'a) res \<times> Wire" where
  "control_error failure w =
     (case failure of
        Retry detail \<Rightarrow> (Err (AuthRejected detail), w)
      | ClearCredentials detail \<Rightarrow> (Err (AuthRejected detail), w\<lparr>wi_resume := None\<rparr>)
      | Terminate reason \<Rightarrow> (Err (AuthTerminated reason), w))"

definition or_control :: "(AuthenticationError, 'a) action" where
  "or_control m w = (case classify m of None \<Rightarrow> (Ok None, w) | Some failure \<Rightarrow> control_error failure w)"

definition send_auth_response ::
  "crypto \<Rightarrow> ManagedWsConfig \<Rightarrow> string \<Rightarrow> Wire \<Rightarrow> (AuthenticationError, unit) res \<times> Wire" where
  "send_auth_response cr config challenge w =
     (case build_auth_response cr config challenge of
        Ok auth \<Rightarrow> write_message Transport auth w
      | Err e \<Rightarrow> (Err (SignerError e), w)
      | Panic \<Rightarrow> (Panic, w))"

definition going_on :: "('e, unit) res \<times> Wire \<Rightarrow> ('e, 'a option) res \<times> Wire" where
  "going_on r = (bind_res (fst r) (\<lambda>_. Ok None), snd r)"

fun on_welcome :: "(AuthenticationError, unit) action" where
  "on_welcome Welcome w = (Ok (Some ()), w)"
| "on_welcome m w = or_control m w"

fun on_vault_auth :: "crypto \<Rightarrow> ManagedWsConfig \<Rightarrow> (AuthenticationError, VaultAuthSuccessData option) action" where
  "on_vault_auth cr config (AuthRequest challenge) w = going_on (send_auth_response cr config challenge w)"
| "on_vault_auth cr config (VaultAuthSuccess data) w = (Ok (Some (Some data)), w)"
| "on_vault_auth cr config (AuthSuccess _) w =
     (Err (AuthRejected ''server answered vault auth with a maker session''), w)"
| "on_vault_auth cr config (AuthError code message) w = control_error (classify_auth_error code message) w"
| "on_vault_auth cr config m w = or_control m w"

definition authenticate_vault ::
  "crypto \<Rightarrow> ManagedWsConfig \<Rightarrow> key \<Rightarrow> wire_read list \<Rightarrow> Wire \<Rightarrow> (AuthenticationError, VaultAuthSuccessData option) answered" where
  "authenticate_vault cr config vault_pda rs w =
     and_then (written (write_message Transport (StartVaultAuth (wc_auth_pubkey config) vault_pda) w) rs) (\<lambda>_.
       serve Transport Transport (on_vault_auth cr config))"

text \<open>The loop after \<open>ResumeAuth\<close> is left with true once the session is resumed and false once it has expired.\<close>

fun on_resume :: "(AuthenticationError, bool) action" where
  "on_resume (AuthSuccess session_id) w = (Ok (Some True), w\<lparr>wi_resume := Some session_id\<rparr>)"
| "on_resume (AuthError code message) w =
     (if code = SessionExpired then (Ok (Some False), w\<lparr>wi_resume := None\<rparr>)
      else control_error (classify_auth_error code message) w)"
| "on_resume (AuthRequest challenge) w = (Ok None, w\<lparr>wi_challenge := Some challenge\<rparr>)"
| "on_resume m w = or_control m w"

definition try_resume :: "wire_read list \<Rightarrow> Wire \<Rightarrow> (AuthenticationError, bool) answered" where
  "try_resume rs w =
     (case wi_resume w of
        None \<Rightarrow> (Some (Ok False), rs, w)
      | Some session_id \<Rightarrow>
          and_then (written (write_message Transport (ResumeAuth session_id) w) rs) (\<lambda>_.
            serve Transport Transport on_resume))"

fun on_maker_auth :: "crypto \<Rightarrow> ManagedWsConfig \<Rightarrow> (AuthenticationError, VaultAuthSuccessData option) action" where
  "on_maker_auth cr config (AuthRequest challenge) w = going_on (send_auth_response cr config challenge w)"
| "on_maker_auth cr config (AuthSuccess session_id) w = (Ok (Some None), w\<lparr>wi_resume := Some session_id\<rparr>)"
| "on_maker_auth cr config (AuthError code message) w = control_error (classify_auth_error code message) w"
| "on_maker_auth cr config m w = or_control m w"

definition start_maker_auth :: "crypto \<Rightarrow> ManagedWsConfig \<Rightarrow> Wire \<Rightarrow> (AuthenticationError, unit) res \<times> Wire" where
  "start_maker_auth cr config w =
     (case wi_challenge w of
        Some challenge \<Rightarrow> send_auth_response cr config challenge w
      | None \<Rightarrow> write_message Transport (StartAuth (wc_auth_pubkey config)) w)"

definition authenticate ::
  "crypto \<Rightarrow> ManagedWsConfig \<Rightarrow> wire_read list \<Rightarrow> Wire \<Rightarrow> (AuthenticationError, VaultAuthSuccessData option) answered" where
  "authenticate cr config rs w =
     and_then (written (write_message Transport Hello w) rs) (\<lambda>_ rs w.
     and_then (serve Transport Transport on_welcome rs w) (\<lambda>_ rs w.
     case wc_vault_pda config of
       Some vault_pda \<Rightarrow> authenticate_vault cr config vault_pda rs w
     | None \<Rightarrow>
         and_then (try_resume rs w) (\<lambda>resumed rs w.
         if resumed then (Some (Ok None), rs, w)
         else and_then (written (start_maker_auth cr config w) rs) (\<lambda>_.
           serve Transport Transport (on_maker_auth cr config)))))"

section \<open>Rules for the loop\<close>

text \<open>
  \<open>action_keeps P Q act\<close>: the action keeps the invariant \<open>P\<close> of the socket, and leaves the loop with values
  that satisfy \<open>Q\<close>. A loop then has both, and so has a sequence.
\<close>

definition ends :: "(Wire \<Rightarrow> bool) \<Rightarrow> ('a \<Rightarrow> Wire \<Rightarrow> bool) \<Rightarrow> ('e, 'a) answered \<Rightarrow> bool" where
  "ends P Q r \<longleftrightarrow> (case r of (out, rs, w) \<Rightarrow> P w \<and> (\<forall>a. out = Some (Ok a) \<longrightarrow> Q a w))"

definition action_keeps :: "(Wire \<Rightarrow> bool) \<Rightarrow> ('a \<Rightarrow> Wire \<Rightarrow> bool) \<Rightarrow> ('e, 'a) action \<Rightarrow> bool" where
  "action_keeps P Q act \<longleftrightarrow>
     (\<forall>m w out w'. P w \<longrightarrow> act m (see m w) = (out, w') \<longrightarrow> P w' \<and> (\<forall>a. out = Ok (Some a) \<longrightarrow> Q a w'))"

lemma serve_ends:
  assumes act: "action_keeps P Q act" and "P w"
  shows "ends P Q (serve failed shut act rs w)"
  using assms(2)
proof (induction rs arbitrary: w)
  case (Cons r rs)
  show ?case
  proof (cases r)
    case (ReadMessage m)
    obtain out w' where out: "act m (see m w) = (out, w')" by force
    with act Cons.prems have keeps: "P w'" "\<And>a. out = Ok (Some a) \<Longrightarrow> Q a w'"
      unfolding action_keeps_def by blast+
    show ?thesis
    proof (cases out)
      case (Ok a)
      with ReadMessage out keeps Cons.IH show ?thesis by (cases a) (simp_all add: ends_def)
    qed (use ReadMessage out keeps in \<open>simp_all add: ends_def\<close>)
  qed (use Cons.prems in \<open>simp_all add: ends_def\<close>)
qed (simp add: ends_def)

lemma and_then_ends:
  assumes "ends P Q r" and "\<And>a rs w. P w \<Longrightarrow> Q a w \<Longrightarrow> ends P' Q' (f a rs w)" and "\<And>w. P w \<Longrightarrow> P' w"
  shows "ends P' Q' (and_then r f)"
proof -
  obtain out rs w where r: "r = (out, rs, w)" by (cases r)
  show ?thesis
  proof (cases out)
    case None
    with r assms show ?thesis by (simp add: and_then_def ends_def)
  next
    case (Some a)
    with r assms show ?thesis by (cases a) (auto simp: and_then_def ends_def)
  qed
qed

lemma written_ends:
  assumes "P (snd r)" "\<And>a. fst r = Ok a \<Longrightarrow> Q a (snd r)"
  shows "ends P Q (written r rs)"
  using assms by (simp add: written_def ends_def)

section \<open>What authentication may send\<close>

definition valid_challenge :: "crypto \<Rightarrow> ManagedWsConfig \<Rightarrow> string \<Rightarrow> bool" where
  "valid_challenge cr config c \<longleftrightarrow>
     (case wc_vault_pda config of
        Some vault \<Rightarrow> validate_vault_auth_challenge cr c (wc_auth_pubkey config) vault = Ok ()
      | None \<Rightarrow> validate_maker_auth_challenge c = Ok ())"

fun sent_ok :: "crypto \<Rightarrow> ManagedWsConfig \<Rightarrow> ServerMessage set \<Rightarrow> ClientMessage \<Rightarrow> bool" where
  "sent_ok cr config seen Hello = True"
| "sent_ok cr config seen (AuthChallenge c signature k) =
     (AuthRequest c \<in> seen \<and> valid_challenge cr config c \<and> k = wc_auth_pubkey config \<and>
      challenge_sign cr (wc_signing config) c = Ok signature)"
| "sent_ok cr config seen (StartAuth k) = (k = wc_auth_pubkey config \<and> wc_vault_pda config = None)"
| "sent_ok cr config seen (StartVaultAuth k v) = (k = wc_auth_pubkey config \<and> wc_vault_pda config = Some v)"
| "sent_ok cr config seen (ResumeAuth _) = (wc_vault_pda config = None)"
| "sent_ok cr config seen _ = False"

definition greeted :: "Wire \<Rightarrow> bool" where
  "greeted w \<longleftrightarrow> set (wi_sent w) \<subseteq> {Hello} \<and> wi_challenge w = None"

definition auth_ok :: "crypto \<Rightarrow> ManagedWsConfig \<Rightarrow> Wire \<Rightarrow> bool" where
  "auth_ok cr config w \<longleftrightarrow>
     (\<forall>m \<in> set (wi_sent w). sent_ok cr config (set (wi_seen w)) m) \<and>
     (set (wi_sent w) \<subseteq> {Hello} \<or> Welcome \<in> set (wi_seen w)) \<and>
     (\<forall>c. wi_challenge w = Some c \<longrightarrow> AuthRequest c \<in> set (wi_seen w))"

definition welcomed :: "crypto \<Rightarrow> ManagedWsConfig \<Rightarrow> Wire \<Rightarrow> bool" where
  "welcomed cr config w \<longleftrightarrow> auth_ok cr config w \<and> Welcome \<in> set (wi_seen w)"

lemma sent_ok_mono: "sent_ok cr config A m \<Longrightarrow> A \<subseteq> B \<Longrightarrow> sent_ok cr config B m"
  by (cases m) auto

lemma see_simps [simp]:
  "wi_seen (see m w) = wi_seen w @ [m]" "wi_sent (see m w) = wi_sent w" "wi_challenge (see m w) = wi_challenge w"
  "wi_resume (see m w) = wi_resume w"
  by (simp_all add: see_def)

lemma welcomed_see [simp]: "welcomed cr config w \<Longrightarrow> welcomed cr config (see m w)"
  using sent_ok_mono [of cr config "set (wi_seen w)" _ "insert m (set (wi_seen w))"]
  by (auto simp: welcomed_def auth_ok_def)

lemma welcomed_simps [simp]:
  "welcomed cr config (w\<lparr>wi_resume := r\<rparr>) = welcomed cr config w"
  by (simp add: welcomed_def auth_ok_def)

lemma welcomed_challenge:
  "welcomed cr config w \<Longrightarrow> AuthRequest c \<in> set (wi_seen w) \<Longrightarrow> welcomed cr config (w\<lparr>wi_challenge := Some c\<rparr>)"
  by (auto simp: welcomed_def auth_ok_def)

lemma write_cases:
  obtains (sent) rest where "write_message e m w = (Ok (), w\<lparr>wi_writes := rest, wi_sent := wi_sent w @ [m]\<rparr>)"
  | (failed) rest where "write_message e m w = (Err e, w\<lparr>wi_writes := rest\<rparr>)"
proof (cases "wi_writes w")
  case Nil
  then show ?thesis using sent [of "[]"] by (simp add: write_message_def)
next
  case (Cons b rest)
  then show ?thesis using sent [of rest] failed [of rest] by (cases b) (simp_all add: write_message_def)
qed

lemma welcomed_write:
  assumes "welcomed cr config w" "sent_ok cr config (set (wi_seen w)) m"
  shows "welcomed cr config (snd (write_message e m w))"
  by (rule write_cases [of e m w]) (use assms in \<open>auto simp: welcomed_def auth_ok_def\<close>)

lemma welcomed_response:
  assumes "welcomed cr config w" "AuthRequest c \<in> set (wi_seen w)"
  shows "welcomed cr config (snd (send_auth_response cr config c w))"
proof (cases "build_auth_response cr config c")
  case (Ok auth)
  then obtain signature where "auth = AuthChallenge c signature (wc_auth_pubkey config)" "valid_challenge cr config c"
    "challenge_sign cr (wc_signing config) c = Ok signature"
    by (auto simp: build_auth_response_def valid_challenge_def bind_res_eq_Ok split: option.splits)
  with Ok assms show ?thesis by (simp add: send_auth_response_def welcomed_write)
qed (use assms in \<open>simp_all add: send_auth_response_def\<close>)

lemma control_error_fails:
  "control_error failure w = (out, w') \<Longrightarrow> (\<exists>e. out = Err e) \<and> (w' = w \<or> w' = w\<lparr>wi_resume := None\<rparr>)"
  by (auto simp: control_error_def split: ControlFailure.splits)

lemma control_error_keeps:
  "control_error failure w = (out, w') \<Longrightarrow> welcomed cr config w \<Longrightarrow> welcomed cr config w' \<and> (\<forall>a. out \<noteq> Ok a)"
  by (auto dest: control_error_fails)

lemma or_control_keeps:
  "or_control m w = (out, w') \<Longrightarrow> (out = Ok None \<or> (\<exists>e. out = Err e)) \<and> (w' = w \<or> w' = w\<lparr>wi_resume := None\<rparr>)"
  by (auto simp: or_control_def dest: control_error_fails split: option.splits)

lemma going_on_keeps: "going_on r = (out, w') \<Longrightarrow> w' = snd r \<and> (\<forall>a. out \<noteq> Ok (Some a))"
  by (cases "fst r") (auto simp: going_on_def)

lemma welcomed_reply:
  "welcomed cr config w \<Longrightarrow>
     welcomed cr config (snd (send_auth_response cr config c (see (AuthRequest c) w)))"
  by (intro welcomed_response) simp_all

text \<open>What the two ways to succeed have seen.\<close>

definition maker_granted :: "Wire \<Rightarrow> bool" where
  "maker_granted w \<longleftrightarrow> (\<exists>s. AuthSuccess s \<in> set (wi_seen w) \<and> wi_resume w = Some s)"

lemma on_vault_keeps:
  "action_keeps (welcomed cr config) (\<lambda>v w. \<exists>d. v = Some d \<and> VaultAuthSuccess d \<in> set (wi_seen w)) (on_vault_auth cr config)"
  unfolding action_keeps_def
proof (intro allI impI, goal_cases)
  case (1 m w out w')
  show ?case
  proof (cases m)
    case (AuthRequest c)
    with 1 going_on_keeps [of "send_auth_response cr config c (see m w)" out w'] welcomed_reply show ?thesis by auto
  next
    case (AuthError code msg)
    with 1 control_error_keeps [of "classify_auth_error code msg" "see m w" out w' cr config] show ?thesis by auto
  qed (use 1 or_control_keeps [of m "see m w" out w'] in auto)
qed

lemma on_resume_keeps: "action_keeps (welcomed cr config) (\<lambda>b w. b \<longrightarrow> maker_granted w) on_resume"
  unfolding action_keeps_def
proof (intro allI impI, goal_cases)
  case (1 m w out w')
  show ?case
  proof (cases m)
    case (AuthRequest c)
    with 1 welcomed_challenge [of cr config "see m w" c] show ?thesis by auto
  next
    case (AuthError code msg)
    with 1 control_error_keeps [of "classify_auth_error code msg" "see m w" out w' cr config] show ?thesis
      by (auto split: if_splits)
  qed (use 1 or_control_keeps [of m "see m w" out w'] in \<open>auto simp: maker_granted_def\<close>)
qed

lemma on_maker_keeps:
  "action_keeps (welcomed cr config) (\<lambda>v w. v = None \<and> maker_granted w) (on_maker_auth cr config)"
  unfolding action_keeps_def
proof (intro allI impI, goal_cases)
  case (1 m w out w')
  show ?case
  proof (cases m)
    case (AuthRequest c)
    with 1 going_on_keeps [of "send_auth_response cr config c (see m w)" out w'] welcomed_reply show ?thesis by auto
  next
    case (AuthError code msg)
    with 1 control_error_keeps [of "classify_auth_error code msg" "see m w" out w' cr config] show ?thesis by auto
  qed (use 1 or_control_keeps [of m "see m w" out w'] in \<open>auto simp: maker_granted_def\<close>)
qed

lemma on_welcome_keeps: "action_keeps greeted (\<lambda>_ w. Welcome \<in> set (wi_seen w)) on_welcome"
  unfolding action_keeps_def
proof (intro allI impI, goal_cases)
  case (1 m w out w')
  then show ?case
    using or_control_keeps [of m "see m w" out w'] by (cases m) (auto simp: greeted_def)
qed

lemma greeted_hello: "wi_sent w = [] \<Longrightarrow> wi_challenge w = None \<Longrightarrow> greeted (snd (write_message e Hello w))"
  by (rule write_cases [of e Hello w]) (simp_all add: greeted_def)

lemma greeted_welcomed: "greeted w \<Longrightarrow> Welcome \<in> set (wi_seen w) \<Longrightarrow> welcomed cr config w"
  by (auto simp: greeted_def welcomed_def auth_ok_def)

lemma greeted_auth_ok: "greeted w \<Longrightarrow> auth_ok cr config w"
  by (auto simp: greeted_def auth_ok_def)

lemma vault_auth_ends:
  assumes "welcomed cr config w" "wc_vault_pda config = Some v"
  shows "ends (welcomed cr config) (\<lambda>g w. \<exists>d. g = Some d \<and> VaultAuthSuccess d \<in> set (wi_seen w))
    (authenticate_vault cr config v rs w)"
  unfolding authenticate_vault_def
proof (rule and_then_ends [OF written_ends [where P = "welcomed cr config" and Q = "\<lambda>_ _. True"]])
  show "welcomed cr config (snd (write_message Transport (StartVaultAuth (wc_auth_pubkey config) v) w))"
    using assms by (intro welcomed_write) simp_all
qed (simp_all add: serve_ends [OF on_vault_keeps])

lemma try_resume_ends:
  assumes "welcomed cr config w" "wc_vault_pda config = None"
  shows "ends (welcomed cr config) (\<lambda>b w. b \<longrightarrow> maker_granted w) (try_resume rs w)"
proof (cases "wi_resume w")
  case None
  with assms show ?thesis by (simp add: try_resume_def ends_def)
next
  case (Some s)
  have sent: "welcomed cr config (snd (write_message Transport (ResumeAuth s) w))"
    using assms by (intro welcomed_write) simp_all
  have "ends (welcomed cr config) (\<lambda>b w. b \<longrightarrow> maker_granted w)
     (and_then (written (write_message Transport (ResumeAuth s) w) rs) (\<lambda>_. serve Transport Transport on_resume))"
    by (rule and_then_ends [OF written_ends [where P = "welcomed cr config" and Q = "\<lambda>_ _. True"]])
      (simp_all add: sent serve_ends [OF on_resume_keeps])
  with Some show ?thesis by (simp add: try_resume_def)
qed

lemma start_maker_welcomed:
  assumes "welcomed cr config w" "wc_vault_pda config = None"
  shows "welcomed cr config (snd (start_maker_auth cr config w))"
proof (cases "wi_challenge w")
  case None
  have "welcomed cr config (snd (write_message Transport (StartAuth (wc_auth_pubkey config)) w))"
    using assms by (intro welcomed_write) simp_all
  with None show ?thesis by (simp add: start_maker_auth_def)
next
  case (Some c)
  with assms(1) have "AuthRequest c \<in> set (wi_seen w)" by (simp add: welcomed_def auth_ok_def)
  with Some welcomed_response [OF assms(1)] show ?thesis by (simp add: start_maker_auth_def)
qed

lemma maker_auth_ends:
  assumes "welcomed cr config w" "wc_vault_pda config = None"
  shows "ends (welcomed cr config) (\<lambda>g w. g = None \<and> maker_granted w)
    (and_then (try_resume rs w) (\<lambda>resumed rs w.
       if resumed then (Some (Ok None), rs, w)
       else and_then (written (start_maker_auth cr config w) rs) (\<lambda>_.
         serve Transport Transport (on_maker_auth cr config))))"
proof (rule and_then_ends [OF try_resume_ends [OF assms]])
  fix resumed rs' w'
  assume w': "welcomed cr config w'" "resumed \<longrightarrow> maker_granted w'"
  have "ends (welcomed cr config) (\<lambda>g w. g = None \<and> maker_granted w)
     (and_then (written (start_maker_auth cr config w') rs') (\<lambda>_. serve Transport Transport (on_maker_auth cr config)))"
    using start_maker_welcomed [OF w'(1) assms(2)] serve_ends [OF on_maker_keeps]
    by (intro and_then_ends [OF written_ends [where Q = "\<lambda>_ _. True"]]) auto
  with w' show "ends (welcomed cr config) (\<lambda>g w. g = None \<and> maker_granted w)
     (if resumed then (Some (Ok None), rs', w')
      else and_then (written (start_maker_auth cr config w') rs') (\<lambda>_. serve Transport Transport (on_maker_auth cr config)))"
    by (simp add: ends_def)
qed

definition granted :: "ManagedWsConfig \<Rightarrow> VaultAuthSuccessData option \<Rightarrow> Wire \<Rightarrow> bool" where
  "granted config g w \<longleftrightarrow>
     (case g of
        Some d \<Rightarrow> wc_vault_pda config \<noteq> None \<and> VaultAuthSuccess d \<in> set (wi_seen w)
      | None \<Rightarrow> wc_vault_pda config = None \<and> maker_granted w)"

lemma ends_weaken: "ends P Q r \<Longrightarrow> (\<And>w. P w \<Longrightarrow> P' w) \<Longrightarrow> (\<And>a w. Q a w \<Longrightarrow> Q' a w) \<Longrightarrow> ends P' Q' r"
  by (auto simp: ends_def)

lemma authenticate_ends:
  assumes "wi_sent w = []" "wi_challenge w = None"
  shows "ends (auth_ok cr config) (granted config) (authenticate cr config rs w)"
  unfolding authenticate_def
proof (rule and_then_ends [OF written_ends [where P = greeted and Q = "\<lambda>_ _. True"]])
  fix rs w
  assume "greeted w"
  then have "ends greeted (\<lambda>_ w. Welcome \<in> set (wi_seen w)) (serve Transport Transport on_welcome rs w)"
    by (rule serve_ends [OF on_welcome_keeps])
  then show "ends (auth_ok cr config) (granted config) (and_then (serve Transport Transport on_welcome rs w) (\<lambda>_ rs w.
     case wc_vault_pda config of
       Some vault_pda \<Rightarrow> authenticate_vault cr config vault_pda rs w
     | None \<Rightarrow> and_then (try_resume rs w) (\<lambda>resumed rs w.
         if resumed then (Some (Ok None), rs, w)
         else and_then (written (start_maker_auth cr config w) rs) (\<lambda>_.
           serve Transport Transport (on_maker_auth cr config)))))"
  proof (rule and_then_ends)
    fix rs w
    assume "greeted w" "Welcome \<in> set (wi_seen w)"
    then have w: "welcomed cr config w" by (rule greeted_welcomed)
    show "ends (auth_ok cr config) (granted config) (case wc_vault_pda config of
       Some vault_pda \<Rightarrow> authenticate_vault cr config vault_pda rs w
     | None \<Rightarrow> and_then (try_resume rs w) (\<lambda>resumed rs w.
         if resumed then (Some (Ok None), rs, w)
         else and_then (written (start_maker_auth cr config w) rs) (\<lambda>_.
           serve Transport Transport (on_maker_auth cr config))))"
    proof (cases "wc_vault_pda config")
      case None
      show ?thesis
        unfolding None option.case
        by (rule ends_weaken [OF maker_auth_ends [OF w None]]) (auto simp: welcomed_def granted_def None)
    next
      case (Some v)
      show ?thesis
        unfolding Some option.case
        by (rule ends_weaken [OF vault_auth_ends [OF w Some]]) (auto simp: welcomed_def granted_def Some)
    qed
  qed (rule greeted_auth_ok)
qed (use assms greeted_hello greeted_auth_ok in \<open>auto\<close>)

text \<open>
  C13. What a client signs to authenticate. Whatever the server sends, in whatever order, until
  authentication ends or is still waiting: only the greeting is sent before the server has welcomed the
  client; a signature is sent only for a challenge that the server put and that passed the check for the
  configured mode (for a vault session, the text that names this operator and this vault), made by the
  configured signer and sent under the configured key; and authentication succeeds with a vault grant only on
  a vault session that was granted, and without one only on a maker session whose id is kept for resuming.
\<close>

theorem auth_signs_challenge:
  assumes "wi_sent w = []" and "wi_challenge w = None"
    and "authenticate cr config rs w = (out, rs', w')"
  shows "(\<forall>m \<in> set (wi_sent w'). m \<noteq> Hello \<longrightarrow> Welcome \<in> set (wi_seen w')) \<and>
    (\<forall>c signature k. AuthChallenge c signature k \<in> set (wi_sent w') \<longrightarrow>
       AuthRequest c \<in> set (wi_seen w') \<and> k = wc_auth_pubkey config \<and>
       challenge_sign cr (wc_signing config) c = Ok signature \<and>
       (case wc_vault_pda config of
          Some v \<Rightarrow> validate_vault_auth_challenge cr c k v = Ok ()
        | None \<Rightarrow> validate_maker_auth_challenge c = Ok ())) \<and>
    (\<forall>g. out = Some (Ok g) \<longrightarrow>
       (case g of
          Some d \<Rightarrow> wc_vault_pda config \<noteq> None \<and> VaultAuthSuccess d \<in> set (wi_seen w')
        | None \<Rightarrow> wc_vault_pda config = None \<and> (\<exists>s. AuthSuccess s \<in> set (wi_seen w') \<and> wi_resume w' = Some s)))"
proof -
  have e: "auth_ok cr config w'" "\<And>g. out = Some (Ok g) \<Longrightarrow> granted config g w'"
    using authenticate_ends [OF assms(1,2), of cr config rs] assms(3) by (auto simp: ends_def)
  have "sent_ok cr config (set (wi_seen w')) (AuthChallenge c signature k)"
    if "AuthChallenge c signature k \<in> set (wi_sent w')" for c signature k
    using e(1) that by (auto simp: auth_ok_def)
  then show ?thesis
    using e by (fastforce simp: auth_ok_def granted_def maker_granted_def valid_challenge_def split: option.splits)
qed

text \<open>A vault session in which the server welcomes, asks and grants.\<close>

definition sample_vault_config :: ManagedWsConfig where
  "sample_vault_config = \<lparr>wc_endpoint = VaultEndpoint, wc_auth_pubkey = replicate 32 1,
     wc_signing = LocalSigner \<lparr>sg_pubkey = replicate 32 1, sg_sign = (\<lambda>_. replicate 64 5)\<rparr>,
     wc_vault_pda = Some (replicate 32 2), wc_initial_subscribe = None, wc_reconnect_delay = 1000,
     wc_max_reconnect_delay = 30000, wc_max_reconnect_attempts = 5, wc_command_buffer = 4, wc_max_pending_awaits = 4\<rparr>"

definition sample_challenge :: string where
  "sample_challenge = vault_challenge letter_crypto (replicate 32 1) (replicate 32 2)
     (replicate 64 CHR ''a'') (utc_text 2026 2 28 23 59 59)"

definition sample_grant :: VaultAuthSuccessData where
  "sample_grant = \<lparr>va_vault_pda = replicate 32 2, va_operator = replicate 32 1, va_permissions = 3\<rparr>"

definition sample_reads :: "wire_read list" where
  "sample_reads = map ReadMessage [Notice StatsUpdate, Welcome, AuthRequest sample_challenge, VaultAuthSuccess sample_grant]"

definition sample_wire :: Wire where
  "sample_wire = \<lparr>wi_writes = [], wi_sent = [], wi_seen = [], wi_resume = None, wi_challenge = None,
     wi_uuid = of_nat, wi_uuids = 0\<rparr>"

lemma sample_challenge_valid:
  "validate_vault_auth_challenge letter_crypto sample_challenge (replicate 32 1) (replicate 32 2) = Ok ()"
proof -
  have "wf_body (replicate 64 CHR ''a'') (utc_text 2026 2 28 23 59 59)"
    by (simp add: wf_body_def as_bytes_def list_all_iff nonce_byte_def utc_text_seconds civil_time_def
        civil_month_days_def leap_year_def)
  then show ?thesis unfolding vault_challenge_iff sample_challenge_def by blast
qed

theorem auth_signs_challenge_witness:
  "\<exists>w' signature. authenticate letter_crypto sample_vault_config sample_reads sample_wire =
       (Some (Ok (Some sample_grant)), [], w') \<and>
     AuthChallenge sample_challenge signature (replicate 32 1) \<in> set (wi_sent w') \<and>
     AuthRequest sample_challenge \<in> set (wi_seen w') \<and> VaultAuthSuccess sample_grant \<in> set (wi_seen w')"
proof -
  define s where "s = sign_message_base58 letter_crypto
    \<lparr>sg_pubkey = replicate 32 1, sg_sign = (\<lambda>_. replicate 64 5)\<rparr> (as_bytes sample_challenge)"
  have resp: "build_auth_response letter_crypto sample_vault_config sample_challenge =
      Ok (AuthChallenge sample_challenge s (replicate 32 1))"
    using sample_challenge_valid
    by (simp add: build_auth_response_def sample_vault_config_def challenge_sign_def s_def)
  have cfg: "wc_vault_pda sample_vault_config = Some (replicate 32 2)" "wc_auth_pubkey sample_vault_config = replicate 32 1"
    by (simp_all add: sample_vault_config_def)
  obtain out rs' w' where run: "authenticate letter_crypto sample_vault_config sample_reads sample_wire = (out, rs', w')"
    by (metis prod_cases3)
  then have r: "out = Some (Ok (Some sample_grant))" "rs' = []"
    "AuthChallenge sample_challenge s (replicate 32 1) \<in> set (wi_sent w')"
    by (auto simp: authenticate_def authenticate_vault_def write_message_def written_def and_then_def sample_wire_def
        sample_reads_def see_def or_control_def going_on_def send_auth_response_def resp cfg)
  from auth_signs_challenge [OF _ _ run] r show ?thesis
    using run by (auto simp: sample_wire_def)
qed

end
