(* ===== verification/Paging.thy ===== *)
theory Paging
  imports WsTypes
begin

text \<open>
  Lists that arrive in pages (\<^verbatim>\<open>src/src/paging.rs\<close>). A continuation remembers the cursors it has followed and
  refuses an empty or repeated one; \<open>fetch_all\<close> loads page after page until a page names no cursor. The
  server behind \<open>load\<close> is a parameter that carries its own state, the caller's \<open>next\<close> and \<open>append\<close> are
  parameters too. The loop need not end when the server keeps inventing cursors, so it is a partial function.
\<close>

type_synonym Continuation = "string list"

datatype InvalidPage = InvalidPage

definition advance :: "Continuation \<Rightarrow> string option \<Rightarrow> (InvalidPage, Continuation \<times> Cursor option) res" where
  "advance seen next_cursor =
     (case next_cursor of
        None \<Rightarrow> Ok (seen, None)
      | Some c \<Rightarrow> (if c = [] \<or> c \<in> set seen then Err InvalidPage else Ok (c # seen, Some (CursorAfter c))))"

partial_function (option) fetch_pages ::
  "(Cursor \<Rightarrow> 's \<Rightarrow> 's \<times> ('e, 't) res) \<Rightarrow> ('t \<Rightarrow> string option) \<Rightarrow> ('t \<Rightarrow> 't \<Rightarrow> 't) \<Rightarrow> 'e \<Rightarrow>
   Continuation \<Rightarrow> 't \<Rightarrow> 's \<Rightarrow> ('s \<times> ('e, 't) res) option" where
  "fetch_pages load cursor_of combine invalid seen all s =
     (case advance seen (cursor_of all) of
        Err _ \<Rightarrow> Some (s, Err invalid)
      | Panic \<Rightarrow> Some (s, Panic)
      | Ok (seen', None) \<Rightarrow> Some (s, Ok all)
      | Ok (seen', Some cursor) \<Rightarrow>
          (case load cursor s of
             (s', Ok page) \<Rightarrow> fetch_pages load cursor_of combine invalid seen' (combine all page) s'
           | (s', Err e) \<Rightarrow> Some (s', Err e)
           | (s', Panic) \<Rightarrow> Some (s', Panic)))"

definition fetch_all ::
  "(Cursor \<Rightarrow> 's \<Rightarrow> 's \<times> ('e, 't) res) \<Rightarrow> ('t \<Rightarrow> string option) \<Rightarrow> ('t \<Rightarrow> 't \<Rightarrow> 't) \<Rightarrow> 'e \<Rightarrow> 's \<Rightarrow>
   ('s \<times> ('e, 't) res) option" where
  "fetch_all load cursor_of combine invalid s =
     (case load CursorStart s of
        (s', Ok all) \<Rightarrow> fetch_pages load cursor_of combine invalid [] all s'
      | (s', Err e) \<Rightarrow> Some (s', Err e)
      | (s', Panic) \<Rightarrow> Some (s', Panic))"

declare fetch_pages.simps [code]

section \<open>Chains of pages\<close>

text \<open>
  The pages of a complete list: each page but the last names the cursor the next one was loaded with. The
  rule carries the server state along, and the cursors followed.
\<close>

inductive pages_chain ::
  "(Cursor \<Rightarrow> 's \<Rightarrow> 's \<times> ('e, 't) res) \<Rightarrow> ('t \<Rightarrow> string option) \<Rightarrow> 't \<Rightarrow> 's \<Rightarrow> string list \<Rightarrow> 't list \<Rightarrow> 's \<Rightarrow> bool"
  for load :: "Cursor \<Rightarrow> 's \<Rightarrow> 's \<times> ('e, 't) res" and cursor_of :: "'t \<Rightarrow> string option" where
  last_page: "cursor_of page = None \<Longrightarrow> pages_chain load cursor_of page s [] [] s"
| more_pages: "cursor_of page = Some c \<Longrightarrow> load (CursorAfter c) s = (s', Ok page') \<Longrightarrow>
     pages_chain load cursor_of page' s' cs ps s'' \<Longrightarrow>
     pages_chain load cursor_of page s (c # cs) (page' # ps) s''"

lemma advance_None [simp]: "advance seen None = Ok (seen, None)"
  by (simp add: advance_def)

lemma advance_Some:
  "advance seen (Some c) = (if c = [] \<or> c \<in> set seen then Err InvalidPage else Ok (c # seen, Some (CursorAfter c)))"
  by (simp add: advance_def)

text \<open>What a completed run of the loop has collected; used as the induction predicate of the loop.\<close>

definition collected ::
  "(Cursor \<Rightarrow> 's \<Rightarrow> 's \<times> ('e, 't) res) \<Rightarrow> ('t \<Rightarrow> string option) \<Rightarrow> ('t \<Rightarrow> 't \<Rightarrow> 't) \<Rightarrow> 'e \<Rightarrow> Continuation \<Rightarrow> 't \<Rightarrow> 's \<Rightarrow>
   's \<times> ('e, 't) res \<Rightarrow> bool" where
  "collected load cursor_of combine invalid seen all s r \<longleftrightarrow>
     (\<forall>a p. cursor_of (combine a p) = cursor_of p) \<longrightarrow>
     (\<forall>s' result page. r = (s', Ok result) \<longrightarrow> cursor_of all = cursor_of page \<longrightarrow>
       (\<exists>cs ps. pages_chain load cursor_of page s cs ps s' \<and> result = foldl combine all ps \<and>
          distinct cs \<and> set cs \<inter> set seen = {}))"

lemma fetch_pages_complete:
  assumes "fetch_pages load cursor_of combine invalid seen all s = Some r"
  shows "collected load cursor_of combine invalid seen all s r"
proof (rule fetch_pages.raw_induct [OF _ assms])
  fix fetch and load :: "Cursor \<Rightarrow> 's \<Rightarrow> 's \<times> ('e, 't) res" and cursor_of combine invalid seen all s r
  assume IH: "\<And>load cursor_of combine invalid seen all s y.
      fetch load cursor_of combine invalid seen all s = Some y \<Longrightarrow> collected load cursor_of combine invalid seen all s y"
    and body: "(case advance seen (cursor_of all) of
        Err _ \<Rightarrow> Some (s, Err invalid) | Panic \<Rightarrow> Some (s, Panic) | Ok (seen', None) \<Rightarrow> Some (s, Ok all)
      | Ok (seen', Some cursor) \<Rightarrow>
          (case load cursor s of
             (s', Ok page) \<Rightarrow> fetch load cursor_of combine invalid seen' (combine all page) s'
           | (s', Err e) \<Rightarrow> Some (s', Err e) | (s', Panic) \<Rightarrow> Some (s', Panic))) = Some r"
  show "collected load cursor_of combine invalid seen all s r"
    unfolding collected_def
  proof (intro impI allI)
    fix s' result page
    assume combine: "\<forall>a p. cursor_of (combine a p) = cursor_of p" and r: "r = (s', Ok result)"
      and page: "cursor_of all = cursor_of page"
    show "\<exists>cs ps. pages_chain load cursor_of page s cs ps s' \<and> result = foldl combine all ps \<and>
       distinct cs \<and> set cs \<inter> set seen = {}"
    proof (cases "cursor_of all")
      case None
      with body r have "s' = s" "result = all" by simp_all
      with None page show ?thesis by (intro exI [of _ "[]"]) (simp add: pages_chain.last_page)
    next
      case (Some c)
      with body r have fresh: "c \<noteq> []" "c \<notin> set seen" by (auto simp: advance_Some split: if_splits)
      obtain s1 lr where load: "load (CursorAfter c) s = (s1, lr)" by force
      with body r Some fresh obtain page' where lr: "lr = Ok page'"
        and rec: "fetch load cursor_of combine invalid (c # seen) (combine all page') s1 = Some r"
        by (cases lr) (auto simp: advance_Some)
      from IH [OF rec] combine r obtain cs ps where
        *: "pages_chain load cursor_of page' s1 cs ps s'" "result = foldl combine (combine all page') ps"
          "distinct cs" "set cs \<inter> set (c # seen) = {}" unfolding collected_def by metis
      have "pages_chain load cursor_of page s (c # cs) (page' # ps) s'"
        using pages_chain.more_pages [of cursor_of page c load s s1 page' cs ps s'] load lr Some page * by simp
      with * fresh show ?thesis by (intro exI [of _ "c # cs"] exI [of _ "page' # ps"]) auto
    qed
  qed
qed

text \<open>With finitely many cursors the loop ends: every round uses up one.\<close>

lemma fetch_pages_returns:
  assumes combine: "\<And>a p. cursor_of (combine a p) = cursor_of p"
    and fin: "finite C"
    and pages: "\<And>c s s' p. load c s = (s', Ok p) \<Longrightarrow> cursor_of p \<in> insert None (Some ` C)"
    and "cursor_of all \<in> insert None (Some ` C)"
  shows "\<exists>r. fetch_pages load cursor_of combine invalid seen all s = Some r"
  using assms(4)
proof (induction "card (C - set seen)" arbitrary: seen all s rule: less_induct)
  case less
  show ?case
  proof (cases "cursor_of all")
    case None
    then show ?thesis by (subst fetch_pages.simps) simp
  next
    case (Some c)
    show ?thesis
    proof (cases "c = [] \<or> c \<in> set seen")
      case True
      with Some show ?thesis by (subst fetch_pages.simps) (simp add: advance_Some)
    next
      case False
      obtain s1 lr where load: "load (CursorAfter c) s = (s1, lr)" by force
      have "c \<in> C" using less.prems Some by auto
      with False have "card (C - set (c # seen)) < card (C - set seen)"
        using fin by (intro psubset_card_mono) auto
      moreover have "cursor_of (combine all page) \<in> insert None (Some ` C)" if "lr = Ok page" for page
        using pages load combine that by metis
      ultimately have "\<exists>r. fetch_pages load cursor_of combine invalid (c # seen) (combine all page) s1 = Some r"
        if "lr = Ok page" for page
        using less.hyps that by blast
      with Some False load show ?thesis
        by (subst fetch_pages.simps) (cases lr; simp add: advance_Some)
    qed
  qed
qed

text \<open>
  C26. A paged list is complete or an error. When the server uses finitely many cursors, fetching returns;
  when it returns a list, that list is the pages of one unbroken chain in order, from the first page to one
  that names no further cursor, and no cursor was followed twice.
\<close>

theorem fetch_all_complete:
  assumes "\<And>a p. cursor_of (combine a p) = cursor_of p"
    and "finite C"
    and "\<And>c s s' p. load c s = (s', Ok p) \<Longrightarrow> cursor_of p \<in> insert None (Some ` C)"
  shows "\<exists>s' r. fetch_all load cursor_of combine invalid s = Some (s', r) \<and>
    (\<forall>result. r = Ok result \<longrightarrow>
       (\<exists>s1 first cs ps. load CursorStart s = (s1, Ok first) \<and> pages_chain load cursor_of first s1 cs ps s' \<and>
          result = foldl combine first ps \<and> distinct cs))"
proof -
  obtain s1 lr where load: "load CursorStart s = (s1, lr)" by force
  show ?thesis
  proof (cases lr)
    case (Ok first)
    then have first: "cursor_of first \<in> insert None (Some ` C)" using assms(3) load by blast
    obtain r where r: "fetch_pages load cursor_of combine invalid [] first s1 = Some r"
      using fetch_pages_returns [of cursor_of combine C load first invalid "[]" s1] assms first by blast
    obtain s' out where out: "r = (s', out)" by force
    have "\<exists>cs ps. pages_chain load cursor_of first s1 cs ps s' \<and> result = foldl combine first ps \<and> distinct cs"
      if "out = Ok result" for result
      using fetch_pages_complete [OF r] assms(1) out that unfolding collected_def by blast
    with load Ok r out show ?thesis by (simp add: fetch_all_def)
  qed (use load in \<open>simp_all add: fetch_all_def\<close>)
qed

text \<open>Two pages behind one cursor, fetched from a server that counts its calls.\<close>

definition sample_load :: "Cursor \<Rightarrow> nat \<Rightarrow> nat \<times> (InvalidPage, nat list \<times> string option) res" where
  "sample_load c n = (n + 1, Ok (case c of CursorStart \<Rightarrow> ([1], Some ''x'') | CursorAfter i \<Rightarrow> ([2], None)))"

definition sample_combine :: "nat list \<times> string option \<Rightarrow> nat list \<times> string option \<Rightarrow> nat list \<times> string option" where
  "sample_combine a p = (fst a @ fst p, snd p)"

theorem fetch_all_complete_witness:
  "\<exists>s' r. fetch_all sample_load snd sample_combine InvalidPage 0 = Some (s', r) \<and>
     r = Ok ([1, 2], None) \<and> s' = 2"
proof -
  have sample_cursors: "snd p \<in> insert None (Some ` {''x''})" if "sample_load c s = (s', Ok p)" for c s s' p
    using that by (cases c) (auto simp: sample_load_def)
  have "\<exists>s' r. fetch_all sample_load snd sample_combine InvalidPage 0 = Some (s', r)"
    using fetch_all_complete [of snd sample_combine "{''x''}" sample_load InvalidPage 0] sample_cursors
    by (fastforce simp: sample_combine_def)
  then show ?thesis
    by (simp add: fetch_all_def sample_load_def sample_combine_def fetch_pages.simps advance_def)
qed

end
