(* ===== verification/Readiness.thy ===== *)
theory Readiness
  imports Handshake Paging
begin

text \<open>
  The readiness barrier between authentication and the ready state (\<^verbatim>\<open>src/src/ws/managed/session_ready.rs\<close>): the
  subscription snapshot and its recovery, then the reconciliation reads with all their pages. Fresh request
  ids are drawn from the socket's supply; the texts of failures leave out the formatted cause.
\<close>

section \<open>Requests and their replies\<close>

definition new_uuid :: "Wire \<Rightarrow> uuid \<times> Wire" where
  "new_uuid w = (wi_uuid w (wi_uuids w), w\<lparr>wi_uuids := wi_uuids w + 1\<rparr>)"

definition request_failed :: "uuid \<Rightarrow> SessionFailure" where
  "request_failed request_id = Retryable ''readiness request failed''"

definition write_request :: "ClientMessage \<Rightarrow> Wire \<Rightarrow> (SessionFailure, unit) res \<times> Wire" where
  "write_request m w = write_message (Retryable ''write failed'') m w"

text \<open>\<open>next_message\<close>: a frame is published and a control frame ends the barrier.\<close>

definition barrier :: "(SessionFailure, 'a) action \<Rightarrow> (SessionFailure, 'a) action" where
  "barrier act m w = (case from_control m of Some failure \<Rightarrow> (Err failure, w) | None \<Rightarrow> act m w)"

definition next_messages :: "(SessionFailure, 'a) action \<Rightarrow> wire_read list \<Rightarrow> Wire \<Rightarrow> (SessionFailure, 'a) answered" where
  "next_messages act = serve (Retryable ''read failed'') (Retryable ''connection closed during readiness barrier'') (barrier act)"

fun reply_action :: "uuid \<Rightarrow> (ServerMessage \<Rightarrow> 'a option) \<Rightarrow> (SessionFailure, 'a) action" where
  "reply_action request_id reply m w =
     (case reply m of
        Some a \<Rightarrow> (Ok (Some a), w)
      | None \<Rightarrow>
          (case m of
             RequestError r _ \<Rightarrow> if r = request_id then (Err (request_failed r), w) else (Ok None, w)
           | _ \<Rightarrow> (Ok None, w)))"

fun subscriptions_reply :: "uuid \<Rightarrow> ServerMessage \<Rightarrow> SubscriptionsMessage option" where
  "subscriptions_reply request_id (Subscriptions d) = (if sm_request_id d = request_id then Some d else None)"
| "subscriptions_reply request_id _ = None"

definition wait_for_subscriptions :: "uuid \<Rightarrow> wire_read list \<Rightarrow> Wire \<Rightarrow> (SessionFailure, SubscriptionsMessage) answered" where
  "wait_for_subscriptions request_id = next_messages (reply_action request_id (subscriptions_reply request_id))"

definition wait_for_subscribe_ack :: "uuid \<Rightarrow> wire_read list \<Rightarrow> Wire \<Rightarrow> (SessionFailure, unit) answered" where
  "wait_for_subscribe_ack request_id =
     next_messages (reply_action request_id (\<lambda>m. if m = SubscribeAck request_id then Some () else None))"

definition wait_for_unsubscribe_ack :: "uuid \<Rightarrow> wire_read list \<Rightarrow> Wire \<Rightarrow> (SessionFailure, unit) answered" where
  "wait_for_unsubscribe_ack request_id =
     next_messages (reply_action request_id (\<lambda>m. if m = UnsubscribeAck request_id then Some () else None))"

section \<open>Subscriptions\<close>

definition append_subscriptions :: "SubscriptionsMessage \<Rightarrow> SubscriptionsMessage \<Rightarrow> SubscriptionsMessage" where
  "append_subscriptions all page =
     all\<lparr>sm_channels := sm_channels all @ sm_channels page,
        sm_underlying_mints := sm_underlying_mints all @ sm_underlying_mints page,
        sm_quote_mints := sm_quote_mints all @ sm_quote_mints page, sm_next_cursor := sm_next_cursor page\<rparr>"

lemma serve_consumes:
  "serve failed shut act rs w = (Some (Ok a), rs', w') \<Longrightarrow> length rs' < length rs"
proof (induction rs arbitrary: w)
  case (Cons r rs)
  show ?case
  proof (cases r)
    case (ReadMessage m)
    obtain out w1 where out: "act m (see m w) = (out, w1)" by force
    show ?thesis
    proof (cases out)
      case (Ok x)
      with Cons ReadMessage out show ?thesis by (cases x) (auto simp: less_Suc_eq)
    qed (use Cons.prems ReadMessage out in auto)
  qed (use Cons.prems in auto)
qed simp

lemma wait_consumes:
  "wait_for_subscriptions r rs w = (Some (Ok a), rs', w') \<Longrightarrow> length rs' < length rs"
  unfolding wait_for_subscriptions_def next_messages_def by (rule serve_consumes)

function snapshot_pages ::
  "SubscriptionsMessage \<Rightarrow> Continuation \<Rightarrow> uuid \<Rightarrow> Cursor \<Rightarrow> wire_read list \<Rightarrow> Wire \<Rightarrow>
   (SessionFailure, SubscriptionsMessage) answered" where
  "snapshot_pages actual seen request_id cursor rs w =
     (case write_request (GetSubscriptions request_id cursor) w of
        (Ok _, w1) \<Rightarrow>
          (case wait_for_subscriptions request_id rs w1 of
             (Some (Ok page), rs', w2) \<Rightarrow>
               let actual' = append_subscriptions actual page in
               (case advance seen (sm_next_cursor actual') of
                  Ok (seen', None) \<Rightarrow> (Some (Ok actual'), rs', w2)
                | Ok (seen', Some cursor') \<Rightarrow>
                    (case new_uuid w2 of (request_id', w3) \<Rightarrow> snapshot_pages actual' seen' request_id' cursor' rs' w3)
                | Err _ \<Rightarrow> (Some (Err (Retryable ''page returned an empty or repeated continuation'')), rs', w2)
                | Panic \<Rightarrow> (Some Panic, rs', w2))
           | (Some (Err e), rs', w2) \<Rightarrow> (Some (Err e), rs', w2)
           | (Some Panic, rs', w2) \<Rightarrow> (Some Panic, rs', w2)
           | (None, rs', w2) \<Rightarrow> (None, rs', w2))
      | (Err e, w1) \<Rightarrow> (Some (Err e), rs, w1)
      | (Panic, w1) \<Rightarrow> (Some Panic, rs, w1))"
  by pat_completeness auto
termination
  by (relation "measure (\<lambda>(_, _, _, _, rs, _). length rs)") (auto dest: wait_consumes [OF sym])

definition recover_subscriptions :: "SubscriptionRecovery \<Rightarrow> wire_read list \<Rightarrow> Wire \<Rightarrow> (SessionFailure, unit) answered" where
  "recover_subscriptions plan rs w =
     and_then
       (case sr_unsubscribe plan of
          None \<Rightarrow> (Some (Ok ()), rs, w)
        | Some unsubscribe \<Rightarrow>
            and_then (written (write_request (Change (Unsubscribe unsubscribe)) w) rs)
              (\<lambda>_. wait_for_unsubscribe_ack (cd_request_id unsubscribe)))
       (\<lambda>_ rs w.
        case sr_subscribe plan of
          None \<Rightarrow> (Some (Ok ()), rs, w)
        | Some subscribe \<Rightarrow>
            and_then (written (write_request (Change (Subscribe subscribe)) w) rs)
              (\<lambda>_. wait_for_subscribe_ack (sd_request_id subscribe)))"

section \<open>Reconciliation reads\<close>

definition read_page :: "PageKind \<Rightarrow> Wire \<Rightarrow> ClientMessage \<times> Wire" where
  "read_page kind w = (case new_uuid w of (request_id, w') \<Rightarrow> (GetPage kind request_id CursorStart, w'))"

fun read_pages :: "PageKind list \<Rightarrow> Wire \<Rightarrow> ClientMessage list \<times> Wire" where
  "read_pages [] w = ([], w)"
| "read_pages (k # ks) w =
     (case read_page k w of (m, w1) \<Rightarrow> case read_pages ks w1 of (ms, w2) \<Rightarrow> (m # ms, w2))"

definition quote_reads :: "PageKind list" where
  "quote_reads = [ActiveRfqs, MyQuotes]"

definition endpoint_reads :: "MakerWsEndpoint \<Rightarrow> VaultAuthSuccessData option \<Rightarrow> PageKind list" where
  "endpoint_reads endpoint vault =
     (case endpoint of
        QuoteEndpoint \<Rightarrow> quote_reads
      | DataEndpoint \<Rightarrow> [MmSummary]
      | VaultEndpoint \<Rightarrow>
          [MyActiveRfqs, Positions] @
          (if (case vault of Some v \<Rightarrow> can_maker (va_permissions v) | None \<Rightarrow> False) then MmSummary # quote_reads else []))"

fun write_all :: "ClientMessage list \<Rightarrow> Wire \<Rightarrow> (SessionFailure, unit) res \<times> Wire" where
  "write_all [] w = (Ok (), w)"
| "write_all (m # ms) w =
     (case write_request m w of (Ok _, w') \<Rightarrow> write_all ms w' | (e, w') \<Rightarrow> (e, w'))"

definition summary_reads :: "PageKind list" where
  "summary_reads = [MakerPositions, MyQuotes, MyCaps, MakerMarkets, Tokens]"

text \<open>The follow-up requests of one answered read, with the continuations of its kind.\<close>

definition reconciliation_pages ::
  "PageKind \<Rightarrow> string option \<Rightarrow> (PageKind \<Rightarrow> Continuation) \<Rightarrow> Wire \<Rightarrow>
   (SessionFailure, ClientMessage list \<times> (PageKind \<Rightarrow> Continuation)) res \<times> Wire" where
  "reconciliation_pages kind next_cursor continuations w =
     (if kind = MmSummary
      then (if next_cursor \<noteq> None
            then (case read_pages summary_reads w of (pages, w') \<Rightarrow> (Ok (pages, continuations), w'))
            else (Ok ([], continuations), w))
      else
        (case advance (continuations kind) next_cursor of
           Ok (seen, None) \<Rightarrow> (Ok ([], continuations), w)
         | Ok (seen, Some cursor) \<Rightarrow>
             (case new_uuid w of (request_id, w') \<Rightarrow>
                (Ok ([GetPage kind request_id cursor], continuations(kind := seen)), w'))
         | Err _ \<Rightarrow> (Err (Retryable ''page returned an empty or repeated continuation''), w)
         | Panic \<Rightarrow> (Panic, w)))"

fun answers_read :: "ServerMessage \<Rightarrow> ClientMessage \<Rightarrow> bool" where
  "answers_read (Page k r _) (GetPage k' r' _) = (k = k' \<and> r = r')"
| "answers_read _ _ = False"

fun is_my_quotes :: "ClientMessage \<Rightarrow> bool" where
  "is_my_quotes (GetPage k _ _) = (k = MyQuotes)"
| "is_my_quotes _ = False"

definition rejected_read :: "ServerMessage \<Rightarrow> ClientMessage list \<Rightarrow> uuid option" where
  "rejected_read m pending =
     (case m of
        RequestError r _ \<Rightarrow> if list_ex (\<lambda>q. client_request_id q = Some r) pending then Some r else None
      | _ \<Rightarrow> None)"

text \<open>The answer to one pending read: its request leaves the list, its follow-ups are written and join it.\<close>

definition take_reply ::
  "ManagedWsConfig \<Rightarrow> ServerMessage \<Rightarrow> ClientMessage list \<Rightarrow> (PageKind \<Rightarrow> Continuation) \<Rightarrow> Wire \<Rightarrow>
   (SessionFailure, ClientMessage list \<times> (PageKind \<Rightarrow> Continuation)) res \<times> Wire" where
  "take_reply config m pending continuations w =
     (case m of
        Page kind request_id next_cursor \<Rightarrow>
          (case find (answers_read m) pending of
             None \<Rightarrow> (Ok (pending, continuations), w)
           | Some request \<Rightarrow>
               (case reconciliation_pages kind next_cursor continuations w of
                  (Ok (pages, continuations'), w1) \<Rightarrow>
                    (let more = filter (\<lambda>n. \<not> (is_my_quotes n \<and> kind = MmSummary \<and> wc_endpoint config \<noteq> DataEndpoint)) pages in
                     case write_all more w1 of
                       (Ok _, w2) \<Rightarrow> (Ok (remove1 request pending @ more, continuations'), w2)
                     | (Err e, w2) \<Rightarrow> (Err e, w2)
                     | (Panic, w2) \<Rightarrow> (Panic, w2))
                | (Err e, w1) \<Rightarrow> (Err e, w1)
                | (Panic, w1) \<Rightarrow> (Panic, w1)))
      | _ \<Rightarrow> (Ok (pending, continuations), w))"

fun wait_for_reconciliation ::
  "ManagedWsConfig \<Rightarrow> ClientMessage list \<Rightarrow> (PageKind \<Rightarrow> Continuation) \<Rightarrow> wire_read list \<Rightarrow> Wire \<Rightarrow>
   (SessionFailure, unit) answered" where
  "wait_for_reconciliation config [] continuations rs w = (Some (Ok ()), rs, w)"
| "wait_for_reconciliation config pending continuations [] w = (None, [], w)"
| "wait_for_reconciliation config pending continuations (ReadFailed # rs) w = (Some (Err (Retryable ''read failed'')), rs, w)"
| "wait_for_reconciliation config pending continuations (ReadClosed # rs) w =
     (Some (Err (Retryable ''connection closed during readiness barrier'')), rs, w)"
| "wait_for_reconciliation config pending continuations (ReadMessage m # rs) w =
     (case from_control m of
        Some failure \<Rightarrow> (Some (Err failure), rs, see m w)
      | None \<Rightarrow>
          (case rejected_read m pending of
             Some r \<Rightarrow> (Some (Err (request_failed r)), rs, see m w)
           | None \<Rightarrow>
               (case take_reply config m pending continuations (see m w) of
                  (Ok (pending', continuations'), w') \<Rightarrow> wait_for_reconciliation config pending' continuations' rs w'
                | (Err e, w') \<Rightarrow> (Some (Err e), rs, w')
                | (Panic, w') \<Rightarrow> (Some Panic, rs, w'))))"

section \<open>The barrier\<close>

definition no_subscriptions :: "uuid \<Rightarrow> SubscriptionsMessage" where
  "no_subscriptions request_id =
     \<lparr>sm_next_cursor = None, sm_request_id = request_id, sm_channels = [], sm_underlying_mints = [], sm_quote_mints = []\<rparr>"

text \<open>The quote endpoint reads the server's subscriptions and brings them to the local target.\<close>

definition establish_quote :: "DesiredSubscriptions \<Rightarrow> wire_read list \<Rightarrow> Wire \<Rightarrow> (SessionFailure, unit) answered" where
  "establish_quote subscriptions rs w =
     (case new_uuid w of (request_id, w1) \<Rightarrow>
        and_then (snapshot_pages (no_subscriptions request_id) [] request_id CursorStart rs w1) (\<lambda>actual rs w.
        case new_uuid w of (id1, w) \<Rightarrow> case new_uuid w of (id2, w) \<Rightarrow>
          recover_subscriptions (recovery id1 id2 subscriptions actual) rs w))"

definition establish_vault :: "DesiredSubscriptions \<Rightarrow> wire_read list \<Rightarrow> Wire \<Rightarrow> (SessionFailure, unit) answered" where
  "establish_vault subscriptions rs w =
     (if wants_vault_feed subscriptions
      then (case new_uuid w of (id0, w) \<Rightarrow> case new_uuid w of (id1, w) \<Rightarrow> case new_uuid w of (id2, w) \<Rightarrow>
        let r = recovery id1 id2 subscriptions (no_subscriptions id0) in
        recover_subscriptions
          (r\<lparr>sr_subscribe := map_option (\<lambda>s. s\<lparr>sd_underlying_mints := [], sd_quote_mints := []\<rparr>) (sr_subscribe r)\<rparr>) rs w)
      else
        (case new_uuid w of (request_id, w) \<Rightarrow>
           and_then (written (write_request (Change (Unsubscribe \<lparr>cd_request_id = request_id, cd_channels = [Vaults]\<rparr>)) w) rs)
             (\<lambda>_. wait_for_unsubscribe_ack request_id)))"

definition establish ::
  "ManagedWsConfig \<Rightarrow> DesiredSubscriptions \<Rightarrow> VaultAuthSuccessData option \<Rightarrow> wire_read list \<Rightarrow> Wire \<Rightarrow>
   (SessionFailure, unit) answered" where
  "establish config subscriptions vault rs w =
     and_then
       (case wc_endpoint config of
          QuoteEndpoint \<Rightarrow> establish_quote subscriptions rs w
        | VaultEndpoint \<Rightarrow> establish_vault subscriptions rs w
        | DataEndpoint \<Rightarrow> (Some (Ok ()), rs, w))
       (\<lambda>_ rs w.
        case read_pages (endpoint_reads (wc_endpoint config) vault) w of (reads, w) \<Rightarrow>
          and_then (written (write_all reads w) rs) (\<lambda>_.
            wait_for_reconciliation config reads (\<lambda>_. [])))"

section \<open>Answered requests\<close>

text \<open>
  When a request of the barrier is done with: its reply has arrived, and when the reply names a further
  page (or, for the summary, further lists), that page was asked for.
\<close>

definition continued :: "ClientMessage set \<Rightarrow> PageKind \<Rightarrow> string option \<Rightarrow> bool" where
  "continued sent k n \<longleftrightarrow>
     (\<forall>c. n = Some c \<longrightarrow>
        (if k = MmSummary then \<forall>k' \<in> set summary_reads. \<exists>r. GetPage k' r CursorStart \<in> sent
         else \<exists>r. GetPage k r (CursorAfter c) \<in> sent))"

fun complete :: "ServerMessage set \<Rightarrow> ClientMessage set \<Rightarrow> ClientMessage \<Rightarrow> bool" where
  "complete seen sent (GetPage k r c) = (\<exists>n. Page k r n \<in> seen \<and> continued sent k n)"
| "complete seen sent (GetSubscriptions r c) =
     (\<exists>d. Subscriptions d \<in> seen \<and> sm_request_id d = r \<and>
        (\<forall>c'. sm_next_cursor d = Some c' \<longrightarrow> (\<exists>r'. GetSubscriptions r' (CursorAfter c') \<in> sent)))"
| "complete seen sent (Change (Subscribe d)) = (SubscribeAck (sd_request_id d) \<in> seen)"
| "complete seen sent (Change (Unsubscribe d)) = (UnsubscribeAck (cd_request_id d) \<in> seen)"
| "complete seen sent _ = True"

text \<open>\<open>settled X\<close>: every request sent is done with, except those of \<open>X\<close>; a page of \<open>X\<close> counts as asked for.\<close>

definition settled :: "ClientMessage set \<Rightarrow> Wire \<Rightarrow> bool" where
  "settled X w \<longleftrightarrow>
     (\<forall>m \<in> set (wi_sent w). m \<in> X \<or> complete (set (wi_seen w)) (set (wi_sent w) \<union> X) m)"

text \<open>\<open>extends w w'\<close>: the socket has gone on from \<open>w\<close> to \<open>w'\<close>.\<close>

definition extends :: "Wire \<Rightarrow> Wire \<Rightarrow> bool" where
  "extends w w' \<longleftrightarrow> set (wi_sent w) \<subseteq> set (wi_sent w') \<and> set (wi_seen w) \<subseteq> set (wi_seen w')"

definition waited :: "Wire \<Rightarrow> Wire \<Rightarrow> bool" where
  "waited w w' \<longleftrightarrow> wi_sent w' = wi_sent w \<and> set (wi_seen w) \<subseteq> set (wi_seen w')"

lemma continued_mono: "continued B k n \<Longrightarrow> B \<subseteq> B' \<Longrightarrow> continued B' k n"
  unfolding continued_def by (cases "k = MmSummary") (simp_all, blast+)

lemma complete_mono:
  assumes "complete A B m" "A \<subseteq> A'" "B \<subseteq> B'"
  shows "complete A' B' m"
proof (cases m)
  case (GetPage k r c)
  with assms show ?thesis using continued_mono [of B k _ B'] by auto
next
  case (GetSubscriptions r c)
  with assms show ?thesis by (simp, blast)
next
  case (Change d)
  with assms show ?thesis by (cases d) auto
qed simp_all

lemma settled_waited: "settled X w \<Longrightarrow> waited w w' \<Longrightarrow> settled X w'"
  unfolding settled_def waited_def
  using complete_mono [of "set (wi_seen w)" "set (wi_sent w) \<union> X" _ "set (wi_seen w')" "set (wi_sent w) \<union> X"]
  by auto

lemma settled_mono: "settled X w \<Longrightarrow> X \<subseteq> Y \<Longrightarrow> settled Y w"
  unfolding settled_def
  using complete_mono [of "set (wi_seen w)" "set (wi_sent w) \<union> X" _ "set (wi_seen w)" "set (wi_sent w) \<union> Y"]
  by blast

lemma settled_reply:
  assumes "settled X w" "X \<subseteq> insert m Y" "m \<in> set (wi_sent w)"
    and "complete (set (wi_seen w)) (set (wi_sent w) \<union> Y) m"
  shows "settled Y w"
  unfolding settled_def
proof
  fix q
  assume q: "q \<in> set (wi_sent w)"
  show "q \<in> Y \<or> complete (set (wi_seen w)) (set (wi_sent w) \<union> Y) q"
  proof (cases "q \<in> X")
    case True
    with assms(2,4) show ?thesis by blast
  next
    case False
    with assms(1) q have "complete (set (wi_seen w)) (set (wi_sent w) \<union> X) q" by (auto simp: settled_def)
    moreover have "set (wi_sent w) \<union> X \<subseteq> set (wi_sent w) \<union> Y" using assms(2,3) by blast
    ultimately show ?thesis using complete_mono by blast
  qed
qed

lemma settled_write:
  assumes "settled X w" "m \<in> X" "write_request m w = (Ok u, w')"
  shows "settled X w' \<and> m \<in> set (wi_sent w') \<and> extends w w'"
proof -
  obtain rest where w': "w' = w\<lparr>wi_writes := rest, wi_sent := wi_sent w @ [m]\<rparr>"
    by (rule write_cases [of "Retryable ''write failed''" m w]) (use assms(3) in \<open>auto simp: write_request_def\<close>)
  have "set (wi_sent w') \<union> X = set (wi_sent w) \<union> X" using assms(2) w' by auto
  with assms(1,2) w' show ?thesis by (auto simp: settled_def extends_def)
qed

lemma new_uuid_simps [simp]:
  "wi_sent (snd (new_uuid w)) = wi_sent w" "wi_seen (snd (new_uuid w)) = wi_seen w"
  by (simp_all add: new_uuid_def)

lemma settled_uuid [simp]: "settled X (snd (new_uuid w)) = settled X w"
  by (simp add: settled_def)

section \<open>Waiting for a reply\<close>

lemma reply_action_keeps:
  "action_keeps (waited w0) (\<lambda>a w. \<exists>m. m \<in> set (wi_seen w) \<and> reply m = Some a) (barrier (reply_action r reply))"
  unfolding action_keeps_def
proof (intro allI impI, goal_cases)
  case (1 m w out w')
  show ?case
  proof (cases "from_control m")
    case None
    show ?thesis
    proof (cases "reply m")
      case None
      with \<open>from_control m = None\<close> 1 have "(out, w') = (out, see m w) \<and> (\<forall>a. out \<noteq> Ok (Some a))"
        by (auto simp: barrier_def split: ServerMessage.splits if_splits)
      with 1 show ?thesis by (auto simp: waited_def)
    next
      case (Some a)
      with None 1 show ?thesis by (auto simp: barrier_def waited_def)
    qed
  qed (use 1 in \<open>auto simp: barrier_def waited_def\<close>)
qed

lemma next_messages_reply:
  assumes "next_messages (reply_action r reply) rs w = (Some (Ok a), rs', w')"
  shows "waited w w' \<and> (\<exists>m. m \<in> set (wi_seen w') \<and> reply m = Some a)"
proof -
  have "waited w w" by (simp add: waited_def)
  from serve_ends [OF reply_action_keeps [of w reply r] this, of "Retryable ''read failed''"
      "Retryable ''connection closed during readiness barrier''" rs] assms
  show ?thesis unfolding next_messages_def ends_def by simp
qed

lemma and_then_Ok:
  "and_then r f = (Some (Ok b), rs', w') \<Longrightarrow> \<exists>a rs w. r = (Some (Ok a), rs, w) \<and> f a rs w = (Some (Ok b), rs', w')"
  by (auto simp: and_then_def split: prod.splits option.splits res.splits)

lemma written_Ok: "written r rs = (Some (Ok u), rs', w') \<Longrightarrow> r = (Ok u, w') \<and> rs' = rs"
  by (cases r) (simp add: written_def)

text \<open>One request and its acknowledgement.\<close>

lemma acknowledged:
  assumes "settled {} w"
    and "and_then (written (write_request m w) rs) (\<lambda>_. next_messages (reply_action r reply)) = (Some (Ok a), rs', w')"
    and "\<And>x B. reply x = Some a \<Longrightarrow> complete {x} B m"
  shows "settled {} w' \<and> m \<in> set (wi_sent w') \<and> extends w w'"
proof -
  obtain u w1 where w1: "write_request m w = (Ok u, w1)" "next_messages (reply_action r reply) rs w1 = (Some (Ok a), rs', w')"
    using and_then_Ok [OF assms(2)] written_Ok by blast
  have s1: "settled {m} w1 \<and> m \<in> set (wi_sent w1) \<and> extends w w1"
    using settled_write [OF settled_mono [OF assms(1), of "{m}"] _ w1(1)] by simp
  from next_messages_reply [OF w1(2)] obtain x where x: "waited w1 w'" "x \<in> set (wi_seen w')" "reply x = Some a" by blast
  have "complete (set (wi_seen w')) (set (wi_sent w') \<union> {}) m"
    using complete_mono [OF assms(3) [OF x(3)], of "set (wi_seen w')" _] x(2) by blast
  moreover have "settled {m} w'" "m \<in> set (wi_sent w')" using s1 x settled_waited by (auto simp: waited_def)
  ultimately have "settled {} w'" using settled_reply [of "{m}" w' m "{}"] by simp
  with s1 x show ?thesis by (auto simp: extends_def waited_def)
qed

section \<open>The subscription phase\<close>

declare snapshot_pages.simps [simp del]

lemma snapshot_cases:
  assumes "snapshot_pages actual seen r c rs w = (Some (Ok a), rs', w')"
  obtains w1 page rs1 w2 seen1 co where "write_request (GetSubscriptions r c) w = (Ok (), w1)"
    and "wait_for_subscriptions r rs w1 = (Some (Ok page), rs1, w2)"
    and "advance seen (sm_next_cursor page) = Ok (seen1, co)"
    and "co = None \<Longrightarrow> w' = w2"
    and "\<And>c'. co = Some c' \<Longrightarrow> snapshot_pages (append_subscriptions actual page) seen1 (fst (new_uuid w2)) c' rs1
           (snd (new_uuid w2)) = (Some (Ok a), rs', w')"
proof -
  obtain wr w1 where wr: "write_request (GetSubscriptions r c) w = (wr, w1)" by force
  with assms have "wr = Ok ()" by (cases wr) (simp_all add: snapshot_pages.simps [of actual])
  obtain p rs1 w2 where p: "wait_for_subscriptions r rs w1 = (p, rs1, w2)" by (metis prod_cases3)
  with assms wr \<open>wr = Ok ()\<close> obtain page where page: "p = Some (Ok page)"
    by (cases p; cases "the p") (simp_all add: snapshot_pages.simps [of actual])
  have n: "sm_next_cursor (append_subscriptions actual page) = sm_next_cursor page"
    by (simp add: append_subscriptions_def)
  obtain seen1 co where adv: "advance seen (sm_next_cursor page) = Ok (seen1, co)"
    using assms wr \<open>wr = Ok ()\<close> p page n
    by (cases "advance seen (sm_next_cursor page)") (auto simp: snapshot_pages.simps [of actual])
  show thesis
  proof (rule that)
    show "write_request (GetSubscriptions r c) w = (Ok (), w1)" using wr \<open>wr = Ok ()\<close> by simp
    show "wait_for_subscriptions r rs w1 = (Some (Ok page), rs1, w2)" using p page by simp
    show "advance seen (sm_next_cursor page) = Ok (seen1, co)" by (rule adv)
    show "w' = w2" if "co = None"
      using assms wr \<open>wr = Ok ()\<close> p page n adv that by (simp add: snapshot_pages.simps [of actual] Let_def)
    show "snapshot_pages (append_subscriptions actual page) seen1 (fst (new_uuid w2)) c' rs1 (snd (new_uuid w2)) =
        (Some (Ok a), rs', w')" if "co = Some c'" for c'
      using assms wr \<open>wr = Ok ()\<close> p page n adv that
      by (simp add: snapshot_pages.simps [of actual] Let_def split: prod.splits)
  qed
qed

lemma snapshot_settled:
  assumes "settled {GetSubscriptions r c} w" "snapshot_pages actual seen r c rs w = (Some (Ok a), rs', w')"
  shows "settled {} w' \<and> GetSubscriptions r c \<in> set (wi_sent w') \<and> extends w w'"
  using assms
proof (induction "length rs" arbitrary: actual seen r c rs w rule: less_induct)
  case less
  let ?m = "GetSubscriptions r c"
  from snapshot_cases [OF less.prems(2)] obtain w1 page rs1 w2 seen1 co where
    w1: "write_request ?m w = (Ok (), w1)" and p: "wait_for_subscriptions r rs w1 = (Some (Ok page), rs1, w2)"
    and adv: "advance seen (sm_next_cursor page) = Ok (seen1, co)" and none: "co = None \<Longrightarrow> w' = w2"
    and more: "\<And>c'. co = Some c' \<Longrightarrow> snapshot_pages (append_subscriptions actual page) seen1 (fst (new_uuid w2)) c' rs1
           (snd (new_uuid w2)) = (Some (Ok a), rs', w')" by blast
  have s1: "settled {?m} w1" "?m \<in> set (wi_sent w1)" "extends w w1"
    using settled_write [OF less.prems(1) _ w1] by simp_all
  from next_messages_reply [OF p [unfolded wait_for_subscriptions_def]] obtain x where
    x: "waited w1 w2" "x \<in> set (wi_seen w2)" "subscriptions_reply r x = Some page" by blast
  then have d: "Subscriptions page \<in> set (wi_seen w2)" "sm_request_id page = r"
    by (cases x; simp split: if_splits)+
  have s2: "settled {?m} w2" "?m \<in> set (wi_sent w2)" "extends w w2"
    using s1 x settled_waited by (auto simp: waited_def extends_def)
  show ?case
  proof (cases co)
    case None
    then have n: "sm_next_cursor page = None" using adv by (auto simp: advance_def split: option.splits if_splits)
    with d have "complete (set (wi_seen w2)) (set (wi_sent w2) \<union> {}) ?m" by fastforce
    with s2 have "settled {} w2" using settled_reply [of "{?m}" w2 ?m "{}"] by simp
    with none None s2 show ?thesis by simp
  next
    case (Some c')
    let ?n = "GetSubscriptions (fst (new_uuid w2)) c'"
    have n: "\<exists>k. sm_next_cursor page = Some k \<and> c' = CursorAfter k"
      using adv Some by (auto simp: advance_def split: option.splits if_splits)
    with d have "complete (set (wi_seen w2)) (set (wi_sent w2) \<union> {?n}) ?m" by fastforce
    with s2 have "settled {?n} w2" using settled_reply [of "{?m}" w2 ?m "{?n}"] by simp
    then have "settled {} w' \<and> ?n \<in> set (wi_sent w') \<and> extends (snd (new_uuid w2)) w'"
      using less.hyps [OF wait_consumes [OF p] _ more [OF Some]] by simp
    with s2 show ?thesis by (auto simp: extends_def)
  qed
qed

lemma unsubscribe_acked:
  assumes "settled {} w"
    and "and_then (written (write_request (Change (Unsubscribe d)) w) rs) (\<lambda>_. wait_for_unsubscribe_ack (cd_request_id d)) =
      (Some (Ok a), rs', w')"
  shows "settled {} w' \<and> Change (Unsubscribe d) \<in> set (wi_sent w') \<and> extends w w'"
  by (rule acknowledged [OF assms(1) assms(2) [unfolded wait_for_unsubscribe_ack_def]]) (simp split: if_splits)

lemma subscribe_acked:
  assumes "settled {} w"
    and "and_then (written (write_request (Change (Subscribe d)) w) rs) (\<lambda>_. wait_for_subscribe_ack (sd_request_id d)) =
      (Some (Ok a), rs', w')"
  shows "settled {} w' \<and> Change (Subscribe d) \<in> set (wi_sent w') \<and> extends w w'"
  by (rule acknowledged [OF assms(1) assms(2) [unfolded wait_for_subscribe_ack_def]]) (simp split: if_splits)

lemma recover_settled:
  assumes "settled {} w" "recover_subscriptions plan rs w = (Some (Ok a), rs', w')"
  shows "settled {} w' \<and> extends w w' \<and> (\<forall>d. sr_subscribe plan = Some d \<longrightarrow> Change (Subscribe d) \<in> set (wi_sent w'))"
proof -
  from and_then_Ok [OF assms(2) [unfolded recover_subscriptions_def]] obtain u rs1 w1 where
    un: "(case sr_unsubscribe plan of None \<Rightarrow> (Some (Ok ()), rs, w)
        | Some un \<Rightarrow> and_then (written (write_request (Change (Unsubscribe un)) w) rs)
            (\<lambda>_. wait_for_unsubscribe_ack (cd_request_id un))) = (Some (Ok u), rs1, w1)"
    and sub: "(case sr_subscribe plan of None \<Rightarrow> (Some (Ok ()), rs1, w1)
        | Some d \<Rightarrow> and_then (written (write_request (Change (Subscribe d)) w1) rs1)
            (\<lambda>_. wait_for_subscribe_ack (sd_request_id d))) = (Some (Ok a), rs', w')" by blast
  have s1: "settled {} w1 \<and> extends w w1"
  proof (cases "sr_unsubscribe plan")
    case None
    with un assms(1) show ?thesis by (simp add: extends_def)
  next
    case (Some d)
    with un unsubscribe_acked [OF assms(1), of d rs u rs1 w1] show ?thesis by simp
  qed
  then show ?thesis
  proof (cases "sr_subscribe plan")
    case None
    with sub s1 show ?thesis by simp
  next
    case (Some d)
    with sub s1 subscribe_acked [of w1 d rs1 a rs' w'] show ?thesis by (auto simp: extends_def)
  qed
qed

section \<open>The reads\<close>

lemma read_pages_shape:
  "read_pages ks w = (ms, w') \<Longrightarrow>
     list_all2 (\<lambda>k m. \<exists>r. m = GetPage k r CursorStart) ks ms \<and> wi_sent w' = wi_sent w \<and> wi_seen w' = wi_seen w"
  by (induction ks arbitrary: w ms) (fastforce simp: read_page_def new_uuid_def split: prod.splits)+

lemma read_pages_kinds:
  assumes "list_all2 (\<lambda>k m. \<exists>r. m = GetPage k r CursorStart) ks ms"
  shows "k \<in> set ks \<Longrightarrow> \<exists>r. GetPage k r CursorStart \<in> set ms"
    and "GetPage k r c \<in> set ms \<Longrightarrow> k \<in> set ks \<and> c = CursorStart"
  using assms by (induction rule: list_all2_induct) auto

lemma settled_same: "wi_sent w' = wi_sent w \<Longrightarrow> wi_seen w' = wi_seen w \<Longrightarrow> settled X w' = settled X w"
  by (simp add: settled_def)

lemma write_all_settled:
  assumes "settled X w" "set ms \<subseteq> X" "write_all ms w = (Ok u, w')"
  shows "settled X w' \<and> set ms \<subseteq> set (wi_sent w') \<and> extends w w'"
  using assms
proof (induction ms arbitrary: w)
  case (Cons m ms)
  obtain r w1 where w1: "write_request m w = (r, w1)" by force
  with Cons.prems have r: "r = Ok ()" "write_all ms w1 = (Ok u, w')" by (cases r; simp)+
  have s1: "settled X w1 \<and> m \<in> set (wi_sent w1) \<and> extends w w1"
    using settled_write [of X w m "()" w1] Cons.prems w1 r by simp
  from Cons.IH [OF _ _ r(2)] s1 Cons.prems have "settled X w' \<and> set ms \<subseteq> set (wi_sent w') \<and> extends w1 w'" by simp
  with s1 show ?case by (auto simp: extends_def)
qed (auto simp: extends_def)

text \<open>
  The invariant of the reconciliation loop. On the other endpoints the quotes are read from the start, so
  the summary does not ask for them again.
\<close>

definition reconciling :: "ManagedWsConfig \<Rightarrow> ClientMessage list \<Rightarrow> Wire \<Rightarrow> bool" where
  "reconciling config pending w \<longleftrightarrow>
     settled (set pending) w \<and> set pending \<subseteq> set (wi_sent w) \<and>
     (wc_endpoint config = DataEndpoint \<or> (\<forall>r c. GetPage MmSummary r c \<notin> set pending) \<or>
      (\<exists>r. GetPage MyQuotes r CursorStart \<in> set (wi_sent w)))"

lemma reconciling_see: "reconciling config pending w \<Longrightarrow> reconciling config pending (see m w)"
  using settled_waited [of "set pending" w "see m w"] by (auto simp: reconciling_def waited_def)

lemma pages_Ok:
  assumes "reconciliation_pages k n conts w = (Ok (pages, conts'), w')"
  shows "wi_sent w' = wi_sent w \<and> wi_seen w' = wi_seen w \<and> (\<forall>r c. GetPage MmSummary r c \<notin> set pages) \<and>
    (\<forall>c. n = Some c \<longrightarrow>
      (if k = MmSummary then \<forall>k' \<in> set summary_reads. \<exists>r. GetPage k' r CursorStart \<in> set pages
       else \<exists>r. pages = [GetPage k r (CursorAfter c)]))"
proof (cases "k = MmSummary")
  case True
  show ?thesis
  proof (cases n)
    case None
    with True assms show ?thesis by (auto simp: reconciliation_pages_def)
  next
    case (Some c)
    with True assms have rp: "read_pages summary_reads w = (pages, w')"
      by (auto simp: reconciliation_pages_def split: prod.splits)
    note sh = read_pages_shape [OF rp]
    with read_pages_kinds [of summary_reads pages] True show ?thesis by (auto simp: summary_reads_def)
  qed
next
  case False
  with assms show ?thesis
    by (auto simp: reconciliation_pages_def new_uuid_def advance_def split: option.splits if_splits)
qed

lemma find_answers:
  "find (answers_read (Page k r n)) pending = Some q \<Longrightarrow> q \<in> set pending \<and> (\<exists>c. q = GetPage k r c)"
proof -
  assume "find (answers_read (Page k r n)) pending = Some q"
  then have q: "q \<in> set pending" "answers_read (Page k r n) q" by (auto simp: find_Some_iff)
  moreover from q(2) have "\<exists>c. q = GetPage k r c" by (cases q) auto
  ultimately show ?thesis by blast
qed

lemma reply_taken:
  assumes inv: "reconciling config pending w" and seen: "Page k r n \<in> set (wi_seen w)"
    and q: "q \<in> set pending" "q = GetPage k r c"
    and pages: "reconciliation_pages k n conts w = (Ok (pages, conts'), w1)"
    and extra: "extra = filter (\<lambda>p. \<not> (is_my_quotes p \<and> k = MmSummary \<and> wc_endpoint config \<noteq> DataEndpoint)) pages"
    and wrote: "write_all extra w1 = (Ok u, w2)"
  shows "reconciling config (remove1 q pending @ extra) w2 \<and> extends w w2"
proof -
  let ?Y = "set (remove1 q pending @ extra)"
  note p = pages_Ok [OF pages]
  have sub: "set pending \<union> set extra \<subseteq> insert q ?Y" using q(1) by (auto simp: in_set_remove1)
  have "settled (set pending \<union> set extra) w1"
    using inv p settled_mono [of "set pending"] settled_same [of w1 w] by (auto simp: reconciling_def)
  then have s2: "settled (set pending \<union> set extra) w2" "set extra \<subseteq> set (wi_sent w2)" "extends w1 w2"
    using write_all_settled [OF _ _ wrote] by auto
  then have ext: "extends w w2" and sent: "set pending \<subseteq> set (wi_sent w2)"
    using p inv by (auto simp: extends_def reconciling_def)
  have "continued (set (wi_sent w2)) k n"
    unfolding continued_def
  proof (intro allI impI)
    fix c'
    assume n: "n = Some c'"
    show "if k = MmSummary then \<forall>k' \<in> set summary_reads. \<exists>r. GetPage k' r CursorStart \<in> set (wi_sent w2)
       else \<exists>r. GetPage k r (CursorAfter c') \<in> set (wi_sent w2)"
    proof (cases "k = MmSummary")
      case True
      have "\<exists>r. GetPage k' r CursorStart \<in> set (wi_sent w2)" if "k' \<in> set summary_reads" for k'
      proof (cases "k' = MyQuotes \<and> wc_endpoint config \<noteq> DataEndpoint")
        case True
        with inv q \<open>k = MmSummary\<close> ext show ?thesis by (auto simp: reconciling_def extends_def)
      next
        case False
        from p n \<open>k = MmSummary\<close> that obtain r' where "GetPage k' r' CursorStart \<in> set pages" by auto
        with False extra s2(2) show ?thesis by auto
      qed
      with True show ?thesis by simp
    next
      case False
      with p n extra s2(2) show ?thesis by auto
    qed
  qed
  then have "complete (set (wi_seen w2)) (set (wi_sent w2) \<union> ?Y) q"
    using seen q(2) ext continued_mono [of "set (wi_sent w2)" k n] by (auto simp: extends_def)
  then have "settled ?Y w2"
    using settled_reply [OF s2(1) sub] q(1) sent by blast
  moreover have rest: "set (remove1 q pending) \<subseteq> set pending" by (rule set_remove1_subset)
  then have "?Y \<subseteq> set (wi_sent w2)" using sent s2(2) by auto
  moreover have "GetPage MmSummary r' c' \<notin> set extra" for r' c' using p extra by simp
  then have "wc_endpoint config = DataEndpoint \<or> (\<forall>r c. GetPage MmSummary r c \<notin> ?Y) \<or>
      (\<exists>r. GetPage MyQuotes r CursorStart \<in> set (wi_sent w2))"
    using inv ext rest unfolding reconciling_def extends_def by auto
  ultimately show ?thesis using ext by (simp add: reconciling_def)
qed

lemma take_reply_keeps:
  assumes inv: "reconciling config pending w" and seen: "m \<in> set (wi_seen w)"
    and take: "take_reply config m pending conts w = (Ok (pending', conts'), w')"
  shows "reconciling config pending' w' \<and> extends w w'"
proof (cases "\<exists>k r n. m = Page k r n")
  case False
  then have "take_reply config m pending conts w = (Ok (pending, conts), w)"
    by (cases m) (simp_all add: take_reply_def)
  with take have "pending' = pending" "w' = w" by simp_all
  with inv show ?thesis by (simp add: extends_def)
next
  case True
  then obtain k r n where m: "m = Page k r n" by blast
  show ?thesis
  proof (cases "find (answers_read m) pending")
    case None
    with take m inv show ?thesis by (simp add: take_reply_def extends_def)
  next
    case (Some q)
    obtain pr w1 where pr: "reconciliation_pages k n conts w = (pr, w1)" by force
    have eq: "take_reply config m pending conts w = (case pr of
        Ok (pages, conts') \<Rightarrow>
          (let more = filter (\<lambda>p. \<not> (is_my_quotes p \<and> k = MmSummary \<and> wc_endpoint config \<noteq> DataEndpoint)) pages in
           case write_all more w1 of (Ok _, w2) \<Rightarrow> (Ok (remove1 q pending @ more, conts'), w2)
           | (Err e, w2) \<Rightarrow> (Err e, w2) | (Panic, w2) \<Rightarrow> (Panic, w2))
      | Err e \<Rightarrow> (Err e, w1) | Panic \<Rightarrow> (Panic, w1))"
      using Some unfolding m take_reply_def by (cases pr) (auto simp: pr)
    with take obtain pages conts1 where pages: "pr = Ok (pages, conts1)" by (cases pr) auto
    define extra where "extra = filter (\<lambda>p. \<not> (is_my_quotes p \<and> k = MmSummary \<and> wc_endpoint config \<noteq> DataEndpoint)) pages"
    obtain wr w2 where wr: "write_all extra w1 = (wr, w2)" by force
    have "take_reply config m pending conts w = (case wr of
        Ok _ \<Rightarrow> (Ok (remove1 q pending @ extra, conts1), w2) | Err e \<Rightarrow> (Err e, w2) | Panic \<Rightarrow> (Panic, w2))"
      by (simp only: eq pages res.case prod.case Let_def extra_def [symmetric] wr)
    with take have out: "wr = Ok ()" "pending' = remove1 q pending @ extra" "w' = w2" by (cases wr; simp)+
    from find_answers Some m obtain c where "q \<in> set pending" "q = GetPage k r c" by blast
    from reply_taken [OF inv seen [unfolded m] this pr [unfolded pages] extra_def] wr out show ?thesis by auto
  qed
qed

lemma reconciliation_settles:
  assumes "reconciling config pending w" "wait_for_reconciliation config pending conts rs w = (Some (Ok u), rs', w')"
  shows "settled {} w' \<and> extends w w'"
  using assms
proof (induction rs arbitrary: pending conts w)
  case Nil
  then show ?case by (cases pending) (auto simp: reconciling_def extends_def)
next
  case (Cons r rs)
  show ?case
  proof (cases pending)
    case Nil
    with Cons.prems show ?thesis by (auto simp: reconciling_def extends_def)
  next
    case (Cons q qs)
    show ?thesis
    proof (cases r)
      case (ReadMessage m)
      note prems = Cons.prems(2) [unfolded ReadMessage \<open>pending = q # qs\<close>]
      have c: "from_control m = None" "rejected_read m pending = None"
        using prems \<open>pending = q # qs\<close> by (auto split: option.splits)
      obtain t w1 where t: "take_reply config m pending conts (see m w) = (t, w1)" by force
      with prems c \<open>pending = q # qs\<close> obtain pending' conts' where
        t': "t = Ok (pending', conts')" "wait_for_reconciliation config pending' conts' rs w1 = (Some (Ok u), rs', w')"
        by (cases t) auto
      have "reconciling config pending' w1 \<and> extends (see m w) w1"
        using take_reply_keeps [OF reconciling_see [OF Cons.prems(1)], of m m conts pending' conts' w1] t t' by simp
      with Cons.IH [OF _ t'(2)] show ?thesis by (auto simp: extends_def)
    qed (use Cons.prems \<open>pending = q # qs\<close> in auto)
  qed
qed

lemma establish_subscriptions:
  assumes "settled {} w"
    and "(case wc_endpoint config of
          QuoteEndpoint \<Rightarrow> establish_quote subscriptions rs w
        | VaultEndpoint \<Rightarrow> establish_vault subscriptions rs w
        | DataEndpoint \<Rightarrow> (Some (Ok ()), rs, w)) = (Some (Ok u), rs', w')"
  shows "settled {} w' \<and> extends w w' \<and>
    (\<forall>products. wc_endpoint config = QuoteEndpoint \<and> ss_products (ds_current subscriptions) = Some products \<longrightarrow>
       (\<exists>r. Change (Subscribe \<lparr>sd_products = products, sd_request_id = r,
          sd_channels = ss_channels (ds_current subscriptions),
          sd_underlying_mints = ss_underlying_mints (ds_current subscriptions),
          sd_quote_mints = ss_quote_mints (ds_current subscriptions)\<rparr>) \<in> set (wi_sent w')))"
proof (cases "wc_endpoint config")
  case QuoteEndpoint
  let ?w1 = "snd (new_uuid w)"
  from QuoteEndpoint assms(2) have run: "and_then (snapshot_pages (no_subscriptions (fst (new_uuid w))) [] (fst (new_uuid w))
      CursorStart rs ?w1) (\<lambda>actual rs w.
        case new_uuid w of (id1, w) \<Rightarrow> case new_uuid w of (id2, w) \<Rightarrow>
          recover_subscriptions (recovery id1 id2 subscriptions actual) rs w) = (Some (Ok u), rs', w')"
    by (simp add: establish_quote_def split: prod.splits)
  from and_then_Ok [OF run] obtain actual rs1 w2 where
    a: "snapshot_pages (no_subscriptions (fst (new_uuid w))) [] (fst (new_uuid w)) CursorStart rs ?w1 =
      (Some (Ok actual), rs1, w2)"
    and b: "(case new_uuid w2 of (id1, w) \<Rightarrow> case new_uuid w of (id2, w) \<Rightarrow>
          recover_subscriptions (recovery id1 id2 subscriptions actual) rs1 w) = (Some (Ok u), rs', w')" by blast
  have s1: "settled {GetSubscriptions (fst (new_uuid w)) CursorStart} ?w1"
    using settled_mono [OF assms(1)] by simp
  from snapshot_settled [OF s1 a] have s2: "settled {} w2" "extends w w2" by (auto simp: extends_def)
  let ?w3 = "snd (new_uuid (snd (new_uuid w2)))" and ?r = "fst (new_uuid (snd (new_uuid w2)))"
  have "recover_subscriptions (recovery (fst (new_uuid w2)) ?r subscriptions actual) rs1 ?w3 = (Some (Ok u), rs', w')"
    using b by (simp add: split_beta)
  from recover_settled [OF _ this] s2 have s3: "settled {} w'" "extends w w'"
    "\<forall>d. sr_subscribe (recovery (fst (new_uuid w2)) ?r subscriptions actual) = Some d \<longrightarrow> Change (Subscribe d) \<in> set (wi_sent w')"
    by (auto simp: extends_def)
  then show ?thesis by (auto simp: recovery_def Let_def)
next
  case DataEndpoint
  with assms show ?thesis by (auto simp: extends_def)
next
  case VaultEndpoint
  with assms(2) have run: "establish_vault subscriptions rs w = (Some (Ok u), rs', w')" by simp
  show ?thesis
  proof (cases "wants_vault_feed subscriptions")
    case True
    let ?w3 = "snd (new_uuid (snd (new_uuid (snd (new_uuid w)))))"
    from True run obtain plan where "recover_subscriptions plan rs ?w3 = (Some (Ok u), rs', w')"
      by (simp add: establish_vault_def split_beta Let_def)
    from recover_settled [OF _ this] assms(1) VaultEndpoint show ?thesis by (auto simp: extends_def)
  next
    case False
    let ?d = "\<lparr>cd_request_id = fst (new_uuid w), cd_channels = [Vaults]\<rparr>"
    from False run have "and_then (written (write_request (Change (Unsubscribe ?d)) (snd (new_uuid w))) rs)
        (\<lambda>_. wait_for_unsubscribe_ack (cd_request_id ?d)) = (Some (Ok u), rs', w')"
      by (simp add: establish_vault_def split_beta)
    from unsubscribe_acked [OF _ this] assms(1) VaultEndpoint show ?thesis by (auto simp: extends_def)
  qed
qed

lemma establish_settles:
  assumes "settled {} w" "establish config subscriptions vault rs w = (Some (Ok u), rs', w')"
  shows "settled {} w' \<and> (\<forall>k \<in> set (endpoint_reads (wc_endpoint config) vault). \<exists>r. GetPage k r CursorStart \<in> set (wi_sent w')) \<and>
    (\<forall>products. wc_endpoint config = QuoteEndpoint \<and> ss_products (ds_current subscriptions) = Some products \<longrightarrow>
       (\<exists>r. Change (Subscribe \<lparr>sd_products = products, sd_request_id = r,
          sd_channels = ss_channels (ds_current subscriptions),
          sd_underlying_mints = ss_underlying_mints (ds_current subscriptions),
          sd_quote_mints = ss_quote_mints (ds_current subscriptions)\<rparr>) \<in> set (wi_sent w')))"
proof -
  from and_then_Ok [OF assms(2) [unfolded establish_def]] obtain u1 rs1 w1 where
    s: "(case wc_endpoint config of
          QuoteEndpoint \<Rightarrow> establish_quote subscriptions rs w
        | VaultEndpoint \<Rightarrow> establish_vault subscriptions rs w
        | DataEndpoint \<Rightarrow> (Some (Ok ()), rs, w)) = (Some (Ok u1), rs1, w1)"
    and t: "(case read_pages (endpoint_reads (wc_endpoint config) vault) w1 of (reads, w) \<Rightarrow>
          and_then (written (write_all reads w) rs1) (\<lambda>_. wait_for_reconciliation config reads (\<lambda>_. []))) =
        (Some (Ok u), rs', w')" by blast
  note s1 = establish_subscriptions [OF assms(1) s]
  obtain reads w2 where r: "read_pages (endpoint_reads (wc_endpoint config) vault) w1 = (reads, w2)" by force
  note shape = read_pages_shape [OF r]
  note kinds = read_pages_kinds [OF conjunct1 [OF shape]]
  from and_then_Ok t r obtain u2 rs2 w3 where
    a: "written (write_all reads w2) rs1 = (Some (Ok u2), rs2, w3)"
    and b: "wait_for_reconciliation config reads (\<lambda>_. []) rs2 w3 = (Some (Ok u), rs', w')" by fastforce
  have "settled (set reads) w2" using s1 shape settled_mono [of "{}"] settled_same [of w2 w1] by simp
  with written_Ok [OF a] write_all_settled [of "set reads" w2 reads u2 w3] have
    s3: "settled (set reads) w3" "set reads \<subseteq> set (wi_sent w3)" "extends w2 w3" by simp_all
  have "reconciling config reads w3"
  proof -
    have "\<exists>r. GetPage MyQuotes r CursorStart \<in> set (wi_sent w3)"
      if "GetPage MmSummary r' c \<in> set reads" "wc_endpoint config \<noteq> DataEndpoint" for r' c
    proof -
      have "MmSummary \<in> set (endpoint_reads (wc_endpoint config) vault)" using kinds(2) that by blast
      then have "MyQuotes \<in> set (endpoint_reads (wc_endpoint config) vault)"
        using that(2) by (cases "wc_endpoint config") (auto simp: endpoint_reads_def quote_reads_def split: if_splits)
      with kinds(1) s3 show ?thesis by blast
    qed
    with s3 show ?thesis unfolding reconciling_def by blast
  qed
  from reconciliation_settles [OF this b] have s4: "settled {} w'" "extends w3 w'" by simp_all
  have "\<exists>r. GetPage k r CursorStart \<in> set (wi_sent w')" if "k \<in> set (endpoint_reads (wc_endpoint config) vault)" for k
    using kinds(1) [OF that] s3 s4 by (auto simp: extends_def)
  with s1 s3 s4 shape show ?thesis unfolding extends_def by (metis (no_types, lifting) subsetD)
qed

lemma authenticated_settled: "auth_ok cr config w \<Longrightarrow> settled {} w"
proof -
  have "complete A B m" if "sent_ok cr config S m" for A B S m
    using that by (cases m) auto
  then show "auth_ok cr config w \<Longrightarrow> settled {} w"
    by (auto simp: auth_ok_def settled_def)
qed

text \<open>
  C8. What an endpoint knows when it reports ready. On a fresh socket, once authentication and then the
  barrier have succeeded, whatever else the server interleaved: every page, snapshot and subscription change
  the client asked for was answered under its own request id, and every answer that named a further page was
  followed up until a last page; every read the endpoint's role calls for was asked from its start; and on
  the quote endpoint the recovered target itself was subscribed and acknowledged.
\<close>

theorem ready_after_all_replies:
  assumes "wi_sent w0 = []" and "wi_challenge w0 = None"
    and "authenticate cr config rs0 w0 = (Some (Ok vault), rs, w)"
    and "establish config subscriptions vault rs w = (Some (Ok u), rs', w')"
  shows "(\<forall>m \<in> set (wi_sent w'). complete (set (wi_seen w')) (set (wi_sent w')) m) \<and>
    (\<forall>k \<in> set (endpoint_reads (wc_endpoint config) vault). \<exists>r n. GetPage k r CursorStart \<in> set (wi_sent w') \<and> Page k r n \<in> set (wi_seen w')) \<and>
    (\<forall>products. wc_endpoint config = QuoteEndpoint \<and> ss_products (ds_current subscriptions) = Some products \<longrightarrow>
       (\<exists>r. SubscribeAck r \<in> set (wi_seen w') \<and>
          Change (Subscribe \<lparr>sd_products = products, sd_request_id = r,
            sd_channels = ss_channels (ds_current subscriptions),
            sd_underlying_mints = ss_underlying_mints (ds_current subscriptions),
            sd_quote_mints = ss_quote_mints (ds_current subscriptions)\<rparr>) \<in> set (wi_sent w')))"
proof -
  have "auth_ok cr config w"
    using authenticate_ends [OF assms(1,2), of cr config rs0] assms(3) by (auto simp: ends_def)
  note est = establish_settles [OF authenticated_settled [OF this] assms(4)]
  then have all: "\<And>m. m \<in> set (wi_sent w') \<Longrightarrow> complete (set (wi_seen w')) (set (wi_sent w')) m"
    by (simp add: settled_def)
  have "\<exists>r n. GetPage k r CursorStart \<in> set (wi_sent w') \<and> Page k r n \<in> set (wi_seen w')"
    if "k \<in> set (endpoint_reads (wc_endpoint config) vault)" for k
  proof -
    from est that obtain r where "GetPage k r CursorStart \<in> set (wi_sent w')" by blast
    with all [OF this] show ?thesis by auto
  qed
  moreover have "SubscribeAck (sd_request_id d) \<in> set (wi_seen w')" if "Change (Subscribe d) \<in> set (wi_sent w')" for d
    using all [OF that] by simp
  ultimately show ?thesis using all est by fastforce
qed

text \<open>A resumed quote session: a stale channel is dropped, the target set, and one read has a second page.\<close>

definition sample_quote_config :: ManagedWsConfig where
  "sample_quote_config = sample_vault_config\<lparr>wc_endpoint := QuoteEndpoint, wc_vault_pda := None\<rparr>"

definition sample_target :: DesiredSubscriptions where
  "sample_target = \<lparr>ds_current = \<lparr>ss_products = Some 3, ss_channels = [Rfqs], ss_underlying_mints = [], ss_quote_mints = []\<rparr>,
     ds_pending = None\<rparr>"

definition sample_ready_reads :: "wire_read list" where
  "sample_ready_reads = map ReadMessage
     [Subscriptions \<lparr>sm_next_cursor = None, sm_request_id = 0, sm_channels = [Stats], sm_underlying_mints = [], sm_quote_mints = []\<rparr>,
      UnsubscribeAck 1, SubscribeAck 2, Page ActiveRfqs 3 (Some ''x''), Page MyQuotes 4 None, Page ActiveRfqs 5 None]"

theorem ready_after_all_replies_witness:
  "\<exists>rs w w'. authenticate letter_crypto sample_quote_config ([ReadMessage Welcome, ReadMessage (AuthSuccess ''s'')] @ sample_ready_reads)
       (sample_wire\<lparr>wi_resume := Some ''s''\<rparr>) = (Some (Ok None), rs, w) \<and>
     establish sample_quote_config sample_target None rs w = (Some (Ok ()), [], w') \<and>
     (\<exists>r n. GetPage ActiveRfqs r CursorStart \<in> set (wi_sent w') \<and> Page ActiveRfqs r n \<in> set (wi_seen w'))"
proof -
  let ?fresh = "sample_wire\<lparr>wi_resume := Some ''s''\<rparr>"
  let ?w = "?fresh\<lparr>wi_sent := [Hello, ResumeAuth ''s''], wi_seen := [Welcome, AuthSuccess ''s'']\<rparr>"
  have cfg: "wc_endpoint sample_quote_config = QuoteEndpoint" "wc_vault_pda sample_quote_config = None"
    by (simp_all add: sample_quote_config_def)
  have a: "authenticate letter_crypto sample_quote_config ([ReadMessage Welcome, ReadMessage (AuthSuccess ''s'')] @ sample_ready_reads)
      ?fresh = (Some (Ok None), sample_ready_reads, ?w)"
    by (simp add: authenticate_def try_resume_def write_message_def written_def and_then_def see_def sample_wire_def cfg)
  obtain w' where b: "establish sample_quote_config sample_target None sample_ready_reads ?w = (Some (Ok ()), [], w')"
    by (simp add: establish_def establish_quote_def new_uuid_def sample_wire_def cfg sample_ready_reads_def
        write_request_def write_message_def wait_for_subscriptions_def wait_for_subscribe_ack_def wait_for_unsubscribe_ack_def
        next_messages_def barrier_def from_control_def see_def append_subscriptions_def advance_def Let_def and_then_def
        written_def recover_subscriptions_def recovery_def sample_target_def no_subscriptions_def endpoint_reads_def
        quote_reads_def read_page_def rejected_read_def take_reply_def reconciliation_pages_def snapshot_pages.simps)
  from ready_after_all_replies [OF _ _ a b] have
    "\<forall>k \<in> set (endpoint_reads QuoteEndpoint None). \<exists>r n. GetPage k r CursorStart \<in> set (wi_sent w') \<and> Page k r n \<in> set (wi_seen w')"
    by (simp add: sample_wire_def cfg)
  then have "\<exists>r n. GetPage ActiveRfqs r CursorStart \<in> set (wi_sent w') \<and> Page ActiveRfqs r n \<in> set (wi_seen w')"
    by (simp add: endpoint_reads_def quote_reads_def)
  with a b show ?thesis by blast
qed

end
