(* ===== verification/Handles.thy ===== *)
theory Handles
  imports SessionAnswers
begin

text \<open>
  The handle an application holds on a managed connection (\<^verbatim>\<open>src/src/ws/managed/mod.rs\<close>): the calls that submit
  a message, the bounded command queue they share, and the session that takes commands out of it. The calls
  of all clones of a handle, the admission of waiting senders, the published states and the turns of the
  session are the events of a sequence, in any order.
\<close>

section \<open>The handle\<close>

text \<open>How a call ties its message to a connection: to whatever comes, to a ready one, or to a given epoch.\<close>

datatype call_kind = AnyState | InReady | InEpoch u64

text \<open>
  \<open>ha_waiting\<close> are commands whose senders wait for room in the queue. The last two fields record the history:
  which call made which command in which published state, and in which epoch a command's frame was queued.
\<close>

record ManagedWsHandle =
  ha_state :: ManagedWsState
  ha_queue :: "ManagedCommand list"
  ha_waiting :: "ManagedCommand list"
  ha_capacity :: nat
  ha_open :: bool
  ha_next_await_id :: u64
  ha_max_batch_quotes :: nat
  ha_max_outbound_message_size :: nat
  ha_cancelled :: "u64 list"
  ha_calls :: "(call_kind \<times> ClientMessage \<times> ManagedWsState \<times> ManagedCommand) list"
  ha_frames :: "(u64 \<times> ManagedCommand) list"

definition spawn_handle :: "nat \<Rightarrow> nat \<Rightarrow> nat \<Rightarrow> ManagedWsHandle" where
  "spawn_handle command_buffer max_batch_quotes max_outbound_message_size =
     \<lparr>ha_state = StConnecting, ha_queue = [], ha_waiting = [], ha_capacity = command_buffer, ha_open = True,
      ha_next_await_id = 1, ha_max_batch_quotes = max_batch_quotes,
      ha_max_outbound_message_size = max_outbound_message_size, ha_cancelled = [], ha_calls = [], ha_frames = []\<rparr>"

definition command_epoch :: "ClientMessage \<Rightarrow> ManagedWsHandle \<Rightarrow> (ManagedWsError, u64 option) res" where
  "command_epoch message h =
     (case ha_state h of
        StReady connection_epoch \<Rightarrow> Ok (Some connection_epoch)
      | _ \<Rightarrow> if requires_ready message then Err NotReady else Ok None)"

definition ready_epoch :: "ManagedWsHandle \<Rightarrow> (ManagedWsError, u64) res" where
  "ready_epoch h = (case ha_state h of StReady connection_epoch \<Rightarrow> Ok connection_epoch | _ \<Rightarrow> Err NotReady)"

definition handle_prepare ::
  "(ClientMessage \<Rightarrow> string option) \<Rightarrow> ClientMessage \<Rightarrow> ManagedWsHandle \<Rightarrow> (OutboundMessageError, PreparedClientMessage) res" where
  "handle_prepare to_json message h =
     prepare_outbound to_json message (ha_max_batch_quotes h) (ha_max_outbound_message_size h)"

section \<open>The command queue\<close>

text \<open>
  Room in the bounded channel is handed to waiting senders in their order, so a call finds room only when
  nobody who waits has a claim on it.
\<close>

definition full_queue :: "ManagedWsHandle \<Rightarrow> bool" where
  "full_queue h \<longleftrightarrow> ha_capacity h \<le> length (ha_queue h) + length (ha_waiting h)"

definition try_queue :: "ManagedCommand \<Rightarrow> ManagedWsHandle \<Rightarrow> (LaneFull, unit) res \<times> ManagedWsHandle" where
  "try_queue command h =
     (if \<not> ha_open h then (Err LaneClosed, h)
      else if full_queue h then (Err Full, h)
      else (Ok (), h\<lparr>ha_queue := ha_queue h @ [command]\<rparr>))"

definition queue_or_wait :: "ManagedCommand \<Rightarrow> ManagedWsHandle \<Rightarrow> (unit, unit) res \<times> ManagedWsHandle" where
  "queue_or_wait command h =
     (if \<not> ha_open h then (Err (), h)
      else if full_queue h then (Ok (), h\<lparr>ha_waiting := ha_waiting h @ [command]\<rparr>)
      else (Ok (), h\<lparr>ha_queue := ha_queue h @ [command]\<rparr>))"

text \<open>History: a command has been made for a call.\<close>

definition made :: "call_kind \<Rightarrow> ClientMessage \<Rightarrow> ManagedCommand \<Rightarrow> ManagedWsHandle \<Rightarrow> ManagedWsHandle" where
  "made kind message command h = h\<lparr>ha_calls := ha_calls h @ [(kind, message, ha_state h, command)]\<rparr>"

section \<open>Calls\<close>

text \<open>
  A call returns an error at once, or \<open>Ok\<close> once its command is queued or waits for room; the result then
  comes on the channel of the command. \<open>checked\<close> is the early return of a failed check.
\<close>

definition checked :: "('e, 'a) res \<Rightarrow> ('a \<Rightarrow> ManagedWsHandle \<Rightarrow> ('e, 'b) res \<times> ManagedWsHandle) \<Rightarrow> ManagedWsHandle \<Rightarrow> ('e, 'b) res \<times> ManagedWsHandle" where
  "checked r f h = (case r of Ok a \<Rightarrow> f a h | Err e \<Rightarrow> (Err e, h) | Panic \<Rightarrow> (Panic, h))"

definition send_with_epoch ::
  "(ClientMessage \<Rightarrow> string option) \<Rightarrow> call_kind \<Rightarrow> ClientMessage \<Rightarrow> u64 option \<Rightarrow> chan \<Rightarrow> ManagedWsHandle \<Rightarrow>
   (ManagedWsError, unit) res \<times> ManagedWsHandle" where
  "send_with_epoch to_json kind message connection_epoch tx h =
     checked (map_err InvalidMessage (handle_prepare to_json message h)) (\<lambda>prepared h.
       let command = CmdSend prepared connection_epoch tx in
       case queue_or_wait command (made kind message command h) of (r, h') \<Rightarrow> (map_err (\<lambda>_. WsClosed) r, h')) h"

definition send_call ::
  "(ClientMessage \<Rightarrow> string option) \<Rightarrow> ClientMessage \<Rightarrow> chan \<Rightarrow> ManagedWsHandle \<Rightarrow> (ManagedWsError, unit) res \<times> ManagedWsHandle" where
  "send_call to_json message tx h =
     checked (command_epoch message h) (\<lambda>connection_epoch. send_with_epoch to_json AnyState message connection_epoch tx) h"

definition send_in_epoch ::
  "(ClientMessage \<Rightarrow> string option) \<Rightarrow> ClientMessage \<Rightarrow> u64 \<Rightarrow> chan \<Rightarrow> ManagedWsHandle \<Rightarrow> (ManagedWsError, unit) res \<times> ManagedWsHandle" where
  "send_in_epoch to_json message connection_epoch tx h =
     checked (ready_epoch h) (\<lambda>e h.
       if e \<noteq> connection_epoch then (Err NotReady, h)
       else send_with_epoch to_json (InEpoch connection_epoch) message (Some connection_epoch) tx h) h"

definition try_send_with_epoch ::
  "(ClientMessage \<Rightarrow> string option) \<Rightarrow> call_kind \<Rightarrow> ClientMessage \<Rightarrow> u64 option \<Rightarrow> chan \<Rightarrow> ManagedWsHandle \<Rightarrow>
   (ManagedWsError, unit) res \<times> ManagedWsHandle" where
  "try_send_with_epoch to_json kind message connection_epoch tx h =
     checked (map_err InvalidMessage (handle_prepare to_json message h)) (\<lambda>prepared h.
       let command = CmdSend prepared connection_epoch tx in
       case try_queue command (made kind message command h) of
         (r, h') \<Rightarrow> (map_err (\<lambda>e. case e of LaneClosed \<Rightarrow> WsClosed | Full \<Rightarrow> QueueFull) r, h')) h"

definition try_send ::
  "(ClientMessage \<Rightarrow> string option) \<Rightarrow> ClientMessage \<Rightarrow> chan \<Rightarrow> ManagedWsHandle \<Rightarrow> (ManagedWsError, unit) res \<times> ManagedWsHandle" where
  "try_send to_json message tx h =
     checked (command_epoch message h) (\<lambda>connection_epoch. try_send_with_epoch to_json AnyState message connection_epoch tx) h"

definition try_send_in_epoch ::
  "(ClientMessage \<Rightarrow> string option) \<Rightarrow> ClientMessage \<Rightarrow> u64 \<Rightarrow> chan \<Rightarrow> ManagedWsHandle \<Rightarrow> (ManagedWsError, unit) res \<times> ManagedWsHandle" where
  "try_send_in_epoch to_json message connection_epoch tx h =
     checked (ready_epoch h) (\<lambda>e h.
       if e \<noteq> connection_epoch then (Err NotReady, h)
       else try_send_with_epoch to_json (InEpoch connection_epoch) message (Some connection_epoch) tx h) h"

text \<open>The command of an awaited request: an id no other request of this handle has.\<close>

definition await_command ::
  "(ClientMessage \<Rightarrow> string option) \<Rightarrow> call_kind \<Rightarrow> ClientMessage \<Rightarrow> u64 option \<Rightarrow> chan \<Rightarrow> ManagedWsHandle \<Rightarrow>
   (SendAwaitError, ManagedCommand) res \<times> ManagedWsHandle" where
  "await_command to_json kind message connection_epoch tx h =
     checked (bind_res (map_err AwaitInvalidMessage (handle_prepare to_json message h)) (\<lambda>prepared.
         bind_res (prepare message) (\<lambda>registration. Ok (prepared, registration))))
       (\<lambda>(prepared, registration) h.
        let command = CmdSendAwait (ha_next_await_id h) prepared connection_epoch registration tx in
        (Ok command, made kind message command (h\<lparr>ha_next_await_id := ha_next_await_id h + 1\<rparr>))) h"

definition send_await_with_epoch ::
  "(ClientMessage \<Rightarrow> string option) \<Rightarrow> call_kind \<Rightarrow> ClientMessage \<Rightarrow> u64 option \<Rightarrow> chan \<Rightarrow> ManagedWsHandle \<Rightarrow>
   (SendAwaitError, unit) res \<times> ManagedWsHandle" where
  "send_await_with_epoch to_json kind message connection_epoch tx h =
     (case await_command to_json kind message connection_epoch tx h of (r, h') \<Rightarrow>
        checked r (\<lambda>command h. case queue_or_wait command h of (q, h') \<Rightarrow> (map_err (\<lambda>_. AwaitDisconnected) q, h')) h')"

definition send_await ::
  "(ClientMessage \<Rightarrow> string option) \<Rightarrow> ClientMessage \<Rightarrow> chan \<Rightarrow> ManagedWsHandle \<Rightarrow> (SendAwaitError, unit) res \<times> ManagedWsHandle" where
  "send_await to_json message tx h =
     checked (map_err (\<lambda>_. AwaitNotReady) (command_epoch message h)) (\<lambda>connection_epoch.
       send_await_with_epoch to_json AnyState message connection_epoch tx) h"

definition send_await_ready ::
  "(ClientMessage \<Rightarrow> string option) \<Rightarrow> ClientMessage \<Rightarrow> chan \<Rightarrow> ManagedWsHandle \<Rightarrow> (SendAwaitError, unit) res \<times> ManagedWsHandle" where
  "send_await_ready to_json message tx h =
     checked (map_err (\<lambda>_. AwaitNotReady) (ready_epoch h)) (\<lambda>connection_epoch.
       send_await_with_epoch to_json InReady message (Some connection_epoch) tx) h"

definition try_send_await_in_epoch ::
  "(ClientMessage \<Rightarrow> string option) \<Rightarrow> ClientMessage \<Rightarrow> u64 \<Rightarrow> chan \<Rightarrow> ManagedWsHandle \<Rightarrow> (SendAwaitError, unit) res \<times> ManagedWsHandle" where
  "try_send_await_in_epoch to_json message connection_epoch tx h =
     (if ready_epoch h \<noteq> Ok connection_epoch then (Err AwaitNotReady, h)
      else case await_command to_json (InEpoch connection_epoch) message (Some connection_epoch) tx h of (r, h') \<Rightarrow>
        checked r (\<lambda>command h. case try_queue command h of
            (q, h') \<Rightarrow> (map_err (\<lambda>e. case e of Full \<Rightarrow> AwaitQueueFull | LaneClosed \<Rightarrow> AwaitDisconnected) q, h')) h')"

section \<open>Events\<close>

datatype handle_event =
    CallSend ClientMessage chan
  | CallSendInEpoch ClientMessage u64 chan
  | CallTrySend ClientMessage chan
  | CallTrySendInEpoch ClientMessage u64 chan
  | CallSendAwait ClientMessage chan
  | CallSendAwaitReady ClientMessage chan
  | CallTrySendAwaitInEpoch ClientMessage u64 chan
  | Admitted nat
  | GivenUp nat
  | TimedOutAwait u64
  | Published ManagedWsState
  | Dequeued u64 "chan set" chan Session
  | Discarded
  | TaskEnded

definition drop_nth :: "nat \<Rightarrow> 'a list \<Rightarrow> 'a list" where
  "drop_nth i xs = List.take i xs @ drop (Suc i) xs"

text \<open>
  \<open>Admitted i\<close>: the \<open>i\<close>-th waiting sender has been given room. \<open>GivenUp i\<close>: its call timed out first.
  \<open>TimedOutAwait\<close>: a caller stops waiting for a response and cancels it. \<open>Dequeued\<close>: a ready session, in the
  state given, takes the next command. \<open>Discarded\<close>: it is answered outside of a ready session.
\<close>

fun handle_step :: "(ClientMessage \<Rightarrow> string option) \<Rightarrow> handle_event \<Rightarrow> ManagedWsHandle \<Rightarrow> ManagedWsHandle" where
  "handle_step to_json (CallSend m tx) h = snd (send_call to_json m tx h)"
| "handle_step to_json (CallSendInEpoch m e tx) h = snd (send_in_epoch to_json m e tx h)"
| "handle_step to_json (CallTrySend m tx) h = snd (try_send to_json m tx h)"
| "handle_step to_json (CallTrySendInEpoch m e tx) h = snd (try_send_in_epoch to_json m e tx h)"
| "handle_step to_json (CallSendAwait m tx) h = snd (send_await to_json m tx h)"
| "handle_step to_json (CallSendAwaitReady m tx) h = snd (send_await_ready to_json m tx h)"
| "handle_step to_json (CallTrySendAwaitInEpoch m e tx) h = snd (try_send_await_in_epoch to_json m e tx h)"
| "handle_step to_json (Admitted i) h =
     (if i < length (ha_waiting h) \<and> length (ha_queue h) + i < ha_capacity h
      then h\<lparr>ha_queue := ha_queue h @ [ha_waiting h ! i], ha_waiting := drop_nth i (ha_waiting h)\<rparr> else h)"
| "handle_step to_json (GivenUp i) h = h\<lparr>ha_waiting := drop_nth i (ha_waiting h)\<rparr>"
| "handle_step to_json (TimedOutAwait await_id) h = h\<lparr>ha_cancelled := ha_cancelled h @ [await_id]\<rparr>"
| "handle_step to_json (Published st) h = h\<lparr>ha_state := st\<rparr>"
| "handle_step to_json (Dequeued epoch gone receipt s) h =
     (case ha_queue h of
        [] \<Rightarrow> h
      | command # rest \<Rightarrow>
          let h' = h\<lparr>ha_queue := rest\<rparr> in
          if wr_lanes (se_writer (fst (handle_command gone receipt epoch (Some command) s))) \<noteq> wr_lanes (se_writer s)
          then h'\<lparr>ha_frames := ha_frames h @ [(epoch, command)]\<rparr> else h')"
| "handle_step to_json Discarded h = h\<lparr>ha_queue := tl (ha_queue h)\<rparr>"
| "handle_step to_json TaskEnded h = h\<lparr>ha_queue := [], ha_waiting := [], ha_open := False\<rparr>"

section \<open>Invariant\<close>

fun command_message :: "ManagedCommand \<Rightarrow> PreparedClientMessage" where
  "command_message (CmdSend m _ _) = m"
| "command_message (CmdSendAwait _ m _ _ _) = m"

fun pinned_epoch :: "ManagedCommand \<Rightarrow> u64 option" where
  "pinned_epoch (CmdSend _ e _) = e"
| "pinned_epoch (CmdSendAwait _ _ e _ _) = e"

fun await_ids :: "ManagedCommand \<Rightarrow> u64 list" where
  "await_ids (CmdSend _ _ _) = []"
| "await_ids (CmdSendAwait i _ _ _ _) = [i]"

text \<open>The epoch a command must carry for the call that made it.\<close>

definition pinned_for :: "call_kind \<Rightarrow> ClientMessage \<Rightarrow> ManagedWsState \<Rightarrow> u64 option \<Rightarrow> bool" where
  "pinned_for kind message st epoch \<longleftrightarrow>
     (case st of
        StReady e \<Rightarrow> epoch = Some e \<and> (\<forall>p. kind = InEpoch p \<longrightarrow> p = e)
      | _ \<Rightarrow> epoch = None \<and> kind = AnyState \<and> \<not> requires_ready message)"

text \<open>What a call may have logged, with the limits of the handle.\<close>

definition call_ok :: "(ClientMessage \<Rightarrow> string option) \<Rightarrow> nat \<Rightarrow> nat \<Rightarrow> call_kind \<times> ClientMessage \<times> ManagedWsState \<times> ManagedCommand \<Rightarrow> bool" where
  "call_ok to_json batch max_size c \<longleftrightarrow>
     (case c of (kind, message, st, command) \<Rightarrow>
        prepare_outbound to_json message batch max_size = Ok (command_message command) \<and>
        pinned_for kind message st (pinned_epoch command))"

definition made_commands :: "ManagedWsHandle \<Rightarrow> ManagedCommand set" where
  "made_commands h = (\<lambda>(_, _, _, command). command) ` set (ha_calls h)"

definition handed_ids :: "ManagedWsHandle \<Rightarrow> u64 list" where
  "handed_ids h = concat (map (\<lambda>(_, _, _, command). await_ids command) (ha_calls h))"

definition handle_inv :: "(ClientMessage \<Rightarrow> string option) \<Rightarrow> nat \<Rightarrow> nat \<Rightarrow> ManagedWsHandle \<Rightarrow> bool" where
  "handle_inv to_json batch max_size h \<longleftrightarrow>
     ha_max_batch_quotes h = batch \<and> ha_max_outbound_message_size h = max_size \<and>
     list_all (call_ok to_json batch max_size) (ha_calls h) \<and>
     set (ha_queue h) \<subseteq> made_commands h \<and> set (ha_waiting h) \<subseteq> made_commands h \<and>
     (\<forall>(e, command) \<in> set (ha_frames h). command \<in> made_commands h \<and> (\<forall>p. pinned_epoch command = Some p \<longrightarrow> p = e)) \<and>
     length (ha_queue h) \<le> ha_capacity h \<and>
     handed_ids h = map (\<lambda>n. 1 + of_nat n) [0..<length (handed_ids h)] \<and>
     ha_next_await_id h = 1 + of_nat (length (handed_ids h))"

lemma handle_invI [simp]:
  "handle_inv to_json b z (h\<lparr>ha_state := st\<rparr>) = handle_inv to_json b z h"
  "handle_inv to_json b z (h\<lparr>ha_cancelled := c\<rparr>) = handle_inv to_json b z h"
  by (simp_all add: handle_inv_def made_commands_def handed_ids_def)

lemma queued_inv:
  assumes "handle_inv to_json b z h" "command \<in> made_commands h"
  shows "handle_inv to_json b z (snd (try_queue command h))" "handle_inv to_json b z (snd (queue_or_wait command h))"
  using assms
  by (auto simp: try_queue_def queue_or_wait_def full_queue_def handle_inv_def made_commands_def handed_ids_def)

lemma less_queue_inv:
  assumes "handle_inv to_json b z h" "set q \<subseteq> set (ha_queue h)" "length q \<le> length (ha_queue h)" "set w \<subseteq> set (ha_waiting h)"
  shows "handle_inv to_json b z (h\<lparr>ha_queue := q, ha_waiting := w\<rparr>)"
  using assms unfolding handle_inv_def made_commands_def handed_ids_def by (simp, blast intro: order_trans)

lemma made_inv:
  assumes "handle_inv to_json b z h" "call_ok to_json b z (kind, m, ha_state h, command)" "await_ids command = []"
  shows "handle_inv to_json b z (made kind m command h)" "command \<in> made_commands (made kind m command h)"
proof -
  have "made_commands (made kind m command h) = insert command (made_commands h)"
    "handed_ids (made kind m command h) = handed_ids h"
    using assms(3) by (simp_all add: made_def made_commands_def handed_ids_def)
  with assms show "handle_inv to_json b z (made kind m command h)" "command \<in> made_commands (made kind m command h)"
    by (auto simp: handle_inv_def made_def)
qed

lemma made_await_inv:
  assumes "handle_inv to_json b z h" "call_ok to_json b z (kind, m, ha_state h, command)" "await_ids command = [ha_next_await_id h]"
  shows "handle_inv to_json b z (made kind m command (h\<lparr>ha_next_await_id := ha_next_await_id h + 1\<rparr>))"
proof -
  define h' where "h' = made kind m command (h\<lparr>ha_next_await_id := ha_next_await_id h + 1\<rparr>)"
  have same: "ha_max_batch_quotes h' = ha_max_batch_quotes h" "ha_max_outbound_message_size h' = ha_max_outbound_message_size h"
    "ha_queue h' = ha_queue h" "ha_waiting h' = ha_waiting h" "ha_frames h' = ha_frames h" "ha_capacity h' = ha_capacity h"
    "ha_calls h' = ha_calls h @ [(kind, m, ha_state h, command)]" "ha_next_await_id h' = ha_next_await_id h + 1"
    by (simp_all add: h'_def made_def)
  have c: "made_commands h' = insert command (made_commands h)" and i: "handed_ids h' = handed_ids h @ [ha_next_await_id h]"
    using assms(3) by (simp_all add: made_commands_def handed_ids_def same)
  have ids: "handed_ids h = map (\<lambda>n. 1 + of_nat n) [0..<length (handed_ids h)]"
    "ha_next_await_id h = 1 + of_nat (length (handed_ids h))"
    using assms(1) unfolding handle_inv_def by blast+
  from ids(2) have n: "ha_next_await_id h' = 1 + of_nat (length (handed_ids h'))" unfolding i same by simp
  have l: "handed_ids h' = map (\<lambda>n. 1 + of_nat n) [0..<length (handed_ids h')]"
    using arg_cong2 [OF ids(1), of "[ha_next_await_id h]" "[1 + of_nat (length (handed_ids h))]" "(@)"] ids(2)
    unfolding i by simp
  show ?thesis
    using assms(1,2) l n unfolding h'_def [symmetric] handle_inv_def same c by auto
qed

lemma checked_inv:
  assumes "handle_inv to_json b z h" and "\<And>a. r = Ok a \<Longrightarrow> handle_inv to_json b z (snd (f a h))"
  shows "handle_inv to_json b z (snd (checked r f h))"
  using assms by (cases r) (simp_all add: checked_def)

text \<open>What the checks before a submission establish.\<close>

lemma epochs_pinned:
  "command_epoch m h = Ok e \<Longrightarrow> pinned_for AnyState m (ha_state h) e"
  "ready_epoch h = Ok e' \<Longrightarrow> pinned_for InReady m (ha_state h) (Some e') \<and> pinned_for (InEpoch e') m (ha_state h) (Some e')"
  by (auto simp: command_epoch_def ready_epoch_def pinned_for_def split: ManagedWsState.splits if_splits)

lemma send_with_inv:
  assumes "handle_inv to_json b z h" "pinned_for kind m (ha_state h) e"
  shows "handle_inv to_json b z (snd (send_with_epoch to_json kind m e tx h))"
    "handle_inv to_json b z (snd (try_send_with_epoch to_json kind m e tx h))"
proof -
  have made: "handle_inv to_json b z (made kind m (CmdSend prepared e tx) h)"
    "CmdSend prepared e tx \<in> made_commands (made kind m (CmdSend prepared e tx) h)"
    if "map_err InvalidMessage (handle_prepare to_json m h) = Ok prepared" for prepared
  proof -
    have "call_ok to_json b z (kind, m, ha_state h, CmdSend prepared e tx)"
      using that assms by (auto simp: call_ok_def handle_prepare_def handle_inv_def map_err_eq_Ok)
    from made_inv [OF assms(1) this] show "handle_inv to_json b z (made kind m (CmdSend prepared e tx) h)"
      "CmdSend prepared e tx \<in> made_commands (made kind m (CmdSend prepared e tx) h)" by simp_all
  qed
  show "handle_inv to_json b z (snd (send_with_epoch to_json kind m e tx h))"
    unfolding send_with_epoch_def
    by (rule checked_inv) (use assms made queued_inv in \<open>auto simp: Let_def split_beta\<close>)
  show "handle_inv to_json b z (snd (try_send_with_epoch to_json kind m e tx h))"
    unfolding try_send_with_epoch_def
    by (rule checked_inv) (use assms made queued_inv in \<open>auto simp: Let_def split_beta\<close>)
qed

lemma await_command_inv:
  assumes "handle_inv to_json b z h" "pinned_for kind m (ha_state h) e"
    and "await_command to_json kind m e tx h = (r, h')"
  shows "handle_inv to_json b z h' \<and> (\<forall>command. r = Ok command \<longrightarrow> command \<in> made_commands h')"
proof (cases "bind_res (map_err AwaitInvalidMessage (handle_prepare to_json m h)) (\<lambda>prepared.
    bind_res (prepare m) (\<lambda>registration. Ok (prepared, registration)))")
  case (Ok c)
  then obtain prepared registration where c: "c = (prepared, registration)" "handle_prepare to_json m h = Ok prepared"
    by (cases "handle_prepare to_json m h") (auto simp: bind_res_eq_Ok)
  let ?c = "CmdSendAwait (ha_next_await_id h) prepared e registration tx"
  from c(2) assms have "call_ok to_json b z (kind, m, ha_state h, ?c)"
    by (auto simp: call_ok_def handle_prepare_def handle_inv_def)
  from made_await_inv [OF assms(1) this] assms(3) Ok c(1) show ?thesis
    by (auto simp: await_command_def checked_def made_commands_def made_def Let_def)
qed (use assms in \<open>auto simp: await_command_def checked_def\<close>)

lemma send_await_with_inv:
  assumes "handle_inv to_json b z h" "pinned_for kind m (ha_state h) e"
  shows "handle_inv to_json b z (snd (send_await_with_epoch to_json kind m e tx h))"
proof -
  obtain r h' where a: "await_command to_json kind m e tx h = (r, h')" by force
  note inv = await_command_inv [OF assms a]
  show ?thesis unfolding send_await_with_epoch_def a prod.case
    by (rule checked_inv) (use inv queued_inv in \<open>auto simp: split_beta\<close>)
qed

lemma try_await_inv:
  assumes "handle_inv to_json b z h"
  shows "handle_inv to_json b z (snd (try_send_await_in_epoch to_json m e tx h))"
proof (cases "ready_epoch h = Ok e")
  case True
  obtain r h' where a: "await_command to_json (InEpoch e) m (Some e) tx h = (r, h')" by force
  note inv = await_command_inv [OF assms _ a]
  have "handle_inv to_json b z (snd (checked r (\<lambda>command h. case try_queue command h of
      (q, h') \<Rightarrow> (map_err (\<lambda>e. case e of Full \<Rightarrow> AwaitQueueFull | LaneClosed \<Rightarrow> AwaitDisconnected) q, h')) h'))"
    by (rule checked_inv) (use inv epochs_pinned(2) [OF True] queued_inv in \<open>auto simp: split_beta\<close>)
  with True a show ?thesis by (simp add: try_send_await_in_epoch_def)
qed (simp add: try_send_await_in_epoch_def assms)

text \<open>A session queues the frame of a command only in the epoch the command is pinned to.\<close>

lemma other_epoch_writes_nothing:
  assumes "wr_lanes (se_writer (fst (handle_command gone receipt epoch (Some command) s))) \<noteq> wr_lanes (se_writer s)"
    and "pinned_epoch command = Some p"
  shows "p = epoch"
proof (rule ccontr)
  assume "p \<noteq> epoch"
  with assms(2) have "wr_lanes (se_writer (fst (handle_command gone receipt epoch (Some command) s))) = wr_lanes (se_writer s)"
    by (cases command) (simp_all add: handle_command_def handle_send_def handle_send_await_def wrong_epoch_def answer_with_def)
  with assms(1) show False by simp
qed

lemma drop_nth_set: "set (drop_nth i xs) \<subseteq> set xs"
  by (auto simp: drop_nth_def dest: in_set_takeD in_set_dropD)

lemma admitted_inv:
  assumes "handle_inv to_json b z h" "i < length (ha_waiting h)" "length (ha_queue h) + i < ha_capacity h"
  shows "handle_inv to_json b z (h\<lparr>ha_queue := ha_queue h @ [ha_waiting h ! i], ha_waiting := drop_nth i (ha_waiting h)\<rparr>)"
  using assms nth_mem [OF assms(2)] drop_nth_set [of i "ha_waiting h"]
  unfolding handle_inv_def made_commands_def handed_ids_def by auto

lemma dequeued_inv:
  assumes "handle_inv to_json b z h" "ha_queue h = command # rest" "\<And>p. pinned_epoch command = Some p \<Longrightarrow> p = epoch"
  shows "handle_inv to_json b z (h\<lparr>ha_queue := rest, ha_frames := ha_frames h @ [(epoch, command)]\<rparr>)"
  using assms unfolding handle_inv_def made_commands_def handed_ids_def by auto

lemma handle_inv_step:
  assumes inv: "handle_inv to_json b z h"
  shows "handle_inv to_json b z (handle_step to_json ev h)"
proof (cases ev)
  case (CallSend m tx)
  show ?thesis unfolding CallSend handle_step.simps send_call_def
    by (rule checked_inv [OF inv], rule send_with_inv(1) [OF inv]) (rule epochs_pinned)
next
  case (CallSendInEpoch m e tx)
  show ?thesis unfolding CallSendInEpoch handle_step.simps send_in_epoch_def
    by (rule checked_inv [OF inv]) (use inv send_with_inv(1) [OF inv] epochs_pinned(2) in auto)
next
  case (CallTrySend m tx)
  show ?thesis unfolding CallTrySend handle_step.simps try_send_def
    by (rule checked_inv [OF inv], rule send_with_inv(2) [OF inv]) (rule epochs_pinned)
next
  case (CallTrySendInEpoch m e tx)
  show ?thesis unfolding CallTrySendInEpoch handle_step.simps try_send_in_epoch_def
    by (rule checked_inv [OF inv]) (use inv send_with_inv(2) [OF inv] epochs_pinned(2) in auto)
next
  case (CallSendAwait m tx)
  show ?thesis unfolding CallSendAwait handle_step.simps send_await_def
    by (rule checked_inv [OF inv], rule send_await_with_inv [OF inv]) (simp add: map_err_eq_Ok epochs_pinned)
next
  case (CallSendAwaitReady m tx)
  show ?thesis unfolding CallSendAwaitReady handle_step.simps send_await_ready_def
    by (rule checked_inv [OF inv], rule send_await_with_inv [OF inv]) (simp add: map_err_eq_Ok epochs_pinned)
next
  case (Dequeued epoch gone receipt s)
  show ?thesis
  proof (cases "ha_queue h")
    case (Cons command rest)
    with Dequeued show ?thesis
      using dequeued_inv [OF inv Cons, of epoch] other_epoch_writes_nothing [of gone receipt epoch command s]
        less_queue_inv [OF inv, of rest "ha_waiting h"]
      by (auto simp: Let_def)
  qed (use Dequeued inv in simp)
next
  case (GivenUp i)
  then show ?thesis using less_queue_inv [OF inv, of "ha_queue h" "drop_nth i (ha_waiting h)"] by (simp add: drop_nth_set)
next
  case Discarded
  then show ?thesis using less_queue_inv [OF inv, of "tl (ha_queue h)" "ha_waiting h"] by (cases "ha_queue h") auto
next
  case TaskEnded
  then show ?thesis using less_queue_inv [OF inv, of "[]" "[]"] by (simp add: handle_inv_def made_commands_def handed_ids_def)
qed (simp_all add: inv admitted_inv try_await_inv)

interpretation hnd: machine "\<lambda>_ _. True" "handle_step to_json" "handle_inv to_json b z"
  by unfold_locales (rule handle_inv_step)

lemma handle_spawn_inv: "handle_inv to_json b z (spawn_handle n b z)"
  by (simp add: handle_inv_def spawn_handle_def made_commands_def handed_ids_def)

lemma always_ok: "run_ok (\<lambda>_ _. True) (handle_step to_json) evs h"
  by (induction evs arbitrary: h) simp_all

lemma handed_ids_distinct:
  assumes "handle_inv to_json b z h" "length (handed_ids h) \<le> 2 ^ 64"
  shows "distinct (handed_ids h)"
proof -
  have "inj_on (\<lambda>n. 1 + of_nat n :: u64) {0..<2 ^ 64}"
    by (rule inj_onI) (simp add: word_of_nat_eq_iff take_bit_nat_eq_self)
  then have "distinct (map (\<lambda>n. 1 + of_nat n :: u64) [0..<length (handed_ids h)])"
    using assms(2) by (auto simp: distinct_map intro: inj_on_subset)
  moreover have "handed_ids h = map (\<lambda>n. 1 + of_nat n) [0..<length (handed_ids h)]"
    using assms(1) unfolding handle_inv_def by blast
  ultimately show ?thesis by simp
qed

text \<open>
  C9. Nothing an application decided in one connection is sent in another. Whatever clones of a handle
  submit, however long commands wait for room or in the queue, and whichever states the connection goes
  through meanwhile: when a session queues the frame of a command, the command comes from a call whose message
  it carries as prepared; if the call saw a ready connection, it is the session of that very epoch (for a call
  tied to an epoch, of the epoch it named), and otherwise the call was not tied to one and its message does
  not need a ready session. The queue never exceeds its capacity, and no two requests get the same await id
  within 2^64 requests.
\<close>

theorem frames_stay_in_epoch:
  assumes "h = fold (handle_step to_json) evs (spawn_handle n batch max_size)"
  shows "(\<forall>(epoch, command) \<in> set (ha_frames h). \<exists>kind m st.
      (kind, m, st, command) \<in> set (ha_calls h) \<and>
      prepare_outbound to_json m batch max_size = Ok (command_message command) \<and>
      (case st of
         StReady e \<Rightarrow> e = epoch \<and> (\<forall>p. kind = InEpoch p \<longrightarrow> p = epoch)
       | _ \<Rightarrow> kind = AnyState \<and> \<not> requires_ready m)) \<and>
    length (ha_queue h) \<le> ha_capacity h \<and>
    (length (handed_ids h) \<le> 2 ^ 64 \<longrightarrow> distinct (handed_ids h))"
proof -
  have inv: "handle_inv to_json batch max_size h"
    unfolding assms by (rule hnd.inv_run [OF handle_spawn_inv always_ok])
  have "\<exists>kind m st. (kind, m, st, command) \<in> set (ha_calls h) \<and>
      prepare_outbound to_json m batch max_size = Ok (command_message command) \<and>
      (case st of
         StReady e \<Rightarrow> e = epoch \<and> (\<forall>p. kind = InEpoch p \<longrightarrow> p = epoch)
       | _ \<Rightarrow> kind = AnyState \<and> \<not> requires_ready m)"
    if f: "(epoch, command) \<in> set (ha_frames h)" for epoch command
  proof -
    from inv f have "command \<in> made_commands h" and p: "\<And>p. pinned_epoch command = Some p \<Longrightarrow> p = epoch"
      unfolding handle_inv_def by blast+
    then obtain kind m st where c: "(kind, m, st, command) \<in> set (ha_calls h)" by (auto simp: made_commands_def)
    with inv have "call_ok to_json batch max_size (kind, m, st, command)" by (auto simp: handle_inv_def list_all_iff)
    with p c show ?thesis
      by (intro exI [of _ kind] exI [of _ m] exI [of _ st])
        (auto simp: call_ok_def pinned_for_def split: ManagedWsState.splits)
  qed
  with inv handed_ids_distinct [OF inv] show ?thesis by (auto simp: handle_inv_def)
qed

text \<open>
  A cancellation submitted in epoch 3 is written by the session of epoch 3; another one, still queued when the
  connection is replaced, is not written by the session of epoch 4.
\<close>

definition sample_session :: Session where
  "sample_session = \<lparr>se_writer = writer_spawn 4, se_tracker = tracker_new 4, se_subs = from_initial None, se_written = None,
     se_answers = [], se_events = [], se_inbound = [], se_sequence = 0\<rparr>"

definition sample_handle_events :: "handle_event list" where
  "sample_handle_events =
     [Published (StReady 3), CallSend (ReadyCommand CancelAllQuotes 7) 1, CallTrySendInEpoch (ReadyCommand CancelAllQuotes 7) 3 2,
      Dequeued 3 {} 9 sample_session, Published (StReady 4), Dequeued 4 {} 9 sample_session]"

theorem frames_stay_in_epoch_witness:
  "\<exists>command m st. ha_frames (fold (handle_step (\<lambda>_. Some ''{}'')) sample_handle_events (spawn_handle 4 8 100)) = [(3, command)] \<and>
     (AnyState, m, st, command) \<in> set (ha_calls (fold (handle_step (\<lambda>_. Some ''{}'')) sample_handle_events (spawn_handle 4 8 100))) \<and>
     st = StReady 3"
proof -
  let ?h = "fold (handle_step (\<lambda>_. Some ''{}'')) sample_handle_events (spawn_handle 4 8 100)"
  let ?c = "\<lambda>tx. CmdSend \<lparr>pm_text = ''{}'', pm_lane = lane (ReadyCommand CancelAllQuotes 7), pm_subscription = None\<rparr> (Some 3) tx"
  note defs = sample_handle_events_def spawn_handle_def send_call_def send_with_epoch_def checked_def command_epoch_def
    ready_epoch_def handle_prepare_def prepare_outbound_def prepared_new_def made_def queue_or_wait_def try_queue_def full_queue_def
    try_send_in_epoch_def try_send_with_epoch_def handle_command_def handle_send_def wrong_epoch_def sample_session_def
    writer_spawn_def frame_with_receipt_def enqueue_def note_subscription_def put_lanes_def answer_with_def Let_def queue_of_def
  have f: "ha_frames ?h = [(3, ?c 1)]" "set (ha_calls ?h) = {(AnyState, ReadyCommand CancelAllQuotes 7, StReady 3, ?c 1),
      (InEpoch 3, ReadyCommand CancelAllQuotes 7, StReady 3, ?c 2)}"
    by (simp_all add: defs split: Lane.splits)
  from frames_stay_in_epoch [OF refl, of "\<lambda>_. Some ''{}''" sample_handle_events 4 8 100] f
  have "\<exists>kind m st. (kind, m, st, ?c 1) \<in> set (ha_calls ?h) \<and> (case st of StReady e \<Rightarrow> e = 3 | _ \<Rightarrow> False)"
    by (auto split: ManagedWsState.splits)
  with f show ?thesis by auto
qed

end
