(* ===== verification/MakerAccounts.thy ===== *)
theory MakerAccounts
  imports VaultAccounts Amounts
begin

text \<open>
  The accounts and events of the options program as the SDK reads them: positions, markets, makers and the
  global configuration (\<^verbatim>\<open>src/src/chain/accounts.rs\<close>), the position events (\<^verbatim>\<open>chain/events.rs\<close>), the settlement
  amount of a physical position (\<^verbatim>\<open>chain/settlement.rs\<close>) and the error type they share (\<^verbatim>\<open>chain/error.rs\<close>).
\<close>

section \<open>Errors\<close>

datatype ChainError =
  CeTakerBuyUnsupported
| CeSpread SpreadError
| CeRpc string
| CeMissingAccount key
| CeConfirmation string
| CeInvalidAccountData
| CeAccountOwnerMismatch key key
| CeAccountDiscriminatorMismatch u8 u8
| CeUninitializedAccount
| CeUnknownPositionStatus u8
| CeInvalidPositionType u8
| CeInvalidSettlementState
| CeSettlementAmountOverflow
| CeMissingFundingAccount key
| CeInvalidNativeTokenProgram key
| CeInsufficientNativeSol u64 u64
| CeMissingLookupTable key
| CeLookupTableDeactivated key
| CeNativeSolBudgetOverflow
| CeIx ChainIxError
| CeVault VaultChainError
| CeIdentity string
| CeSigning

section \<open>Field access\<close>

definition ca_pubkey :: "bytes \<Rightarrow> nat \<Rightarrow> (ChainError, key) res" where
  "ca_pubkey data offset = ok_or CeInvalidAccountData (get_range offset (offset + 32) data)"

definition ca_u64 :: "bytes \<Rightarrow> nat \<Rightarrow> (ChainError, u64) res" where
  "ca_u64 data offset = bind_res (ok_or CeInvalidAccountData (get_range offset (offset + 8) data)) (\<lambda>b. Ok (from_le b))"

definition validate_account :: "account \<Rightarrow> key \<Rightarrow> u8 \<Rightarrow> (ChainError, unit) res" where
  "validate_account a program_id expected_discriminator =
     (if ac_owner a \<noteq> program_id then Err (CeAccountOwnerMismatch program_id (ac_owner a))
      else bind_res (ok_or CeInvalidAccountData (get_opt 0 (ac_data a))) (\<lambda>discriminator.
        if discriminator \<noteq> expected_discriminator
        then Err (CeAccountDiscriminatorMismatch expected_discriminator discriminator)
        else case get_opt 1 (ac_data a) of
            None \<Rightarrow> Err CeUninitializedAccount
          | Some v \<Rightarrow> if v = 0 then Err CeUninitializedAccount else Ok ()))"

definition current_layout :: "account \<Rightarrow> key \<Rightarrow> u8 \<Rightarrow> u8 \<Rightarrow> nat \<Rightarrow> (ChainError, bytes) res" where
  "current_layout a program_id discriminator version len =
     bind_res (validate_account a program_id discriminator) (\<lambda>_.
     if length (ac_data a) \<noteq> len then Err CeInvalidAccountData
     else bind_res (index_res 1 (ac_data a)) (\<lambda>v.
       if v \<noteq> version then Err CeInvalidAccountData else Ok (ac_data a)))"

section \<open>Positions\<close>

datatype PositionStatus = StatusNone | StatusOpen | StatusFunded | StatusLiquidated | StatusSettled | StatusClosed

definition position_status_try_from :: "u8 \<Rightarrow> (ChainError, PositionStatus) res" where
  "position_status_try_from v =
     (if v = 0 then Ok StatusNone else if v = 1 then Ok StatusOpen else if v = 2 then Ok StatusFunded
      else if v = 3 then Ok StatusLiquidated else if v = 4 then Ok StatusSettled else if v = 5 then Ok StatusClosed
      else Err (CeUnknownPositionStatus v))"

record PositionInfo =
  po_terms :: OptionTerms
  po_side :: TakerSide
  po_flags :: u8
  po_flags2 :: u8
  po_flags3 :: u8
  po_status :: PositionStatus
  po_writer :: key
  po_holder :: key
  po_market_pda :: key
  po_quantity :: u64
  po_order_id :: bytes

definition POSITION_DISCRIMINATOR :: u8 where "POSITION_DISCRIMINATOR = 1"
definition POSITION_VERSION :: u8 where "POSITION_VERSION = 2"
definition POSITION_LEN :: nat where "POSITION_LEN = 424"
definition POSITION_FLAG_TAKER_BUY :: u8 where "POSITION_FLAG_TAKER_BUY = push_bit 2 1"

definition position_from_account :: "account \<Rightarrow> key \<Rightarrow> (ChainError, PositionInfo) res" where
  "position_from_account a program_id =
     bind_res (current_layout a program_id POSITION_DISCRIMINATOR POSITION_VERSION POSITION_LEN) (\<lambda>data.
     bind_res (slice_res 128 (128 + 32) data) (\<lambda>order_id.
     bind_res (index_res 3 data) (\<lambda>kind.
     bind_res (map_err (\<lambda>_. CeInvalidPositionType kind) (chain_position_try_from kind)) (\<lambda>product.
     bind_res (ca_u64 data 104) (\<lambda>k.
     bind_res (if chain_is_spread product then bind_res (ca_u64 data 168) (\<lambda>u. Ok (Some u)) else Ok None) (\<lambda>upper.
     bind_res
       (case product of
          ChainCoveredCall \<Rightarrow> Ok (CCoveredCall k)
        | ChainCashSecuredPut \<Rightarrow> Ok (CCashSecuredPut k)
        | _ \<Rightarrow> map_err CeSpread (from_parts product k upper)) (\<lambda>terms.
     bind_res (index_res 5 data) (\<lambda>flags.
     bind_res (index_res 6 data) (\<lambda>flags2.
     bind_res (index_res 7 data) (\<lambda>flags3.
     bind_res (index_res 4 data) (\<lambda>status_byte.
     bind_res (position_status_try_from status_byte) (\<lambda>status.
     bind_res (ca_pubkey data 8) (\<lambda>writer.
     bind_res (ca_pubkey data 40) (\<lambda>holder.
     bind_res (ca_pubkey data 72) (\<lambda>market.
     bind_res (ca_u64 data 112) (\<lambda>quantity.
     Ok \<lparr>po_terms = from_chain terms,
       po_side = (if flags AND POSITION_FLAG_TAKER_BUY \<noteq> 0 then Buy else Sell),
       po_flags = flags, po_flags2 = flags2, po_flags3 = flags3, po_status = status, po_writer = writer,
       po_holder = holder, po_market_pda = market, po_quantity = quantity, po_order_id = order_id\<rparr>))))))))))))))))"

section \<open>Markets, makers and the global configuration\<close>

record MarketInfo =
  mk_expiry_ts :: u64
  mk_is_put :: bool
  mk_is_finalized :: bool
  mk_settlement_price :: u64
  mk_underlying_mint :: key
  mk_quote_mint :: key
  mk_underlying_token_program_id :: key
  mk_quote_token_program_id :: key
  mk_underlying_decimals :: u8
  mk_quote_decimals :: u8

definition MARKET_DISCRIMINATOR :: u8 where "MARKET_DISCRIMINATOR = 4"
definition ACCOUNT_VERSION :: u8 where "ACCOUNT_VERSION = 1"
definition MARKET_LEN :: nat where "MARKET_LEN = 416"

definition market_from_account :: "account \<Rightarrow> key \<Rightarrow> (ChainError, MarketInfo) res" where
  "market_from_account a program_id =
     bind_res (current_layout a program_id MARKET_DISCRIMINATOR ACCOUNT_VERSION MARKET_LEN) (\<lambda>data.
     bind_res (index_res 5 data) (\<lambda>flags.
     if flags AND NOT (1 OR 2) \<noteq> 0 then Err CeInvalidAccountData
     else
       bind_res (ca_u64 data 8) (\<lambda>expiry.
       bind_res (ca_u64 data 16) (\<lambda>settlement_price.
       bind_res (index_res 3 data) (\<lambda>underlying_decimals.
       bind_res (index_res 4 data) (\<lambda>quote_decimals.
       bind_res (ca_pubkey data 32) (\<lambda>underlying_mint.
       bind_res (ca_pubkey data 64) (\<lambda>quote_mint.
       bind_res (ca_pubkey data 96) (\<lambda>underlying_program.
       bind_res (ca_pubkey data 128) (\<lambda>quote_program.
       Ok \<lparr>mk_expiry_ts = expiry, mk_is_put = (flags AND 1 \<noteq> 0), mk_is_finalized = (flags AND 2 \<noteq> 0),
         mk_settlement_price = settlement_price, mk_underlying_mint = underlying_mint, mk_quote_mint = quote_mint,
         mk_underlying_token_program_id = underlying_program, mk_quote_token_program_id = quote_program,
         mk_underlying_decimals = underlying_decimals, mk_quote_decimals = quote_decimals\<rparr>))))))))))"

record MakerInfo =
  mi_owner :: key
  mi_quote_signer :: key

definition MAKER_DISCRIMINATOR :: u8 where "MAKER_DISCRIMINATOR = 2"
definition MAKER_LEN :: nat where "MAKER_LEN = 328"

definition maker_from_account :: "account \<Rightarrow> key \<Rightarrow> (ChainError, MakerInfo) res" where
  "maker_from_account a program_id =
     bind_res (current_layout a program_id MAKER_DISCRIMINATOR ACCOUNT_VERSION MAKER_LEN) (\<lambda>data.
     bind_res (ca_pubkey data 4) (\<lambda>owner.
     bind_res (ca_pubkey data 36) (\<lambda>signer.
     Ok \<lparr>mi_owner = owner, mi_quote_signer = signer\<rparr>)))"

record GlobalConfigInfo =
  gc_hot_authority :: key
  gc_bump :: u8

definition GLOBAL_CONFIG_DISCRIMINATOR :: u8 where "GLOBAL_CONFIG_DISCRIMINATOR = 6"
definition GLOBAL_CONFIG_LEN :: nat where "GLOBAL_CONFIG_LEN = 296"
definition GLOBAL_CONFIG_KNOWN_FLAGS :: u8 where "GLOBAL_CONFIG_KNOWN_FLAGS = 1"

definition global_config_from_account :: "account \<Rightarrow> key \<Rightarrow> (ChainError, GlobalConfigInfo) res" where
  "global_config_from_account a program_id =
     bind_res (current_layout a program_id GLOBAL_CONFIG_DISCRIMINATOR ACCOUNT_VERSION GLOBAL_CONFIG_LEN) (\<lambda>data.
     bind_res (ca_pubkey data 8) (\<lambda>hot_authority.
     bind_res (index_res 3 data) (\<lambda>flags.
     if flags AND NOT GLOBAL_CONFIG_KNOWN_FLAGS \<noteq> 0 then Err CeInvalidAccountData
     else bind_res (slice_res 4 8 data) (\<lambda>pad.
       if pad \<noteq> [0, 0, 0, 0] \<or> hot_authority = replicate 32 0 then Err CeInvalidAccountData
       else bind_res (index_res 2 data) (\<lambda>bump. Ok \<lparr>gc_hot_authority = hot_authority, gc_bump = bump\<rparr>)))))"

section \<open>Settlement amounts\<close>

definition required_settlement :: "u8 \<Rightarrow> u64 \<Rightarrow> u64 \<Rightarrow> u8 \<Rightarrow> u8 \<Rightarrow> (ChainError, u64) res" where
  "required_settlement kind k quantity quote_decimals underlying_decimals =
     (case chain_position_try_from kind of
        Ok ChainCoveredCall \<Rightarrow>
          map_err (\<lambda>_. CeSettlementAmountOverflow) (scaled_quote_amount k quantity quote_decimals underlying_decimals)
      | Ok ChainCashSecuredPut \<Rightarrow> Ok quantity
      | Panic \<Rightarrow> Panic
      | _ \<Rightarrow> Err (CeInvalidPositionType kind))"

section \<open>Events\<close>

record PositionOpenedEvent =
  oe_position_pda :: key
  oe_market_pda :: key
  oe_order_id :: bytes
  oe_writer :: key
  oe_holder :: key
  oe_flags :: u8
  oe_side :: TakerSide
  oe_terms :: OptionTerms
  oe_quantity :: u64
  oe_price :: u64
  oe_gross_premium :: u64
  oe_net_premium :: u64
  oe_collateral :: u64
  oe_valid_until :: u64
  oe_created_at :: u64

record SettleSpreadEvent =
  xe_settler :: key
  xe_writer :: key
  xe_holder :: key
  xe_position_pda :: key
  xe_market_pda :: key
  xe_final_status :: u8
  xe_is_otm :: bool
  xe_holder_payoff :: u64
  xe_writer_return :: u64

datatype PositionEvent = Opened PositionOpenedEvent | SpreadSettled SettleSpreadEvent

definition EVENT_HEADER :: bytes where "EVENT_HEADER = [65, 67, 84, 65, 2]"
definition POSITION_OPENED :: u8 where "POSITION_OPENED = 11"
definition SETTLE_SPREAD :: u8 where "SETTLE_SPREAD = 79"

definition decode_opened :: "bytes \<Rightarrow> (ChainError, PositionOpenedEvent) res" where
  "decode_opened bytes =
     (if length bytes \<noteq> 234 then Err CeInvalidAccountData
      else
        bind_res (index_res 160 bytes) (\<lambda>flags.
        bind_res (index_res 161 bytes) (\<lambda>kind.
        bind_res (map_err (\<lambda>_. CeInvalidPositionType kind) (chain_position_try_from kind)) (\<lambda>product.
        bind_res (ca_u64 bytes 162) (\<lambda>k.
        bind_res (if chain_is_spread product then bind_res (ca_u64 bytes 170) (\<lambda>u. Ok (Some u)) else Ok None) (\<lambda>upper.
        bind_res (ca_pubkey bytes 0) (\<lambda>position.
        bind_res (ca_pubkey bytes 32) (\<lambda>market.
        bind_res (ca_pubkey bytes 64) (\<lambda>order_id.
        bind_res (ca_pubkey bytes 96) (\<lambda>writer.
        bind_res (ca_pubkey bytes 128) (\<lambda>holder.
        bind_res (map_err CeSpread (from_parts product k upper)) (\<lambda>terms.
        bind_res (ca_u64 bytes 178) (\<lambda>quantity.
        bind_res (ca_u64 bytes 186) (\<lambda>price.
        bind_res (ca_u64 bytes 194) (\<lambda>gross.
        bind_res (ca_u64 bytes 202) (\<lambda>net.
        bind_res (ca_u64 bytes 210) (\<lambda>locked.
        bind_res (ca_u64 bytes 218) (\<lambda>valid_until.
        bind_res (ca_u64 bytes 226) (\<lambda>created_at.
        Ok \<lparr>oe_position_pda = position, oe_market_pda = market, oe_order_id = order_id, oe_writer = writer,
          oe_holder = holder, oe_flags = flags,
          oe_side = (if flags AND POSITION_FLAG_TAKER_BUY \<noteq> 0 then Buy else Sell),
          oe_terms = from_chain terms, oe_quantity = quantity, oe_price = price, oe_gross_premium = gross,
          oe_net_premium = net, oe_collateral = locked, oe_valid_until = valid_until, oe_created_at = created_at\<rparr>)))))))))))))))))))"

definition decode_settled :: "bytes \<Rightarrow> (ChainError, SettleSpreadEvent) res" where
  "decode_settled bytes =
     (if length bytes \<noteq> 178 then Err CeInvalidAccountData
      else
        bind_res (index_res 160 bytes) (\<lambda>status.
        if status \<noteq> 4 then Err CeInvalidAccountData
        else bind_res (index_res 161 bytes) (\<lambda>otm.
          if otm > 1 then Err CeInvalidAccountData
          else
            bind_res (ca_pubkey bytes 0) (\<lambda>settler.
            bind_res (ca_pubkey bytes 32) (\<lambda>writer.
            bind_res (ca_pubkey bytes 64) (\<lambda>holder.
            bind_res (ca_pubkey bytes 96) (\<lambda>position.
            bind_res (ca_pubkey bytes 128) (\<lambda>market.
            bind_res (ca_u64 bytes 162) (\<lambda>holder_payoff.
            bind_res (ca_u64 bytes 170) (\<lambda>writer_return.
            Ok \<lparr>xe_settler = settler, xe_writer = writer, xe_holder = holder, xe_position_pda = position,
              xe_market_pda = market, xe_final_status = status, xe_is_otm = (otm = 1),
              xe_holder_payoff = holder_payoff, xe_writer_return = writer_return\<rparr>))))))))))"

definition decode_position_event :: "bytes \<Rightarrow> (ChainError, PositionEvent option) res" where
  "decode_position_event data =
     (if length data < 6 then Err CeInvalidAccountData
      else bind_res (slice_res 0 5 data) (\<lambda>header.
        if header \<noteq> EVENT_HEADER then Err CeInvalidAccountData
        else bind_res (index_res 5 data) (\<lambda>kind.
          if kind = POSITION_OPENED then bind_res (decode_opened (drop 6 data)) (\<lambda>e. Ok (Some (Opened e)))
          else if kind = SETTLE_SPREAD then bind_res (decode_settled (drop 6 data)) (\<lambda>e. Ok (Some (SpreadSettled e)))
          else Ok None)))"

section \<open>Reading within the layout\<close>

text \<open>Inside a layout of known length every read succeeds; these rules turn a parser into its fields.\<close>

definition word_at :: "bytes \<Rightarrow> nat \<Rightarrow> u64" where
  "word_at d i = from_le (take 8 (drop i d))"

definition addr_at :: "bytes \<Rightarrow> nat \<Rightarrow> key" where
  "addr_at d i = take 32 (drop i d)"

lemma addr_at_key [simp]: "i + 32 \<le> length d \<Longrightarrow> is_key (addr_at d i)"
  by (simp add: addr_at_def)

lemma ca_reads [simp]:
  "i + 8 \<le> length d \<Longrightarrow> ca_u64 d i = Ok (word_at d i)"
  "i + 32 \<le> length d \<Longrightarrow> ca_pubkey d i = Ok (addr_at d i)"
  by (simp_all add: ca_u64_def ca_pubkey_def get_range_def word_at_def addr_at_def)

lemma index_reads [simp]: "i < length d \<Longrightarrow> index_res i d = Ok (d ! i)"
  by (simp add: index_res_def)

lemma validate_account_cases:
  "validate_account a program d = Ok () \<longleftrightarrow>
     ac_owner a = program \<and> 1 < length (ac_data a) \<and> ac_data a ! 0 = d \<and> ac_data a ! 1 \<noteq> 0"
  "validate_account a program d \<noteq> Panic"
  by (auto simp: validate_account_def get_opt_def)

lemma current_layout_iff:
  assumes "1 < len" "version \<noteq> 0"
  shows "current_layout a program d version len = Ok out \<longleftrightarrow>
     ac_owner a = program \<and> out = ac_data a \<and> length out = len \<and> out ! 0 = d \<and> out ! 1 = version"
  using assms validate_account_cases(1) [of a program d]
  by (auto simp: current_layout_def bind_res_eq_Ok index_res_eq_Ok)

lemma current_layout_no_panic: "1 < len \<Longrightarrow> current_layout a program d version len \<noteq> Panic"
  using validate_account_cases(2) [of a program d]
  by (auto simp: current_layout_def bind_res_eq_Panic index_res_eq_Panic)

text \<open>The terms a product byte and its strikes stand for.\<close>

definition read_terms :: "u8 \<Rightarrow> u64 \<Rightarrow> u64 \<Rightarrow> (ChainError, ChainTerms) res" where
  "read_terms kind k u =
     (if kind = 0 then Ok (CCoveredCall k) else if kind = 1 then Ok (CCashSecuredPut k)
      else if kind = 2 then (if k > 0 \<and> u > k then Ok (CCallSpread k u) else Err (CeSpread InvalidStrikes))
      else if kind = 3 then (if u > k then Ok (CPutSpread k u) else Err (CeSpread InvalidStrikes))
      else Err (CeInvalidPositionType kind))"

lemma position_from_layout:
  assumes "ac_owner a = program" "length (ac_data a) = 424" "ac_data a ! 0 = 1" "ac_data a ! 1 = 2"
  shows "position_from_account a program =
    (let d = ac_data a in
     bind_res (read_terms (d ! 3) (word_at d 104) (word_at d 168)) (\<lambda>terms.
     bind_res (position_status_try_from (d ! 4)) (\<lambda>status.
     Ok \<lparr>po_terms = from_chain terms, po_side = (if d ! 5 AND 4 \<noteq> 0 then Buy else Sell),
       po_flags = d ! 5, po_flags2 = d ! 6, po_flags3 = d ! 7, po_status = status, po_writer = addr_at d 8,
       po_holder = addr_at d 40, po_market_pda = addr_at d 72, po_quantity = word_at d 112, po_order_id = addr_at d 128\<rparr>)))"
proof -
  have l: "current_layout a program POSITION_DISCRIMINATOR POSITION_VERSION POSITION_LEN = Ok (ac_data a)"
    by (subst current_layout_iff) (use assms in \<open>simp_all add: POSITION_DISCRIMINATOR_def POSITION_VERSION_def POSITION_LEN_def\<close>)
  have o: "slice_res 128 (128 + 32) (ac_data a) = Ok (addr_at (ac_data a) 128)"
    using assms(2) by (simp add: slice_res_def addr_at_def)
  let ?d = "ac_data a"
  have fields: "index_res 3 ?d = Ok (?d ! 3)" "index_res 4 ?d = Ok (?d ! 4)" "index_res 5 ?d = Ok (?d ! 5)"
    "index_res 6 ?d = Ok (?d ! 6)" "index_res 7 ?d = Ok (?d ! 7)" "ca_pubkey ?d 8 = Ok (addr_at ?d 8)"
    "ca_pubkey ?d 40 = Ok (addr_at ?d 40)" "ca_pubkey ?d 72 = Ok (addr_at ?d 72)"
    "ca_u64 ?d 104 = Ok (word_at ?d 104)" "ca_u64 ?d 112 = Ok (word_at ?d 112)" "ca_u64 ?d 168 = Ok (word_at ?d 168)"
    using assms(2) by simp_all
  consider "?d ! 3 = 0" | "?d ! 3 = 1" | "?d ! 3 = 2" | "?d ! 3 = 3" | "?d ! 3 \<notin> {0, 1, 2, 3}" by blast
  then show ?thesis
    unfolding position_from_account_def l bind_res.simps o fields Let_def
    by cases (simp_all add: chain_position_try_from_def read_terms_def from_parts_def POSITION_FLAG_TAKER_BUY_def)
qed

lemma position_needs_layout:
  assumes "position_from_account a program = Ok p"
  shows "ac_owner a = program \<and> length (ac_data a) = 424 \<and> ac_data a ! 0 = 1 \<and> ac_data a ! 1 = 2"
proof -
  from assms obtain d where "current_layout a program POSITION_DISCRIMINATOR POSITION_VERSION POSITION_LEN = Ok d"
    by (auto simp: position_from_account_def bind_res_eq_Ok)
  then show ?thesis
    by (subst (asm) current_layout_iff) (auto simp: POSITION_DISCRIMINATOR_def POSITION_VERSION_def POSITION_LEN_def)
qed

fun position_status_u8 :: "PositionStatus \<Rightarrow> u8" where
  "position_status_u8 StatusNone = 0"
| "position_status_u8 StatusOpen = 1"
| "position_status_u8 StatusFunded = 2"
| "position_status_u8 StatusLiquidated = 3"
| "position_status_u8 StatusSettled = 4"
| "position_status_u8 StatusClosed = 5"

interpretation status_tag: tag_codec position_status_u8 position_status_try_from
proof
  show "position_status_try_from (position_status_u8 x) = Ok x" for x
    by (cases x) (simp_all add: position_status_try_from_def)
  show "position_status_try_from b = Ok x \<Longrightarrow> position_status_u8 x = b" for b x
    by (auto simp: position_status_try_from_def split: if_splits)
  show "position_status_try_from b \<noteq> Panic" for b
    by (simp add: position_status_try_from_def)
qed

text \<open>The documented layout of a position, and what is promised of the record read from it.\<close>

definition position_layout :: "bytes \<Rightarrow> PositionInfo \<Rightarrow> bool" where
  "position_layout d p \<longleftrightarrow>
     (let c = to_chain (po_terms p) in
      length d = 424 \<and>
      fields_at d [(0, [1]), (1, [2]), (3, [chain_position_u8 (chain_position_type c)]),
        (4, [position_status_u8 (po_status p)]), (5, [po_flags p]), (6, [po_flags2 p]), (7, [po_flags3 p]),
        (8, po_writer p), (40, po_holder p), (72, po_market_pda p), (104, u64_le (chain_strike c)),
        (112, u64_le (po_quantity p)), (128, po_order_id p)] \<and>
      (\<forall>u. chain_upper_strike c = Some u \<longrightarrow> fields_at d [(168, u64_le u)] \<and> valid_chain_terms c) \<and>
      is_key (po_writer p) \<and> is_key (po_holder p) \<and> is_key (po_market_pda p) \<and> is_key (po_order_id p) \<and>
      from_chain c = po_terms p \<and> (po_side p = Buy \<longleftrightarrow> po_flags p AND 4 \<noteq> 0))"

lemma read_terms_iff:
  "read_terms kind k u = Ok c \<longleftrightarrow>
     kind = chain_position_u8 (chain_position_type c) \<and> chain_strike c = k \<and>
     (\<forall>v. chain_upper_strike c = Some v \<longrightarrow> v = u \<and> valid_chain_terms c)"
  by (cases c) (auto simp: read_terms_def)

lemma word_at_eq: "i + 8 \<le> length d \<Longrightarrow> word_at d i = w \<longleftrightarrow> take 8 (drop i d) = u64_le w"
  by (auto simp: word_at_def u64_le_from_le)

lemma positions_layout_only: "position_from_account a program = Ok p \<Longrightarrow> position_layout (ac_data a) p"
proof -
  assume ok: "position_from_account a program = Ok p"
  note l = position_needs_layout [OF ok]
  let ?d = "ac_data a"
  from ok l obtain c status where c: "read_terms (?d ! 3) (word_at ?d 104) (word_at ?d 168) = Ok c"
    and stat: "position_status_try_from (?d ! 4) = Ok status"
    and p: "p = \<lparr>po_terms = from_chain c, po_side = (if ?d ! 5 AND 4 \<noteq> 0 then Buy else Sell),
       po_flags = ?d ! 5, po_flags2 = ?d ! 6, po_flags3 = ?d ! 7, po_status = status, po_writer = addr_at ?d 8,
       po_holder = addr_at ?d 40, po_market_pda = addr_at ?d 72, po_quantity = word_at ?d 112, po_order_id = addr_at ?d 128\<rparr>"
    by (auto simp: position_from_layout [of a program] Let_def bind_res_eq_Ok)
  have tc: "to_chain (from_chain c) = c" by (cases c) simp_all
  have words: "take 8 (drop 104 ?d) = u64_le (chain_strike c)" "take 8 (drop 112 ?d) = u64_le (word_at ?d 112)"
    "\<And>u. chain_upper_strike c = Some u \<Longrightarrow> take 8 (drop 168 ?d) = u64_le u \<and> valid_chain_terms c"
    using c l by (auto simp: read_terms_iff word_at_eq [symmetric])
  show ?thesis
    using l c stat words
    by (simp add: p position_layout_def Let_def tc byte_field first_byte read_terms_iff status_tag.of_tag_Ok_iff
        addr_at_def)
qed

lemma layout_gives_position:
  assumes "ac_owner a = program" "position_layout (ac_data a) p"
  shows "position_from_account a program = Ok p"
proof -
  let ?d = "ac_data a" and ?c = "to_chain (po_terms p)"
  note l = assms(2) [unfolded position_layout_def Let_def]
  have len: "length ?d = 424" using l by blast
  have bytes: "?d ! 0 = 1" "?d ! 1 = 2" "?d ! 3 = chain_position_u8 (chain_position_type ?c)"
    "?d ! 4 = position_status_u8 (po_status p)" "?d ! 5 = po_flags p" "?d ! 6 = po_flags2 p" "?d ! 7 = po_flags3 p"
    using l len by (simp_all add: byte_field first_byte)
  have words: "word_at ?d 104 = chain_strike ?c" "word_at ?d 112 = po_quantity p"
    "\<And>u. chain_upper_strike ?c = Some u \<Longrightarrow> word_at ?d 168 = u \<and> valid_chain_terms ?c"
    using l len by (simp_all add: word_at_eq)
  have keys: "addr_at ?d 8 = po_writer p" "addr_at ?d 40 = po_holder p" "addr_at ?d 72 = po_market_pda p"
    "addr_at ?d 128 = po_order_id p"
    using l by (auto simp: addr_at_def)
  have trm: "read_terms (chain_position_u8 (chain_position_type ?c)) (chain_strike ?c) (word_at ?d 168) = Ok ?c"
    using words(3) by (auto simp: read_terms_iff)
  have side: "(if po_flags p AND 4 \<noteq> 0 then Buy else Sell) = po_side p" and fc: "from_chain ?c = po_terms p"
    using l by (cases "po_side p"; auto)+
  show ?thesis
    by (subst position_from_layout [OF assms(1) len bytes(1,2)])
      (simp add: Let_def trm bytes status_tag.of_to words(1,2) keys side fc)
qed

text \<open>
  C31. A position account is read exactly: the parser returns a record if and only if the account belongs to
  the program and its bytes are the current 424-byte layout of that record, with a known product and status
  and, for a spread, ordered strikes; every field is then the one at its documented offset, a zero-lower put
  spread is a cash put, and the side is the taker-buy flag.
\<close>

theorem positions_exact:
  "position_from_account a program = Ok p \<longleftrightarrow> ac_owner a = program \<and> position_layout (ac_data a) p"
  using positions_layout_only layout_gives_position position_needs_layout by blast

section \<open>Well-typed results\<close>

lemma read_terms_no_panic: "read_terms kind k u \<noteq> Panic"
  by (simp add: read_terms_def)

text \<open>Each parser reads nothing before the header check, and everything after it is in range.\<close>

lemma layout_or_error:
  assumes "1 < len" "v \<noteq> 0"
  obtains (layout) "current_layout a program disc v len = Ok (ac_data a)" "ac_owner a = program" "length (ac_data a) = len"
    "ac_data a ! 0 = disc" "ac_data a ! 1 = v"
  | (error) e where "current_layout a program disc v len = Err e"
  using current_layout_iff [OF assms, of a program disc "ac_data a"] current_layout_no_panic [OF assms(1), of a program disc v]
    current_layout_iff [OF assms, of a program disc]
  by (cases "current_layout a program disc v len") auto

lemmas account_consts = POSITION_DISCRIMINATOR_def POSITION_VERSION_def POSITION_LEN_def MARKET_DISCRIMINATOR_def
  ACCOUNT_VERSION_def MARKET_LEN_def MAKER_DISCRIMINATOR_def MAKER_LEN_def GLOBAL_CONFIG_DISCRIMINATOR_def
  GLOBAL_CONFIG_LEN_def

lemma position_no_panic: "position_from_account a program \<noteq> Panic"
proof (rule layout_or_error [of POSITION_LEN POSITION_VERSION a program POSITION_DISCRIMINATOR])
  assume "ac_owner a = program" "length (ac_data a) = POSITION_LEN" "ac_data a ! 0 = POSITION_DISCRIMINATOR" "ac_data a ! 1 = POSITION_VERSION"
  then have "ac_owner a = program" "length (ac_data a) = 424" "ac_data a ! 0 = 1" "ac_data a ! 1 = 2"
    by (simp_all add: account_consts)
  from position_from_layout [OF this] show ?thesis
    using read_terms_no_panic status_tag.of_tag_total by (auto simp: Let_def bind_res_eq_Panic)
qed (auto simp: position_from_account_def account_consts)

lemma market_cases:
  "market_from_account a program \<noteq> Panic"
  "market_from_account a program = Ok m \<Longrightarrow>
     ac_owner a = program \<and> length (ac_data a) = 416 \<and> ac_data a ! 0 = 4 \<and> ac_data a ! 5 AND NOT 3 = 0 \<and>
     m = (let d = ac_data a in
       \<lparr>mk_expiry_ts = word_at d 8, mk_is_put = (d ! 5 AND 1 \<noteq> 0), mk_is_finalized = (d ! 5 AND 2 \<noteq> 0),
        mk_settlement_price = word_at d 16, mk_underlying_mint = addr_at d 32, mk_quote_mint = addr_at d 64,
        mk_underlying_token_program_id = addr_at d 96, mk_quote_token_program_id = addr_at d 128,
        mk_underlying_decimals = d ! 3, mk_quote_decimals = d ! 4\<rparr>)"
  by (rule layout_or_error [of MARKET_LEN ACCOUNT_VERSION a program MARKET_DISCRIMINATOR];
      auto simp: market_from_account_def account_consts Let_def split: if_splits)+

lemma maker_cases:
  "maker_from_account a program \<noteq> Panic"
  "maker_from_account a program = Ok m \<Longrightarrow>
     ac_owner a = program \<and> length (ac_data a) = 328 \<and> ac_data a ! 0 = 2 \<and>
     m = \<lparr>mi_owner = addr_at (ac_data a) 4, mi_quote_signer = addr_at (ac_data a) 36\<rparr>"
  by (rule layout_or_error [of MAKER_LEN ACCOUNT_VERSION a program MAKER_DISCRIMINATOR];
      auto simp: maker_from_account_def account_consts)+

lemma global_config_cases:
  "global_config_from_account a program \<noteq> Panic"
  "global_config_from_account a program = Ok g \<Longrightarrow>
     ac_owner a = program \<and> length (ac_data a) = 296 \<and> ac_data a ! 0 = 6 \<and>
     gc_hot_authority g = addr_at (ac_data a) 8 \<and> gc_hot_authority g \<noteq> replicate 32 0 \<and> gc_bump g = ac_data a ! 2"
  by (rule layout_or_error [of GLOBAL_CONFIG_LEN ACCOUNT_VERSION a program GLOBAL_CONFIG_DISCRIMINATOR];
      auto simp: global_config_from_account_def account_consts slice_res_def split: if_splits)+

lemma from_parts_no_panic: "from_parts p k u \<noteq> Panic"
  by (cases p; cases u) (simp_all add: from_parts_def)

lemma event_no_panic: "decode_position_event data \<noteq> Panic"
proof -
  have o: "decode_opened b \<noteq> Panic" for b
    unfolding decode_opened_def
    by (intro if_not_PanicI bind_res_not_PanicI)
      (auto simp: map_err_eq_Panic chain_tag.of_tag_total from_parts_no_panic)
  have s: "decode_settled b \<noteq> Panic" for b
    unfolding decode_settled_def by (intro if_not_PanicI bind_res_not_PanicI) auto
  show ?thesis
    using o [of "drop 6 data"] s [of "drop 6 data"]
    by (auto simp: decode_position_event_def slice_res_def bind_res_eq_Panic)
qed

definition terms_typed :: "OptionTerms \<Rightarrow> bool" where
  "terms_typed t \<longleftrightarrow> from_chain (to_chain t) = t \<and> (is_spread t \<longrightarrow> valid_chain_terms (to_chain t))"

definition position_typed :: "PositionInfo \<Rightarrow> bool" where
  "position_typed p \<longleftrightarrow> terms_typed (po_terms p) \<and> list_all is_key [po_writer p, po_holder p, po_market_pda p, po_order_id p] \<and>
     (po_side p = Buy \<longleftrightarrow> po_flags p AND 4 \<noteq> 0)"

definition market_typed :: "MarketInfo \<Rightarrow> bool" where
  "market_typed m \<longleftrightarrow> list_all is_key [mk_underlying_mint m, mk_quote_mint m, mk_underlying_token_program_id m, mk_quote_token_program_id m]"

definition event_typed :: "PositionOpenedEvent \<Rightarrow> bool" where
  "event_typed e \<longleftrightarrow> terms_typed (oe_terms e) \<and>
     list_all is_key [oe_position_pda e, oe_market_pda e, oe_order_id e, oe_writer e, oe_holder e] \<and>
     (oe_side e = Buy \<longleftrightarrow> oe_flags e AND 4 \<noteq> 0)"

lemma position_is_typed:
  assumes "position_from_account a program = Ok p"
  shows "position_typed p"
proof -
  note l = positions_layout_only [OF assms, unfolded position_layout_def Let_def]
  have "terms_typed (po_terms p)"
    using l by (cases "po_terms p") (auto simp: terms_typed_def is_spread_def)
  with l show ?thesis by (simp add: position_typed_def)
qed

lemma opened_is_typed:
  assumes "decode_opened b = Ok e"
  shows "event_typed e"
proof -
  from assms have len: "length b = 234" by (simp add: decode_opened_def split: if_splits)
  from assms obtain product upper c where c: "from_parts product (word_at b 162) upper = Ok c"
    and e: "oe_terms e = from_chain c" "oe_position_pda e = addr_at b 0" "oe_market_pda e = addr_at b 32"
      "oe_order_id e = addr_at b 64" "oe_writer e = addr_at b 96" "oe_holder e = addr_at b 128"
      "oe_side e = (if oe_flags e AND POSITION_FLAG_TAKER_BUY \<noteq> 0 then Buy else Sell)"
    by (auto simp: decode_opened_def len bind_res_eq_Ok map_err_eq_Ok)
  from c have v: "valid_chain_terms c" by (cases product; cases upper) (auto simp: from_parts_def split: if_splits)
  have "to_chain (from_chain c) = c" by (cases c) simp_all
  with v have "terms_typed (oe_terms e)" by (simp add: e(1) terms_typed_def)
  with len e show ?thesis by (simp add: event_typed_def POSITION_FLAG_TAKER_BUY_def)
qed


text \<open>A covered call that a maker bought from a vault, as a 424-byte account.\<close>

definition sample_position :: account where
  "sample_position = \<lparr>ac_owner = replicate 32 7,
     ac_data = [1, 2, 255, 0, 1, 5, 0, 0] @ replicate 32 11 @ replicate 32 12 @ replicate 32 13 @
       u64_le 150000000000 @ u64_le 1000000 @ replicate 8 0 @ replicate 32 14 @ replicate 264 0\<rparr>"


end
