(* ===== verification/MakerFunding.thy ===== *)
theory MakerFunding
  imports MakerAccounts "HOL-Library.List_Lexorder"
begin

text \<open>
  What a maker's client reads from the chain and how it funds a position: the batched snapshot and the
  funding instructions (\<^verbatim>\<open>src/src/chain/batch.rs\<close>), wrapping native SOL (\<^verbatim>\<open>chain/wsol.rs\<close>) and the client that
  puts both together (\<^verbatim>\<open>chain/rpc.rs\<close>). The answers of the RPC node are a record of functions.
\<close>

section \<open>The RPC node\<close>

record rpc_node =
  rn_account :: "key \<Rightarrow> (ChainError, account) res"
  rn_optional :: "key \<Rightarrow> (ChainError, account option) res"
  rn_multiple :: "key list \<Rightarrow> (ChainError, account option list) res"
  rn_program_accounts :: "key \<Rightarrow> (ChainError, (key \<times> account) list) res"
  rn_rent :: "nat \<Rightarrow> (ChainError, u64) res"
  rn_balance :: "key \<Rightarrow> (ChainError, u64) res"

function chunks :: "nat \<Rightarrow> 'a list \<Rightarrow> 'a list list" where
  "chunks n xs = (if n = 0 \<or> xs = [] then [] else take n xs # chunks n (drop n xs))"
  by pat_completeness auto
termination by (relation "measure (length \<circ> snd)") auto

declare chunks.simps [simp del]

definition fetch_accounts :: "rpc_node \<Rightarrow> key list \<Rightarrow> (ChainError, account option list) res" where
  "fetch_accounts rpc keys =
     bind_res (collect_res (\<lambda>chunk.
       bind_res (rn_multiple rpc chunk) (\<lambda>values.
       if length values \<noteq> length chunk then Err CeInvalidAccountData else Ok values)) (chunks 100 keys)) (\<lambda>accounts.
     Ok (concat accounts))"

section \<open>Snapshots\<close>

record PositionSnapshot =
  ps_address :: key
  ps_position :: PositionInfo
  ps_market_address :: key
  ps_market :: MarketInfo

record PremiumToken =
  pt_mint :: key
  pt_token_program :: key

record PremiumBalance =
  pb_token :: PremiumToken
  pb_address :: key
  pb_amount :: "u64 option"

record MakerSnapshot =
  ms_positions :: "PositionSnapshot list"
  ms_premium_balances :: "PremiumBalance list"
  ms_missing_positions :: "key list"

definition supported_token_program :: "key \<Rightarrow> bool" where
  "supported_token_program program \<longleftrightarrow> program = TOKEN_PROGRAM_ID \<or> program = TOKEN_2022_PROGRAM_ID"

definition decode_premium_balance :: "account \<Rightarrow> key \<Rightarrow> PremiumToken \<Rightarrow> (ChainError, u64) res" where
  "decode_premium_balance a owner token =
     (if \<not> supported_token_program (pt_token_program token) \<or> ac_owner a \<noteq> pt_token_program token \<or> length (ac_data a) < 165
      then Err CeInvalidAccountData
      else bind_res (slice_res 0 32 (ac_data a)) (\<lambda>mint.
        if mint \<noteq> pt_mint token then Err CeInvalidAccountData
        else bind_res (slice_res 32 64 (ac_data a)) (\<lambda>holder.
          if holder \<noteq> owner then Err CeInvalidAccountData
          else bind_res (index_res 108 (ac_data a)) (\<lambda>state.
            if state \<noteq> 1 then Err CeInvalidAccountData
            else bind_res (slice_res 64 72 (ac_data a)) (\<lambda>amount. Ok (from_le amount))))))"

text \<open>\<^verbatim>\<open>map[&key]\<close>, which panics on an absent key; the map is built from the keys and what was fetched.\<close>

definition map_index :: "('k \<times> 'v) list \<Rightarrow> 'k \<Rightarrow> ('e, 'v) res" where
  "map_index m k = (case map_of m k of Some v \<Rightarrow> Ok v | None \<Rightarrow> Panic)"

definition sorted_keys :: "key list \<Rightarrow> key list" where
  "sorted_keys keys = remdups_adj (sort keys)"

text \<open>The loop over the requested positions; the accumulator holds the decoded ones and the missing ones.\<close>

fun decode_positions ::
  "key \<Rightarrow> key \<Rightarrow> (key \<times> account option) list \<Rightarrow> key list \<Rightarrow> (ChainError, (key \<times> PositionInfo) list \<times> key list) res" where
  "decode_positions program owner accounts [] = Ok ([], [])"
| "decode_positions program owner accounts (k # ks) =
     bind_res (map_index accounts k) (\<lambda>found.
     case found of
       None \<Rightarrow> bind_res (decode_positions program owner accounts ks) (\<lambda>(ps, missing). Ok (ps, k # missing))
     | Some a \<Rightarrow>
         bind_res (position_from_account a program) (\<lambda>p.
         if po_holder p \<noteq> owner then Err (CeIdentity ''maker owner'')
         else bind_res (decode_positions program owner accounts ks) (\<lambda>(ps, missing). Ok ((k, p) # ps, missing))))"

definition decode_market :: "key \<Rightarrow> key \<times> account option \<Rightarrow> (ChainError, key \<times> MarketInfo) res" where
  "decode_market program entry =
     (case entry of (k, a) \<Rightarrow>
        bind_res (ok_or (CeMissingAccount k) a) (\<lambda>a.
        bind_res (market_from_account a program) (\<lambda>m. Ok (k, m))))"

definition premium_balance ::
  "find_pda \<Rightarrow> key \<Rightarrow> (key \<times> account option) list \<Rightarrow> PremiumToken \<Rightarrow> (ChainError, PremiumBalance) res" where
  "premium_balance pda maker accounts token =
     (let address = ata pda maker (pt_mint token) (pt_token_program token) in
      bind_res (map_index accounts address) (\<lambda>found.
      bind_res (case found of None \<Rightarrow> Ok None
          | Some a \<Rightarrow> bind_res (decode_premium_balance a maker token) (\<lambda>amount. Ok (Some amount))) (\<lambda>amount.
      Ok \<lparr>pb_token = token, pb_address = address, pb_amount = amount\<rparr>)))"

definition join_market :: "(key \<times> MarketInfo) list \<Rightarrow> key \<times> PositionInfo \<Rightarrow> (ChainError, PositionSnapshot) res" where
  "join_market markets e =
     (case e of (address, p) \<Rightarrow>
        bind_res (map_index markets (po_market_pda p)) (\<lambda>m.
        Ok \<lparr>ps_address = address, ps_position = p, ps_market_address = po_market_pda p, ps_market = m\<rparr>))"

text \<open>The second round of reads: the market of every decoded position, each read once.\<close>

definition join_markets :: "rpc_node \<Rightarrow> key \<Rightarrow> (key \<times> PositionInfo) list \<Rightarrow> (ChainError, (key \<times> MarketInfo) list) res" where
  "join_markets rpc program decoded =
     (let market_keys = sorted_keys (map (\<lambda>(_, p). po_market_pda p) decoded) in
      bind_res (fetch_accounts rpc market_keys) (\<lambda>fetched.
      collect_res (decode_market program) (zip market_keys fetched)))"

definition maker_snapshot ::
  "find_pda \<Rightarrow> rpc_node \<Rightarrow> key \<Rightarrow> key \<Rightarrow> key list \<Rightarrow> PremiumToken list \<Rightarrow> (ChainError, MakerSnapshot) res" where
  "maker_snapshot pda rpc program owner positions premiums =
     (if list_ex (\<lambda>t. \<not> supported_token_program (pt_token_program t)) premiums then Err CeInvalidAccountData
      else
        let maker = fst (maker_pda pda program owner);
            keys = sorted_keys (positions @ map (\<lambda>t. ata pda maker (pt_mint t) (pt_token_program t)) premiums) in
        bind_res (fetch_accounts rpc keys) (\<lambda>fetched.
        bind_res (decode_positions program owner (zip keys fetched) positions) (\<lambda>decoded.
        bind_res (join_markets rpc program (fst decoded)) (\<lambda>markets.
        bind_res (collect_res (premium_balance pda maker (zip keys fetched)) premiums) (\<lambda>balances.
        bind_res (collect_res (join_market markets) (fst decoded)) (\<lambda>snapshots.
        Ok \<lparr>ms_positions = snapshots, ms_premium_balances = balances, ms_missing_positions = snd decoded\<rparr>))))))"

text \<open>Recovery at start: the program's accounts that hold a position of this maker, still open or funded.\<close>

definition maker_open_positions :: "rpc_node \<Rightarrow> key \<Rightarrow> key \<Rightarrow> (ChainError, (key \<times> PositionInfo) list) res" where
  "maker_open_positions rpc program owner =
     bind_res (rn_program_accounts rpc owner) (\<lambda>found.
     bind_res (collect_res (\<lambda>(k, a).
       bind_res (position_from_account a program) (\<lambda>p.
       if po_holder p \<noteq> owner then Err (CeIdentity ''maker owner'') else Ok (k, p))) found) (\<lambda>decoded.
     Ok (filter (\<lambda>(_, p). po_status p \<in> {StatusOpen, StatusFunded}) decoded)))"

section \<open>Funding one position\<close>

fun settlement_token :: "PositionSnapshot \<Rightarrow> PremiumToken" where
  "settlement_token s =
     (if position_type (po_terms (ps_position s)) = CashSecuredPut
      then \<lparr>pt_mint = mk_underlying_mint (ps_market s), pt_token_program = mk_underlying_token_program_id (ps_market s)\<rparr>
      else \<lparr>pt_mint = mk_quote_mint (ps_market s), pt_token_program = mk_quote_token_program_id (ps_market s)\<rparr>)"

definition snapshot_settlement :: "PositionSnapshot \<Rightarrow> (ChainError, u64) res" where
  "snapshot_settlement s =
     required_settlement (chain_position_u8 (chain_position_type (to_chain (po_terms (ps_position s)))))
       (strike (po_terms (ps_position s))) (po_quantity (ps_position s))
       (mk_quote_decimals (ps_market s)) (mk_underlying_decimals (ps_market s))"

definition fund_instructions ::
  "find_pda \<Rightarrow> PositionSnapshot \<Rightarrow> key \<Rightarrow> key \<Rightarrow> key \<Rightarrow> bool \<Rightarrow> (ChainError, Instruction list) res" where
  "fund_instructions pda s program maker_owner fee_payer create_atas =
     (let p = ps_position s; m = ps_market s in
      if is_taker_buy (po_side p) then Err CeTakerBuyUnsupported
      else if ps_market_address s \<noteq> po_market_pda p then Err (CeIdentity ''market'')
      else if po_holder p \<noteq> maker_owner then Err (CeIdentity ''maker owner'')
      else if po_status p \<noteq> StatusOpen \<or> mk_is_put m \<noteq> (position_type (po_terms p) = CashSecuredPut)
      then Err CeInvalidAccountData
      else map_err CeIx (build_fund_position_ixs pda program
        \<lparr>fp_holder = maker_owner, fp_position_pda = ps_address s, fp_market_pda = po_market_pda p,
         fp_position_type = chain_position_u8 (chain_position_type (to_chain (po_terms p))),
         fp_underlying_mint = mk_underlying_mint m, fp_quote_mint = mk_quote_mint m,
         fp_underlying_token_program_id = mk_underlying_token_program_id m,
         fp_quote_token_program_id = mk_quote_token_program_id m, fp_create_atas = create_atas\<rparr> fee_payer))"

section \<open>Wrapping native SOL\<close>

definition NATIVE_MINT :: key where
  "NATIVE_MINT = [
     6, 155, 136, 87, 254, 171, 129, 132, 251, 104, 127, 99, 70, 24, 192, 53, 218, 196, 57, 220, 26, 235, 59, 85,
     152, 160, 240, 0, 0, 0, 0, 1]"

datatype NativeSolFunding = FundingDisabled | WrapIfNeeded u64

datatype WrapDecision = WrapNotNeeded | DoWrap u64 | WrapInsufficient u64 u64

record NativeSolBudget =
  nb_owner :: key
  nb_wrap_lamports :: u64
  nb_ata_rent_lamports :: u64
  nb_reserve_lamports :: u64

datatype WrapPlan = PlanNotNeeded | PlanWrap "Instruction list" NativeSolBudget

record WsolWrapRequest =
  wq_owner :: key
  wq_funding_ata :: key
  wq_token_program :: key
  wq_expected_settlement :: u64
  wq_reserve_lamports :: u64
  wq_allow_account_creation :: bool
  wq_fee_payer :: key
  wq_additional_ata_rent_lamports :: u64

definition required_lamports :: "NativeSolBudget \<Rightarrow> u64 \<Rightarrow> (ChainError, u64) res" where
  "required_lamports b fee =
     ok_or CeNativeSolBudgetOverflow
       (Option.bind (checked_add (nb_wrap_lamports b) (nb_ata_rent_lamports b)) (\<lambda>v.
        Option.bind (checked_add v fee) (\<lambda>v. checked_add v (nb_reserve_lamports b))))"

definition budget_validate :: "NativeSolBudget \<Rightarrow> u64 \<Rightarrow> u64 \<Rightarrow> (ChainError, unit) res" where
  "budget_validate b available fee =
     bind_res (required_lamports b fee) (\<lambda>needed.
     if available < needed then Err (CeInsufficientNativeSol needed available) else Ok ())"

definition decide_wrap :: "u64 \<Rightarrow> u64 \<Rightarrow> u64 \<Rightarrow> u64 \<Rightarrow> u64 \<Rightarrow> (ChainError, WrapDecision) res" where
  "decide_wrap existing expected sol_balance reserve ata_rent =
     (if existing \<ge> expected then Ok WrapNotNeeded
      else bind_res (plain_sub expected existing) (\<lambda>wrap.
        let needed = saturating_add (saturating_add wrap ata_rent) reserve in
        if sol_balance < needed then Ok (WrapInsufficient needed sol_balance) else Ok (DoWrap wrap)))"

definition parse_wsol_balance :: "account \<Rightarrow> key \<Rightarrow> key \<Rightarrow> (ChainError, u64) res" where
  "parse_wsol_balance a expected_owner token_program =
     (if ac_owner a \<noteq> token_program \<or> length (ac_data a) < 72 then Err CeInvalidAccountData
      else bind_res (ca_pubkey (ac_data a) 0) (\<lambda>mint.
        if mint \<noteq> NATIVE_MINT then Err CeInvalidAccountData
        else bind_res (ca_pubkey (ac_data a) 32) (\<lambda>owner.
          if owner \<noteq> expected_owner then Err CeInvalidAccountData else ca_u64 (ac_data a) 64)))"

definition build_system_transfer_ix :: "key \<Rightarrow> key \<Rightarrow> u64 \<Rightarrow> Instruction" where
  "build_system_transfer_ix from_key to_key lamports =
     \<lparr>ix_program_id = SYSTEM_PROGRAM_ID, ix_accounts = [meta_new from_key True, meta_new to_key False],
      ix_data = u32_le 2 @ u64_le lamports\<rparr>"

definition build_sync_native_ix :: "key \<Rightarrow> key \<Rightarrow> Instruction" where
  "build_sync_native_ix token_program native_account =
     \<lparr>ix_program_id = token_program, ix_accounts = [meta_new native_account False], ix_data = [17]\<rparr>"

definition build_wrap_sol_ixs :: "find_pda \<Rightarrow> key \<Rightarrow> key \<Rightarrow> u64 \<Rightarrow> Instruction list" where
  "build_wrap_sol_ixs pda owner fee_payer lamports =
     (let account = ata pda owner NATIVE_MINT TOKEN_PROGRAM_ID in
      [create_associated_token_account_idempotent_ix fee_payer account owner NATIVE_MINT TOKEN_PROGRAM_ID,
       build_system_transfer_ix owner account lamports, build_sync_native_ix TOKEN_PROGRAM_ID account])"

definition TOKEN_ACCOUNT_RENT_LEN :: nat where "TOKEN_ACCOUNT_RENT_LEN = 165"

text \<open>What becomes of a decision: the two instructions of a wrap come with the budget they need.\<close>

definition wrap_plan :: "WsolWrapRequest \<Rightarrow> u64 \<Rightarrow> WrapDecision \<Rightarrow> (ChainError, WrapPlan) res" where
  "wrap_plan q rent decision =
     (case decision of
        WrapNotNeeded \<Rightarrow> Ok PlanNotNeeded
      | WrapInsufficient needed available \<Rightarrow> Err (CeInsufficientNativeSol needed available)
      | DoWrap wrap \<Rightarrow>
          bind_res (ok_or CeNativeSolBudgetOverflow (checked_add rent (wq_additional_ata_rent_lamports q))) (\<lambda>total_rent.
          Ok (PlanWrap [build_system_transfer_ix (wq_owner q) (wq_funding_ata q) wrap,
               build_sync_native_ix (wq_token_program q) (wq_funding_ata q)]
            \<lparr>nb_owner = wq_owner q, nb_wrap_lamports = wrap, nb_ata_rent_lamports = total_rent,
             nb_reserve_lamports = wq_reserve_lamports q\<rparr>)))"

definition plan_wsol_wrap :: "rpc_node \<Rightarrow> account option \<Rightarrow> WsolWrapRequest \<Rightarrow> (ChainError, WrapPlan) res" where
  "plan_wsol_wrap rpc funding q =
     bind_res
       (case funding of
          Some a \<Rightarrow> bind_res (parse_wsol_balance a (wq_owner q) (wq_token_program q)) (\<lambda>b. Ok (b, 0))
        | None \<Rightarrow>
            if wq_allow_account_creation q
            then (if wq_fee_payer q = wq_owner q
                  then bind_res (rn_rent rpc TOKEN_ACCOUNT_RENT_LEN) (\<lambda>rent. Ok (0, rent)) else Ok (0, 0))
            else Err (CeMissingFundingAccount (wq_funding_ata q))) (\<lambda>(existing, rent).
     if existing \<ge> wq_expected_settlement q then Ok PlanNotNeeded
     else bind_res (rn_balance rpc (wq_owner q)) (\<lambda>sol_balance.
       bind_res (decide_wrap existing (wq_expected_settlement q) sol_balance (wq_reserve_lamports q)
           (saturating_add rent (wq_additional_ata_rent_lamports q))) (wrap_plan q rent)))"

section \<open>The client\<close>

record FundPositionArgs =
  fa_holder :: key
  fa_position_pda :: key
  fa_create_atas :: bool
  fa_native_sol :: NativeSolFunding

record PreparedFundPosition =
  pf_instructions :: "Instruction list"
  pf_native_budget :: "NativeSolBudget option"

definition load_snapshot :: "rpc_node \<Rightarrow> key \<Rightarrow> key \<Rightarrow> (ChainError, PositionSnapshot) res" where
  "load_snapshot rpc program position_pda =
     bind_res (rn_account rpc position_pda) (\<lambda>position_data.
     bind_res (position_from_account position_data program) (\<lambda>p.
     bind_res (rn_account rpc (po_market_pda p)) (\<lambda>market_data.
     bind_res (market_from_account market_data program) (\<lambda>m.
     Ok \<lparr>ps_address = position_pda, ps_position = p, ps_market_address = po_market_pda p, ps_market = m\<rparr>))))"

text \<open>The funding account, and the rent of the position's own account when this wallet pays for it.\<close>

definition load_funding ::
  "rpc_node \<Rightarrow> FundPositionArgs \<Rightarrow> key \<Rightarrow> key \<Rightarrow> key \<Rightarrow> (ChainError, account option \<times> u64) res" where
  "load_funding rpc args fee_payer position_ata funding_ata =
     (if fa_create_atas args \<and> fee_payer = fa_holder args
      then bind_res (rn_multiple rpc [position_ata, funding_ata]) (\<lambda>found.
        case found of
          [position_account, funding_account] \<Rightarrow>
            bind_res (if position_account = None then rn_rent rpc TOKEN_ACCOUNT_RENT_LEN else Ok 0) (\<lambda>rent.
            Ok (funding_account, rent))
        | _ \<Rightarrow> Err CeInvalidAccountData)
      else bind_res (rn_optional rpc funding_ata) (\<lambda>a. Ok (a, 0)))"

definition wrap_position ::
  "find_pda \<Rightarrow> rpc_node \<Rightarrow> FundPositionArgs \<Rightarrow> key \<Rightarrow> u64 \<Rightarrow> PremiumToken \<Rightarrow> PositionSnapshot \<Rightarrow> Instruction list \<Rightarrow>
   (ChainError, PreparedFundPosition) res" where
  "wrap_position pda rpc args fee_payer reserve token s ixs =
     bind_res (snapshot_settlement s) (\<lambda>expected.
     if expected = 0 then Err CeInvalidAccountData
     else if pt_token_program token \<noteq> TOKEN_PROGRAM_ID then Err (CeInvalidNativeTokenProgram (pt_token_program token))
     else
       let funding_ata = ata pda (fa_holder args) (pt_mint token) (pt_token_program token);
           position_ata = ata pda (fa_position_pda args) (pt_mint token) (pt_token_program token) in
       bind_res (load_funding rpc args fee_payer position_ata funding_ata) (\<lambda>(funding, rent).
       bind_res (plan_wsol_wrap rpc funding
         \<lparr>wq_owner = fa_holder args, wq_funding_ata = funding_ata, wq_token_program = pt_token_program token,
          wq_expected_settlement = expected, wq_reserve_lamports = reserve, wq_allow_account_creation = fa_create_atas args,
          wq_fee_payer = fee_payer, wq_additional_ata_rent_lamports = rent\<rparr>) (\<lambda>plan.
       case plan of
         PlanNotNeeded \<Rightarrow> Ok \<lparr>pf_instructions = ixs, pf_native_budget = None\<rparr>
       | PlanWrap wrap_ixs budget \<Rightarrow>
           if ixs = [] then Err CeInvalidAccountData
           else Ok \<lparr>pf_instructions = butlast ixs @ wrap_ixs @ [last ixs], pf_native_budget = Some budget\<rparr>)))"

definition prepare_fund_position ::
  "find_pda \<Rightarrow> rpc_node \<Rightarrow> key \<Rightarrow> FundPositionArgs \<Rightarrow> key \<Rightarrow> (ChainError, PreparedFundPosition) res" where
  "prepare_fund_position pda rpc program args fee_payer =
     bind_res (load_snapshot rpc program (fa_position_pda args)) (\<lambda>s.
     bind_res (fund_instructions pda s program (fa_holder args) fee_payer (fa_create_atas args)) (\<lambda>ixs.
     case fa_native_sol args of
       FundingDisabled \<Rightarrow> Ok \<lparr>pf_instructions = ixs, pf_native_budget = None\<rparr>
     | WrapIfNeeded reserve \<Rightarrow>
         if position_type (po_terms (ps_position s)) \<notin> {CoveredCall, CashSecuredPut} then Err CeInvalidSettlementState
         else if pt_mint (settlement_token s) \<noteq> NATIVE_MINT
         then Ok \<lparr>pf_instructions = ixs, pf_native_budget = None\<rparr>
         else wrap_position pda rpc args fee_payer reserve (settlement_token s) s ixs))"

text \<open>Read from the chain, never from the venue: the fee payer of sponsored opens.\<close>

definition hot_authority :: "find_pda \<Rightarrow> rpc_node \<Rightarrow> key \<Rightarrow> (ChainError, key) res" where
  "hot_authority pda rpc program =
     bind_res (rn_account rpc (fst (pda_global_config pda program))) (\<lambda>a.
     bind_res (global_config_from_account a program) (\<lambda>config.
     if gc_bump config \<noteq> snd (pda_global_config pda program) then Err (CeIdentity ''global config PDA'')
     else Ok (gc_hot_authority config)))"

definition resolve_token_program :: "rpc_node \<Rightarrow> key \<Rightarrow> key option \<Rightarrow> (ChainError, key) res" where
  "resolve_token_program rpc mint token_program =
     (let ensure = (\<lambda>program. if supported_token_program program then Ok program else Err CeInvalidAccountData) in
      case token_program of
        Some program \<Rightarrow> ensure program
      | None \<Rightarrow> bind_res (rn_account rpc mint) (\<lambda>a. ensure (ac_owner a)))"

definition ADDRESS_LOOKUP_TABLE_PROGRAM_ID :: key where
  "ADDRESS_LOOKUP_TABLE_PROGRAM_ID = [
     2, 119, 166, 175, 151, 51, 155, 122, 200, 141, 24, 146, 201, 4, 70, 245, 0, 2, 48, 146, 102, 246, 46, 83, 193, 24,
     36, 73, 130, 0, 0, 0]"

definition parse_lookup_table :: "key \<Rightarrow> account \<Rightarrow> (ChainError, key \<times> key list) res" where
  "parse_lookup_table k a =
     (if ac_owner a \<noteq> ADDRESS_LOOKUP_TABLE_PROGRAM_ID
      then Err (CeAccountOwnerMismatch ADDRESS_LOOKUP_TABLE_PROGRAM_ID (ac_owner a))
      else case (get_range 0 4 (ac_data a), get_range 4 12 (ac_data a), get_range 56 (length (ac_data a)) (ac_data a)) of
          (Some kind, Some deactivation, Some addresses) \<Rightarrow>
            if kind \<noteq> u32_le 1 \<or> length addresses mod 32 \<noteq> 0 then Err CeInvalidAccountData
            else if deactivation \<noteq> u64_le (- 1) then Err (CeLookupTableDeactivated k)
            else Ok (k, chunks 32 addresses)
        | _ \<Rightarrow> Err CeInvalidAccountData)"

definition address_lookup_tables :: "rpc_node \<Rightarrow> key list \<Rightarrow> (ChainError, (key \<times> key list) list) res" where
  "address_lookup_tables rpc keys =
     bind_res (rn_multiple rpc keys) (\<lambda>accounts.
     collect_res (\<lambda>(k, a). case a of Some a \<Rightarrow> parse_lookup_table k a | None \<Rightarrow> Err (CeMissingLookupTable k)) (zip keys accounts))"

section \<open>Batched reads\<close>

lemma concat_chunks: "0 < n \<Longrightarrow> concat (chunks n xs) = xs"
  by (induction n xs rule: chunks.induct) (subst chunks.simps, simp)

lemma fetch_accounts_length:
  assumes "fetch_accounts rpc keys = Ok found"
  shows "length found = length keys"
proof -
  have "length (concat ys) = length (concat xs)" if "list_all2 (\<lambda>x y. length y = length x) xs ys" for xs :: "key list list" and ys :: "account option list list"
    using that by (induction rule: list_all2_induct) simp_all
  moreover from assms obtain ys where "found = concat ys" "list_all2 (\<lambda>x y. length y = length x) (chunks 100 keys) ys"
  proof -
    from assms obtain ys where ys: "found = concat ys" and "list_all2 (\<lambda>x y. length y = length x \<and> rn_multiple rpc x = Ok y) (chunks 100 keys) ys"
      by (auto simp: fetch_accounts_def bind_res_eq_Ok collect_res_eq_Ok elim!: list_all2_mono split: if_splits)
    then have "list_all2 (\<lambda>x y. length y = length x) (chunks 100 keys) ys" by (auto elim: list_all2_mono)
    with ys that show ?thesis by blast
  qed
  ultimately show ?thesis using concat_chunks [of 100 keys] by simp
qed

lemma fetch_accounts_no_panic: "(\<And>ks. rn_multiple rpc ks \<noteq> Panic) \<Longrightarrow> fetch_accounts rpc keys \<noteq> Panic"
  unfolding fetch_accounts_def by (intro no_panic_intros collect_res_not_Panic) simp_all

text \<open>A node that answers a request for several accounts from one state of the chain.\<close>

definition reads_chain :: "rpc_node \<Rightarrow> (key \<Rightarrow> account option) \<Rightarrow> bool" where
  "reads_chain rpc chain \<longleftrightarrow> (\<forall>keys. rn_multiple rpc keys = Ok (map chain keys))"

lemma fetch_accounts_chain:
  assumes "reads_chain rpc chain"
  shows "fetch_accounts rpc keys = Ok (map chain keys)"
proof -
  have "collect_res (\<lambda>chunk. bind_res (rn_multiple rpc chunk) (\<lambda>values.
      if length values \<noteq> length chunk then Err CeInvalidAccountData else Ok values)) cs = Ok (map (map chain) cs)" for cs
    using assms by (induction cs) (simp_all add: reads_chain_def)
  then show ?thesis
    using concat_chunks [of 100 keys] by (simp add: fetch_accounts_def map_concat [symmetric])
qed

lemma set_sorted_keys [simp]: "set (sorted_keys ks) = set ks"
  by (simp add: sorted_keys_def)

lemma map_index_panic: "map_index m k = Panic \<longleftrightarrow> map_of m k = None"
  by (simp add: map_index_def split: option.splits)

lemma fetched_index:
  assumes "length found = length keys" "k \<in> set keys"
  shows "map_of (zip keys found) k \<noteq> None"
  using assms by (metis map_of_zip_is_None)

lemma map_index_chain: "k \<in> set keys \<Longrightarrow> map_index (zip keys (map chain keys)) k = Ok (chain k)"
  by (simp add: map_index_def map_of_zip_map)

section \<open>Snapshots read every account they need\<close>

lemma decode_positions_no_panic:
  assumes "\<And>k. k \<in> set ks \<Longrightarrow> map_of accounts k \<noteq> None"
  shows "decode_positions program owner accounts ks \<noteq> Panic"
  using assms
proof (induction ks)
  case (Cons k ks)
  then obtain found where "map_of accounts k = Some found" by fastforce
  then have "map_index accounts k = (Ok found :: (ChainError, account option) res)" by (simp add: map_index_def)
  with Cons show ?case
    by (cases found) (auto simp: bind_res_eq_Panic position_no_panic)
qed simp

lemma decode_premium_no_panic: "decode_premium_balance a owner token \<noteq> Panic"
  unfolding decode_premium_balance_def
  by (intro no_panic_intros) (auto simp: slice_res_def index_res_def split: if_splits)

lemma premium_balance_no_panic:
  "map_of accounts (ata pda maker (pt_mint t) (pt_token_program t)) \<noteq> None \<Longrightarrow> premium_balance pda maker accounts t \<noteq> Panic"
  by (auto simp: premium_balance_def Let_def bind_res_eq_Panic decode_premium_no_panic map_index_panic split: option.splits)

lemma decode_market_cases:
  "decode_market program (k, a) \<noteq> Panic"
  "decode_market program (k, a) = Ok e \<longleftrightarrow> (\<exists>b m. a = Some b \<and> market_from_account b program = Ok m \<and> e = (k, m))"
  by (auto simp: decode_market_def bind_res_eq_Panic bind_res_eq_Ok ok_or_eq_Panic ok_or_eq_Ok market_cases(1))

lemma markets_keys:
  assumes "collect_res (decode_market program) (zip keys found) = Ok markets" "length found = length keys"
  shows "map fst markets = keys"
proof -
  have "list_all2 (\<lambda>e m. fst m = fst e) (zip keys found) markets"
    using assms(1) unfolding collect_res_eq_Ok
    by (rule list_all2_mono) (use decode_market_cases(2) in fastforce)
  then have "map fst markets = map fst (zip keys found)"
    by (induction rule: list_all2_induct) simp_all
  then show ?thesis using assms(2) by simp
qed

lemma join_markets_no_panic: "(\<And>ks. rn_multiple rpc ks \<noteq> Panic) \<Longrightarrow> join_markets rpc program decoded \<noteq> Panic"
  unfolding join_markets_def Let_def
  by (intro bind_res_not_PanicI fetch_accounts_no_panic collect_res_not_Panic)
    (simp, metis decode_market_cases(1) prod.exhaust)

lemma join_markets_keys:
  assumes "join_markets rpc program decoded = Ok markets" "(address, p) \<in> set decoded"
  shows "map_of markets (po_market_pda p) \<noteq> None"
proof -
  let ?keys = "sorted_keys (map (\<lambda>(_, p). po_market_pda p) decoded)"
  from assms(1) obtain found where f: "fetch_accounts rpc ?keys = Ok found"
    and c: "collect_res (decode_market program) (zip ?keys found) = Ok markets"
    unfolding join_markets_def Let_def bind_res_eq_Ok by blast
  have "fst ` set markets = set (map (\<lambda>(_, p). po_market_pda p) decoded)"
    using markets_keys [OF c fetch_accounts_length [OF f]] by (metis set_map set_sorted_keys)
  with assms(2) have "po_market_pda p \<in> fst ` set markets" by force
  then show ?thesis by (simp add: map_of_eq_None_iff)
qed

lemma join_no_panic:
  assumes "join_markets rpc program decoded = Ok markets"
  shows "collect_res (join_market markets) decoded \<noteq> Panic"
proof (rule collect_res_not_Panic)
  fix e assume e: "e \<in> set decoded"
  obtain address p where ep: "e = (address, p)" by force
  from join_markets_keys [OF assms] e ep show "join_market markets e \<noteq> Panic"
    by (simp add: join_market_def bind_res_eq_Panic map_index_panic)
qed

lemma snapshot_no_panic:
  assumes rpc: "\<And>ks. rn_multiple rpc ks \<noteq> Panic"
  shows "maker_snapshot pda rpc program owner positions premiums \<noteq> Panic"
proof -
  let ?maker = "fst (maker_pda pda program owner)"
  let ?keys = "sorted_keys (positions @ map (\<lambda>t. ata pda ?maker (pt_mint t) (pt_token_program t)) premiums)"
  have all: "map_of (zip ?keys fetched) k \<noteq> None" if "fetch_accounts rpc ?keys = Ok fetched" "k \<in> set ?keys" for k fetched
    by (rule fetched_index [OF fetch_accounts_length [OF that(1)] that(2)])
  have positions: "decode_positions program owner (zip ?keys fetched) positions \<noteq> Panic"
    and balances: "collect_res (premium_balance pda ?maker (zip ?keys fetched)) premiums \<noteq> Panic"
    if "fetch_accounts rpc ?keys = Ok fetched" for fetched
    by (rule decode_positions_no_panic, rule all [OF that], simp)
      (rule collect_res_not_Panic, rule premium_balance_no_panic, rule all [OF that], simp)
  show ?thesis
    unfolding maker_snapshot_def Let_def
    by (intro if_not_PanicI bind_res_not_PanicI)
      (simp, rule fetch_accounts_no_panic, rule rpc, erule positions, rule join_markets_no_panic, rule rpc,
       erule balances, erule join_no_panic, simp)
qed

section \<open>A snapshot of one chain state\<close>

lemma list_all2_backwards: "list_all2 P xs ys \<Longrightarrow> y \<in> set ys \<Longrightarrow> \<exists>x \<in> set xs. P x y"
  by (induction rule: list_all2_induct) auto

lemma decode_positions_chain:
  assumes "\<And>k. k \<in> set ks \<Longrightarrow> map_of accounts k = Some (chain k)"
    and "decode_positions program owner accounts ks = Ok (decoded, missing)"
  shows "missing = filter (\<lambda>k. chain k = None) ks \<and> map fst decoded = filter (\<lambda>k. chain k \<noteq> None) ks \<and>
    (\<forall>(k, p) \<in> set decoded. po_holder p = owner \<and> (\<exists>a. chain k = Some a \<and> position_from_account a program = Ok p))"
  using assms
proof (induction ks arbitrary: decoded missing)
  case (Cons k ks)
  have k: "map_index accounts k = (Ok (chain k) :: (ChainError, account option) res)"
    using Cons.prems(1) by (simp add: map_index_def)
  show ?case
  proof (cases "chain k")
    case None
    with Cons.prems(2) k obtain m where rest: "decode_positions program owner accounts ks = Ok (decoded, m)" "missing = k # m"
      by (auto simp: bind_res_eq_Ok)
    from Cons.IH [OF Cons.prems(1) rest(1)] None rest(2) show ?thesis by simp
  next
    case (Some a)
    with Cons.prems(2) k obtain p ds where p: "position_from_account a program = Ok p" "po_holder p = owner"
      and rest: "decode_positions program owner accounts ks = Ok (ds, missing)" and d: "decoded = (k, p) # ds"
      by (auto simp: bind_res_eq_Ok split: if_splits)
    from Cons.IH [OF Cons.prems(1) rest] Some p show ?thesis by (simp add: d)
  qed
qed simp

lemma zip_chain: "zip ks (map chain ks) = map (\<lambda>k. (k, chain k)) ks"
  by (induction ks) simp_all

lemma join_markets_chain:
  assumes "reads_chain rpc chain" "join_markets rpc program decoded = Ok markets" "map_of markets k = Some m"
  shows "\<exists>a. chain k = Some a \<and> market_from_account a program = Ok m"
proof -
  define keys where "keys = sorted_keys (map (\<lambda>(_, p). po_market_pda p) decoded)"
  have "collect_res (decode_market program) (map (\<lambda>k. (k, chain k)) keys) = Ok markets"
    using assms(2) unfolding join_markets_def Let_def keys_def [symmetric] fetch_accounts_chain [OF assms(1)] bind_res.simps zip_chain .
  then have all: "list_all2 (\<lambda>e r. decode_market program e = Ok r) (map (\<lambda>k. (k, chain k)) keys) markets"
    unfolding collect_res_eq_Ok .
  obtain e where e: "e \<in> set (map (\<lambda>k. (k, chain k)) keys)" "decode_market program e = Ok (k, m)"
    using list_all2_backwards [OF all map_of_SomeD [OF assms(3)]] by blast
  from e(1) obtain k' where "e = (k', chain k')" by auto
  with e(2) show ?thesis by (auto simp: decode_market_cases(2))
qed

lemma map_of_zip_chain: "k \<in> set keys \<Longrightarrow> map_of (zip keys (map chain keys)) k = Some (chain k)"
  by (simp add: map_of_zip_map)

definition read_balance :: "(key \<Rightarrow> account option) \<Rightarrow> key \<Rightarrow> PremiumBalance \<Rightarrow> bool" where
  "read_balance chain maker b \<longleftrightarrow>
     (case chain (pb_address b) of
        None \<Rightarrow> pb_amount b = None
      | Some a \<Rightarrow> (\<exists>v. pb_amount b = Some v \<and> decode_premium_balance a maker (pb_token b) = Ok v))"

lemma premium_balance_chain:
  assumes "map_of accounts (ata pda maker (pt_mint t) (pt_token_program t)) = Some (chain (ata pda maker (pt_mint t) (pt_token_program t)))"
    and "premium_balance pda maker accounts t = Ok b"
  shows "pb_token b = t \<and> pb_address b = ata pda maker (pt_mint t) (pt_token_program t) \<and> read_balance chain maker b"
  using assms
  by (auto simp: premium_balance_def Let_def map_index_def read_balance_def bind_res_eq_Ok split: option.splits)

lemma join_market_ok:
  "join_market markets e = Ok s \<longleftrightarrow> (\<exists>m. map_of markets (po_market_pda (snd e)) = Some m \<and>
     s = \<lparr>ps_address = fst e, ps_position = snd e, ps_market_address = po_market_pda (snd e), ps_market = m\<rparr>)"
  by (cases e) (auto simp: join_market_def map_index_def split: option.splits)

text \<open>The steps of a snapshot, with what was fetched as a table of the chain.\<close>

lemma snapshot_steps:
  assumes "reads_chain rpc chain" "maker_snapshot pda rpc program owner positions premiums = Ok snap"
    and "maker = fst (maker_pda pda program owner)"
  obtains accounts decoded markets where
    "\<And>k. k \<in> set positions \<Longrightarrow> map_of accounts k = Some (chain k)"
    "\<And>t. t \<in> set premiums \<Longrightarrow> map_of accounts (ata pda maker (pt_mint t) (pt_token_program t)) =
       Some (chain (ata pda maker (pt_mint t) (pt_token_program t)))"
    "decode_positions program owner accounts positions = Ok (decoded, ms_missing_positions snap)"
    "join_markets rpc program decoded = Ok markets"
    "list_all2 (\<lambda>t b. premium_balance pda maker accounts t = Ok b) premiums (ms_premium_balances snap)"
    "list_all2 (\<lambda>e s. join_market markets e = Ok s) decoded (ms_positions snap)"
proof -
  define keys where "keys = sorted_keys (positions @ map (\<lambda>t. ata pda maker (pt_mint t) (pt_token_program t)) premiums)"
  define accounts where "accounts = zip keys (map chain keys)"
  have known: "map_of accounts k = Some (chain k)" if "k \<in> set keys" for k
    using that by (simp add: accounts_def map_of_zip_chain)
  have run: "bind_res (decode_positions program owner accounts positions) (\<lambda>decoded.
      bind_res (join_markets rpc program (fst decoded)) (\<lambda>markets.
      bind_res (collect_res (premium_balance pda maker accounts) premiums) (\<lambda>balances.
      bind_res (collect_res (join_market markets) (fst decoded)) (\<lambda>snapshots.
      Ok \<lparr>ms_positions = snapshots, ms_premium_balances = balances, ms_missing_positions = snd decoded\<rparr>)))) = Ok snap"
    using assms(2) unfolding maker_snapshot_def Let_def assms(3) [symmetric] keys_def [symmetric]
      fetch_accounts_chain [OF assms(1)] bind_res.simps accounts_def [symmetric] if_Err_eq_Ok by (rule conjunct2)
  from run obtain x where x: "decode_positions program owner accounts positions = Ok x"
    and r1: "bind_res (join_markets rpc program (fst x)) (\<lambda>markets.
      bind_res (collect_res (premium_balance pda maker accounts) premiums) (\<lambda>balances.
      bind_res (collect_res (join_market markets) (fst x)) (\<lambda>snapshots.
      Ok \<lparr>ms_positions = snapshots, ms_premium_balances = balances, ms_missing_positions = snd x\<rparr>))) = Ok snap"
    unfolding bind_res_eq_Ok [of "decode_positions program owner accounts positions"] by blast
  obtain decoded missing where dm: "x = (decoded, missing)" by force
  from r1 [unfolded dm fst_conv snd_conv bind_res_eq_Ok collect_res_eq_Ok] obtain markets balances snapshots where
    mk: "join_markets rpc program decoded = Ok markets"
    and b: "list_all2 (\<lambda>t b. premium_balance pda maker accounts t = Ok b) premiums balances"
    and j: "list_all2 (\<lambda>e s. join_market markets e = Ok s) decoded snapshots"
    and snap: "snap = \<lparr>ms_positions = snapshots, ms_premium_balances = balances, ms_missing_positions = missing\<rparr>" by blast
  show ?thesis
    by (rule that [of accounts decoded markets]) (simp_all add: known keys_def x dm mk b j snap)
qed

lemma snapshot_entry:
  assumes "reads_chain rpc chain" "join_markets rpc program decoded = Ok markets" "join_market markets (k, p) = Ok s"
    and "po_holder p = owner \<and> (\<exists>a. chain k = Some a \<and> position_from_account a program = Ok p)"
  shows "po_holder (ps_position s) = owner \<and> ps_market_address s = po_market_pda (ps_position s) \<and>
    (\<exists>a. chain (ps_address s) = Some a \<and> position_from_account a program = Ok (ps_position s)) \<and>
    (\<exists>a. chain (ps_market_address s) = Some a \<and> market_from_account a program = Ok (ps_market s))"
proof -
  from assms(3) obtain m where m: "map_of markets (po_market_pda p) = Some m"
    and s: "s = \<lparr>ps_address = k, ps_position = p, ps_market_address = po_market_pda p, ps_market = m\<rparr>"
    by (auto simp: join_market_ok)
  from join_markets_chain [OF assms(1,2) m] assms(4) show ?thesis by (simp add: s)
qed


text \<open>A maker with one open position and one that is gone.\<close>

definition sample_market :: account where
  "sample_market = \<lparr>ac_owner = replicate 32 7,
     ac_data = [4, 1, 255, 9, 6, 0, 0, 0] @ u64_le 1800000000 @ replicate 16 0 @ replicate 32 21 @ replicate 32 22 @
       TOKEN_PROGRAM_ID @ TOKEN_PROGRAM_ID @ replicate 256 0\<rparr>"

definition sample_chain :: "key \<Rightarrow> account option" where
  "sample_chain k = (if k = replicate 32 1 then Some sample_position else if k = replicate 32 13 then Some sample_market else None)"

definition sample_node :: rpc_node where
  "sample_node = \<lparr>rn_account = (\<lambda>k. ok_or (CeMissingAccount k) (sample_chain k)), rn_optional = (\<lambda>k. Ok (sample_chain k)),
     rn_multiple = (\<lambda>ks. Ok (map sample_chain ks)), rn_program_accounts = (\<lambda>_. Ok []), rn_rent = (\<lambda>_. Ok 2039280),
     rn_balance = (\<lambda>_. Ok 5000000000)\<rparr>"

lemma sample_position_parses:
  "\<exists>p. position_from_account sample_position (replicate 32 7) = Ok p \<and> po_holder p = replicate 32 12 \<and> po_market_pda p = replicate 32 13"
proof -
  let ?p = "\<lparr>po_terms = TCoveredCall 150000000000, po_side = Buy, po_flags = 5, po_flags2 = 0, po_flags3 = 0, po_status = StatusOpen,
    po_writer = replicate 32 11, po_holder = replicate 32 12, po_market_pda = replicate 32 13, po_quantity = 1000000,
    po_order_id = replicate 32 14\<rparr>"
  have "position_layout (ac_data sample_position) ?p" by (simp add: position_layout_def sample_position_def Let_def)
  then have "position_from_account sample_position (replicate 32 7) = Ok ?p"
    by (rule layout_gives_position [rotated]) (simp add: sample_position_def)
  then show ?thesis by force
qed

lemma sample_market_parses: "\<exists>m. market_from_account sample_market (replicate 32 7) = Ok m"
proof -
  have len: "length (ac_data sample_market) = 416" by (simp add: sample_market_def TOKEN_PROGRAM_ID_def)
  have "current_layout sample_market (replicate 32 7) MARKET_DISCRIMINATOR ACCOUNT_VERSION MARKET_LEN = Ok (ac_data sample_market)"
    by (subst current_layout_iff) (simp_all add: account_consts len, simp_all add: sample_market_def)
  moreover have "ac_data sample_market ! 5 = 0" by (simp add: sample_market_def)
  ultimately show ?thesis by (simp add: market_from_account_def len)
qed


section \<open>Funding is exact\<close>

lemma budget_validate_exact:
  "budget_validate b available fee = Ok () \<longleftrightarrow>
     unat (nb_wrap_lamports b) + unat (nb_ata_rent_lamports b) + unat fee + unat (nb_reserve_lamports b) \<le> unat available"
proof -
  have small: "unat available < 2 ^ 64" using unat_bounded [of available] by simp
  show ?thesis
    using small
    by (auto simp: budget_validate_def required_lamports_def bind_res_eq_Ok ok_or_eq_Ok bind_eq_Some_conv checked_add_def
        unat_add_small word_less_nat_alt not_less split: if_splits)
qed

definition wsol_held :: "account option \<Rightarrow> key \<Rightarrow> key \<Rightarrow> u64 \<Rightarrow> bool" where
  "wsol_held funding owner token_program existing \<longleftrightarrow>
     (case funding of None \<Rightarrow> existing = 0 | Some a \<Rightarrow> parse_wsol_balance a owner token_program = Ok existing)"

lemma decide_wrap_exact:
  assumes "decide_wrap existing expected balance reserve rent = Ok (DoWrap wrap)"
  shows "unat existing + unat wrap = unat expected \<and> 0 < unat wrap"
  using assms by (auto simp: decide_wrap_def bind_res_eq_Ok plain_sub_eq_Ok Let_def word_le_nat_alt split: if_splits)

lemma plan_wrap_exact:
  assumes "plan_wsol_wrap rpc funding q = Ok (PlanWrap ixs b)"
  shows "\<exists>existing. wsol_held funding (wq_owner q) (wq_token_program q) existing \<and>
    unat existing + unat (nb_wrap_lamports b) = unat (wq_expected_settlement q) \<and> 0 < unat (nb_wrap_lamports b) \<and>
    nb_owner b = wq_owner q \<and> nb_reserve_lamports b = wq_reserve_lamports q \<and>
    ixs = [build_system_transfer_ix (wq_owner q) (wq_funding_ata q) (nb_wrap_lamports b),
      build_sync_native_ix (wq_token_program q) (wq_funding_ata q)]"
proof -
  let ?start = "case funding of
      Some a \<Rightarrow> bind_res (parse_wsol_balance a (wq_owner q) (wq_token_program q)) (\<lambda>b. Ok (b, 0))
    | None \<Rightarrow>
        if wq_allow_account_creation q
        then (if wq_fee_payer q = wq_owner q
              then bind_res (rn_rent rpc TOKEN_ACCOUNT_RENT_LEN) (\<lambda>rent. Ok (0, rent)) else Ok (0, 0))
        else Err (CeMissingFundingAccount (wq_funding_ata q))"
  from assms obtain existing rent where start: "?start = Ok (existing, rent)"
    and run: "bind_res (rn_balance rpc (wq_owner q)) (\<lambda>sol_balance.
       bind_res (decide_wrap existing (wq_expected_settlement q) sol_balance (wq_reserve_lamports q)
           (saturating_add rent (wq_additional_ata_rent_lamports q))) (wrap_plan q rent)) = Ok (PlanWrap ixs b)"
    unfolding plan_wsol_wrap_def bind_res_eq_Ok [of ?start] by (auto split: if_splits)
  from start have held: "wsol_held funding (wq_owner q) (wq_token_program q) existing"
    by (cases funding) (auto simp: wsol_held_def bind_res_eq_Ok split: if_splits)
  from run obtain balance decision where d: "decide_wrap existing (wq_expected_settlement q) balance (wq_reserve_lamports q)
      (saturating_add rent (wq_additional_ata_rent_lamports q)) = Ok decision"
    and k: "wrap_plan q rent decision = Ok (PlanWrap ixs b)"
    unfolding bind_res_eq_Ok by blast
  from k obtain wrap where w: "decision = DoWrap wrap" by (cases decision) (simp_all add: wrap_plan_def)
  from decide_wrap_exact [OF d [unfolded w]] k w held show ?thesis by (auto simp: wrap_plan_def bind_res_eq_Ok)
qed

text \<open>The deposit that funds a position: signed by the holder, into the position's own account.\<close>

definition deposit_ix :: "key \<Rightarrow> key \<Rightarrow> key \<Rightarrow> Instruction \<Rightarrow> bool" where
  "deposit_ix program holder position ix \<longleftrightarrow>
     ix_program_id ix = program \<and> ix_data ix = [instruction_kind_u8 DepositFundsToPosition] \<and>
     am_pubkey (ix_accounts ix ! 0) = holder \<and> am_is_signer (ix_accounts ix ! 0) \<and> am_pubkey (ix_accounts ix ! 2) = position"

lemma fund_instructions_ok:
  assumes "fund_instructions pda s program owner payer create = Ok ixs"
  shows "po_side (ps_position s) = Sell \<and> po_holder (ps_position s) = owner \<and> po_status (ps_position s) = StatusOpen \<and>
    ps_market_address s = po_market_pda (ps_position s) \<and> position_type (po_terms (ps_position s)) \<in> {CoveredCall, CashSecuredPut} \<and>
    ixs \<noteq> [] \<and> deposit_ix program owner (ps_address s) (last ixs)"
proof -
  let ?p = "ps_position s"
  from assms have g: "po_side ?p = Sell" "po_holder ?p = owner" "po_status ?p = StatusOpen" "ps_market_address s = po_market_pda ?p"
    and b: "build_fund_position_ixs pda program
        \<lparr>fp_holder = owner, fp_position_pda = ps_address s, fp_market_pda = po_market_pda ?p,
         fp_position_type = chain_position_u8 (chain_position_type (to_chain (po_terms ?p))),
         fp_underlying_mint = mk_underlying_mint (ps_market s), fp_quote_mint = mk_quote_mint (ps_market s),
         fp_underlying_token_program_id = mk_underlying_token_program_id (ps_market s),
         fp_quote_token_program_id = mk_quote_token_program_id (ps_market s), fp_create_atas = create\<rparr> payer = Ok ixs"
    by (cases "po_side ?p"; auto simp: fund_instructions_def Let_def map_err_eq_Ok split: if_splits)+
  have "position_type (po_terms ?p) \<in> {CoveredCall, CashSecuredPut}"
    using b by (cases "po_terms ?p") (simp_all add: build_fund_position_ixs_def Let_def)
  moreover have "ixs \<noteq> [] \<and> deposit_ix program owner (ps_address s) (last ixs)"
    using b by (auto simp: build_fund_position_ixs_def Let_def deposit_ix_def bind_res_eq_Ok split: if_splits)
  ultimately show ?thesis using g by blast
qed

lemma wrapped:
  assumes "wrap_position pda rpc args payer reserve token s ixs = Ok r" "pt_mint token = NATIVE_MINT"
  shows "(pf_native_budget r = None \<and> pf_instructions r = ixs) \<or>
    (\<exists>b funding rent existing expected. pf_native_budget r = Some b \<and> nb_owner b = fa_holder args \<and>
       load_funding rpc args payer (ata pda (fa_position_pda args) NATIVE_MINT TOKEN_PROGRAM_ID)
         (ata pda (fa_holder args) NATIVE_MINT TOKEN_PROGRAM_ID) = Ok (funding, rent) \<and>
       wsol_held funding (fa_holder args) TOKEN_PROGRAM_ID existing \<and> snapshot_settlement s = Ok expected \<and>
       unat existing + unat (nb_wrap_lamports b) = unat expected \<and>
       pf_instructions r = butlast ixs @
         [build_system_transfer_ix (fa_holder args) (ata pda (fa_holder args) NATIVE_MINT TOKEN_PROGRAM_ID) (nb_wrap_lamports b),
          build_sync_native_ix TOKEN_PROGRAM_ID (ata pda (fa_holder args) NATIVE_MINT TOKEN_PROGRAM_ID)] @ [last ixs])"
proof -
  let ?fa = "ata pda (fa_holder args) NATIVE_MINT TOKEN_PROGRAM_ID"
  let ?q = "\<lambda>expected rent. \<lparr>wq_owner = fa_holder args, wq_funding_ata = ?fa, wq_token_program = TOKEN_PROGRAM_ID,
      wq_expected_settlement = expected, wq_reserve_lamports = reserve, wq_allow_account_creation = fa_create_atas args,
      wq_fee_payer = payer, wq_additional_ata_rent_lamports = rent\<rparr>"
  from assms obtain expected where e: "snapshot_settlement s = Ok expected" by (auto simp: wrap_position_def bind_res_eq_Ok)
  from assms e have tp: "pt_token_program token = TOKEN_PROGRAM_ID" by (simp add: wrap_position_def split: if_splits)
  from assms e tp obtain funding rent plan where
    l: "load_funding rpc args payer (ata pda (fa_position_pda args) NATIVE_MINT TOKEN_PROGRAM_ID) ?fa = Ok (funding, rent)"
    and p: "plan_wsol_wrap rpc funding (?q expected rent) = Ok plan"
    and r: "(case plan of
         PlanNotNeeded \<Rightarrow> Ok \<lparr>pf_instructions = ixs, pf_native_budget = None\<rparr>
       | PlanWrap wrap_ixs budget \<Rightarrow>
           if ixs = [] then Err CeInvalidAccountData
           else Ok \<lparr>pf_instructions = butlast ixs @ wrap_ixs @ [last ixs], pf_native_budget = Some budget\<rparr>) = Ok r"
    by (auto simp: wrap_position_def Let_def bind_res_eq_Ok split: if_splits)
  show ?thesis
  proof (cases plan)
    case PlanNotNeeded
    with r show ?thesis by auto
  next
    case (PlanWrap w b)
    from plan_wrap_exact [OF p [unfolded PlanWrap]] PlanWrap r l e show ?thesis by (auto split: if_splits)
  qed
qed


text \<open>
  A put on wrapped SOL: the settlement is 1000000 lamports, the holder's token account has 400000 of them, and
  the rest is wrapped.
\<close>

definition put_position :: account where
  "put_position = \<lparr>ac_owner = replicate 32 7,
     ac_data = [1, 2, 255, 1, 1, 0, 0, 0] @ replicate 32 11 @ replicate 32 12 @ replicate 32 13 @
       u64_le 150000000000 @ u64_le 1000000 @ replicate 8 0 @ replicate 32 14 @ replicate 264 0\<rparr>"

definition put_market :: account where
  "put_market = \<lparr>ac_owner = replicate 32 7,
     ac_data = [4, 1, 255, 9, 6, 1, 0, 0] @ u64_le 1800000000 @ u64_le 0 @ replicate 8 0 @ NATIVE_MINT @ replicate 32 22 @
       TOKEN_PROGRAM_ID @ TOKEN_PROGRAM_ID @ replicate 256 0\<rparr>"

definition put_wsol :: account where
  "put_wsol = \<lparr>ac_owner = TOKEN_PROGRAM_ID, ac_data = NATIVE_MINT @ replicate 32 12 @ u64_le 400000\<rparr>"

definition put_chain :: "key \<Rightarrow> account option" where
  "put_chain k = (if k = replicate 32 1 then Some put_position else if k = replicate 32 13 then Some put_market
     else if k = replicate 32 9 then Some put_wsol else None)"

definition put_node :: rpc_node where
  "put_node = sample_node\<lparr>rn_account := (\<lambda>k. ok_or (CeMissingAccount k) (put_chain k)), rn_optional := (\<lambda>k. Ok (put_chain k)),
     rn_multiple := (\<lambda>ks. Ok (map put_chain ks))\<rparr>"

definition put_args :: FundPositionArgs where
  "put_args = \<lparr>fa_holder = replicate 32 12, fa_position_pda = replicate 32 1, fa_create_atas = False,
     fa_native_sol = WrapIfNeeded 1200000\<rparr>"

definition put_snapshot :: PositionSnapshot where
  "put_snapshot = \<lparr>ps_address = replicate 32 1,
     ps_position = \<lparr>po_terms = TCashSecuredPut 150000000000, po_side = Sell, po_flags = 0, po_flags2 = 0, po_flags3 = 0,
       po_status = StatusOpen, po_writer = replicate 32 11, po_holder = replicate 32 12, po_market_pda = replicate 32 13,
       po_quantity = 1000000, po_order_id = replicate 32 14\<rparr>,
     ps_market_address = replicate 32 13,
     ps_market = \<lparr>mk_expiry_ts = 1800000000, mk_is_put = True, mk_is_finalized = False, mk_settlement_price = 0,
       mk_underlying_mint = NATIVE_MINT, mk_quote_mint = replicate 32 22, mk_underlying_token_program_id = TOKEN_PROGRAM_ID,
       mk_quote_token_program_id = TOKEN_PROGRAM_ID, mk_underlying_decimals = 9, mk_quote_decimals = 6\<rparr>\<rparr>"

lemma native_lengths [simp]: "length NATIVE_MINT = 32" "length TOKEN_PROGRAM_ID = 32"
  by (simp_all add: NATIVE_MINT_def TOKEN_PROGRAM_ID_def)

lemma put_position_parses: "position_from_account put_position (replicate 32 7) = Ok (ps_position put_snapshot)"
proof (rule layout_gives_position)
  show "position_layout (ac_data put_position) (ps_position put_snapshot)"
    by (simp add: position_layout_def put_position_def put_snapshot_def Let_def)
qed (simp add: put_position_def)

lemma put_market_parses: "market_from_account put_market (replicate 32 7) = Ok (ps_market put_snapshot)"
proof -
  have len: "length (ac_data put_market) = 416" by (simp add: put_market_def)
  have l: "current_layout put_market (replicate 32 7) MARKET_DISCRIMINATOR ACCOUNT_VERSION MARKET_LEN = Ok (ac_data put_market)"
    by (subst current_layout_iff) (simp_all add: account_consts len, simp_all add: put_market_def)
  have bytes: "ac_data put_market ! 3 = 9" "ac_data put_market ! 4 = 6" "ac_data put_market ! 5 = 1"
    by (simp_all add: put_market_def)
  have words: "word_at (ac_data put_market) 8 = 1800000000" "word_at (ac_data put_market) 16 = 0"
    by (subst word_at_eq; simp add: put_market_def)+
  have keys: "addr_at (ac_data put_market) 32 = NATIVE_MINT" "addr_at (ac_data put_market) 64 = replicate 32 22"
    "addr_at (ac_data put_market) 96 = TOKEN_PROGRAM_ID" "addr_at (ac_data put_market) 128 = TOKEN_PROGRAM_ID"
    by (simp_all add: put_market_def addr_at_def)
  show ?thesis by (simp add: market_from_account_def l len bytes words keys put_snapshot_def)
qed

lemma put_prepared:
  "\<exists>r b. prepare_fund_position (\<lambda>_ _. (replicate 32 9, 255)) put_node (replicate 32 7) put_args (replicate 32 12) = Ok r \<and>
     pf_native_budget r = Some b \<and> nb_wrap_lamports b = 600000"
proof -
  have chain: "put_chain (replicate 32 1) = Some put_position" "put_chain (replicate 32 13) = Some put_market"
    "put_chain (replicate 32 9) = Some put_wsol"
    by (simp_all add: put_chain_def replicate_eq_replicate)
  have snap: "load_snapshot put_node (replicate 32 7) (fa_position_pda put_args) = Ok put_snapshot"
    using put_position_parses put_market_parses
    by (simp add: load_snapshot_def put_node_def put_args_def chain put_snapshot_def)
  have wsol: "parse_wsol_balance put_wsol (replicate 32 12) TOKEN_PROGRAM_ID = Ok 400000"
    by (simp add: parse_wsol_balance_def put_wsol_def addr_at_def word_at_def)
  have settle: "snapshot_settlement put_snapshot = Ok 1000000"
    by (simp add: snapshot_settlement_def put_snapshot_def required_settlement_def chain_position_try_from_def)
  have at9: "ata (\<lambda>_ _. (replicate 32 9, 255)) o' m' p' = replicate 32 9" for o' m' p' by (simp add: ata_def ata_with_bump_def)
  have token: "settlement_token put_snapshot = \<lparr>pt_mint = NATIVE_MINT, pt_token_program = TOKEN_PROGRAM_ID\<rparr>"
    by (simp add: put_snapshot_def)
  obtain ixs where f: "fund_instructions (\<lambda>_ _. (replicate 32 9, 255)) put_snapshot (replicate 32 7) (replicate 32 12)
      (replicate 32 12) False = Ok ixs" "ixs \<noteq> []"
    by (simp add: fund_instructions_def put_snapshot_def build_fund_position_ixs_def Let_def)
  have w: "wrap_position (\<lambda>_ _. (replicate 32 9, 255)) put_node put_args (replicate 32 12) 1200000
      \<lparr>pt_mint = NATIVE_MINT, pt_token_program = TOKEN_PROGRAM_ID\<rparr> put_snapshot ixs =
      Ok \<lparr>pf_instructions = butlast ixs @ [build_system_transfer_ix (replicate 32 12) (replicate 32 9) 600000,
           build_sync_native_ix TOKEN_PROGRAM_ID (replicate 32 9)] @ [last ixs],
        pf_native_budget = Some \<lparr>nb_owner = replicate 32 12, nb_wrap_lamports = 600000, nb_ata_rent_lamports = 0,
          nb_reserve_lamports = 1200000\<rparr>\<rparr>"
    using f(2) by (simp add: wrap_position_def settle at9 load_funding_def put_args_def put_node_def chain plan_wsol_wrap_def wsol
        sample_node_def decide_wrap_def wrap_plan_def arith_eval Let_def)
  have p: "position_type (po_terms (ps_position put_snapshot)) = CashSecuredPut" by (simp add: put_snapshot_def)
  have args: "fa_native_sol put_args = WrapIfNeeded 1200000" "fa_holder put_args = replicate 32 12" "fa_create_atas put_args = False"
    by (simp_all add: put_args_def)
  show ?thesis
    using w f by (simp add: prepare_fund_position_def snap args token p del: settlement_token.simps)
qed


end
