(* ===== verification/Spec2Isabelle.thy ===== *)
theory Spec2Isabelle
  imports Amounts Quote ServedSwap Reconnect Nonce Outcome Readiness Handles MakerFunding
begin

text \<open>
  A verification library for the Acta maker SDK, the Rust crate under \<^verbatim>\<open>src/src\<close>.

  \<^bold>\<open>The program.\<close> A market maker or the operator of a vault uses the SDK to price and sign orders, to talk to
  the venue over managed WebSocket connections, to read accounts of the options program on Solana, and to build
  or check the transactions that program executes. Amount arithmetic and option terms feed the order preimages;
  an RFQ received over a connection is bound to the trusted program, resolved into a quote, hashed and signed;
  the connection correlates requests with replies, recovers its subscriptions and authenticates again after
  every reconnect; a vault operator countersigns a transaction the venue serves only after the SDK has decoded
  it and rebuilt what was agreed.

  \<^bold>\<open>Conventions.\<close> \<open>Prelude\<close> has the shared vocabulary. A Rust call is a value of \<open>res\<close>: \<open>Ok\<close>, \<open>Err\<close> with the
  source's error, or \<open>Panic\<close> for an index, slice, unwrap or debug-checked overflow, so that the absence of panics
  is something to prove. Integers keep their width as words; a \<open>[u8; 32]\<close> is a byte list with \<open>is_key\<close>; text is
  a character list, or a list of code points where UTF-8 matters. A long source function is split into
  several definitions along its blocks; each mapped part says which lines it is. Code outside the crate is an
  argument: \<open>find_pda\<close> for \<^verbatim>\<open>Pubkey::find_program_address\<close>, \<open>crypto\<close> for SHA-256 and Ed25519, \<open>rpc_node\<close> for the
  answers of the node, event lists for what the network, the clock, the callers and the scheduler do. Theorems
  hold for every value of them unless they name a law.

  \<^bold>\<open>Values and orders.\<close>
  \<^item> \<open>Scaling\<close>, \<open>Spreads\<close>, \<open>Amounts\<close> (\<^verbatim>\<open>spreads.rs\<close>, \<^verbatim>\<open>types/amounts.rs\<close>): scaled quote amounts, collateral,
    payoff, settlement and the premium and fee split, against exact rational values; both price converters are
    interpretations of the locale \<open>price_scale\<close>, from which the fee split cannot underflow.
  \<^item> \<open>Terms\<close>, \<open>Domain\<close> (\<^verbatim>\<open>types/ids.rs\<close>, \<^verbatim>\<open>products.rs\<close>, \<^verbatim>\<open>vault.rs\<close>, \<^verbatim>\<open>expiry.rs\<close>, \<^verbatim>\<open>invite.rs\<close>): option terms and
    their chain form, product sets, expiries; numeric tags are interpretations of \<open>tag_codec\<close>.
  \<^item> \<open>Orders\<close>, \<open>Quote\<close> (\<^verbatim>\<open>orders/*.rs\<close>, \<^verbatim>\<open>signing.rs\<close>, \<^verbatim>\<open>wire.rs\<close>, \<^verbatim>\<open>quote.rs\<close>): the two preimage layouts are
    injective, the order id binds the terms, and a signed quote is the one its RFQ asked for.
  \<^item> \<open>Nonce\<close> (\<^verbatim>\<open>nonce.rs\<close>): the atomic generator as interleaved atomic operations of any number of threads; the
    first 2^64 nonces are distinct, if no zero entropy is drawn. \<open>Paging\<close> (\<^verbatim>\<open>paging.rs\<close>): a list read in pages is complete and follows no
    cursor twice.

  \<^bold>\<open>Vaults.\<close>
  \<^item> \<open>ChainIx\<close>, \<open>VaultAccounts\<close>, \<open>PriceRoutes\<close> (\<^verbatim>\<open>chain/ix.rs\<close>, \<^verbatim>\<open>chain/vault/pda.rs\<close>, \<^verbatim>\<open>account.rs\<close>,
    \<^verbatim>\<open>price_route.rs\<close>): instructions, addresses, and account parsers that accept exactly the documented layouts.
  \<^item> \<open>Reader\<close>: the locale \<open>byte_source\<close> of a byte reader and what every decoder over one keeps; interpreted by the
    slice reader of the price routes and by the positioned reader of served transactions.
  \<^item> \<open>VaultManager\<close>, \<open>VaultTrading\<close>, \<open>VaultSwap\<close> (\<^verbatim>\<open>manager.rs\<close>, \<^verbatim>\<open>trading.rs\<close>): capital batches, opening positions
    and swap paths.
  \<^item> \<open>TxDecode\<close>, \<open>Served\<close>, \<open>ServedOpen\<close>, \<open>SwapParts\<close>, \<open>ServedSwap\<close> (\<^verbatim>\<open>served.rs\<close>): the wire decoder inverts the
    encoding, and a served open or swap is accepted exactly if it is what was agreed.
  \<^item> \<open>MakerAccounts\<close>, \<open>MakerFunding\<close> (\<^verbatim>\<open>chain/accounts.rs\<close>, \<^verbatim>\<open>events.rs\<close>, \<^verbatim>\<open>settlement.rs\<close>, \<^verbatim>\<open>batch.rs\<close>, \<^verbatim>\<open>wsol.rs\<close>,
    \<^verbatim>\<open>rpc.rs\<close>): positions, markets and events of the options program, the snapshot of a maker and the funding of
    a position, with native SOL wrapped where it is missing.

  \<^bold>\<open>Connections.\<close>
  \<^item> \<open>Challenge\<close> (\<^verbatim>\<open>ws/auth.rs\<close>): what may be signed to authenticate. \<open>WsTypes\<close> (\<^verbatim>\<open>ws/types\<close>): the messages, as far as
    an operation reads them.
  \<^item> \<open>Machines\<close>: the locale \<open>machine\<close> of a component driven by a sequence of operations under an invariant;
    interpreted by \<open>Tracker\<close> (\<^verbatim>\<open>tracker.rs\<close>), \<open>Writer\<close> (\<^verbatim>\<open>writer.rs\<close>), \<open>Nonce\<close> and \<open>Handles\<close>.
  \<^item> \<open>Subscriptions\<close> (\<^verbatim>\<open>desired_subscriptions.rs\<close>): the target equals the ledger of accepted changes.
  \<^item> \<open>Handshake\<close>, \<open>Readiness\<close> (\<^verbatim>\<open>session_auth.rs\<close>, \<^verbatim>\<open>session_ready.rs\<close>): only a valid challenge is signed, and a session
    is ready only when every reply has arrived.
  \<^item> \<open>SessionIo\<close>, \<open>SessionAnswers\<close> (\<^verbatim>\<open>session.rs\<close>, \<^verbatim>\<open>session_io.rs\<close>, \<^verbatim>\<open>session_message.rs\<close>, \<^verbatim>\<open>session_control.rs\<close>): every
    awaited request is answered exactly once.
  \<^item> \<open>Managed\<close>, \<open>Reconnect\<close> (\<^verbatim>\<open>session.rs\<close>, \<^verbatim>\<open>reconnect.rs\<close>, \<^verbatim>\<open>reconnect_window.rs\<close>): the outer loop, its events and its
    limits. \<open>Handles\<close> (\<^verbatim>\<open>managed/mod.rs\<close>): no frame leaves in another epoch than the caller's. \<open>Outcome\<close>
    (\<^verbatim>\<open>maker/outcome.rs\<close>): what may be concluded about a sent quote.

  \<^bold>\<open>Termination and bounds.\<close> No definition takes fuel. The loops over bytes and lists are structural or have a
  measure; the session, the handshake and the outer loop recurse over the list of what the environment does, so a
  theorem holds for every finite history, and those that state an answer or an end prove that it occurs. Reading
  pages recurses with \<open>partial_function (option)\<close>: a server that hands out new cursors for ever is \<open>None\<close>.

  \<^bold>\<open>Not modelled.\<close> Sockets, timers, TLS, HTTP (\<^verbatim>\<open>http/\<close>) and the transport, sending and confirmation of
  transactions (\<^verbatim>\<open>chain/confirmation.rs\<close>, the sending half of \<^verbatim>\<open>rpc.rs\<close>), which are I/O; the derived JSON
  (de)serialisation of payloads; floating point prices (\<^verbatim>\<open>price_spread\<close>, \<^verbatim>\<open>router_price.rs\<close>) and the conversions to \<^verbatim>\<open>rust_decimal\<close>;
  route search and the venue adapters (\<^verbatim>\<open>router.rs\<close>, \<^verbatim>\<open>curator.rs\<close>, \<^verbatim>\<open>venues/\<close>), whose result the modelled checks
  verify; the remaining owner instructions of a vault (\<^verbatim>\<open>governance.rs\<close>, \<^verbatim>\<open>lifecycle.rs\<close>, \<^verbatim>\<open>settle.rs\<close>, \<^verbatim>\<open>crank.rs\<close>), account scans
  (\<^verbatim>\<open>scan.rs\<close>, \<^verbatim>\<open>owner_rpc.rs\<close>); and the fleet of vault clients (\<^verbatim>\<open>ws/vault/fleet.rs\<close>), which schedules tasks of
  the runtime.
\<close>

text \<open>
  The physical premium code and the spread code compute the same scaled amount: wherever the
  spread routine rounds down, the two return the same value and fail on the same inputs.
\<close>

theorem scaled_amounts_agree:
  "scaled_quote_amount price quantity qd ud = map_err (\<lambda>_. ()) (quote_amount price quantity qd ud False)"
  by (simp add: scaled_quote_amount_eq quote_amount_eq)

end
